(* ===== verification/DQX_Prelude.thy ===== *)
theory DQX_Prelude
  imports Main "HOL-Library.AList"
begin

section \<open>Shared notions of the development\<close>

text \<open>
  What every component uses: results of fallible code as sums (\<open>Inl\<close> the raised error,
  \<open>Inr\<close> the returned value) with their sequencing, Python dictionaries as association
  lists in insertion order, the string methods of Python on lists of characters, and
  Python's date and time values. Strings are lists of \<^typ>\<open>char\<close>, read as code points
  below 256.
\<close>

named_theorems result_simps \<open>sequencing of fallible computations\<close>
named_theorems dict_simps \<open>ordered dictionaries\<close>
named_theorems text_simps \<open>string methods\<close>

subsection \<open>Fallible computations\<close>

definition sbind :: "'e + 'a \<Rightarrow> ('a \<Rightarrow> 'e + 'b) \<Rightarrow> 'e + 'b" where
  "sbind m f = (case m of Inl e \<Rightarrow> Inl e | Inr x \<Rightarrow> f x)"

lemma sbind_Inl [simp, result_simps]: "sbind (Inl e) f = Inl e"
  by (simp add: sbind_def)

lemma sbind_Inr [simp, result_simps]: "sbind (Inr x) f = f x"
  by (simp add: sbind_def)

lemma sbind_eq_Inr [result_simps]: "(sbind m f = Inr y) = (\<exists>x. m = Inr x \<and> f x = Inr y)"
  by (simp add: sbind_def split: sum.split)

lemma sbind_eq_Inl [result_simps]:
  "(sbind m f = Inl e) = (m = Inl e \<or> (\<exists>x. m = Inr x \<and> f x = Inl e))"
  by (simp add: sbind_def split: sum.split)

lemma sbind_assoc: "sbind (sbind m f) g = sbind m (\<lambda>x. sbind (f x) g)"
  by (simp add: sbind_def split: sum.split)

lemma sbind_cong [fundef_cong]:
  "m = m' \<Longrightarrow> (\<And>x. m' = Inr x \<Longrightarrow> f x = f' x) \<Longrightarrow> sbind m f = sbind m' f'"
  by (simp add: sbind_def split: sum.split)

definition smap_err :: "('e \<Rightarrow> 'f) \<Rightarrow> 'e + 'a \<Rightarrow> 'f + 'a" where
  "smap_err g m = (case m of Inl e \<Rightarrow> Inl (g e) | Inr x \<Rightarrow> Inr x)"

lemma smap_err_simps [simp, result_simps]:
  "smap_err g (Inl e) = Inl (g e)" "smap_err g (Inr x) = Inr x"
  by (simp_all add: smap_err_def)

text \<open>A loop that stops at the first raised error.\<close>

fun smapM :: "('a \<Rightarrow> 'e + 'b) \<Rightarrow> 'a list \<Rightarrow> 'e + 'b list" where
  "smapM f [] = Inr []"
| "smapM f (x # xs) = sbind (f x) (\<lambda>y. sbind (smapM f xs) (\<lambda>ys. Inr (y # ys)))"

lemma smapM_cong [fundef_cong]:
  "xs = ys \<Longrightarrow> (\<And>x. x \<in> set ys \<Longrightarrow> f x = g x) \<Longrightarrow> smapM f xs = smapM g ys"
  by (induction xs arbitrary: ys) (auto simp: sbind_def split: sum.split)

lemma smapM_Inr_iff: "(smapM f xs = Inr ys) = list_all2 (\<lambda>x y. f x = Inr y) xs ys"
  by (induction xs arbitrary: ys)
     (auto simp: result_simps list_all2_Cons1)

lemma smapM_total: "(\<And>x. x \<in> set xs \<Longrightarrow> f x = Inr (g x)) \<Longrightarrow> smapM f xs = Inr (map g xs)"
  by (induction xs) auto

lemma smapM_length: "smapM f xs = Inr ys \<Longrightarrow> length ys = length xs"
  by (simp add: smapM_Inr_iff list_all2_lengthD)

subsection \<open>Dictionaries in insertion order\<close>

type_synonym ('k, 'v) dict = "('k \<times> 'v) list"

abbreviation dict_get :: "('k, 'v) dict \<Rightarrow> 'k \<Rightarrow> 'v option" where
  "dict_get \<equiv> map_of"

abbreviation dict_set :: "('k, 'v) dict \<Rightarrow> 'k \<Rightarrow> 'v \<Rightarrow> ('k, 'v) dict" where
  "dict_set d k v \<equiv> AList.update k v d"

definition dict_pop :: "('k, 'v) dict \<Rightarrow> 'k \<Rightarrow> ('k, 'v) dict" where
  "dict_pop d k = filter (\<lambda>p. fst p \<noteq> k) d"

definition dict_has :: "('k, 'v) dict \<Rightarrow> 'k \<Rightarrow> bool" where
  "dict_has d k = (k \<in> set (map fst d))"

definition dict_get_or :: "('k, 'v) dict \<Rightarrow> 'k \<Rightarrow> 'v \<Rightarrow> 'v" where
  "dict_get_or d k v = (case dict_get d k of None \<Rightarrow> v | Some w \<Rightarrow> w)"

definition dict_ok :: "('k, 'v) dict \<Rightarrow> bool" where
  "dict_ok d = distinct (map fst d)"

lemma dict_get_set [simp, dict_simps]: "dict_get (dict_set d k v) = (dict_get d)(k \<mapsto> v)"
  by (simp add: update_conv')

lemma dict_get_pop [simp, dict_simps]: "dict_get (dict_pop d k) = (dict_get d)(k := None)"
  by (induction d) (auto simp: dict_pop_def fun_eq_iff)

lemma dict_has_get [dict_simps]: "dict_has d k = (dict_get d k \<noteq> None)"
  by (auto simp: dict_has_def map_of_eq_None_iff image_iff)

lemma dict_ok_set [intro]: "dict_ok d \<Longrightarrow> dict_ok (dict_set d k v)"
  by (simp add: dict_ok_def distinct_update)

lemma dict_ok_pop [intro]: "dict_ok d \<Longrightarrow> dict_ok (dict_pop d k)"
  by (induction d) (auto simp: dict_ok_def dict_pop_def)

lemma dict_keys_set: "set (map fst (dict_set d k v)) = insert k (set (map fst d))"
  by (induction d) auto

subsection \<open>String methods\<close>

definition py_isspace :: "char \<Rightarrow> bool" where
  "py_isspace c = (let n = of_char c :: nat in
     (9 \<le> n \<and> n \<le> 13) \<or> (28 \<le> n \<and> n \<le> 32) \<or> n = 133 \<or> n = 160)"

definition py_lstrip :: "string \<Rightarrow> string" where
  "py_lstrip s = dropWhile py_isspace s"

definition py_rstrip :: "string \<Rightarrow> string" where
  "py_rstrip s = rev (dropWhile py_isspace (rev s))"

definition py_strip :: "string \<Rightarrow> string" where
  "py_strip s = py_rstrip (py_lstrip s)"

definition py_lower_char :: "char \<Rightarrow> char" where
  "py_lower_char c = (let n = of_char c :: nat in
     if (65 \<le> n \<and> n \<le> 90) \<or> (192 \<le> n \<and> n \<le> 222 \<and> n \<noteq> 215) then char_of (n + 32) else c)"

definition py_lower :: "string \<Rightarrow> string" where
  "py_lower s = map py_lower_char s"

definition py_isdigit :: "char \<Rightarrow> bool" where
  "py_isdigit c = (let n = of_char c :: nat in 48 \<le> n \<and> n \<le> 57)"

definition digit_val :: "char \<Rightarrow> nat" where
  "digit_val c = of_char c - 48"

text \<open>\<open>s.split(sep)\<close> for a separator of one character.\<close>

fun py_split :: "char \<Rightarrow> string \<Rightarrow> string list" where
  "py_split sep [] = [[]]"
| "py_split sep (c # cs) =
     (if c = sep then [] # py_split sep cs
      else (case py_split sep cs of [] \<Rightarrow> [[c]] | p # ps \<Rightarrow> (c # p) # ps))"

text \<open>\<open>sep.join(parts)\<close>.\<close>

fun py_join :: "string \<Rightarrow> string list \<Rightarrow> string" where
  "py_join sep [] = []"
| "py_join sep [p] = p"
| "py_join sep (p # q # ps) = p @ sep @ py_join sep (q # ps)"

text \<open>\<open>s.replace(c, r)\<close> for a pattern of one character.\<close>

definition py_replace_char :: "char \<Rightarrow> string \<Rightarrow> string \<Rightarrow> string" where
  "py_replace_char c r s = concat (map (\<lambda>x. if x = c then r else [x]) s)"

fun py_startswith :: "string \<Rightarrow> string \<Rightarrow> bool" where
  "py_startswith s [] = True"
| "py_startswith [] (p # ps) = False"
| "py_startswith (c # cs) (p # ps) = (c = p \<and> py_startswith cs ps)"

definition py_endswith :: "string \<Rightarrow> string \<Rightarrow> bool" where
  "py_endswith s p = py_startswith (rev s) (rev p)"

lemma py_split_nonempty [simp]: "py_split sep s \<noteq> []"
  by (induction s) (auto split: list.split)

lemma py_join_split: "py_join [sep] (py_split sep s) = s"
proof (induction s)
  case Nil
  then show ?case by simp
next
  case (Cons c cs)
  obtain p ps where "py_split sep cs = p # ps"
    by (cases "py_split sep cs") auto
  with Cons show ?case by (cases ps) auto
qed

lemma py_split_no_sep: "p \<in> set (py_split sep s) \<Longrightarrow> sep \<notin> set p"
  by (induction s arbitrary: p) (auto split: list.splits if_splits)

lemma py_split_single: "sep \<notin> set s \<Longrightarrow> py_split sep s = [s]"
  by (induction s) auto

lemma py_split_append: "sep \<notin> set p \<Longrightarrow> py_split sep (p @ sep # s) = p # py_split sep s"
  by (induction p) auto

lemma py_split_join:
  "ps \<noteq> [] \<Longrightarrow> (\<And>p. p \<in> set ps \<Longrightarrow> sep \<notin> set p) \<Longrightarrow> py_split sep (py_join [sep] ps) = ps"
  by (induction ps rule: induct_list012) (auto simp: py_split_single py_split_append)

lemma py_startswith_iff: "py_startswith s p = (\<exists>t. s = p @ t)"
  by (induction s p rule: py_startswith.induct) auto

lemma py_endswith_iff: "py_endswith s p = (\<exists>t. s = t @ p)"
  unfolding py_endswith_def py_startswith_iff
  by (metis rev_append rev_rev_ident)

lemma py_replace_char_absent: "c \<notin> set s \<Longrightarrow> py_replace_char c r s = s"
  by (induction s) (auto simp: py_replace_char_def)

lemma py_replace_char_removes: "c \<notin> set r \<Longrightarrow> c \<notin> set (py_replace_char c r s)"
  by (induction s) (auto simp: py_replace_char_def)

subsection \<open>Date and time\<close>

text \<open>
  A \<open>datetime\<close> is its wall clock reading in microseconds since the epoch with, for an aware
  value, its offset from UTC in microseconds.
\<close>

record datetime =
  dt_wall :: int
  dt_offset :: "int option"

definition to_utc :: "datetime \<Rightarrow> datetime" where
  "to_utc v = (case dt_offset v of
     None \<Rightarrow> v\<lparr>dt_offset := Some 0\<rparr>
   | Some off \<Rightarrow> \<lparr>dt_wall = dt_wall v - off, dt_offset = Some 0\<rparr>)"

definition utc_instant :: "datetime \<Rightarrow> int" where
  "utc_instant v = dt_wall (to_utc v)"

lemma to_utc_idem [simp]: "to_utc (to_utc v) = to_utc v"
  by (cases v) (simp add: to_utc_def split: option.split)

lemma utc_instant_to_utc [simp]: "utc_instant (to_utc v) = utc_instant v"
  by (simp add: utc_instant_def)

lemma to_utc_offset [simp]: "dt_offset (to_utc v) = Some 0"
  by (simp add: to_utc_def split: option.split)

lemma to_utc_eq_iff: "(to_utc v = to_utc w) = (utc_instant v = utc_instant w)"
proof -
  have "dt_offset (to_utc v) = dt_offset (to_utc w)" by simp
  then show ?thesis by (auto simp: utc_instant_def)
qed

end
