(* ===== verification/Py_Float.thy ===== *)
theory Py_Float
  imports Complex_Main DQX_Prelude
begin

section \<open>Python's floating point numbers\<close>

text \<open>
  Python's \<open>float\<close> is IEEE 754 binary64. A finite value is kept as the rational number it
  denotes, and every operation computes exactly and then rounds to the nearest
  representable value, ties to even. The sign of zero is not kept: none of the
  operations modelled here can tell the two zeros apart. Division and remainder follow
  CPython's \<open>float_floor_div\<close> and \<open>float_rem\<close>; \<open>float(str)\<close> follows its grammar of
  literals, with single underscores between digits.
\<close>

subsection \<open>Rounding to binary64\<close>

datatype pyfloat = Fin rat | PInf | NInf | NaN

fun bit_len :: "nat \<Rightarrow> nat" where
  "bit_len n = (if n = 0 then 0 else Suc (bit_len (n div 2)))"

declare bit_len.simps [simp del]

definition pow2r :: "int \<Rightarrow> rat" where
  "pow2r e = (if 0 \<le> e then 2 ^ nat e else 1 / 2 ^ nat (- e))"

definition ilog2_rat :: "rat \<Rightarrow> int" where
  "ilog2_rat x = (let (p, q) = quotient_of x; k = int (bit_len (nat p)) - int (bit_len (nat q))
     in if pow2r k \<le> x then k else k - 1)"

definition round_half_even :: "rat \<Rightarrow> int" where
  "round_half_even x = (let f = \<lfloor>x\<rfloor>; d = x - of_int f in
     if d < 1 / 2 then f else if 1 / 2 < d then f + 1 else if even f then f else f + 1)"

definition round_pos :: "rat \<Rightarrow> rat" where
  "round_pos x = (let e = max (ilog2_rat x - 52) (- 1074)
     in of_int (round_half_even (x / pow2r e)) * pow2r e)"

definition round64 :: "rat \<Rightarrow> pyfloat" where
  "round64 x =
     (if x = 0 then Fin 0
      else let r = round_pos \<bar>x\<bar> in
        if 2 ^ 1024 \<le> r then (if 0 < x then PInf else NInf)
        else Fin (if 0 < x then r else - r))"

lemma bit_len_lower: "0 < n \<Longrightarrow> 2 ^ (bit_len n - 1) \<le> n"
proof (induction n rule: less_induct)
  case (less n)
  show ?case
  proof (cases "n div 2 = 0")
    case True
    with less.prems have "bit_len n = 1"
      by (subst bit_len.simps, subst bit_len.simps) simp
    with less.prems show ?thesis by simp
  next
    case False
    then have IH: "2 ^ (bit_len (n div 2) - 1) \<le> n div 2"
      using less.IH [of "n div 2"] less.prems by simp
    have pos: "0 < bit_len (n div 2)" using False by (subst bit_len.simps) simp
    have "bit_len n = Suc (bit_len (n div 2))"
      using less.prems by (subst bit_len.simps) simp
    then have "2 ^ (bit_len n - 1) = 2 * (2 ^ (bit_len (n div 2) - 1) :: nat)"
      using pos by (cases "bit_len (n div 2)") auto
    also have "\<dots> \<le> 2 * (n div 2)" using IH by simp
    also have "\<dots> \<le> n" by simp
    finally show ?thesis .
  qed
qed

lemma bit_len_upper: "n < 2 ^ bit_len n"
proof (induction n rule: less_induct)
  case (less n)
  show ?case
  proof (cases "n = 0")
    case True
    then show ?thesis by (simp add: bit_len.simps)
  next
    case False
    then have "n div 2 < 2 ^ bit_len (n div 2)" using less.IH by simp
    moreover have "bit_len n = Suc (bit_len (n div 2))"
      using False by (subst bit_len.simps) simp
    ultimately show ?thesis by simp
  qed
qed

lemma pow2r_pos [simp]: "0 < pow2r e"
  by (simp add: pow2r_def)

lemma pow2r_diff: "pow2r (int a - int b) = 2 ^ a / 2 ^ b"
proof (cases "b \<le> a")
  case True
  then obtain d where a: "a = b + d" using le_Suc_ex by blast
  then show ?thesis by (simp add: pow2r_def power_add)
next
  case False
  then obtain d where "b = a + d" "0 < d" using less_imp_add_positive by (metis not_le)
  then show ?thesis by (simp add: pow2r_def power_add)
qed

lemma pow2r_ilog2_le:
  assumes "0 < x"
  shows "pow2r (ilog2_rat x) \<le> x"
proof -
  obtain p q where pq: "quotient_of x = (p, q)" by fastforce
  have q: "0 < q" using pq by (simp add: quotient_of_denom_pos)
  have x: "x = of_int p / of_int q" using pq by (simp add: quotient_of_div)
  then have p: "0 < p" using assms q by (simp add: zero_less_divide_iff)
  define a where "a = bit_len (nat p)"
  define b where "b = bit_len (nat q)"
  have a0: "0 < a" using p by (simp add: a_def bit_len.simps)
  have "2 ^ (a - 1) \<le> nat p" using p bit_len_lower [of "nat p"] by (simp only: a_def)
  then have "int (2 ^ (a - 1)) \<le> p" using p by (simp add: le_nat_iff)
  then have lp: "(2::rat) ^ (a - 1) \<le> of_int p" using of_int_le_iff [where 'a = rat] by fastforce
  have "nat q < 2 ^ b" by (simp add: b_def bit_len_upper)
  then have "q < int (2 ^ b)" using q by (simp add: nat_less_iff)
  then have lq: "(of_int q :: rat) \<le> 2 ^ b" using of_int_le_iff [where 'a = rat] by fastforce
  have "int a - int b - 1 = int (a - 1) - int b" using a0 by simp
  then have "pow2r (int a - int b - 1) = 2 ^ (a - 1) / 2 ^ b" by (simp only: pow2r_diff)
  also have "\<dots> \<le> of_int p / of_int q"
    using lp lq q p by (intro frac_le) auto
  finally have "pow2r (int a - int b - 1) \<le> x" by (simp add: x)
  then show ?thesis
    by (simp add: ilog2_rat_def pq Let_def flip: a_def b_def)
qed

lemma round_half_even_of_int [simp]: "round_half_even (of_int n) = n"
  by (simp add: round_half_even_def)

text \<open>An integer of at most 53 bits is a float, so it is converted exactly.\<close>

lemma ilog2_rat_of_int_le:
  assumes "0 < n" and "n \<le> 2 ^ 53"
  shows "ilog2_rat (of_int n) \<le> 53"
proof (rule ccontr)
  assume "\<not> ?thesis"
  then have le: "54 \<le> ilog2_rat (of_int n)" by simp
  then have "nat 54 \<le> nat (ilog2_rat (of_int n))" by (rule nat_mono)
  then have "(2::rat) ^ nat 54 \<le> 2 ^ nat (ilog2_rat (of_int n))"
    by (intro power_increasing) auto
  also have "\<dots> \<le> of_int n"
    using pow2r_ilog2_le [of "of_int n"] assms(1) le by (simp add: pow2r_def)
  also have "\<dots> \<le> of_int (2 ^ 53)" using assms(2) by (simp only: of_int_le_iff)
  finally show False by simp
qed

lemma round_pos_exact:
  assumes "x = of_int m * pow2r (max (ilog2_rat x - 52) (- 1074))"
  shows "round_pos x = x"
proof -
  let ?e = "max (ilog2_rat x - 52) (- 1074)"
  have nz: "pow2r ?e \<noteq> 0" using pow2r_pos by (rule less_imp_neq [symmetric])
  then have d: "x / pow2r ?e = of_int m" using assms by (simp add: nonzero_divide_eq_eq)
  have "round_pos x = of_int (round_half_even (x / pow2r ?e)) * pow2r ?e"
    by (simp add: round_pos_def Let_def)
  also have "\<dots> = of_int m * pow2r ?e" by (simp only: d round_half_even_of_int)
  also have "\<dots> = x" using assms by simp
  finally show ?thesis .
qed

lemma round_pos_of_int:
  assumes "0 < n" and "n \<le> 2 ^ 53"
  shows "round_pos (of_int n) = of_int n"
proof -
  let ?k = "ilog2_rat (of_int n)"
  have k: "?k \<le> 53" by (rule ilog2_rat_of_int_le [OF assms])
  show ?thesis
  proof (cases "?k = 53")
    case True
    have "pow2r 53 \<le> (of_int n :: rat)" using pow2r_ilog2_le [of "of_int n"] assms(1) True by simp
    then have "(of_int (2 ^ 53) :: rat) \<le> of_int n" by (simp add: pow2r_def)
    then have "2 ^ 53 \<le> n" by (simp only: of_int_le_iff)
    with assms(2) have n: "n = 2 ^ 53" by simp
    have "(of_int n :: rat) = of_int (2 ^ 52) * pow2r (max (?k - 52) (- 1074))"
      unfolding True by (simp add: n pow2r_def)
    then show ?thesis by (rule round_pos_exact)
  next
    case False
    let ?e = "max (?k - 52) (- 1074)"
    have e: "?e \<le> 0" using k False by simp
    have "(of_int n :: rat) = of_int (n * 2 ^ nat (- ?e)) * pow2r ?e"
      using e by (cases "?e = 0") (simp_all add: pow2r_def)
    then show ?thesis by (rule round_pos_exact)
  qed
qed

lemma round64_of_int:
  assumes "\<bar>n\<bar> \<le> 2 ^ 53"
  shows "round64 (of_int n) = Fin (of_int n)"
proof (cases "n = 0")
  case True
  then show ?thesis by (simp add: round64_def)
next
  case False
  have r: "round_pos \<bar>of_int n\<bar> = of_int \<bar>n\<bar>"
    using round_pos_of_int [of "\<bar>n\<bar>"] assms False by simp
  have "(of_int \<bar>n\<bar> :: rat) \<le> of_int (2 ^ 53)" using assms by (simp only: of_int_le_iff)
  then have "(of_int \<bar>n\<bar> :: rat) < 2 ^ 1024"
    by (rule le_less_trans) simp
  with r False show ?thesis by (auto simp: round64_def Let_def)
qed

subsection \<open>Arithmetic\<close>

fun f_neg :: "pyfloat \<Rightarrow> pyfloat" where
  "f_neg (Fin x) = Fin (- x)"
| "f_neg PInf = NInf"
| "f_neg NInf = PInf"
| "f_neg NaN = NaN"

fun f_add :: "pyfloat \<Rightarrow> pyfloat \<Rightarrow> pyfloat" where
  "f_add (Fin x) (Fin y) = round64 (x + y)"
| "f_add NaN _ = NaN"
| "f_add _ NaN = NaN"
| "f_add PInf NInf = NaN"
| "f_add NInf PInf = NaN"
| "f_add PInf _ = PInf"
| "f_add NInf _ = NInf"
| "f_add _ b = b"

definition f_sub :: "pyfloat \<Rightarrow> pyfloat \<Rightarrow> pyfloat" where
  "f_sub a b = f_add a (f_neg b)"

fun f_sign :: "pyfloat \<Rightarrow> int" where
  "f_sign (Fin x) = (if x < 0 then - 1 else if x = 0 then 0 else 1)"
| "f_sign PInf = 1"
| "f_sign NInf = - 1"
| "f_sign NaN = 0"

definition f_inf :: "int \<Rightarrow> pyfloat" where
  "f_inf s = (if 0 < s then PInf else if s < 0 then NInf else NaN)"

fun f_mul :: "pyfloat \<Rightarrow> pyfloat \<Rightarrow> pyfloat" where
  "f_mul (Fin x) (Fin y) = round64 (x * y)"
| "f_mul NaN _ = NaN"
| "f_mul _ NaN = NaN"
| "f_mul a b = f_inf (f_sign a * f_sign b)"

definition f_is_zero :: "pyfloat \<Rightarrow> bool" where
  "f_is_zero a = (a = Fin 0)"

text \<open>The quotient for a divisor that is not zero (a zero divisor raises).\<close>

fun f_div :: "pyfloat \<Rightarrow> pyfloat \<Rightarrow> pyfloat" where
  "f_div (Fin x) (Fin y) = round64 (x / y)"
| "f_div NaN _ = NaN"
| "f_div _ NaN = NaN"
| "f_div (Fin x) _ = Fin 0"
| "f_div a (Fin y) = f_inf (f_sign a * (if y < 0 then - 1 else 1))"
| "f_div _ _ = NaN"

definition trunc_rat :: "rat \<Rightarrow> int" where
  "trunc_rat x = (if 0 \<le> x then \<lfloor>x\<rfloor> else \<lceil>x\<rceil>)"

fun f_fmod :: "pyfloat \<Rightarrow> pyfloat \<Rightarrow> pyfloat" where
  "f_fmod (Fin x) (Fin y) = (if y = 0 then NaN else Fin (x - y * of_int (trunc_rat (x / y))))"
| "f_fmod (Fin x) PInf = Fin x"
| "f_fmod (Fin x) NInf = Fin x"
| "f_fmod _ _ = NaN"

fun f_less :: "pyfloat \<Rightarrow> pyfloat \<Rightarrow> bool" where
  "f_less (Fin x) (Fin y) = (x < y)"
| "f_less NaN _ = False"
| "f_less _ NaN = False"
| "f_less NInf b = (b \<noteq> NInf)"
| "f_less a PInf = (a \<noteq> PInf)"
| "f_less _ _ = False"

fun f_eq :: "pyfloat \<Rightarrow> pyfloat \<Rightarrow> bool" where
  "f_eq NaN _ = False"
| "f_eq a b = (a = b)"

definition f_le :: "pyfloat \<Rightarrow> pyfloat \<Rightarrow> bool" where
  "f_le a b = (f_less a b \<or> f_eq a b)"

lemma f_less_irrefl: "\<not> f_less a a"
  by (cases a) auto

lemma f_less_trans: "f_less a b \<Longrightarrow> f_less b c \<Longrightarrow> f_less a c"
  by (cases a; cases b; cases c) auto

lemma f_trichotomy: "a \<noteq> NaN \<Longrightarrow> b \<noteq> NaN \<Longrightarrow> f_less a b \<or> f_eq a b \<or> f_less b a"
  by (cases a; cases b) auto

fun f_floor :: "pyfloat \<Rightarrow> pyfloat" where
  "f_floor (Fin x) = Fin (of_int \<lfloor>x\<rfloor>)"
| "f_floor a = a"

definition f_mod :: "pyfloat \<Rightarrow> pyfloat \<Rightarrow> pyfloat" where
  "f_mod v w = (let m = f_fmod v w in
     if f_is_zero m then Fin 0
     else if f_less w (Fin 0) \<noteq> f_less m (Fin 0) then f_add m w else m)"

definition f_floordiv :: "pyfloat \<Rightarrow> pyfloat \<Rightarrow> pyfloat" where
  "f_floordiv v w =
     (let m = f_fmod v w; d = f_div (f_sub v m) w;
          d = (if \<not> f_is_zero m \<and> f_less w (Fin 0) \<noteq> f_less m (Fin 0) then f_sub d (Fin 1) else d)
      in if f_is_zero d then Fin 0
         else let fl = f_floor d in if f_less (Fin (1 / 2)) (f_sub d fl) then f_add fl (Fin 1) else fl)"

subsection \<open>\<open>float(str)\<close>\<close>

text \<open>\<open>digit (["_"] digit)*\<close>: the digits read and what is left.\<close>

fun scan_digits_tail :: "string \<Rightarrow> nat list \<times> string" where
  "scan_digits_tail [] = ([], [])"
| "scan_digits_tail [c] = (if py_isdigit c then ([digit_val c], []) else ([], [c]))"
| "scan_digits_tail (c # d # cs) =
     (if py_isdigit c then (let (ds, r) = scan_digits_tail (d # cs) in (digit_val c # ds, r))
      else if c = CHR ''_'' \<and> py_isdigit d then
        (let (ds, r) = scan_digits_tail cs in (digit_val d # ds, r))
      else ([], c # d # cs))"

definition scan_digits :: "string \<Rightarrow> nat list \<times> string" where
  "scan_digits s = (case s of [] \<Rightarrow> ([], [])
     | c # cs \<Rightarrow> if py_isdigit c then scan_digits_tail s else ([], s))"

definition nat_of_digits :: "nat list \<Rightarrow> nat" where
  "nat_of_digits ds = foldl (\<lambda>n d. 10 * n + d) 0 ds"

definition scan_sign :: "string \<Rightarrow> bool \<times> string" where
  "scan_sign s = (case s of [] \<Rightarrow> (False, [])
     | c # cs \<Rightarrow> if c = CHR ''-'' then (True, cs) else if c = CHR ''+'' then (False, cs)
                 else (False, s))"

text \<open>The exponent part; \<open>None\<close> when the text left over is not one.\<close>

definition scan_exponent :: "string \<Rightarrow> int option" where
  "scan_exponent s = (case s of [] \<Rightarrow> Some 0
     | c # cs \<Rightarrow>
        if c = CHR ''e'' \<or> c = CHR ''E'' then
          (let (neg, r) = scan_sign cs; (ds, rest) = scan_digits r in
           if ds = [] \<or> rest \<noteq> [] then None
           else Some (if neg then - int (nat_of_digits ds) else int (nat_of_digits ds)))
        else None)"

definition pow10r :: "int \<Rightarrow> rat" where
  "pow10r e = (if 0 \<le> e then 10 ^ nat e else 1 / 10 ^ nat (- e))"

definition parse_unsigned :: "string \<Rightarrow> rat option" where
  "parse_unsigned s =
     (let (ip, r) = scan_digits s;
          (fp, r) = (case r of [] \<Rightarrow> ([], []) | c # cs \<Rightarrow>
                       if c = CHR ''.'' then scan_digits cs else ([], r))
      in if ip = [] \<and> fp = [] then None
         else map_option (\<lambda>e. of_nat (nat_of_digits (ip @ fp)) * pow10r (e - int (length fp)))
                (scan_exponent r))"

text \<open>\<open>None\<close> is the \<open>ValueError\<close> of \<open>float(s)\<close>.\<close>

definition py_float_of_string :: "string \<Rightarrow> pyfloat option" where
  "py_float_of_string s =
     (let (neg, u) = scan_sign (py_strip s); l = py_lower u in
      if l = ''nan'' then Some NaN
      else if l = ''inf'' \<or> l = ''infinity'' then Some (if neg then NInf else PInf)
      else map_option (\<lambda>x. round64 (if neg then - x else x)) (parse_unsigned u))"

text \<open>A plain decimal numeral is read as its value.\<close>

lemma scan_digits_tail_digits:
  "list_all py_isdigit s \<Longrightarrow> scan_digits_tail s = (map digit_val s, [])"
  by (induction s rule: scan_digits_tail.induct) auto

lemma parse_unsigned_digits:
  "s \<noteq> [] \<Longrightarrow> list_all py_isdigit s
    \<Longrightarrow> parse_unsigned s = Some (of_nat (nat_of_digits (map digit_val s)))"
  by (cases s)
     (simp_all add: parse_unsigned_def scan_digits_def scan_digits_tail_digits scan_exponent_def
        pow10r_def)

lemma py_isdigit_props:
  assumes "py_isdigit c"
  shows "\<not> py_isspace c" "c \<noteq> CHR ''-''" "c \<noteq> CHR ''+''" "py_lower_char c = c"
    "c \<noteq> CHR ''n''" "c \<noteq> CHR ''i''"
  using assms by (auto simp: py_isdigit_def py_isspace_def py_lower_char_def Let_def)

lemma digits_strip:
  assumes "list_all py_isdigit s"
  shows "py_strip s = s"
proof -
  have ns: "\<forall>c \<in> set s. \<not> py_isspace c"
    using assms py_isdigit_props(1) by (auto simp: list_all_iff)
  then have "dropWhile py_isspace s = s" by (cases s) auto
  moreover have "dropWhile py_isspace (rev s) = rev s" using ns by (cases "rev s") auto
  ultimately show ?thesis by (simp add: py_strip_def py_lstrip_def py_rstrip_def)
qed

lemma py_float_of_digits:
  assumes "s \<noteq> []" and "list_all py_isdigit s" and "nat_of_digits (map digit_val s) \<le> 2 ^ 53"
  shows "py_float_of_string s = Some (Fin (of_nat (nat_of_digits (map digit_val s))))"
proof -
  obtain c cs where s: "s = c # cs" using assms(1) by (cases s) auto
  have c: "py_isdigit c" using assms(2) s by simp
  have sg: "scan_sign (py_strip s) = (False, s)"
    using py_isdigit_props [OF c] by (simp add: digits_strip [OF assms(2)] scan_sign_def) (simp add: s)
  have hd: "py_lower s = c # map py_lower_char cs"
    using py_isdigit_props(4) [OF c] by (simp add: s py_lower_def)
  have "round64 (of_int (int (nat_of_digits (map digit_val s))))
      = Fin (of_int (int (nat_of_digits (map digit_val s))))"
    using assms(3) by (intro round64_of_int) simp
  then show ?thesis
    using py_isdigit_props [OF c] hd parse_unsigned_digits [OF assms(1,2)]
    by (simp add: py_float_of_string_def sg)
qed

end
