(* ===== verification/Py_Value.thy ===== *)
theory Py_Value
  imports Py_Float
begin

section \<open>Python values and the operators on them\<close>

text \<open>
  The built-in values a metric or a literal can have, with Python's operators on them:
  unbounded integers, binary64 floats, booleans (which are integers), strings and \<open>None\<close>.
  Any other object (a \<open>Decimal\<close>, a \<open>complex\<close>, a list) is \<open>VForeign\<close>; its operators belong
  to its class and are fields of \<open>py_runtime\<close>, as are two routines of the C library
  below the language: the floating point power, and the formatting done by \<open>str % x\<close>.
\<close>

subsection \<open>Values, exceptions, the runtime\<close>

datatype pyval = VNone | VBool bool | VInt int | VFloat pyfloat | VStr string | VForeign nat

datatype pyerr = TypeError | ValueError | ZeroDivisionError | OverflowError | OtherError string

datatype unop = Op_not | Op_neg | Op_pos
datatype binop = Op_add | Op_sub | Op_mul | Op_truediv | Op_floordiv | Op_mod | Op_pow
datatype cmpfn = Op_lt | Op_le | Op_gt | Op_ge | Op_eq | Op_ne

record py_runtime =
  rt_pow :: "pyfloat \<Rightarrow> pyfloat \<Rightarrow> pyerr + pyval"
  rt_format :: "string \<Rightarrow> pyval \<Rightarrow> pyerr + string"
  rt_unop :: "unop \<Rightarrow> nat \<Rightarrow> pyerr + pyval"
  rt_binop :: "binop \<Rightarrow> pyval \<Rightarrow> pyval \<Rightarrow> pyerr + pyval"
  rt_cmp :: "cmpfn \<Rightarrow> pyval \<Rightarrow> pyval \<Rightarrow> pyerr + bool"
  rt_truth :: "nat \<Rightarrow> pyerr + bool"
  rt_float :: "nat \<Rightarrow> pyerr + pyfloat"

fun is_foreign :: "pyval \<Rightarrow> bool" where
  "is_foreign (VForeign _) = True"
| "is_foreign _ = False"

subsection \<open>Numbers\<close>

datatype pynum = NI int | NF pyfloat

fun as_num :: "pyval \<Rightarrow> pynum option" where
  "as_num (VBool b) = Some (NI (if b then 1 else 0))"
| "as_num (VInt n) = Some (NI n)"
| "as_num (VFloat x) = Some (NF x)"
| "as_num _ = None"

text \<open>The exact value, for comparisons, which Python does without rounding the integer.\<close>

fun num_exact :: "pynum \<Rightarrow> pyfloat" where
  "num_exact (NI n) = Fin (of_int n)"
| "num_exact (NF x) = x"

text \<open>The conversion done by mixed arithmetic: too large an integer raises.\<close>

fun num_float :: "pynum \<Rightarrow> pyerr + pyfloat" where
  "num_float (NI n) = (case round64 (of_int n) of Fin x \<Rightarrow> Inr (Fin x) | _ \<Rightarrow> Inl OverflowError)"
| "num_float (NF x) = Inr x"

definition float_op ::
    "(pyfloat \<Rightarrow> pyfloat \<Rightarrow> pyerr + pyfloat) \<Rightarrow> pynum \<Rightarrow> pynum \<Rightarrow> pyerr + pyval" where
  "float_op f a b = sbind (num_float a) (\<lambda>x. sbind (num_float b) (\<lambda>y.
     sbind (f x y) (\<lambda>z. Inr (VFloat z))))"

definition float_ok :: "(pyfloat \<Rightarrow> pyfloat \<Rightarrow> pyfloat) \<Rightarrow> pyfloat \<Rightarrow> pyfloat \<Rightarrow> pyerr + pyfloat" where
  "float_ok f x y = Inr (f x y)"

definition float_nz :: "(pyfloat \<Rightarrow> pyfloat \<Rightarrow> pyfloat) \<Rightarrow> pyfloat \<Rightarrow> pyfloat \<Rightarrow> pyerr + pyfloat" where
  "float_nz f x y = (if f_is_zero y then Inl ZeroDivisionError else Inr (f x y))"

fun num_add :: "pynum \<Rightarrow> pynum \<Rightarrow> pyerr + pyval" where
  "num_add (NI m) (NI n) = Inr (VInt (m + n))"
| "num_add a b = float_op (float_ok f_add) a b"

fun num_sub :: "pynum \<Rightarrow> pynum \<Rightarrow> pyerr + pyval" where
  "num_sub (NI m) (NI n) = Inr (VInt (m - n))"
| "num_sub a b = float_op (float_ok f_sub) a b"

fun num_mul :: "pynum \<Rightarrow> pynum \<Rightarrow> pyerr + pyval" where
  "num_mul (NI m) (NI n) = Inr (VInt (m * n))"
| "num_mul a b = float_op (float_ok f_mul) a b"

text \<open>Integer true division rounds the exact quotient once.\<close>

fun num_truediv :: "pynum \<Rightarrow> pynum \<Rightarrow> pyerr + pyval" where
  "num_truediv (NI m) (NI n) =
     (if n = 0 then Inl ZeroDivisionError
      else case round64 (of_int m / of_int n) of Fin x \<Rightarrow> Inr (VFloat (Fin x)) | _ \<Rightarrow> Inl OverflowError)"
| "num_truediv a b = float_op (float_nz f_div) a b"

fun num_floordiv :: "pynum \<Rightarrow> pynum \<Rightarrow> pyerr + pyval" where
  "num_floordiv (NI m) (NI n) = (if n = 0 then Inl ZeroDivisionError else Inr (VInt (m div n)))"
| "num_floordiv a b = float_op (float_nz f_floordiv) a b"

fun num_mod :: "pynum \<Rightarrow> pynum \<Rightarrow> pyerr + pyval" where
  "num_mod (NI m) (NI n) = (if n = 0 then Inl ZeroDivisionError else Inr (VInt (m mod n)))"
| "num_mod a b = float_op (float_nz f_mod) a b"

subsection \<open>The operators on values\<close>

definition num2 :: "(pynum \<Rightarrow> pynum \<Rightarrow> pyerr + pyval) \<Rightarrow> pyval \<Rightarrow> pyval \<Rightarrow> pyerr + pyval" where
  "num2 f a b = (case (as_num a, as_num b) of (Some x, Some y) \<Rightarrow> f x y | _ \<Rightarrow> Inl TypeError)"

definition str_repeat :: "string \<Rightarrow> int \<Rightarrow> string" where
  "str_repeat s n = concat (replicate (nat n) s)"

text \<open>\<open>float(x)\<close>.\<close>

fun py_float :: "py_runtime \<Rightarrow> pyval \<Rightarrow> pyerr + pyfloat" where
  "py_float rt (VStr s) =
     (case py_float_of_string s of None \<Rightarrow> Inl ValueError | Some x \<Rightarrow> Inr x)"
| "py_float rt (VForeign i) = rt_float rt i"
| "py_float rt v = (case as_num v of None \<Rightarrow> Inl TypeError | Some n \<Rightarrow> num_float n)"

definition native_add :: "pyval \<Rightarrow> pyval \<Rightarrow> pyerr + pyval" where
  "native_add a b =
     (case (a, b) of (VStr s, VStr t) \<Rightarrow> Inr (VStr (s @ t)) | _ \<Rightarrow> num2 num_add a b)"

definition native_mul :: "pyval \<Rightarrow> pyval \<Rightarrow> pyerr + pyval" where
  "native_mul a b =
     (case (a, as_num b) of (VStr s, Some (NI n)) \<Rightarrow> Inr (VStr (str_repeat s n))
      | _ \<Rightarrow> (case (as_num a, b) of (Some (NI n), VStr s) \<Rightarrow> Inr (VStr (str_repeat s n))
             | _ \<Rightarrow> num2 num_mul a b))"

definition native_mod :: "py_runtime \<Rightarrow> pyval \<Rightarrow> pyval \<Rightarrow> pyerr + pyval" where
  "native_mod rt a b =
     (case a of VStr s \<Rightarrow> sbind (rt_format rt s b) (\<lambda>t. Inr (VStr t)) | _ \<Rightarrow> num2 num_mod a b)"

fun py_truth :: "py_runtime \<Rightarrow> pyval \<Rightarrow> pyerr + bool" where
  "py_truth rt VNone = Inr False"
| "py_truth rt (VBool b) = Inr b"
| "py_truth rt (VInt n) = Inr (n \<noteq> 0)"
| "py_truth rt (VFloat x) = Inr (\<not> f_is_zero x)"
| "py_truth rt (VStr s) = Inr (s \<noteq> [])"
| "py_truth rt (VForeign i) = rt_truth rt i"

fun str_less :: "string \<Rightarrow> string \<Rightarrow> bool" where
  "str_less _ [] = False"
| "str_less [] (_ # _) = True"
| "str_less (c # cs) (d # ds) =
     ((of_char c :: nat) < of_char d \<or> (c = d \<and> str_less cs ds))"

definition native_eq :: "pyval \<Rightarrow> pyval \<Rightarrow> bool" where
  "native_eq a b =
     (case (as_num a, as_num b) of (Some x, Some y) \<Rightarrow> f_eq (num_exact x) (num_exact y)
      | _ \<Rightarrow> (case (a, b) of (VStr s, VStr t) \<Rightarrow> s = t | (VNone, VNone) \<Rightarrow> True | _ \<Rightarrow> False))"

definition native_order ::
    "(pyfloat \<Rightarrow> pyfloat \<Rightarrow> bool) \<Rightarrow> (string \<Rightarrow> string \<Rightarrow> bool) \<Rightarrow> pyval \<Rightarrow> pyval \<Rightarrow> pyerr + bool" where
  "native_order f g a b =
     (case (as_num a, as_num b) of (Some x, Some y) \<Rightarrow> Inr (f (num_exact x) (num_exact y))
      | _ \<Rightarrow> (case (a, b) of (VStr s, VStr t) \<Rightarrow> Inr (g s t) | _ \<Rightarrow> Inl TypeError))"

fun native_cmp :: "cmpfn \<Rightarrow> pyval \<Rightarrow> pyval \<Rightarrow> pyerr + bool" where
  "native_cmp Op_lt a b = native_order f_less str_less a b"
| "native_cmp Op_le a b = native_order f_le (\<lambda>s t. \<not> str_less t s) a b"
| "native_cmp Op_gt a b = native_order (\<lambda>x y. f_less y x) (\<lambda>s t. str_less t s) a b"
| "native_cmp Op_ge a b = native_order (\<lambda>x y. f_le y x) (\<lambda>s t. \<not> str_less s t) a b"
| "native_cmp Op_eq a b = Inr (native_eq a b)"
| "native_cmp Op_ne a b = Inr (\<not> native_eq a b)"

end
