(* ===== verification/Action_Base.thy ===== *)
theory Action_Base
  imports Py_Value
begin

section \<open>Action contexts, results and alert messages (\<open>actions/base.py\<close>, \<open>message.py\<close>)\<close>

text \<open>
  The run-time snapshot every action receives, the record of its outcome, and the message
  an alert sends. The text of floats, foreign objects and date-times is the parameter
  \<open>str_of\<close>, resp. \<open>time_str\<close>; the text of every other value is written out.
\<close>

subsection \<open>Data\<close>

datatype action_status = HEALTHY | UNHEALTHY | CONFIG_ERROR

fun status_value :: "action_status \<Rightarrow> string" where
  "status_value HEALTHY = ''healthy''"
| "status_value UNHEALTHY = ''unhealthy''"
| "status_value CONFIG_ERROR = ''config_error''"

type_synonym text_dict = "(string, string) dict"

record action_context =
  ctx_metrics :: "(string, pyval) dict"
  ctx_run_id :: string
  ctx_run_time :: datetime
  ctx_run_name :: string
  ctx_input_location :: "string option"
  ctx_output_location :: "string option"
  ctx_quarantine_location :: "string option"
  ctx_checks_location :: "string option"
  ctx_rule_set_fingerprint :: "string option"
  ctx_user_metadata :: "text_dict option"
  ctx_condition :: "string option"
  ctx_extras :: "(string, text_dict) dict option"

definition get_extras :: "action_context \<Rightarrow> string \<Rightarrow> text_dict" where
  "get_extras ctx action_name = (case ctx_extras ctx of
     None \<Rightarrow> []
   | Some ex \<Rightarrow> (case dict_get ex action_name of None \<Rightarrow> [] | Some d \<Rightarrow> d))"

record action_result =
  res_action_name :: string
  res_fired :: bool
  res_status :: action_status
  res_destination_errors :: text_dict
  res_extras :: "text_dict option"

subsection \<open>Text\<close>

definition sanitize_for_log :: "string \<Rightarrow> string" where
  "sanitize_for_log text =
     map (\<lambda>c. if (of_char c :: nat) < 32 \<or> (of_char c :: nat) = 127 then CHR '' '' else c) text"

fun nat_str :: "nat \<Rightarrow> string" where
  "nat_str n = (if n < 10 then [char_of (48 + n)] else nat_str (n div 10) @ [char_of (48 + n mod 10)])"

declare nat_str.simps [simp del]

definition int_str :: "int \<Rightarrow> string" where
  "int_str n = (if n < 0 then CHR ''-'' # nat_str (nat (- n)) else nat_str (nat n))"

fun py_str :: "(pyval \<Rightarrow> string) \<Rightarrow> pyval \<Rightarrow> string" where
  "py_str str_of VNone = ''None''"
| "py_str str_of (VBool b) = (if b then ''True'' else ''False'')"
| "py_str str_of (VInt n) = int_str n"
| "py_str str_of (VStr s) = s"
| "py_str str_of v = str_of v"

subsection \<open>Dictionaries built by comprehensions and loops\<close>

definition dict_update :: "('k, 'v) dict \<Rightarrow> ('k, 'v) dict \<Rightarrow> ('k, 'v) dict" where
  "dict_update d ps = fold (\<lambda>(k, v) d. dict_set d k v) ps d"

lemma dict_update_Nil [simp]: "dict_update d [] = d"
  by (simp add: dict_update_def)

lemma dict_update_Cons [simp]: "dict_update d ((k, v) # ps) = dict_update (dict_set d k v) ps"
  by (simp add: dict_update_def)

lemma dict_get_update: "dict_get (dict_update d ps) = dict_get d ++ map_of (rev ps)"
proof (induction ps arbitrary: d)
  case (Cons p ps)
  then show ?case by (cases p) (auto simp: fun_eq_iff map_add_def split: option.split)
qed simp

lemma map_of_rev: "dict_ok d \<Longrightarrow> map_of (rev d) = map_of d"
proof (induction d)
  case (Cons p d)
  then have "fst p \<notin> dom (map_of d)" and "map_of (rev d) = map_of d"
    by (simp_all add: dict_ok_def dom_map_of_conv_image_fst)
  then show ?case by (cases p) (auto simp: fun_eq_iff map_add_def domIff split: option.split)
qed simp

lemma dict_get_update_ok: "dict_ok ps \<Longrightarrow> dict_get (dict_update d ps) = dict_get d ++ dict_get ps"
proof -
  assume "dict_ok ps"
  then have "map_of (rev ps) = map_of ps" by (rule map_of_rev)
  then show ?thesis by (simp add: dict_get_update)
qed

lemma dict_ok_update: "dict_ok d \<Longrightarrow> dict_ok (dict_update d ps)"
proof (induction ps arbitrary: d)
  case (Cons p ps)
  then show ?case by (cases p) (auto intro: Cons.IH)
qed simp

definition prefix_keys :: "string \<Rightarrow> (string, 'v) dict \<Rightarrow> (string, 'v) dict" where
  "prefix_keys pre d = map (\<lambda>(k, v). (pre @ k, v)) d"

lemma map_of_prefix_keys: "map_of (rev (prefix_keys pre d)) (pre @ k) = map_of (rev d) k"
proof -
  have "map_of (map (\<lambda>(k, v). (pre @ k, v)) xs) (pre @ k) = map_of xs k" for xs :: "(string \<times> 'a) list"
    by (induction xs) auto
  then show ?thesis by (simp add: prefix_keys_def rev_map)
qed

lemma map_of_prefix_keys_other:
  "\<not> py_startswith k pre \<Longrightarrow> map_of (rev (prefix_keys pre d)) k = None"
  by (auto simp: prefix_keys_def map_of_eq_None_iff py_startswith_iff)

subsection \<open>\<open>StandardMessageBuilder.build\<close>\<close>

record alert_message =
  msg_title :: string
  msg_summary :: string
  msg_condition :: "string option"
  msg_table :: "string option"
  msg_observed_metrics :: "(string, pyval) dict"
  msg_run_id :: string
  msg_run_time :: datetime
  msg_severity :: string
  msg_fields :: text_dict
  msg_user_metadata :: text_dict
  msg_extras :: "(string, text_dict) dict"

definition extras_fields :: "(string, text_dict) dict \<Rightarrow> text_dict" where
  "extras_fields extras =
     concat (map (\<lambda>(producer, payload). prefix_keys (''extras.'' @ producer @ ''.'') payload) extras)"

definition build_message ::
    "(pyval \<Rightarrow> string) \<Rightarrow> (datetime \<Rightarrow> string) \<Rightarrow> string \<Rightarrow> string option \<Rightarrow> (string, pyval) dict
     \<Rightarrow> string \<Rightarrow> datetime \<Rightarrow> string option \<Rightarrow> string \<Rightarrow> text_dict option
     \<Rightarrow> (string, text_dict) dict option \<Rightarrow> alert_message" where
  "build_message str_of time_str action_name condition metrics run_id run_time table severity
      user_metadata extras =
     (let condition_text = (case condition of Some c \<Rightarrow> c | None \<Rightarrow> ''fired unconditionally'');
          table_text = (case table of Some t \<Rightarrow> t | None \<Rightarrow> ''unspecified'');
          title = ''DQX alert: '' @ action_name;
          summary = ''Action '' @ [CHR 39] @ action_name @ [CHR 39] @ '' triggered on table '' @ [CHR 39]
            @ table_text @ [CHR 39] @ ''. Condition: '' @ condition_text @ ''.'';
          fields = dict_update []
            (prefix_keys ''metric.'' (map (\<lambda>(n, v). (n, py_str str_of v)) metrics));
          fields = dict_set fields ''condition'' condition_text;
          fields = dict_set fields ''run_id'' run_id;
          fields = dict_set fields ''run_time'' (time_str run_time);
          fields = dict_set fields ''table'' table_text;
          metadata = (case user_metadata of None \<Rightarrow> [] | Some d \<Rightarrow> d);
          fields = dict_update fields (prefix_keys ''user_metadata.'' metadata);
          normalized = filter (\<lambda>p. snd p \<noteq> []) (case extras of None \<Rightarrow> [] | Some d \<Rightarrow> d);
          fields = dict_update fields (extras_fields normalized)
      in \<lparr>msg_title = title, msg_summary = summary, msg_condition = condition, msg_table = table,
          msg_observed_metrics = metrics, msg_run_id = run_id, msg_run_time = run_time,
          msg_severity = severity, msg_fields = fields, msg_user_metadata = metadata,
          msg_extras = normalized\<rparr>)"

lemma map_of_extras_fields_other:
  assumes "\<not> py_startswith k ''extras.''"
  shows "map_of (rev (extras_fields ex)) k = None"
proof -
  have "\<forall>p \<in> set (extras_fields ex). py_startswith (fst p) ''extras.''"
    by (auto simp: extras_fields_def prefix_keys_def py_startswith_iff)
  with assms show ?thesis by (auto simp: map_of_eq_None_iff)
qed

lemma message_fields_simps:
  fixes str_of time_str a c metrics rid rt tbl sev um ex
  defines "f \<equiv> msg_fields (build_message str_of time_str a c metrics rid rt tbl sev um ex)"
  shows "dict_get f ''condition'' = Some (case c of Some t \<Rightarrow> t | None \<Rightarrow> ''fired unconditionally'')"
    and "dict_get f ''run_id'' = Some rid"
    and "dict_get f ''run_time'' = Some (time_str rt)"
    and "dict_get f ''table'' = Some (case tbl of Some t \<Rightarrow> t | None \<Rightarrow> ''unspecified'')"
    and "dict_ok metrics \<Longrightarrow>
      dict_get f (''metric.'' @ n) = map_option (py_str str_of) (dict_get metrics n)"
proof -
  assume "dict_ok metrics"
  then have "map_of (rev metrics) = map_of metrics" by (rule map_of_rev)
  moreover have "map_of (rev (map (\<lambda>(n, v). (n, py_str str_of v)) metrics)) n
      = map_option (py_str str_of) (map_of (rev metrics) n)"
    by (simp add: rev_map map_of_map)
  ultimately show "dict_get f (''metric.'' @ n) = map_option (py_str str_of) (dict_get metrics n)"
    using map_of_prefix_keys [of "''metric.''" "map (\<lambda>(n, v). (n, py_str str_of v)) metrics" n]
    by (simp add: f_def build_message_def Let_def dict_get_update map_add_def
        map_of_prefix_keys_other map_of_extras_fields_other)
qed (simp_all add: f_def build_message_def Let_def dict_get_update map_add_def
      map_of_prefix_keys_other map_of_extras_fields_other)

text \<open>The reserved entries of an alert's fields always carry the run's own values, and every
  observed metric is found under its prefixed name: no metric, user metadata or upstream payload,
  however named, can overwrite them.\<close>

theorem message_fields_reserved:
  assumes "f = msg_fields (build_message str_of time_str a c metrics rid rt tbl sev um ex)"
    and "dict_ok metrics"
  shows "dict_get f ''condition'' = Some (case c of Some t \<Rightarrow> t | None \<Rightarrow> ''fired unconditionally'')
    \<and> dict_get f ''run_id'' = Some rid
    \<and> dict_get f ''run_time'' = Some (time_str rt)
    \<and> dict_get f ''table'' = Some (case tbl of Some t \<Rightarrow> t | None \<Rightarrow> ''unspecified'')
    \<and> (\<forall>n. dict_get f (''metric.'' @ n) = map_option (py_str str_of) (dict_get metrics n))"
  unfolding assms(1) using assms(2) by (intro conjI allI message_fields_simps)

theorem message_fields_reserved_witness:
  "dict_get (msg_fields (build_message (\<lambda>_. []) (\<lambda>_. ''t'') ''a'' None
      [(''condition'', VInt 5)] ''r1'' \<lparr>dt_wall = 0, dt_offset = None\<rparr> None ''error''
      (Some [(''run_id'', ''x'')]) None)) ''run_id'' = Some ''r1''"
  using message_fields_reserved [OF refl, of "[(''condition'', VInt 5)]"]
  by (simp add: dict_ok_def)

end
