(* ===== verification/Action_Conditions.thy ===== *)
theory Action_Conditions
  imports Py_Value
begin

section \<open>The condition evaluator (\<open>actions/conditions.py\<close>)\<close>

text \<open>
  The gating condition of an action is parsed by Python's own parser (\<open>ast.parse\<close>, the
  parameter \<open>parse\<close>), checked node by node against an allowlist in the order of
  \<open>ast.walk\<close>, and evaluated over the metrics of the run. Every \<open>InvalidConditionError\<close> is
  a constructor of \<open>cond_error\<close>; \<open>Uncaught\<close> is an exception the module would let escape.
\<close>

subsection \<open>Operator spellings\<close>

text \<open>\<open>_NOT_EQUAL_SQL_RE.sub("!=", s)\<close>.\<close>

fun sub_not_equal :: "string \<Rightarrow> string" where
  "sub_not_equal (c # d # cs) =
     (if c = CHR ''<'' \<and> d = CHR ''>'' then CHR ''!'' # CHR ''='' # sub_not_equal cs
      else c # sub_not_equal (d # cs))"
| "sub_not_equal s = s"

text \<open>\<open>_SINGLE_EQUALS_RE.sub("==", s)\<close>; the first argument is the character before.\<close>

fun sub_single_equals :: "char \<Rightarrow> string \<Rightarrow> string" where
  "sub_single_equals p [] = []"
| "sub_single_equals p (c # cs) =
     (if c = CHR ''='' \<and> p \<notin> set ''=<>!'' \<and> (cs = [] \<or> hd cs \<noteq> CHR ''='')
      then CHR ''='' # CHR ''='' # sub_single_equals c cs
      else c # sub_single_equals c cs)"

definition normalize_operators :: "string \<Rightarrow> string" where
  "normalize_operators condition = sub_single_equals (CHR '' '') (sub_not_equal condition)"

subsection \<open>Syntax trees\<close>

datatype boolop = And | Or
datatype unaryop = Not | USub | UAdd | Invert
datatype operator = Add | Sub | Mult | Div | FloorDiv | Mod | Pow
  | LShift | RShift | BitOr | BitXor | BitAnd | MatMult
datatype cmpop = Lt | LtE | Gt | GtE | Eq | NotEq | Is | IsNot | In | NotIn

text \<open>The expression classes of \<open>ast\<close> that are not evaluated, and the classes below them.\<close>

datatype other_node = NamedExpr | Lambda | IfExp | Dict | SetNode | ListComp | SetComp | DictComp
  | GeneratorExp | Await | Yield | YieldFrom | Call | FormattedValue | JoinedStr | Attribute
  | Subscript | Starred | ListNode | TupleNode | Slice | Comprehension | Arguments | Arg | Keyword
  | Store

datatype ast =
    Expression ast
  | BoolOp boolop "ast list"
  | UnaryOp unaryop ast
  | BinOp ast operator ast
  | Compare ast "cmpop list" "ast list"
  | Name string
  | Constant pyval
  | OtherNode other_node "ast list"

text \<open>The operator maps \<open>_UNARY_OPS\<close>, \<open>_BIN_OPS\<close> and \<open>_CMP_OPS\<close>.\<close>

fun unary_ops :: "unaryop \<Rightarrow> unop option" where
  "unary_ops Not = Some Op_not"
| "unary_ops USub = Some Op_neg"
| "unary_ops UAdd = Some Op_pos"
| "unary_ops _ = None"

fun bin_ops :: "operator \<Rightarrow> binop option" where
  "bin_ops Add = Some Op_add"
| "bin_ops Sub = Some Op_sub"
| "bin_ops Mult = Some Op_mul"
| "bin_ops Div = Some Op_truediv"
| "bin_ops FloorDiv = Some Op_floordiv"
| "bin_ops Mod = Some Op_mod"
| "bin_ops Pow = Some Op_pow"
| "bin_ops _ = None"

fun cmp_ops :: "cmpop \<Rightarrow> cmpfn option" where
  "cmp_ops Lt = Some Op_lt"
| "cmp_ops LtE = Some Op_le"
| "cmp_ops Gt = Some Op_gt"
| "cmp_ops GtE = Some Op_ge"
| "cmp_ops Eq = Some Op_eq"
| "cmp_ops NotEq = Some Op_ne"
| "cmp_ops _ = None"

subsection \<open>Errors\<close>

datatype cond_error =
    EmptyCondition
  | SyntaxError
  | DisallowedNode string
  | DisallowedConstant
  | UnknownMetric string
  | DisallowedOperator string
  | OperatorError pyerr
  | Uncaught pyerr

definition invalid_condition :: "cond_error \<Rightarrow> bool" where
  "invalid_condition e = (\<forall>x. e \<noteq> Uncaught x)"

subsection \<open>The operator wrappers\<close>

definition op_not :: "py_runtime \<Rightarrow> pyval \<Rightarrow> pyerr + pyval" where
  "op_not rt v = sbind (py_truth rt v) (\<lambda>b. Inr (VBool (\<not> b)))"

definition op_neg :: "py_runtime \<Rightarrow> pyval \<Rightarrow> pyerr + pyval" where
  "op_neg rt v = (case v of VForeign i \<Rightarrow> rt_unop rt Op_neg i
     | _ \<Rightarrow> (case as_num v of Some (NI n) \<Rightarrow> Inr (VInt (- n))
            | Some (NF x) \<Rightarrow> Inr (VFloat (f_neg x)) | None \<Rightarrow> Inl TypeError))"

definition op_pos :: "py_runtime \<Rightarrow> pyval \<Rightarrow> pyerr + pyval" where
  "op_pos rt v = (case v of VForeign i \<Rightarrow> rt_unop rt Op_pos i
     | _ \<Rightarrow> (case as_num v of Some (NI n) \<Rightarrow> Inr (VInt n)
            | Some (NF x) \<Rightarrow> Inr (VFloat x) | None \<Rightarrow> Inl TypeError))"

fun apply_unop :: "py_runtime \<Rightarrow> unop \<Rightarrow> pyval \<Rightarrow> pyerr + pyval" where
  "apply_unop rt Op_not v = op_not rt v"
| "apply_unop rt Op_neg v = op_neg rt v"
| "apply_unop rt Op_pos v = op_pos rt v"

text \<open>\<open>_op_pow\<close> coerces both operands before the exponentiation.\<close>

definition op_pow :: "py_runtime \<Rightarrow> pyval \<Rightarrow> pyval \<Rightarrow> pyerr + pyval" where
  "op_pow rt lhs rhs = sbind (py_float rt lhs) (\<lambda>x. sbind (py_float rt rhs) (\<lambda>y. rt_pow rt x y))"

fun native_binop :: "py_runtime \<Rightarrow> binop \<Rightarrow> pyval \<Rightarrow> pyval \<Rightarrow> pyerr + pyval" where
  "native_binop rt Op_add a b = native_add a b"
| "native_binop rt Op_sub a b = num2 num_sub a b"
| "native_binop rt Op_mul a b = native_mul a b"
| "native_binop rt Op_truediv a b = num2 num_truediv a b"
| "native_binop rt Op_floordiv a b = num2 num_floordiv a b"
| "native_binop rt Op_mod a b = native_mod rt a b"
| "native_binop rt Op_pow a b = op_pow rt a b"

definition apply_binop :: "py_runtime \<Rightarrow> binop \<Rightarrow> pyval \<Rightarrow> pyval \<Rightarrow> pyerr + pyval" where
  "apply_binop rt f a b =
     (if (is_foreign a \<or> is_foreign b) \<and> f \<noteq> Op_pow then rt_binop rt f a b
      else native_binop rt f a b)"

definition apply_cmp :: "py_runtime \<Rightarrow> cmpfn \<Rightarrow> pyval \<Rightarrow> pyval \<Rightarrow> pyerr + bool" where
  "apply_cmp rt f a b =
     (if is_foreign a \<or> is_foreign b then rt_cmp rt f a b else native_cmp f a b)"

subsection \<open>The structural pre-pass\<close>

text \<open>What \<open>ast.walk\<close> visits: expressions, and operator or context singletons by class name.\<close>

datatype node = NExpr ast | NLeaf string

fun boolop_name :: "boolop \<Rightarrow> string" where
  "boolop_name And = ''And''"
| "boolop_name Or = ''Or''"

fun unaryop_name :: "unaryop \<Rightarrow> string" where
  "unaryop_name Not = ''Not''"
| "unaryop_name USub = ''USub''"
| "unaryop_name UAdd = ''UAdd''"
| "unaryop_name Invert = ''Invert''"

fun operator_name :: "operator \<Rightarrow> string" where
  "operator_name Add = ''Add''"
| "operator_name Sub = ''Sub''"
| "operator_name Mult = ''Mult''"
| "operator_name Div = ''Div''"
| "operator_name FloorDiv = ''FloorDiv''"
| "operator_name Mod = ''Mod''"
| "operator_name Pow = ''Pow''"
| "operator_name LShift = ''LShift''"
| "operator_name RShift = ''RShift''"
| "operator_name BitOr = ''BitOr''"
| "operator_name BitXor = ''BitXor''"
| "operator_name BitAnd = ''BitAnd''"
| "operator_name MatMult = ''MatMult''"

fun cmpop_name :: "cmpop \<Rightarrow> string" where
  "cmpop_name Lt = ''Lt''"
| "cmpop_name LtE = ''LtE''"
| "cmpop_name Gt = ''Gt''"
| "cmpop_name GtE = ''GtE''"
| "cmpop_name Eq = ''Eq''"
| "cmpop_name NotEq = ''NotEq''"
| "cmpop_name Is = ''Is''"
| "cmpop_name IsNot = ''IsNot''"
| "cmpop_name In = ''In''"
| "cmpop_name NotIn = ''NotIn''"

fun other_name :: "other_node \<Rightarrow> string" where
  "other_name NamedExpr = ''NamedExpr''"
| "other_name Lambda = ''Lambda''"
| "other_name IfExp = ''IfExp''"
| "other_name Dict = ''Dict''"
| "other_name SetNode = ''Set''"
| "other_name ListComp = ''ListComp''"
| "other_name SetComp = ''SetComp''"
| "other_name DictComp = ''DictComp''"
| "other_name GeneratorExp = ''GeneratorExp''"
| "other_name Await = ''Await''"
| "other_name Yield = ''Yield''"
| "other_name YieldFrom = ''YieldFrom''"
| "other_name Call = ''Call''"
| "other_name FormattedValue = ''FormattedValue''"
| "other_name JoinedStr = ''JoinedStr''"
| "other_name Attribute = ''Attribute''"
| "other_name Subscript = ''Subscript''"
| "other_name Starred = ''Starred''"
| "other_name ListNode = ''List''"
| "other_name TupleNode = ''Tuple''"
| "other_name Slice = ''Slice''"
| "other_name Comprehension = ''comprehension''"
| "other_name Arguments = ''arguments''"
| "other_name Arg = ''arg''"
| "other_name Keyword = ''keyword''"
| "other_name Store = ''Store''"

fun child_nodes :: "ast \<Rightarrow> node list" where
  "child_nodes (Expression b) = [NExpr b]"
| "child_nodes (BoolOp p vs) = NLeaf (boolop_name p) # map NExpr vs"
| "child_nodes (UnaryOp p v) = [NLeaf (unaryop_name p), NExpr v]"
| "child_nodes (BinOp l p r) = [NExpr l, NLeaf (operator_name p), NExpr r]"
| "child_nodes (Compare l ps cs) = NExpr l # map (NLeaf \<circ> cmpop_name) ps @ map NExpr cs"
| "child_nodes (Name n) = [NLeaf ''Load'']"
| "child_nodes (Constant v) = []"
| "child_nodes (OtherNode n cs) = map NExpr cs"

fun node_children :: "node \<Rightarrow> node list" where
  "node_children (NExpr a) = child_nodes a"
| "node_children (NLeaf n) = []"

fun ast_type_name :: "ast \<Rightarrow> string" where
  "ast_type_name (Expression _) = ''Expression''"
| "ast_type_name (BoolOp _ _) = ''BoolOp''"
| "ast_type_name (UnaryOp _ _) = ''UnaryOp''"
| "ast_type_name (BinOp _ _ _) = ''BinOp''"
| "ast_type_name (Compare _ _ _) = ''Compare''"
| "ast_type_name (Name _) = ''Name''"
| "ast_type_name (Constant _) = ''Constant''"
| "ast_type_name (OtherNode n _) = other_name n"

fun node_type_name :: "node \<Rightarrow> string" where
  "node_type_name (NExpr a) = ast_type_name a"
| "node_type_name (NLeaf n) = n"

definition allowed_node_types :: "string list" where
  "allowed_node_types =
     [''Expression'', ''BoolOp'', ''UnaryOp'', ''BinOp'', ''Compare'', ''Name'', ''Constant'',
      ''And'', ''Or'', ''Not'', ''USub'', ''UAdd'', ''Add'', ''Sub'', ''Mult'', ''Div'',
      ''FloorDiv'', ''Mod'', ''Pow'', ''Lt'', ''LtE'', ''Gt'', ''GtE'', ''Eq'', ''NotEq'', ''Load'',
      ''boolop'', ''unaryop'', ''operator'', ''cmpop'', ''expr'', ''expr_context'']"

fun allowed_constant :: "pyval \<Rightarrow> bool" where
  "allowed_constant (VInt _) = True"
| "allowed_constant (VFloat _) = True"
| "allowed_constant (VBool _) = True"
| "allowed_constant (VStr _) = True"
| "allowed_constant _ = False"

definition check_node :: "node \<Rightarrow> cond_error + unit" where
  "check_node n =
     (if node_type_name n \<notin> set allowed_node_types then Inl (DisallowedNode (node_type_name n))
      else case n of
        NExpr (Constant v) \<Rightarrow> if allowed_constant v then Inr () else Inl DisallowedConstant
      | _ \<Rightarrow> Inr ())"

fun ast_size :: "ast \<Rightarrow> nat" where
  "ast_size (Expression b) = 1 + ast_size b"
| "ast_size (BoolOp p vs) = 2 + sum_list (map ast_size vs)"
| "ast_size (UnaryOp p v) = 2 + ast_size v"
| "ast_size (BinOp l p r) = 2 + ast_size l + ast_size r"
| "ast_size (Compare l ps cs) = 1 + ast_size l + length ps + sum_list (map ast_size cs)"
| "ast_size (Name n) = 2"
| "ast_size (Constant v) = 1"
| "ast_size (OtherNode n cs) = 1 + sum_list (map ast_size cs)"

fun node_size :: "node \<Rightarrow> nat" where
  "node_size (NExpr a) = ast_size a"
| "node_size (NLeaf n) = 1"

lemma node_size_children: "sum_list (map node_size (node_children n)) < node_size n"
proof (cases n)
  case (NExpr a)
  have leaf: "sum_list (map (node_size \<circ> (NLeaf \<circ> cmpop_name)) ps) = length ps" for ps
    by (induction ps) auto
  have expr: "node_size \<circ> NExpr = ast_size" by auto
  show ?thesis
    using NExpr by (cases a) (auto simp: leaf expr)
next
  case (NLeaf x)
  then show ?thesis by simp
qed

text \<open>\<open>ast.walk\<close> is a breadth-first queue: pop the first node, append its children.\<close>

function validate_queue :: "node list \<Rightarrow> cond_error + unit" where
  "validate_queue [] = Inr ()"
| "validate_queue (n # todo) =
     sbind (check_node n) (\<lambda>_. validate_queue (todo @ node_children n))"
  by pat_completeness auto
termination
  by (relation "measure (\<lambda>q. sum_list (map node_size q))")
     (auto simp: node_size_children)

definition validate_tree :: "ast \<Rightarrow> cond_error + unit" where
  "validate_tree tree = validate_queue [NExpr tree]"

subsection \<open>Evaluation\<close>

fun coerce_numeric :: "pyval \<Rightarrow> pyval" where
  "coerce_numeric (VStr s) =
     (case py_float_of_string s of Some x \<Rightarrow> VFloat x | None \<Rightarrow> VStr s)"
| "coerce_numeric v = v"

type_synonym metrics = "string \<rightharpoonup> pyval"

definition eval_name :: "metrics option \<Rightarrow> string \<Rightarrow> cond_error + pyval" where
  "eval_name metrics name = (case metrics of
     None \<Rightarrow> Inr (VInt 1)
   | Some m \<Rightarrow> (case m name of None \<Rightarrow> Inl (UnknownMetric name) | Some v \<Rightarrow> Inr (coerce_numeric v)))"

text \<open>The exceptions each evaluator turns into an \<open>InvalidConditionError\<close>.\<close>

definition caught_unary :: "pyerr \<Rightarrow> bool" where
  "caught_unary e = (e \<in> {TypeError, OverflowError})"

definition caught_binary :: "pyerr \<Rightarrow> bool" where
  "caught_binary e = (e \<in> {ZeroDivisionError, TypeError, OverflowError, ValueError})"

definition guard_op :: "(pyerr \<Rightarrow> bool) \<Rightarrow> pyerr + 'a \<Rightarrow> cond_error + 'a" where
  "guard_op caught r = smap_err (\<lambda>e. if caught e then OperatorError e else Uncaught e) r"

definition truth_of :: "py_runtime \<Rightarrow> pyval \<Rightarrow> cond_error + bool" where
  "truth_of rt v = smap_err Uncaught (py_truth rt v)"

fun first_bad_cmp :: "cmpop list \<Rightarrow> string option" where
  "first_bad_cmp [] = None"
| "first_bad_cmp (p # ps) = (if cmp_ops p = None then Some (cmpop_name p) else first_bad_cmp ps)"

fun walk :: "py_runtime \<Rightarrow> metrics option \<Rightarrow> ast \<Rightarrow> cond_error + pyval"
  and walk_and :: "py_runtime \<Rightarrow> metrics option \<Rightarrow> pyval \<Rightarrow> ast list \<Rightarrow> cond_error + pyval"
  and walk_or :: "py_runtime \<Rightarrow> metrics option \<Rightarrow> pyval \<Rightarrow> ast list \<Rightarrow> cond_error + pyval"
  and walk_cmp :: "py_runtime \<Rightarrow> metrics option \<Rightarrow> pyval \<Rightarrow> cmpop list \<Rightarrow> ast list
      \<Rightarrow> cond_error + pyval"
where
  "walk rt metrics (Expression b) = walk rt metrics b"
| "walk rt metrics (Name n) = eval_name metrics n"
| "walk rt metrics (Constant v) = Inr v"
| "walk rt metrics (BoolOp p vs) =
     (case p of And \<Rightarrow> walk_and rt metrics (VBool True) vs
              | Or \<Rightarrow> walk_or rt metrics (VBool False) vs)"
| "walk rt metrics (UnaryOp p v) = (case unary_ops p of
     None \<Rightarrow> Inl (DisallowedOperator (unaryop_name p))
   | Some f \<Rightarrow> sbind (walk rt metrics v) (\<lambda>x. guard_op caught_unary (apply_unop rt f x)))"
| "walk rt metrics (BinOp l p r) = (case bin_ops p of
     None \<Rightarrow> Inl (DisallowedOperator (operator_name p))
   | Some f \<Rightarrow> sbind (walk rt metrics l) (\<lambda>x. sbind (walk rt metrics r) (\<lambda>y.
       guard_op caught_binary (apply_binop rt f x y))))"
| "walk rt metrics (Compare l ps cs) = (case first_bad_cmp ps of
     Some n \<Rightarrow> Inl (DisallowedOperator n)
   | None \<Rightarrow> sbind (walk rt metrics l) (\<lambda>x. walk_cmp rt metrics x ps cs))"
| "walk rt metrics (OtherNode n cs) = Inl (DisallowedNode (other_name n))"
| "walk_and rt metrics result [] = Inr result"
| "walk_and rt metrics result (v # vs) = sbind (walk rt metrics v) (\<lambda>x.
     sbind (truth_of rt x) (\<lambda>b. if b then walk_and rt metrics x vs else Inr x))"
| "walk_or rt metrics result [] = Inr result"
| "walk_or rt metrics result (v # vs) = sbind (walk rt metrics v) (\<lambda>x.
     sbind (truth_of rt x) (\<lambda>b. if b then Inr x else walk_or rt metrics x vs))"
| "walk_cmp rt metrics left (p # ps) (c # cs) = sbind (walk rt metrics c) (\<lambda>right.
     (case cmp_ops p of
        None \<Rightarrow> Inl (DisallowedOperator (cmpop_name p))
      | Some f \<Rightarrow> sbind (guard_op caught_unary (apply_cmp rt f left right)) (\<lambda>b.
          if b then walk_cmp rt metrics right ps cs else Inr (VBool False))))"
| "walk_cmp rt metrics left _ _ = Inr (VBool True)"

subsection \<open>The public operations\<close>

definition parse_condition :: "(string \<Rightarrow> ast option) \<Rightarrow> string \<Rightarrow> cond_error + ast" where
  "parse_condition parse condition =
     (if condition = [] \<or> py_strip condition = [] then Inl EmptyCondition
      else case parse (normalize_operators condition) of
        None \<Rightarrow> Inl SyntaxError
      | Some tree \<Rightarrow> Inr tree)"

definition validate_condition ::
    "py_runtime \<Rightarrow> (string \<Rightarrow> ast option) \<Rightarrow> string \<Rightarrow> cond_error + unit" where
  "validate_condition rt parse condition =
     sbind (parse_condition parse condition) (\<lambda>tree.
     sbind (validate_tree tree) (\<lambda>_.
     sbind (walk rt None tree) (\<lambda>_. Inr ())))"

definition evaluate_condition ::
    "py_runtime \<Rightarrow> (string \<Rightarrow> ast option) \<Rightarrow> string \<Rightarrow> metrics \<Rightarrow> cond_error + bool" where
  "evaluate_condition rt parse condition metrics =
     sbind (parse_condition parse condition) (\<lambda>tree.
     sbind (validate_tree tree) (\<lambda>_.
     sbind (walk rt (Some metrics) tree) (\<lambda>result. truth_of rt result)))"

subsection \<open>The pre-pass is the allowlist applied to every node\<close>

fun tree_ok :: "ast \<Rightarrow> bool" where
  "tree_ok (Expression b) = tree_ok b"
| "tree_ok (BoolOp p vs) = list_all tree_ok vs"
| "tree_ok (UnaryOp p v) = (unary_ops p \<noteq> None \<and> tree_ok v)"
| "tree_ok (BinOp l p r) = (bin_ops p \<noteq> None \<and> tree_ok l \<and> tree_ok r)"
| "tree_ok (Compare l ps cs) =
     (tree_ok l \<and> list_all (\<lambda>p. cmp_ops p \<noteq> None) ps \<and> list_all tree_ok cs)"
| "tree_ok (Name n) = True"
| "tree_ok (Constant v) = allowed_constant v"
| "tree_ok (OtherNode n cs) = False"

fun node_ok :: "node \<Rightarrow> bool" where
  "node_ok (NExpr a) = tree_ok a"
| "node_ok (NLeaf n) = (n \<in> set allowed_node_types)"

lemma boolop_name_allowed: "boolop_name p \<in> set allowed_node_types"
  by (cases p) (simp_all add: allowed_node_types_def)

lemma unaryop_name_allowed: "(unaryop_name p \<in> set allowed_node_types) = (unary_ops p \<noteq> None)"
  by (cases p) (simp_all add: allowed_node_types_def)

lemma operator_name_allowed: "(operator_name p \<in> set allowed_node_types) = (bin_ops p \<noteq> None)"
  by (cases p) (simp_all add: allowed_node_types_def)

lemma cmpop_name_allowed: "(cmpop_name p \<in> set allowed_node_types) = (cmp_ops p \<noteq> None)"
  by (cases p) (simp_all add: allowed_node_types_def)

lemma other_name_disallowed: "other_name n \<notin> set allowed_node_types"
  by (cases n) (simp_all add: allowed_node_types_def)

lemma load_allowed: "''Load'' \<in> set allowed_node_types"
  by (simp add: allowed_node_types_def)

lemma ast_type_name_allowed:
  "(ast_type_name a \<in> set allowed_node_types) = (\<forall>n cs. a \<noteq> OtherNode n cs)"
  by (cases a) (auto simp: other_name_disallowed, simp_all add: allowed_node_types_def)

lemmas names_allowed = boolop_name_allowed unaryop_name_allowed operator_name_allowed
  cmpop_name_allowed load_allowed

lemma check_node_expr:
  "(check_node (NExpr a) = Inr ()) =
     ((\<forall>n cs. a \<noteq> OtherNode n cs) \<and> (\<forall>v. a = Constant v \<longrightarrow> allowed_constant v))"
  using ast_type_name_allowed [of a] by (cases a) (auto simp: check_node_def)

lemma check_node_leaf: "(check_node (NLeaf n) = Inr ()) = (n \<in> set allowed_node_types)"
  by (simp add: check_node_def)

lemma node_ok_step:
  "node_ok n = (check_node n = Inr () \<and> list_all node_ok (node_children n))"
proof (cases n)
  case (NExpr a)
  then show ?thesis
    by (cases a)
       (auto simp: check_node_expr names_allowed list_all_iff ball_Un)
next
  case (NLeaf x)
  then show ?thesis by (simp add: check_node_leaf)
qed

lemma validate_queue_iff: "(validate_queue q = Inr ()) = list_all node_ok q"
proof (induction q rule: validate_queue.induct)
  case 1
  then show ?case by simp
next
  case (2 n todo)
  show ?case
  proof (cases "check_node n")
    case (Inl e)
    then show ?thesis using node_ok_step [of n] by simp
  next
    case (Inr u)
    then show ?thesis using 2 [of u] node_ok_step [of n] by auto
  qed
qed

lemma tree_accepted: "validate_tree t = Inr () \<longleftrightarrow> tree_ok t"
  by (simp only: validate_tree_def validate_queue_iff) simp

text \<open>C35: the breadth-first pre-pass accepts a tree exactly when every operator is one of the
  supported ones, every literal is of an allowed type and no other expression class occurs at
  any depth, whether or not that part of the tree would ever be evaluated.\<close>

theorem validate_tree_iff: "validate_tree t = Inr () \<longleftrightarrow> tree_ok t"
  by (rule tree_accepted)

end
