(* ===== verification/Action_Alert.thy ===== *)
theory Action_Alert
  imports Action_Base Action_Conditions "HOL-Library.Multiset"
begin

section \<open>Actions, their registry and the \<open>DQAction\<close> binding\<close>

text \<open>
  The concrete actions (\<open>actions/alert.py\<close>, \<open>fail_pipeline.py\<close>, \<open>noop.py\<close>), the registry of
  action classes (\<open>registry.py\<close>), and \<open>DQAction\<close> (\<open>dq_action.py\<close>) with its validators in the
  order Pydantic runs them. Delivering to a destination is a parameter: it returns the text of
  the exception it raised, or \<open>None\<close>.
\<close>

subsection \<open>Errors\<close>

datatype action_error =
    NoDestinations
  | DuplicateDestinations "string list"
  | MissingTypeDiscriminator
  | UnknownActionType string
  | TypeNotDeclared string
  | ClassMismatch string
  | TypeTaken string
  | InvalidPayload
  | NotADict nat
  | BadCondition cond_error

subsection \<open>\<open>DQAlert\<close>\<close>

datatype alert_frequency = ALWAYS | HOURLY | DAILY
datatype notify_on = EACH | STATUS_CHANGE
datatype destination_kind = Slack | Teams | Webhook | Log | Callback

record destination =
  dest_name :: string
  dest_kind :: destination_kind

record alert =
  al_name :: string
  al_destinations :: "destination list"
  al_frequency :: alert_frequency
  al_notify_on :: notify_on
  al_severity :: string

definition duplicates :: "string list \<Rightarrow> string list" where
  "duplicates names = remdups (filter (\<lambda>n. 1 < count_list names n) names)"

definition validate_alert :: "alert \<Rightarrow> action_error + alert" where
  "validate_alert a =
     (let a = (if al_name a = [] then a\<lparr>al_name := ''alert''\<rparr> else a);
          names = map dest_name (al_destinations a)
      in if al_destinations a = [] then Inl NoDestinations
         else if duplicates names \<noteq> [] then Inl (DuplicateDestinations (duplicates names))
         else Inr a)"

type_synonym deliver_fn = "destination \<Rightarrow> alert_message \<Rightarrow> action_context \<Rightarrow> string option"

definition deliver_task ::
    "deliver_fn \<Rightarrow> alert_message \<Rightarrow> action_context \<Rightarrow> text_dict \<Rightarrow> destination \<Rightarrow> text_dict" where
  "deliver_task deliver msg ctx error_map d = (case deliver d msg ctx of
     None \<Rightarrow> error_map
   | Some err \<Rightarrow> dict_set error_map (dest_name d) (sanitize_for_log err))"

text \<open>\<open>schedule\<close> is the order in which the tasks happen to write the shared error map.\<close>

definition alert_execute ::
    "(pyval \<Rightarrow> string) \<Rightarrow> (datetime \<Rightarrow> string) \<Rightarrow> deliver_fn
     \<Rightarrow> (destination list \<Rightarrow> destination list) \<Rightarrow> alert \<Rightarrow> action_context \<Rightarrow> action_result" where
  "alert_execute str_of time_str deliver schedule a ctx =
     (let msg = build_message str_of time_str (al_name a) (ctx_condition ctx) (ctx_metrics ctx)
            (ctx_run_id ctx) (ctx_run_time ctx) (ctx_input_location ctx) (al_severity a)
            (ctx_user_metadata ctx) (ctx_extras ctx);
          error_map = fold (\<lambda>d em. deliver_task deliver msg ctx em d) (schedule (al_destinations a)) []
      in \<lparr>res_action_name = al_name a, res_fired = True, res_status = UNHEALTHY,
          res_destination_errors = error_map, res_extras = None\<rparr>)"

lemma distinct_if_count_le: "(\<forall>n. count_list ns n \<le> 1) \<Longrightarrow> distinct ns"
proof (induction ns)
  case (Cons x ns)
  then have "count_list ns x = 0" by (metis One_nat_def add_le_same_cancel2 count_list.simps(2) le_zero_eq)
  moreover have "count_list ns n \<le> 1" for n
    using Cons.prems by (metis Suc_eq_plus1 Suc_leD count_list.simps(2))
  ultimately show ?case using Cons.IH by (simp add: count_list_0_iff)
qed simp

lemma distinct_if_no_duplicates:
  assumes "duplicates ns = []"
  shows "distinct ns"
proof (rule distinct_if_count_le, rule allI)
  fix n
  have "n \<notin> set (duplicates ns)" using assms by simp
  then show "count_list ns n \<le> 1" by (cases "n \<in> set ns") (auto simp: duplicates_def)
qed

lemma validate_alert_names:
  "validate_alert a = Inr b \<Longrightarrow> distinct (map dest_name (al_destinations b)) \<and> al_destinations b \<noteq> []
    \<and> al_name b \<noteq> []"
  by (auto simp: validate_alert_def Let_def intro: distinct_if_no_duplicates split: if_splits)

lemma deliver_fold:
  "dict_get (fold (\<lambda>d em. deliver_task deliver msg ctx em d) ds em) n =
    (case filter (\<lambda>d. dest_name d = n \<and> deliver d msg ctx \<noteq> None) ds of
       [] \<Rightarrow> dict_get em n
     | d # ds' \<Rightarrow> map_option sanitize_for_log (deliver (last (d # ds')) msg ctx))"
proof (induction ds arbitrary: em)
  case (Cons d ds)
  then show ?case
    by (auto simp: deliver_task_def split: option.splits list.splits)
qed simp

lemma filter_unique_name:
  assumes "distinct (map dest_name ds)" and "d \<in> set ds"
  shows "filter (\<lambda>e. dest_name e = dest_name d \<and> P e) ds = (if P d then [d] else [])"
  using assms
proof (induction ds)
  case (Cons e ds)
  show ?case
  proof (cases "d = e")
    case True
    with Cons.prems have "filter (\<lambda>e. dest_name e = dest_name d \<and> P e) ds = []"
      by (auto simp: filter_empty_conv image_iff)
    with True show ?thesis by simp
  next
    case False
    with Cons.prems have "d \<in> set ds" and "dest_name e \<noteq> dest_name d" by (auto simp: image_iff)
    with Cons show ?thesis by simp
  qed
qed simp

text \<open>A validated alert attempts every destination: in whatever order the concurrent deliveries
  finish, the result blames exactly the destinations whose delivery raised, each with its own
  sanitised error, and one failing destination never hides another.\<close>

theorem alert_errors_exact:
  assumes "validate_alert a0 = Inr a" and "mset (schedule (al_destinations a)) = mset (al_destinations a)"
    and "r = alert_execute str_of time_str deliver schedule a ctx"
    and "msg = build_message str_of time_str (al_name a) (ctx_condition ctx) (ctx_metrics ctx)
      (ctx_run_id ctx) (ctx_run_time ctx) (ctx_input_location ctx) (al_severity a)
      (ctx_user_metadata ctx) (ctx_extras ctx)"
    and "d \<in> set (al_destinations a)"
  shows "dict_get (res_destination_errors r) (dest_name d)
    = map_option sanitize_for_log (deliver d msg ctx)"
proof -
  let ?ds = "schedule (al_destinations a)"
  have "distinct (map dest_name (al_destinations a))" using validate_alert_names [OF assms(1)] by simp
  moreover have "mset (map dest_name ?ds) = mset (map dest_name (al_destinations a))"
    using assms(2) by (simp only: mset_map)
  ultimately have dist: "distinct (map dest_name ?ds)" by (metis mset_eq_imp_distinct_iff)
  have "d \<in> set ?ds" using assms(2,5) by (metis set_mset_mset)
  from filter_unique_name [OF dist this, of "\<lambda>e. deliver e msg ctx \<noteq> None"]
  show ?thesis
    by (auto simp: assms(3,4) alert_execute_def Let_def deliver_fold)
qed


definition sample_alert :: alert where
  "sample_alert = \<lparr>al_name = [], al_destinations = [\<lparr>dest_name = ''s'', dest_kind = Slack\<rparr>,
     \<lparr>dest_name = ''l'', dest_kind = Log\<rparr>], al_frequency = HOURLY, al_notify_on = EACH,
     al_severity = ''error''\<rparr>"

definition sample_context :: action_context where
  "sample_context = \<lparr>ctx_metrics = [(''error_row_count'', VInt 3)], ctx_run_id = ''r1'',
     ctx_run_time = \<lparr>dt_wall = 0, dt_offset = Some 0\<rparr>, ctx_run_name = ''dqx'',
     ctx_input_location = None, ctx_output_location = None, ctx_quarantine_location = None,
     ctx_checks_location = None, ctx_rule_set_fingerprint = None, ctx_user_metadata = None,
     ctx_condition = None, ctx_extras = None\<rparr>"

definition failing_slack :: deliver_fn where
  "failing_slack d m c = (if dest_kind d = Slack then Some [CHR ''x'', CHR 0x0A] else None)"

theorem alert_errors_exact_witness:
  "dict_get (res_destination_errors (alert_execute (\<lambda>_. []) (\<lambda>_. []) failing_slack rev
      (sample_alert\<lparr>al_name := ''alert''\<rparr>) sample_context)) ''s'' = Some ''x ''"
  using alert_errors_exact [of sample_alert "sample_alert\<lparr>al_name := ''alert''\<rparr>" rev, OF _ _ refl refl,
      of "\<lparr>dest_name = ''s'', dest_kind = Slack\<rparr>" "\<lambda>_. []" "\<lambda>_. []" failing_slack sample_context]
  by (simp add: sample_alert_def validate_alert_def duplicates_def failing_slack_def sanitize_for_log_def)

end
