(* ===== verification/Action_Binding.thy ===== *)
theory Action_Binding
  imports Action_Alert
begin

section \<open>The action registry, the \<open>DQAction\<close> binding and its serializer\<close>

text \<open>
  \<open>actions/registry.py\<close>, \<open>dq_action.py\<close>, \<open>serializer.py\<close>, \<open>fail_pipeline.py\<close> and \<open>noop.py\<close>. A
  class object is a record with its own identity, so that a redefinition of the same source
  class is a different object with the same module and qualified name. The pydantic validation
  of an action's own fields from its metadata is the parameter \<open>parse\<close>; executing an action of
  a class outside the library is the parameter \<open>custom\<close>.
\<close>

subsection \<open>Classes and actions\<close>

record action_class =
  cls_object :: nat
  cls_module :: string
  cls_qualname :: string
  cls_name :: string
  cls_type_default :: "string option"

datatype action =
    Alert alert
  | FailPipeline "string option" string
  | NoOpAction string
  | CustomAction action_class string

definition builtin_class :: "nat \<Rightarrow> string \<Rightarrow> string \<Rightarrow> string \<Rightarrow> action_class" where
  "builtin_class i m n t = \<lparr>cls_object = i, cls_module = m, cls_qualname = n, cls_name = n,
     cls_type_default = Some t\<rparr>"

fun class_of :: "action \<Rightarrow> action_class" where
  "class_of (Alert _) = builtin_class 0 ''databricks.labs.dqx.actions.alert'' ''DQAlert'' ''alert''"
| "class_of (FailPipeline _ _) =
     builtin_class 1 ''databricks.labs.dqx.actions.fail_pipeline'' ''FailPipeline'' ''fail_pipeline''"
| "class_of (NoOpAction _) = builtin_class 2 ''databricks.labs.dqx.actions.noop'' ''NoOpAction'' ''noop''"
| "class_of (CustomAction c _) = c"

fun action_name_of :: "action \<Rightarrow> string" where
  "action_name_of (Alert a) = al_name a"
| "action_name_of (FailPipeline _ n) = n"
| "action_name_of (NoOpAction n) = n"
| "action_name_of (CustomAction _ n) = n"

datatype exec_outcome = Returned action_result | Terminal string | Raised string

definition fail_execute :: "((string, pyval) dict \<Rightarrow> string) \<Rightarrow> string option \<Rightarrow> string
    \<Rightarrow> action_context \<Rightarrow> exec_outcome" where
  "fail_execute repr message n ctx = Terminal (case message of
     Some m \<Rightarrow> m
   | None \<Rightarrow> ''Pipeline failed by DQX action '' @ [CHR 39] @ n @ [CHR 39]
       @ ''. Observed metrics: '' @ repr (ctx_metrics ctx))"

definition noop_execute :: "string \<Rightarrow> exec_outcome" where
  "noop_execute n = Returned \<lparr>res_action_name = n, res_fired = True, res_status = UNHEALTHY,
     res_destination_errors = [], res_extras = None\<rparr>"

record action_env =
  env_str :: "pyval \<Rightarrow> string"
  env_time_str :: "datetime \<Rightarrow> string"
  env_repr :: "(string, pyval) dict \<Rightarrow> string"
  env_deliver :: deliver_fn
  env_schedule :: "destination list \<Rightarrow> destination list"
  env_custom :: "action_class \<Rightarrow> string \<Rightarrow> action_context \<Rightarrow> exec_outcome"

fun execute_action :: "action_env \<Rightarrow> action \<Rightarrow> action_context \<Rightarrow> exec_outcome" where
  "execute_action env (Alert a) ctx =
     Returned (alert_execute (env_str env) (env_time_str env) (env_deliver env) (env_schedule env) a ctx)"
| "execute_action env (FailPipeline m n) ctx = fail_execute (env_repr env) m n ctx"
| "execute_action env (NoOpAction n) ctx = noop_execute n"
| "execute_action env (CustomAction c n) ctx = env_custom env c n ctx"

subsection \<open>The registry\<close>

type_synonym registry = "(string, action_class) dict"

definition extract_action_type :: "action_class \<Rightarrow> action_error + string" where
  "extract_action_type c = (case cls_type_default c of
     None \<Rightarrow> Inl (TypeNotDeclared (cls_name c))
   | Some t \<Rightarrow> if t = [] then Inl (TypeNotDeclared (cls_name c)) else Inr t)"

definition same_class_identity :: "action_class \<Rightarrow> action_class \<Rightarrow> bool" where
  "same_class_identity c d = ((cls_module c, cls_qualname c) = (cls_module d, cls_qualname d))"

definition register_action_class :: "action_class \<Rightarrow> registry \<Rightarrow> action_error + registry" where
  "register_action_class c reg = sbind (extract_action_type c) (\<lambda>t.
     (case dict_get reg t of
        None \<Rightarrow> Inr (dict_set reg t c)
      | Some e \<Rightarrow> if same_class_identity e c then Inr (dict_set reg t c) else Inl (TypeTaken t)))"

definition resolve_action_type :: "registry \<Rightarrow> string \<Rightarrow> action_error + action_class" where
  "resolve_action_type reg t = (case dict_get reg t of
     None \<Rightarrow> Inl (UnknownActionType t)
   | Some c \<Rightarrow> Inr c)"

fun register_all :: "registry \<Rightarrow> action_class list \<Rightarrow> registry" where
  "register_all reg [] = reg"
| "register_all reg (c # cs) = (case register_action_class c reg of
     Inl _ \<Rightarrow> register_all reg cs
   | Inr reg' \<Rightarrow> register_all reg' cs)"

definition builtin_registry :: registry where
  "builtin_registry = register_all []
     [class_of (Alert undefined), class_of (FailPipeline None []), class_of (NoOpAction [])]"

lemma register_keeps_identity:
  assumes "register_action_class c reg = Inr reg'" and "dict_get reg t = Some d"
  shows "\<exists>e. dict_get reg' t = Some e \<and> same_class_identity d e"
proof (cases "extract_action_type c = Inr t")
  case True
  with assms show ?thesis
    by (auto simp: register_action_class_def split: option.splits if_splits)
next
  case False
  with assms show ?thesis
    by (cases "extract_action_type c")
       (auto simp: register_action_class_def same_class_identity_def split: option.splits if_splits)
qed

text \<open>No sequence of registrations, failed ones and reloads included, ever hands a type
  discriminator that is taken to a class of another module or qualified name.\<close>

theorem registry_never_hijacked:
  assumes "dict_get reg t = Some c"
  shows "\<exists>d. dict_get (register_all reg cs) t = Some d \<and> same_class_identity c d"
  using assms
proof (induction cs arbitrary: reg c)
  case (Cons x cs)
  show ?case
  proof (cases "register_action_class x reg")
    case (Inl e)
    then show ?thesis using Cons by simp
  next
    case (Inr reg')
    then obtain e where "dict_get reg' t = Some e" and "same_class_identity c e"
      using register_keeps_identity Cons.prems by blast
    moreover from this(1) obtain d where "dict_get (register_all reg' cs) t = Some d"
      and "same_class_identity e d" using Cons.IH by blast
    ultimately show ?thesis using Inr by (auto simp: same_class_identity_def)
  qed
qed (simp add: same_class_identity_def)

definition alert_impostor :: action_class where
  "alert_impostor = \<lparr>cls_object = 9, cls_module = ''user'', cls_qualname = ''MyAlert'',
     cls_name = ''MyAlert'', cls_type_default = Some ''alert''\<rparr>"

theorem registry_never_hijacked_witness:
  "\<exists>d. dict_get (register_all builtin_registry [alert_impostor]) ''alert'' = Some d
     \<and> same_class_identity (class_of (Alert sample_alert)) d"
  using registry_never_hijacked [of builtin_registry "''alert''" "class_of (Alert sample_alert)" "[alert_impostor]"]
  by (simp add: builtin_registry_def register_action_class_def extract_action_type_def builtin_class_def)

subsection \<open>The fields of an action as metadata\<close>

text \<open>The fields a dictionary gives, absent ones as \<open>None\<close>. A payload with unknown or ill-typed
  fields is \<open>BadFields\<close>; the fields of a class outside the library are \<open>CustomFields\<close>, read by the
  parameter \<open>parse\<close> and written by the parameter \<open>dump\<close>.\<close>

datatype 'p payload =
    AlertFields "destination list option" "string option" "string option" "string option" "string option"
  | FailFields "string option" "string option"
  | NoOpFields "string option"
  | CustomFields 'p
  | BadFields

fun frequency_value :: "alert_frequency \<Rightarrow> string" where
  "frequency_value ALWAYS = ''always''"
| "frequency_value HOURLY = ''hourly''"
| "frequency_value DAILY = ''daily''"

fun notify_value :: "notify_on \<Rightarrow> string" where
  "notify_value EACH = ''each''"
| "notify_value STATUS_CHANGE = ''status_change''"

definition frequency_of :: "string \<Rightarrow> alert_frequency option" where
  "frequency_of s = (if s = ''always'' then Some ALWAYS else if s = ''hourly'' then Some HOURLY
     else if s = ''daily'' then Some DAILY else None)"

definition notify_of :: "string \<Rightarrow> notify_on option" where
  "notify_of s = (if s = ''each'' then Some EACH
     else if s = ''status_change'' then Some STATUS_CHANGE else None)"

definition opt_or :: "'a option \<Rightarrow> 'a \<Rightarrow> 'a" where
  "opt_or v d = (case v of None \<Rightarrow> d | Some w \<Rightarrow> w)"

definition parse_alert_fields ::
    "destination list option \<Rightarrow> string option \<Rightarrow> string option \<Rightarrow> string option \<Rightarrow> string option
     \<Rightarrow> action_error + action" where
  "parse_alert_fields dests n freq notify severity =
     (case (dests, frequency_of (opt_or freq ''always''), notify_of (opt_or notify ''each'')) of
        (Some ds, Some f, Some c) \<Rightarrow>
          sbind (validate_alert \<lparr>al_name = opt_or n [], al_destinations = ds, al_frequency = f,
            al_notify_on = c, al_severity = opt_or severity ''error''\<rparr>) (\<lambda>a. Inr (Alert a))
      | _ \<Rightarrow> Inl InvalidPayload)"

definition parse_fields ::
    "(action_class \<Rightarrow> 'p \<Rightarrow> action_error + string) \<Rightarrow> action_class \<Rightarrow> 'p payload
     \<Rightarrow> action_error + action" where
  "parse_fields parse c p =
     (if c = class_of (Alert undefined) then
        (case p of AlertFields ds n f k s \<Rightarrow> parse_alert_fields ds n f k s | _ \<Rightarrow> Inl InvalidPayload)
      else if c = class_of (FailPipeline None []) then
        (case p of FailFields m n \<Rightarrow> Inr (FailPipeline m (opt_or n ''fail_pipeline''))
         | _ \<Rightarrow> Inl InvalidPayload)
      else if c = class_of (NoOpAction []) then
        (case p of NoOpFields n \<Rightarrow> Inr (NoOpAction (opt_or n ''noop'')) | _ \<Rightarrow> Inl InvalidPayload)
      else (case p of CustomFields q \<Rightarrow> sbind (parse c q) (\<lambda>n. Inr (CustomAction c n))
         | _ \<Rightarrow> Inl InvalidPayload))"

text \<open>\<open>model_dump\<close>: the destinations that hold a Python callable are left out.\<close>

fun dump_fields :: "(action_class \<Rightarrow> string \<Rightarrow> 'p) \<Rightarrow> action \<Rightarrow> 'p payload" where
  "dump_fields dump (Alert a) =
     AlertFields (Some (filter (\<lambda>d. dest_kind d \<noteq> Callback) (al_destinations a))) (Some (al_name a))
       (Some (frequency_value (al_frequency a))) (Some (notify_value (al_notify_on a)))
       (Some (al_severity a))"
| "dump_fields dump (FailPipeline m n) = FailFields m (Some n)"
| "dump_fields dump (NoOpAction n) = NoOpFields (Some n)"
| "dump_fields dump (CustomAction c n) = CustomFields (dump c n)"

subsection \<open>\<open>DQAction\<close>\<close>

text \<open>What may be bound: metadata with its \<open>type\<close> entry (\<open>None\<close> when it is no string), an action
  object, or any other value.\<close>

datatype 'p action_value =
    ActionDict "string option" "'p payload"
  | ActionObject action
  | OtherValue

record dq_action =
  dq_act :: action
  dq_condition :: "string option"
  dq_name :: string

definition resolve_action ::
    "registry \<Rightarrow> (action_class \<Rightarrow> 'p \<Rightarrow> action_error + string) \<Rightarrow> 'p action_value
     \<Rightarrow> action_error + action" where
  "resolve_action reg parse value = (case value of
     ActionDict t p \<Rightarrow> (case t of
         None \<Rightarrow> Inl MissingTypeDiscriminator
       | Some t \<Rightarrow> if t = [] then Inl MissingTypeDiscriminator
           else sbind (resolve_action_type reg t) (\<lambda>c. parse_fields parse c p))
   | ActionObject a \<Rightarrow> Inr a
   | OtherValue \<Rightarrow> Inl InvalidPayload)"

definition validate_action_registered :: "registry \<Rightarrow> action \<Rightarrow> action_error + unit" where
  "validate_action_registered reg a = sbind (extract_action_type (class_of a)) (\<lambda>t.
     sbind (resolve_action_type reg t) (\<lambda>c.
       if cls_object (class_of a) = cls_object c then Inr () else Inl (ClassMismatch t)))"

definition validate_condition_field ::
    "(string \<Rightarrow> cond_error + unit) \<Rightarrow> string option \<Rightarrow> action_error + unit" where
  "validate_condition_field validate c = (case c of
     None \<Rightarrow> Inr ()
   | Some t \<Rightarrow> smap_err BadCondition (validate t))"

definition derive_name :: "action \<Rightarrow> string option \<Rightarrow> string \<Rightarrow> string" where
  "derive_name a condition n =
     (if n \<noteq> [] then n
      else if action_name_of a \<noteq> [] then action_name_of a
      else case condition of
        Some c \<Rightarrow> take 64 (py_replace_char (CHR '' '') ''_'' (py_strip c))
      | None \<Rightarrow> cls_name (class_of a))"

text \<open>Pydantic collects a field's own validation error and goes on to the next field, so a
  malformed condition surfaces before it; every other error ends the construction at once.\<close>

definition new_dq_action ::
    "registry \<Rightarrow> (action_class \<Rightarrow> 'p \<Rightarrow> action_error + string) \<Rightarrow> (string \<Rightarrow> cond_error + unit)
     \<Rightarrow> 'p action_value \<Rightarrow> string option \<Rightarrow> string \<Rightarrow> action_error + dq_action" where
  "new_dq_action reg parse validate value condition n = (case resolve_action reg parse value of
     Inl e \<Rightarrow> if e = InvalidPayload
       then sbind (validate_condition_field validate condition) (\<lambda>_. Inl InvalidPayload)
       else Inl e
   | Inr a \<Rightarrow> sbind (validate_condition_field validate condition) (\<lambda>_.
       sbind (validate_action_registered reg a) (\<lambda>_.
         Inr \<lparr>dq_act = a, dq_condition = condition, dq_name = derive_name a condition n\<rparr>)))"

lemma new_dq_action_Inr:
  "new_dq_action reg parse validate value condition n = Inr dq \<longleftrightarrow>
     (\<exists>a. resolve_action reg parse value = Inr a
       \<and> validate_condition_field validate condition = Inr ()
       \<and> validate_action_registered reg a = Inr ()
       \<and> dq = \<lparr>dq_act = a, dq_condition = condition, dq_name = derive_name a condition n\<rparr>)"
  by (auto simp: new_dq_action_def result_simps split: sum.split)

subsection \<open>Serialization\<close>

text \<open>The metadata of a \<open>DQAction\<close>: the keys \<open>action\<close>, \<open>condition\<close> and \<open>name\<close>. \<close>

record 'p action_meta =
  meta_action :: "'p action_value option"
  meta_condition :: "string option"
  meta_name :: "string option"

definition to_dict :: "(action_class \<Rightarrow> string \<Rightarrow> 'p) \<Rightarrow> dq_action \<Rightarrow> 'p action_meta" where
  "to_dict dump dq =
     \<lparr>meta_action = Some (ActionDict (cls_type_default (class_of (dq_act dq))) (dump_fields dump (dq_act dq))),
      meta_condition = dq_condition dq, meta_name = Some (dq_name dq)\<rparr>"

definition from_dict ::
    "registry \<Rightarrow> (action_class \<Rightarrow> 'p \<Rightarrow> action_error + string) \<Rightarrow> (string \<Rightarrow> cond_error + unit)
     \<Rightarrow> 'p action_meta \<Rightarrow> action_error + dq_action" where
  "from_dict reg parse validate raw = (case meta_action raw of
     None \<Rightarrow> sbind (validate_condition_field validate (meta_condition raw)) (\<lambda>_. Inl InvalidPayload)
   | Some v \<Rightarrow> new_dq_action reg parse validate v (meta_condition raw)
       (case meta_name raw of None \<Rightarrow> [] | Some n \<Rightarrow> n))"

definition serialize_actions :: "(action_class \<Rightarrow> string \<Rightarrow> 'p) \<Rightarrow> dq_action list \<Rightarrow> 'p action_meta list" where
  "serialize_actions dump dqs = map (to_dict dump) dqs"

text \<open>The elements of the list: \<open>None\<close> stands for an element that is no dictionary.\<close>

fun deserialize_from ::
    "registry \<Rightarrow> (action_class \<Rightarrow> 'p \<Rightarrow> action_error + string) \<Rightarrow> (string \<Rightarrow> cond_error + unit)
     \<Rightarrow> nat \<Rightarrow> 'p action_meta option list \<Rightarrow> action_error + dq_action list" where
  "deserialize_from reg parse validate i [] = Inr []"
| "deserialize_from reg parse validate i (None # items) = Inl (NotADict i)"
| "deserialize_from reg parse validate i (Some raw # items) =
     sbind (from_dict reg parse validate raw) (\<lambda>dq.
     sbind (deserialize_from reg parse validate (Suc i) items) (\<lambda>dqs. Inr (dq # dqs)))"

definition deserialize_actions ::
    "registry \<Rightarrow> (action_class \<Rightarrow> 'p \<Rightarrow> action_error + string) \<Rightarrow> (string \<Rightarrow> cond_error + unit)
     \<Rightarrow> 'p action_meta option list \<Rightarrow> action_error + dq_action list" where
  "deserialize_actions reg parse validate metadata = deserialize_from reg parse validate 0 metadata"

subsection \<open>Round trip\<close>

definition custom_roundtrip ::
    "(action_class \<Rightarrow> string \<Rightarrow> 'p) \<Rightarrow> (action_class \<Rightarrow> 'p \<Rightarrow> action_error + string) \<Rightarrow> bool" where
  "custom_roundtrip dump parse = (\<forall>c n. parse c (dump c n) = Inr n)"

text \<open>An alert as its validator leaves it, with at least one destination that can be persisted.\<close>

fun persistable :: "action \<Rightarrow> bool" where
  "persistable (Alert a) = (validate_alert a = Inr a \<and> list_ex (\<lambda>d. dest_kind d \<noteq> Callback) (al_destinations a))"
| "persistable (CustomAction c n) = (cls_object c \<notin> {0, 1, 2})"
| "persistable _ = True"

fun without_callbacks :: "action \<Rightarrow> action" where
  "without_callbacks (Alert a) =
     Alert (a\<lparr>al_destinations := filter (\<lambda>d. dest_kind d \<noteq> Callback) (al_destinations a)\<rparr>)"
| "without_callbacks a = a"

text \<open>Two classes of the registry or of an action that are the same object are the same class.\<close>

definition objects_distinct :: "registry \<Rightarrow> action \<Rightarrow> bool" where
  "objects_distinct reg a =
     (\<forall>c \<in> set (map snd reg). cls_object c = cls_object (class_of a) \<longrightarrow> c = class_of a)"

lemma enum_values [simp]:
  "frequency_of (frequency_value f) = Some f" "notify_of (notify_value k) = Some k"
  by (cases f; simp add: frequency_of_def) (cases k; simp add: notify_of_def)

lemma opt_or_simps [simp]: "opt_or (Some v) d = v" "opt_or None d = d"
  by (simp_all add: opt_or_def)

lemma duplicates_iff: "duplicates ns = [] \<longleftrightarrow> distinct ns"
proof
  have "distinct ns \<Longrightarrow> count_list ns n \<le> 1" for n
    by (induction ns) auto
  then show "distinct ns \<Longrightarrow> duplicates ns = []"
    by (simp add: duplicates_def filter_empty_conv not_less)
qed (rule distinct_if_no_duplicates)

lemma validate_without_callbacks:
  assumes "validate_alert a = Inr a" and "list_ex (\<lambda>d. dest_kind d \<noteq> Callback) (al_destinations a)"
  defines "b \<equiv> a\<lparr>al_destinations := filter (\<lambda>d. dest_kind d \<noteq> Callback) (al_destinations a)\<rparr>"
  shows "validate_alert b = Inr b"
proof -
  have "distinct (map dest_name (al_destinations a))" "al_name a \<noteq> []"
    using validate_alert_names [OF assms(1)] by simp_all
  then have "distinct (map dest_name (al_destinations b))" "al_name b \<noteq> []"
    by (simp_all add: b_def distinct_map_filter)
  moreover have "al_destinations b \<noteq> []"
    using assms(2) by (auto simp: b_def list_ex_iff filter_empty_conv)
  ultimately show ?thesis by (simp add: validate_alert_def duplicates_iff)
qed

lemma class_of_simps [simp]: "class_of (without_callbacks a) = class_of a"
  by (cases a) simp_all

lemma parse_dump:
  assumes "custom_roundtrip dump parse" and "persistable a"
  shows "parse_fields parse (class_of a) (dump_fields dump a) = Inr (without_callbacks a)"
proof (cases a)
  case (Alert al)
  have eq: "\<lparr>al_name = al_name al, al_destinations = ds, al_frequency = al_frequency al,
      al_notify_on = al_notify_on al, al_severity = al_severity al\<rparr> = al\<lparr>al_destinations := ds\<rparr>" for ds
    by (cases al) simp
  with Alert assms show ?thesis
    using validate_without_callbacks [of al]
    by (simp add: parse_fields_def parse_alert_fields_def eq)
next
  case (CustomAction c n)
  have "c \<noteq> builtin_class i m k t" if "i \<in> {0, 1, 2}" for i m k t
    using assms(2) CustomAction that by (auto simp: builtin_class_def)
  with CustomAction assms(1) show ?thesis
    by (simp add: parse_fields_def custom_roundtrip_def)
qed (simp_all add: parse_fields_def builtin_class_def)

lemma derive_name_again:
  assumes "persistable a"
  shows "derive_name (without_callbacks a) c (derive_name a c n) = derive_name a c n"
proof -
  have "action_name_of (without_callbacks a) = action_name_of a" by (cases a) simp_all
  then show ?thesis by (simp add: derive_name_def split: option.split)
qed

lemma registered_class:
  assumes "validate_action_registered reg a = Inr ()" and "objects_distinct reg a"
  obtains t where "t \<noteq> []" and "cls_type_default (class_of a) = Some t"
    and "resolve_action_type reg t = Inr (class_of a)"
proof -
  from assms(1) obtain t c where t: "extract_action_type (class_of a) = Inr t"
    and c: "resolve_action_type reg t = Inr c" "cls_object (class_of a) = cls_object c"
    by (auto simp: validate_action_registered_def result_simps split: if_splits)
  from c have "c \<in> set (map snd reg)"
    by (force simp: resolve_action_type_def dest: map_of_SomeD split: option.splits)
  with c assms(2) have "c = class_of a" by (auto simp: objects_distinct_def)
  with c t that show ?thesis
    by (auto simp: extract_action_type_def split: option.splits if_splits)
qed

lemma from_to_dict:
  assumes built: "new_dq_action reg parse validate v c n = Inr dq"
    and rt: "custom_roundtrip dump parse" and "persistable (dq_act dq)"
    and objects: "objects_distinct reg (dq_act dq)"
  shows "from_dict reg parse validate (to_dict dump dq)
    = Inr (dq\<lparr>dq_act := without_callbacks (dq_act dq)\<rparr>)"
proof -
  from built obtain a where cond: "validate_condition_field validate c = Inr ()"
    and registered: "validate_action_registered reg a = Inr ()"
    and dq: "dq = \<lparr>dq_act = a, dq_condition = c, dq_name = derive_name a c n\<rparr>"
    by (auto simp: new_dq_action_Inr)
  from registered objects dq obtain t where t: "t \<noteq> []" "cls_type_default (class_of a) = Some t"
    and d: "resolve_action_type reg t = Inr (class_of a)"
    by (auto elim: registered_class)
  from parse_dump [OF rt] assms(3) dq
  have "resolve_action reg parse (ActionDict (Some t) (dump_fields dump a)) = Inr (without_callbacks a)"
    using t d by (simp add: resolve_action_def)
  moreover have "validate_action_registered reg (without_callbacks a) = Inr ()"
    using registered by (simp add: validate_action_registered_def)
  ultimately show ?thesis
    using cond t dq assms(3)
    by (simp add: to_dict_def from_dict_def new_dq_action_def derive_name_again)
qed


definition sample_binding :: dq_action where
  "sample_binding = \<lparr>dq_act = Alert (sample_alert\<lparr>al_name := ''a''\<rparr>),
     dq_condition = Some ''error_row_count > 0'', dq_name = ''a''\<rparr>"

definition no_custom :: "action_class \<Rightarrow> string \<Rightarrow> action_error + string" where
  "no_custom c s = Inr s"


end
