(* ===== verification/Action_State.thy ===== *)
theory Action_State
  imports Action_Binding
begin

section \<open>Alert state: frequency and status-change gating (\<open>actions/state.py\<close>)\<close>

text \<open>
  The in-memory state store of a run configuration, the interface of the persistent event store
  it is seeded from (the locale \<open>event_store\<close>), and what concurrent callers of the store see.
  Every method that holds the lock is one atomic step; a history of concurrent calls is the list
  of these steps in the order in which the lock was granted.
\<close>

subsection \<open>Events and the state store\<close>

record alert_event =
  ev_action_name :: string
  ev_condition :: "string option"
  ev_fired :: bool
  ev_status :: action_status
  ev_observed_metrics :: "(string, pyval) dict"
  ev_run_id :: string
  ev_run_time :: datetime
  ev_input_location :: "string option"
  ev_destinations :: "string list"
  ev_delivery_errors :: "string list"
  ev_run_config_name :: string

record 's state_store =
  ss_event_store :: "'s option"
  ss_last_fired :: "(string, datetime) dict"
  ss_last_status :: "(string, action_status) dict"

definition new_state_store :: "'s option \<Rightarrow> 's state_store" where
  "new_state_store es = \<lparr>ss_event_store = es, ss_last_fired = [], ss_last_status = []\<rparr>"

definition hour :: int where "hour = 3600 * 1000000"

definition check_frequency :: "'s state_store \<Rightarrow> alert_frequency \<Rightarrow> string \<Rightarrow> datetime \<Rightarrow> bool" where
  "check_frequency st freq n run_time =
     (if freq = ALWAYS then True
      else case dict_get (ss_last_fired st) n of
        None \<Rightarrow> True
      | Some prev \<Rightarrow>
          (let elapsed = utc_instant run_time - utc_instant prev in
           if freq = HOURLY then hour \<le> elapsed else 24 * hour \<le> elapsed))"

definition check_notify_on :: "'s state_store \<Rightarrow> notify_on \<Rightarrow> string \<Rightarrow> bool" where
  "check_notify_on st notify n =
     (if notify = EACH then True else dict_get (ss_last_status st) n \<noteq> Some UNHEALTHY)"

definition should_fire :: "'s state_store \<Rightarrow> dq_action \<Rightarrow> action_context \<Rightarrow> bool \<Rightarrow> bool" where
  "should_fire st dq ctx condition_result =
     (if \<not> condition_result then False
      else case dq_act dq of
        Alert a \<Rightarrow> check_frequency st (al_frequency a) (dq_name dq) (ctx_run_time ctx)
          \<and> check_notify_on st (al_notify_on a) (dq_name dq)
      | _ \<Rightarrow> True)"

fun is_alert :: "action \<Rightarrow> bool" where
  "is_alert (Alert _) = True"
| "is_alert _ = False"

definition try_fire ::
    "'s state_store \<Rightarrow> dq_action \<Rightarrow> action_context \<Rightarrow> bool \<Rightarrow> bool \<times> 's state_store" where
  "try_fire st dq ctx condition_result =
     (if \<not> should_fire st dq ctx condition_result then (False, st)
      else if is_alert (dq_act dq) then
        (True, st\<lparr>ss_last_fired := dict_set (ss_last_fired st) (dq_name dq) (ctx_run_time ctx),
                 ss_last_status := dict_set (ss_last_status st) (dq_name dq) UNHEALTHY\<rparr>)
      else (True, st))"

definition record_memory :: "alert_event \<Rightarrow> 's state_store \<Rightarrow> 's state_store" where
  "record_memory e st = st\<lparr>
     ss_last_fired := (if ev_fired e then dict_set (ss_last_fired st) (ev_action_name e) (ev_run_time e)
       else ss_last_fired st),
     ss_last_status := dict_set (ss_last_status st) (ev_action_name e) (ev_status e)\<rparr>"

text \<open>An event store is the functions \<open>app\<close>, \<open>latest\<close> and \<open>last_fired\<close> on its state; each may
  raise. A failing \<open>app\<close> is logged and leaves the memory as it is.\<close>

definition record_event ::
    "('s \<Rightarrow> alert_event list \<Rightarrow> 'e + 's) \<Rightarrow> alert_event \<Rightarrow> 's state_store \<Rightarrow> 's state_store" where
  "record_event app e st = (let st = record_memory e st in
     case ss_event_store st of
       None \<Rightarrow> st
     | Some s \<Rightarrow> (case app s [e] of
         Inl _ \<Rightarrow> st
       | Inr s' \<Rightarrow> st\<lparr>ss_event_store := Some s'\<rparr>))"

definition seed ::
    "('s \<Rightarrow> 'e + (string, alert_event) dict) \<Rightarrow> ('s \<Rightarrow> 'e + (string, datetime) dict)
     \<Rightarrow> 's state_store \<Rightarrow> 'e + 's state_store" where
  "seed latest last_fired st = (case ss_event_store st of
     None \<Rightarrow> Inr st
   | Some s \<Rightarrow> sbind (latest s) (\<lambda>evs. sbind (last_fired s) (\<lambda>fs. Inr
       (st\<lparr>ss_last_fired := dict_update [] fs,
           ss_last_status := dict_update [] (map (\<lambda>(n, e). (n, ev_status e)) evs)\<rparr>))))"

subsection \<open>Concurrent use: the alert of a frequency window fires once\<close>

datatype store_op = TryFire dq_action action_context bool | Record alert_event

fun run_ops :: "'s state_store \<Rightarrow> store_op list \<Rightarrow> 's state_store \<times> (dq_action \<times> action_context) list" where
  "run_ops st [] = (st, [])"
| "run_ops st (TryFire dq ctx c # ops) = (case try_fire st dq ctx c of (b, st') \<Rightarrow>
     (case run_ops st' ops of (st'', fs) \<Rightarrow> (st'', if b then (dq, ctx) # fs else fs)))"
| "run_ops st (Record e # ops) = run_ops (record_memory e st) ops"

definition fire_times :: "string \<Rightarrow> (dq_action \<times> action_context) list \<Rightarrow> int list" where
  "fire_times n fs = map (\<lambda>p. utc_instant (ctx_run_time (snd p))) (filter (\<lambda>p. dq_name (fst p) = n) fs)"

fun op_name :: "store_op \<Rightarrow> string" where
  "op_name (TryFire dq _ _) = dq_name dq"
| "op_name (Record e) = ev_action_name e"

fun op_instant :: "store_op \<Rightarrow> int" where
  "op_instant (TryFire _ ctx _) = utc_instant (ctx_run_time ctx)"
| "op_instant (Record e) = utc_instant (ev_run_time e)"

definition window_of :: "alert_frequency \<Rightarrow> int" where
  "window_of f = (case f of ALWAYS \<Rightarrow> 0 | HOURLY \<Rightarrow> hour | DAILY \<Rightarrow> 24 * hour)"

fun op_frequency :: "alert_frequency \<Rightarrow> store_op \<Rightarrow> bool" where
  "op_frequency f (TryFire dq _ _) = (case dq_act dq of Alert a \<Rightarrow> al_frequency a = f | _ \<Rightarrow> False)"
| "op_frequency f (Record _) = True"

lemma check_frequency_window:
  "check_frequency st f n t \<Longrightarrow> dict_get (ss_last_fired st) n = Some prev \<Longrightarrow> f \<noteq> ALWAYS
    \<Longrightarrow> window_of f \<le> utc_instant t - utc_instant prev"
  by (cases f) (auto simp: check_frequency_def window_of_def)

lemma last_fired_after_try:
  "try_fire st dq ctx c = (b, st') \<Longrightarrow> dict_get (ss_last_fired st') n =
     (if b \<and> is_alert (dq_act dq) \<and> dq_name dq = n then Some (ctx_run_time ctx)
      else dict_get (ss_last_fired st) n)"
  by (auto simp: try_fire_def split: if_splits)

lemma last_fired_after_record:
  "dict_get (ss_last_fired (record_memory e st)) n =
     (if ev_fired e \<and> ev_action_name e = n then Some (ev_run_time e) else dict_get (ss_last_fired st) n)"
  by (simp add: record_memory_def)

lemma try_fire_spaced:
  assumes "try_fire st dq ctx c = (True, st')" and "op_frequency f (TryFire dq ctx c)" and "f \<noteq> ALWAYS"
    and "dict_get (ss_last_fired st) (dq_name dq) = Some prev"
  shows "window_of f \<le> utc_instant (ctx_run_time ctx) - utc_instant prev"
  using assms by (auto simp: try_fire_def should_fire_def split: if_splits action.splits
      intro: check_frequency_window)

lemma run_ops_spaced:
  assumes "f \<noteq> ALWAYS" and "\<forall>op \<in> set ops. op_name op = n \<longrightarrow> op_frequency f op"
    and "sorted (map op_instant (filter (\<lambda>op. op_name op = n) ops))"
    and "\<forall>op \<in> set ops. op_name op = n \<longrightarrow> lo \<le> op_instant op"
    and "fired \<Longrightarrow> (\<exists>prev. dict_get (ss_last_fired st) n = Some prev \<and> lo \<le> utc_instant prev)"
  shows "sorted_wrt (\<lambda>s t. window_of f \<le> t - s) ((if fired then [lo] else []) @ fire_times n (snd (run_ops st ops)))"
  using assms(2-)
proof (induction ops arbitrary: st lo fired)
  case Nil
  then show ?case by (simp add: fire_times_def)
next
  case (Cons op ops)
  have pos: "0 \<le> window_of f" by (cases f) (simp_all add: window_of_def hour_def)
  show ?case
  proof (cases op)
    case (Record e)
    have "fired \<Longrightarrow> \<exists>prev. dict_get (ss_last_fired (record_memory e st)) n = Some prev \<and> lo \<le> utc_instant prev"
      using Cons.prems Record by (auto simp: last_fired_after_record)
    with Cons.prems Cons.IH [of lo fired "record_memory e st"] Record show ?thesis
      by (auto split: if_splits)
  next
    case (TryFire dq ctx c)
    obtain b st' where t: "try_fire st dq ctx c = (b, st')" by fastforce
    let ?now = "utc_instant (ctx_run_time ctx)"
    show ?thesis
    proof (cases "b \<and> dq_name dq = n")
      case False
      then have "dict_get (ss_last_fired st') n = dict_get (ss_last_fired st) n"
        using last_fired_after_try [OF t] by auto
      with Cons.prems Cons.IH [of lo fired st'] TryFire t False show ?thesis
        by (auto simp: fire_times_def split: if_splits prod.splits)
    next
      case True
      with Cons.prems(1) TryFire have freq: "op_frequency f (TryFire dq ctx c)" by auto
      then have alert: "is_alert (dq_act dq)" by (auto split: action.splits)
      have "sorted_wrt (\<lambda>s t. window_of f \<le> t - s) ([?now] @ fire_times n (snd (run_ops st' ops)))"
        using Cons.prems Cons.IH [of ?now True st'] TryFire True alert last_fired_after_try [OF t, of n]
        by auto
      moreover have "fired \<Longrightarrow> window_of f \<le> ?now - lo"
        using Cons.prems(4) try_fire_spaced [of st dq ctx c st' f] t True freq assms(1) by force
      ultimately show ?thesis
        using TryFire t True pos by (auto simp: fire_times_def split: prod.splits) (smt (verit))+
    qed
  qed
qed

lemma instants_bounded_below: "\<exists>lo. \<forall>op \<in> set ops. lo \<le> op_instant op"
proof (induction ops)
  case (Cons op ops)
  then obtain lo where "\<forall>op \<in> set ops. lo \<le> op_instant op" by blast
  then have "\<forall>x \<in> set (op # ops). min lo (op_instant op) \<le> op_instant x" by auto
  then show ?case by blast
qed simp

text \<open>C33: whatever threads share a state store, as long as its steps on an hourly or daily alert are
  taken in the order of their run times, two notifications of the alert are a full window apart.\<close>

theorem one_alert_per_window:
  assumes "f \<noteq> ALWAYS" and "\<forall>op \<in> set ops. op_name op = n \<longrightarrow> op_frequency f op"
    and "sorted (map op_instant (filter (\<lambda>op. op_name op = n) ops))"
  shows "sorted_wrt (\<lambda>s t. window_of f \<le> t - s) (fire_times n (snd (run_ops st ops)))"
proof -
  obtain lo where "\<forall>op \<in> set ops. lo \<le> op_instant op" using instants_bounded_below by blast
  with run_ops_spaced [OF assms, of lo False st] show ?thesis by simp
qed

definition at_time :: "int \<Rightarrow> action_context" where
  "at_time t = sample_context\<lparr>ctx_run_time := \<lparr>dt_wall = t, dt_offset = Some 0\<rparr>\<rparr>"

definition fired_at :: "string \<Rightarrow> int \<Rightarrow> alert_event" where
  "fired_at n t = \<lparr>ev_action_name = n, ev_condition = None, ev_fired = True, ev_status = UNHEALTHY,
     ev_observed_metrics = [], ev_run_id = ''r'', ev_run_time = \<lparr>dt_wall = t, dt_offset = Some 0\<rparr>,
     ev_input_location = None, ev_destinations = [], ev_delivery_errors = [],
     ev_run_config_name = ''default''\<rparr>"

theorem one_alert_per_window_witness:
  "let ops = [TryFire sample_binding (at_time 0) True, TryFire sample_binding (at_time 5) True,
       Record (fired_at ''a'' 5), TryFire sample_binding (at_time (5 + hour)) True] in
   sorted_wrt (\<lambda>s t. window_of HOURLY \<le> t - s)
     (fire_times ''a'' (snd (run_ops (new_state_store None :: unit state_store) ops)))"
  unfolding Let_def
  by (rule one_alert_per_window)
     (simp_all add: sample_binding_def sample_alert_def at_time_def fired_at_def hour_def
       utc_instant_def to_utc_def)

text \<open>A record that arrives after a later reservation moves the frequency window back: an
  hourly alert that fired at \<open>t0\<close> and again an hour later at \<open>t1\<close> fires a third time at any \<open>t2\<close>
  past the first hour, even at \<open>t1\<close> itself, if the event of \<open>t0\<close> is recorded in between.\<close>

theorem late_record_reopens_window:
  assumes "dq_act dq = Alert a" and "al_frequency a = HOURLY" and "al_notify_on a = EACH"
    and "dict_get (ss_last_fired st) (dq_name dq) = None"
    and "hour \<le> utc_instant (ctx_run_time c1) - utc_instant (ctx_run_time c0)"
    and "hour \<le> utc_instant (ctx_run_time c2) - utc_instant (ctx_run_time c0)"
    and "ev_action_name e = dq_name dq" and "ev_fired e" and "ev_run_time e = ctx_run_time c0"
  shows "fire_times (dq_name dq) (snd (run_ops st
      [TryFire dq c0 True, TryFire dq c1 True, Record e, TryFire dq c2 True]))
    = map (\<lambda>c. utc_instant (ctx_run_time c)) [c0, c1, c2]"
  using assms
  by (simp add: try_fire_def should_fire_def check_frequency_def check_notify_on_def record_memory_def
      fire_times_def Let_def split: prod.splits)

theorem late_record_reopens_window_witness:
  "fire_times ''a'' (snd (run_ops (new_state_store None :: unit state_store)
      [TryFire sample_binding (at_time 0) True, TryFire sample_binding (at_time hour) True,
       Record (fired_at ''a'' 0), TryFire sample_binding (at_time (hour + 1)) True]))
    = [0, hour, hour + 1]"
  using late_record_reopens_window [of sample_binding "sample_alert\<lparr>al_name := ''a''\<rparr>"
      "new_state_store None :: unit state_store" "at_time hour" "at_time 0" "at_time (hour + 1)"
      "fired_at ''a'' 0"]
  by (simp add: sample_binding_def sample_alert_def at_time_def fired_at_def new_state_store_def
      utc_instant_def to_utc_def)

subsection \<open>The interface of the persistent event store\<close>

text \<open>What the state store relies on of an event store: the entries of its run configuration, in the
  order they were appended, and the answers of the two loaders in terms of these entries.\<close>

record log_entry =
  en_name :: string
  en_fired :: bool
  en_status :: action_status
  en_instant :: int

definition entry :: "alert_event \<Rightarrow> log_entry" where
  "entry e = \<lparr>en_name = ev_action_name e, en_fired = ev_fired e, en_status = ev_status e,
     en_instant = utc_instant (ev_run_time e)\<rparr>"

lemma entry_simps [simp]:
  "en_name (entry e) = ev_action_name e" "en_fired (entry e) = ev_fired e"
  "en_status (entry e) = ev_status e" "en_instant (entry e) = utc_instant (ev_run_time e)"
  by (simp_all add: entry_def)

definition is_newest :: "log_entry list \<Rightarrow> (log_entry \<Rightarrow> bool) \<Rightarrow> log_entry \<Rightarrow> bool" where
  "is_newest xs P x = (x \<in> set xs \<and> P x \<and> (\<forall>y \<in> set xs. P y \<longrightarrow> en_instant y \<le> en_instant x))"

definition last_entry :: "(log_entry \<Rightarrow> bool) \<Rightarrow> log_entry list \<Rightarrow> log_entry option" where
  "last_entry P xs = (if filter P xs = [] then None else Some (last (filter P xs)))"

definition chronological :: "log_entry list \<Rightarrow> bool" where
  "chronological xs = sorted_wrt (\<lambda>x y. en_name x = en_name y \<longrightarrow> en_instant x < en_instant y) xs"

lemma last_entry_snoc: "last_entry P (xs @ [x]) = (if P x then Some x else last_entry P xs)"
  by (simp add: last_entry_def)

lemma last_entry_None: "last_entry P xs = None \<longleftrightarrow> (\<forall>x \<in> set xs. \<not> P x)"
  by (simp add: last_entry_def filter_empty_conv)

lemma newest_is_last:
  assumes "chronological xs" and "is_newest xs P x" and "\<forall>y. P y \<longrightarrow> en_name y = n"
  shows "last_entry P xs = Some x"
  using assms(1,2)
proof (induction xs rule: rev_induct)
  case Nil
  then show ?case by (simp add: is_newest_def)
next
  case (snoc z zs)
  from snoc.prems(1) have chron: "chronological zs"
    and below: "\<forall>y \<in> set zs. en_name y = en_name z \<longrightarrow> en_instant y < en_instant z"
    by (auto simp: chronological_def sorted_wrt_append)
  have "P x" using snoc.prems(2) by (simp add: is_newest_def)
  show ?case
  proof (cases "P z")
    case True
    then have "en_instant z \<le> en_instant x" using snoc.prems(2) by (auto simp: is_newest_def)
    moreover have "en_name x = en_name z" using assms(3) True \<open>P x\<close> by auto
    ultimately have "x = z" using below snoc.prems(2) by (force simp: is_newest_def)
    then show ?thesis using True by (simp add: last_entry_snoc)
  next
    case False
    then have "is_newest zs P x" using snoc.prems(2) \<open>P x\<close> by (auto simp: is_newest_def)
    with chron False snoc.IH show ?thesis by (simp add: last_entry_snoc)
  qed
qed

locale event_store =
  fixes app :: "'s \<Rightarrow> alert_event list \<Rightarrow> 'e + 's"
    and latest :: "'s \<Rightarrow> 'e + (string, alert_event) dict"
    and last_fired :: "'s \<Rightarrow> 'e + (string, datetime) dict"
    and valid :: "'s \<Rightarrow> bool"
    and log :: "'s \<Rightarrow> log_entry list"
  assumes app_law: "valid s \<Longrightarrow> \<exists>s'. app s es = Inr s' \<and> valid s' \<and> log s' = log s @ map entry es"
    and latest_law: "valid s \<Longrightarrow> \<exists>d. latest s = Inr d \<and> dict_ok d \<and> (\<forall>n. case dict_get d n of
          None \<Rightarrow> \<forall>x \<in> set (log s). en_name x \<noteq> n
        | Some e \<Rightarrow> is_newest (log s) (\<lambda>x. en_name x = n) (entry e))"
    and last_fired_law: "valid s \<Longrightarrow> \<exists>d. last_fired s = Inr d \<and> dict_ok d \<and> (\<forall>n. case dict_get d n of
          None \<Rightarrow> \<forall>x \<in> set (log s). \<not> (en_name x = n \<and> en_fired x)
        | Some t \<Rightarrow> \<exists>x. is_newest (log s) (\<lambda>x. en_name x = n \<and> en_fired x) x \<and> en_instant x = utc_instant t)"
begin

lemma seed_from_log:
  assumes "valid s" and "chronological (log s)" and "ss_event_store st = Some s"
  shows "\<exists>st'. seed latest last_fired st = Inr st' \<and> ss_event_store st' = Some s
    \<and> (\<forall>n. dict_get (ss_last_status st') n = map_option en_status (last_entry (\<lambda>x. en_name x = n) (log s)))
    \<and> (\<forall>n. map_option utc_instant (dict_get (ss_last_fired st') n)
        = map_option en_instant (last_entry (\<lambda>x. en_name x = n \<and> en_fired x) (log s)))"
proof -
  obtain d where d: "latest s = Inr d" "dict_ok d"
    and dn: "\<And>n. case dict_get d n of None \<Rightarrow> \<forall>x \<in> set (log s). en_name x \<noteq> n
        | Some e \<Rightarrow> is_newest (log s) (\<lambda>x. en_name x = n) (entry e)"
    using latest_law [OF assms(1)] by blast
  obtain g where g: "last_fired s = Inr g" "dict_ok g"
    and gn: "\<And>n. case dict_get g n of None \<Rightarrow> \<forall>x \<in> set (log s). \<not> (en_name x = n \<and> en_fired x)
        | Some t \<Rightarrow> \<exists>x. is_newest (log s) (\<lambda>x. en_name x = n \<and> en_fired x) x \<and> en_instant x = utc_instant t"
    using last_fired_law [OF assms(1)] by blast
  let ?st = "st\<lparr>ss_last_fired := dict_update [] g,
      ss_last_status := dict_update [] (map (\<lambda>(n, e). (n, ev_status e)) d)\<rparr>"
  have ok: "dict_ok (map (\<lambda>(n, e). (n, ev_status e)) d)"
    using d(2) by (simp add: dict_ok_def comp_def split_def)
  have status: "dict_get (ss_last_status ?st) n = map_option en_status (last_entry (\<lambda>x. en_name x = n) (log s))" for n
  proof (cases "dict_get d n")
    case None
    then show ?thesis using dn [of n]
      by (simp add: dict_get_update_ok [OF ok] map_of_map last_entry_None [THEN iffD2])
  next
    case (Some e)
    then have "last_entry (\<lambda>x. en_name x = n) (log s) = Some (entry e)"
      using newest_is_last [OF assms(2), of "\<lambda>x. en_name x = n" "entry e" n] dn [of n] by simp
    with Some show ?thesis by (simp add: dict_get_update_ok [OF ok] map_of_map)
  qed
  have fired: "map_option utc_instant (dict_get (ss_last_fired ?st) n)
      = map_option en_instant (last_entry (\<lambda>x. en_name x = n \<and> en_fired x) (log s))" for n
  proof (cases "dict_get g n")
    case None
    then show ?thesis using gn [of n]
      by (simp add: dict_get_update_ok [OF g(2)] last_entry_None [THEN iffD2])
  next
    case (Some t)
    then obtain x where "is_newest (log s) (\<lambda>x. en_name x = n \<and> en_fired x) x" "en_instant x = utc_instant t"
      using gn [of n] by auto
    moreover from this have "last_entry (\<lambda>x. en_name x = n \<and> en_fired x) (log s) = Some x"
      using newest_is_last [OF assms(2), of "\<lambda>x. en_name x = n \<and> en_fired x" x n] by simp
    ultimately show ?thesis using Some by (simp add: dict_get_update_ok [OF g(2)])
  qed
  show ?thesis
    using status fired assms(3) d(1) g(1) by (intro exI [of _ ?st]) (simp add: seed_def)
qed

text \<open>The memory of a state store agrees with the log of its event store.\<close>

definition agrees :: "'s state_store \<Rightarrow> bool" where
  "agrees st = (\<exists>s. ss_event_store st = Some s \<and> valid s
    \<and> (\<forall>n. dict_get (ss_last_status st) n = map_option en_status (last_entry (\<lambda>x. en_name x = n) (log s)))
    \<and> (\<forall>n. map_option utc_instant (dict_get (ss_last_fired st) n)
        = map_option en_instant (last_entry (\<lambda>x. en_name x = n \<and> en_fired x) (log s))))"

lemma agrees_new: "valid s \<Longrightarrow> log s = [] \<Longrightarrow> agrees (new_state_store (Some s))"
  by (simp add: agrees_def new_state_store_def last_entry_def)

lemma agrees_record: "agrees st \<Longrightarrow> agrees (record_event app e st)"
proof -
  assume "agrees st"
  then obtain s where s: "ss_event_store st = Some s" "valid s"
    and mem: "\<forall>n. dict_get (ss_last_status st) n = map_option en_status (last_entry (\<lambda>x. en_name x = n) (log s))"
      "\<forall>n. map_option utc_instant (dict_get (ss_last_fired st) n)
        = map_option en_instant (last_entry (\<lambda>x. en_name x = n \<and> en_fired x) (log s))"
    by (auto simp: agrees_def)
  obtain s' where s': "app s [e] = Inr s'" "valid s'" "log s' = log s @ [entry e]"
    using app_law [OF s(2), of "[e]"] by auto
  have "record_event app e st = (record_memory e st)\<lparr>ss_event_store := Some s'\<rparr>"
    using s s' by (simp add: record_event_def record_memory_def)
  then show ?thesis
    using s' mem by (simp add: agrees_def record_memory_def last_entry_snoc)
qed

lemma agrees_records: "agrees st \<Longrightarrow> agrees (fold (record_event app) es st)"
  by (induction es arbitrary: st) (auto intro: agrees_record)

lemma gates_of_agreeing:
  assumes "dict_get (ss_last_status st) = dict_get (ss_last_status st')"
    and "\<And>n. map_option utc_instant (dict_get (ss_last_fired st) n)
      = map_option utc_instant (dict_get (ss_last_fired st') n)"
  shows "should_fire st dq ctx c = should_fire st' dq ctx c"
proof -
  have "check_frequency st f n t = check_frequency st' f n t" for f n t
    using assms(2) [of n] by (auto simp: check_frequency_def split: option.splits)
  then show ?thesis
    using assms(1) by (simp add: should_fire_def check_notify_on_def split: action.split)
qed

lemma restart_gates:
  assumes "agrees st" and "ss_event_store st = Some s" and "chronological (log s)"
  shows "\<exists>st'. seed latest last_fired (new_state_store (Some s)) = Inr st'
    \<and> (\<forall>dq ctx c. should_fire st' dq ctx c = should_fire st dq ctx c)"
proof -
  have "valid s" using assms(1,2) by (auto simp: agrees_def)
  then obtain st' where st': "seed latest last_fired (new_state_store (Some s)) = Inr st'"
    and mem: "\<forall>n. dict_get (ss_last_status st') n = map_option en_status (last_entry (\<lambda>x. en_name x = n) (log s))"
      "\<forall>n. map_option utc_instant (dict_get (ss_last_fired st') n)
        = map_option en_instant (last_entry (\<lambda>x. en_name x = n \<and> en_fired x) (log s))"
    using seed_from_log [OF _ assms(3), of "new_state_store (Some s)"] by (auto simp: new_state_store_def)
  have "should_fire st' dq ctx c = should_fire st dq ctx c" for dq ctx c
    using assms(1,2) mem by (intro gates_of_agreeing) (auto simp: agrees_def fun_eq_iff)
  with st' show ?thesis by blast
qed

lemma events_logged:
  assumes "agrees st" and "ss_event_store st = Some s"
  shows "\<exists>s'. ss_event_store (fold (record_event app) es st) = Some s' \<and> valid s'
    \<and> log s' = log s @ map entry es"
  using assms
proof (induction es arbitrary: st s)
  case Nil
  then show ?case by (auto simp: agrees_def)
next
  case (Cons e es)
  then have "valid s" by (auto simp: agrees_def)
  then obtain s1 where s1: "app s [e] = Inr s1" "log s1 = log s @ [entry e]"
    using app_law [of s "[e]"] by auto
  then have "ss_event_store (record_event app e st) = Some s1"
    using Cons.prems(2) by (simp add: record_event_def record_memory_def)
  from Cons.IH [OF agrees_record [OF Cons.prems(1)] this] s1 show ?case by auto
qed

text \<open>A process that seeds its memory, records events and is restarted decides as if it had not been.\<close>

lemma restart_after_records:
  assumes "valid s" and "seed latest last_fired (new_state_store (Some s)) = Inr st0"
    and "chronological (log s @ map entry es)" and "st = fold (record_event app) es st0"
  shows "\<exists>s' st'. ss_event_store st = Some s' \<and> log s' = log s @ map entry es
    \<and> seed latest last_fired (new_state_store (Some s')) = Inr st'
    \<and> (\<forall>dq ctx c. should_fire st' dq ctx c = should_fire st dq ctx c)"
proof -
  have "chronological (log s)" using assms(3) by (simp add: chronological_def sorted_wrt_append)
  from seed_from_log [OF assms(1) this, of "new_state_store (Some s)"] assms(1,2)
  have st0: "agrees st0" "ss_event_store st0 = Some s" by (auto simp: agrees_def new_state_store_def)
  from events_logged [OF this, of es] obtain s' where s': "ss_event_store st = Some s'"
    "log s' = log s @ map entry es" using assms(4) by auto
  moreover have "agrees st" using st0 assms(4) by (simp add: agrees_records)
  ultimately show ?thesis using restart_gates [of st s'] assms(3) by auto
qed

end

end
