(* ===== verification/Event_Store.thy ===== *)
theory Event_Store
  imports Action_State
begin

section \<open>The persistent event stores (\<open>actions/event_storage.py\<close>)\<close>

text \<open>
  The Delta-table store and the Lakebase (PostgreSQL) store of alert events. A table is the list
  of its rows in the order of insertion; \<open>None\<close> is a table that does not exist. The order in
  which the engine returns rows, and so the row it prefers among rows of equal time, is the
  parameter \<open>scan\<close>, which ranks the rows of a list. A \<open>TIMESTAMP\<close> is the instant it denotes, \<open>None\<close> for \<open>NULL\<close>, and is read back
  as a naive date-time.
\<close>

record event_row =
  row_action_name :: string
  row_condition :: "string option"
  row_fired :: bool
  row_status :: string
  row_observed_metrics :: "text_dict option"
  row_run_id :: string
  row_run_time :: "int option"
  row_input_location :: "string option"
  row_destinations :: "string list option"
  row_delivery_errors :: "string list option"
  row_run_config_name :: string

datatype store_error = UnknownStatus string | NoSuchTable

type_synonym scan_order = "event_row list \<Rightarrow> event_row \<Rightarrow> nat"

definition engine_order :: "scan_order \<Rightarrow> event_row list \<Rightarrow> event_row list" where
  "engine_order scan rows = sort_key (scan rows) rows"

lemma set_engine_order [simp]: "set (engine_order scan rows) = set rows"
  by (simp add: engine_order_def)

definition status_of_value :: "string \<Rightarrow> action_status option" where
  "status_of_value s = (if s = ''healthy'' then Some HEALTHY else if s = ''unhealthy'' then Some UNHEALTHY
     else if s = ''config_error'' then Some CONFIG_ERROR else None)"

lemma status_of_value_inverse [simp]: "status_of_value (status_value s) = Some s"
  by (cases s) (simp_all add: status_of_value_def)

definition event_to_row :: "(pyval \<Rightarrow> string) \<Rightarrow> string \<Rightarrow> alert_event \<Rightarrow> event_row" where
  "event_to_row str_of cfg e = \<lparr>row_action_name = ev_action_name e, row_condition = ev_condition e,
     row_fired = ev_fired e, row_status = status_value (ev_status e),
     row_observed_metrics = Some (map (\<lambda>(k, v). (k, py_str str_of v)) (ev_observed_metrics e)),
     row_run_id = ev_run_id e, row_run_time = Some (utc_instant (ev_run_time e)),
     row_input_location = ev_input_location e, row_destinations = Some (ev_destinations e),
     row_delivery_errors = Some (ev_delivery_errors e), row_run_config_name = cfg\<rparr>"

definition column_datetime :: "int \<Rightarrow> datetime" where
  "column_datetime t = to_utc \<lparr>dt_wall = t, dt_offset = None\<rparr>"

definition row_to_event :: "event_row \<Rightarrow> int \<Rightarrow> store_error + alert_event" where
  "row_to_event r t = (case status_of_value (row_status r) of
     None \<Rightarrow> Inl (UnknownStatus (row_status r))
   | Some s \<Rightarrow> Inr \<lparr>ev_action_name = row_action_name r, ev_condition = row_condition r,
       ev_fired = row_fired r, ev_status = s,
       ev_observed_metrics = (case row_observed_metrics r of None \<Rightarrow> [] | Some d \<Rightarrow> map (\<lambda>(k, v). (k, VStr v)) d),
       ev_run_id = row_run_id r, ev_run_time = column_datetime t,
       ev_input_location = row_input_location r,
       ev_destinations = (case row_destinations r of None \<Rightarrow> [] | Some l \<Rightarrow> l),
       ev_delivery_errors = (case row_delivery_errors r of None \<Rightarrow> [] | Some l \<Rightarrow> l),
       ev_run_config_name = row_run_config_name r\<rparr>)"

text \<open>The first row in the order of descending \<open>run_time\<close> with \<open>NULL\<close> last.\<close>

definition later :: "event_row \<Rightarrow> event_row \<Rightarrow> bool" where
  "later q r = (case (row_run_time q, row_run_time r) of
     (Some a, Some b) \<Rightarrow> b < a | (Some a, None) \<Rightarrow> True | _ \<Rightarrow> False)"

fun first_desc :: "event_row list \<Rightarrow> event_row option" where
  "first_desc [] = None"
| "first_desc (r # rs) = (case first_desc rs of
     None \<Rightarrow> Some r
   | Some q \<Rightarrow> if later q r then Some q else Some r)"

definition first_per_action :: "event_row list \<Rightarrow> event_row list" where
  "first_per_action rows =
     concat (map (\<lambda>n. case first_desc (filter (\<lambda>r. row_action_name r = n) rows) of
         None \<Rightarrow> [] | Some r \<Rightarrow> [r])
       (remdups (map row_action_name rows)))"

fun collect_latest ::
    "(string, alert_event) dict \<Rightarrow> event_row list \<Rightarrow> store_error + (string, alert_event) dict" where
  "collect_latest result [] = Inr result"
| "collect_latest result (r # rs) = (case row_run_time r of
     None \<Rightarrow> collect_latest result rs
   | Some t \<Rightarrow> sbind (row_to_event r t) (\<lambda>e. collect_latest (dict_set result (row_action_name r) e) rs))"

fun collect_times :: "(string, datetime) dict \<Rightarrow> event_row list \<Rightarrow> (string, datetime) dict" where
  "collect_times result [] = result"
| "collect_times result (r # rs) = (case row_run_time r of
     None \<Rightarrow> collect_times result rs
   | Some t \<Rightarrow> collect_times (dict_set result (row_action_name r) (column_datetime t)) rs)"

subsection \<open>\<open>TableActionEventStore\<close>\<close>

type_synonym event_table = "event_row list option"

definition table_rows :: "event_table \<Rightarrow> event_row list" where
  "table_rows tbl = (case tbl of None \<Rightarrow> [] | Some rows \<Rightarrow> rows)"

definition table_append ::
    "(pyval \<Rightarrow> string) \<Rightarrow> string \<Rightarrow> event_table \<Rightarrow> alert_event list \<Rightarrow> store_error + event_table" where
  "table_append str_of cfg tbl events =
     (if events = [] then Inr tbl
      else Inr (Some (table_rows tbl @ map (event_to_row str_of cfg) events)))"

definition table_load_latest ::
    "scan_order \<Rightarrow> string \<Rightarrow> event_table \<Rightarrow> store_error + (string, alert_event) dict" where
  "table_load_latest scan cfg tbl = (case tbl of
     None \<Rightarrow> Inr []
   | Some rows \<Rightarrow> collect_latest []
       (first_per_action (engine_order scan (filter (\<lambda>r. row_run_config_name r = cfg) rows))))"

definition max_time :: "event_row list \<Rightarrow> int option" where
  "max_time rows = (case List.map_filter row_run_time rows of
     [] \<Rightarrow> None
   | t # ts \<Rightarrow> Some (fold max ts t))"

definition table_load_last_fired ::
    "scan_order \<Rightarrow> string \<Rightarrow> event_table \<Rightarrow> store_error + (string, datetime) dict" where
  "table_load_last_fired scan cfg tbl = (case tbl of
     None \<Rightarrow> Inr []
   | Some rows \<Rightarrow>
       (let fired = engine_order scan (filter (\<lambda>r. row_run_config_name r = cfg \<and> row_fired r) rows);
            grouped = map (\<lambda>n. (n, max_time (filter (\<lambda>r. row_action_name r = n) fired)))
              (remdups (map row_action_name fired))
        in Inr (List.map_filter (\<lambda>(n, t). map_option (\<lambda>t. (n, column_datetime t)) t) grouped)))"

subsection \<open>\<open>LakebaseActionEventStore\<close>\<close>

record lakebase =
  lb_bootstrapped :: bool
  lb_schema :: bool
  lb_table :: event_table

definition lakebase_bootstrap :: "lakebase \<Rightarrow> lakebase" where
  "lakebase_bootstrap lb = lb\<lparr>lb_schema := True, lb_table := Some (table_rows (lb_table lb))\<rparr>"

definition ensure_bootstrapped :: "lakebase \<Rightarrow> lakebase" where
  "ensure_bootstrapped lb =
     (if lb_bootstrapped lb then lb else (lakebase_bootstrap lb)\<lparr>lb_bootstrapped := True\<rparr>)"

definition lakebase_append ::
    "(pyval \<Rightarrow> string) \<Rightarrow> string \<Rightarrow> lakebase \<Rightarrow> alert_event list \<Rightarrow> store_error + lakebase" where
  "lakebase_append str_of cfg lb events =
     (if events = [] then Inr lb
      else let lb = ensure_bootstrapped lb in
        (case lb_table lb of
           None \<Rightarrow> Inl NoSuchTable
         | Some rows \<Rightarrow> Inr (lb\<lparr>lb_table := Some (rows @ map (event_to_row str_of cfg) events)\<rparr>)))"

definition lakebase_load_latest ::
    "scan_order \<Rightarrow> string \<Rightarrow> lakebase \<Rightarrow> store_error + (string, alert_event) dict" where
  "lakebase_load_latest scan cfg lb = (case lb_table lb of
     None \<Rightarrow> Inr []
   | Some rows \<Rightarrow> collect_latest []
       (first_per_action (engine_order scan (filter (\<lambda>r. row_run_config_name r = cfg) rows))))"

definition lakebase_load_last_fired ::
    "scan_order \<Rightarrow> string \<Rightarrow> lakebase \<Rightarrow> store_error + (string, datetime) dict" where
  "lakebase_load_last_fired scan cfg lb = (case lb_table lb of
     None \<Rightarrow> Inr []
   | Some rows \<Rightarrow> Inr (collect_times []
       (first_per_action (engine_order scan (filter (\<lambda>r. row_run_config_name r = cfg \<and> row_fired r) rows)))))"

subsection \<open>What the loaders return\<close>

text \<open>The rows of a run configuration that have a time are its log.\<close>

definition row_entry :: "event_row \<Rightarrow> log_entry option" where
  "row_entry r = (case (row_run_time r, status_of_value (row_status r)) of
     (Some t, Some s) \<Rightarrow> Some \<lparr>en_name = row_action_name r, en_fired = row_fired r, en_status = s, en_instant = t\<rparr>
   | _ \<Rightarrow> None)"

definition table_log :: "string \<Rightarrow> event_table \<Rightarrow> log_entry list" where
  "table_log cfg tbl = List.map_filter row_entry (filter (\<lambda>r. row_run_config_name r = cfg) (table_rows tbl))"

definition table_valid :: "string \<Rightarrow> event_table \<Rightarrow> bool" where
  "table_valid cfg tbl = (\<forall>r \<in> set (table_rows tbl).
     row_run_config_name r = cfg \<and> row_run_time r \<noteq> None \<longrightarrow> status_of_value (row_status r) \<noteq> None)"

lemma first_desc_None [simp]: "first_desc rows = None \<longleftrightarrow> rows = []"
  by (cases rows) (auto split: option.splits)

lemma first_desc_in: "first_desc rows = Some r \<Longrightarrow> r \<in> set rows"
  by (induction rows arbitrary: r) (auto split: option.splits if_splits)

lemma first_desc_newest:
  "first_desc rows = Some r \<Longrightarrow> q \<in> set rows \<Longrightarrow> row_run_time q = Some t
    \<Longrightarrow> \<exists>u. row_run_time r = Some u \<and> t \<le> u"
proof (induction rows arbitrary: r)
  case (Cons p rows)
  show ?case
  proof (cases "first_desc rows")
    case None
    then show ?thesis using Cons.prems by simp
  next
    case (Some s)
    then show ?thesis using Cons.prems Cons.IH [OF Some]
      by (fastforce simp: later_def split: if_splits option.splits)
  qed
qed simp

definition pick :: "event_row list \<Rightarrow> string \<Rightarrow> event_row option" where
  "pick rows n = first_desc (filter (\<lambda>r. row_action_name r = n) rows)"

lemma first_per_action_pick:
  "first_per_action rows = List.map_filter (pick rows) (remdups (map row_action_name rows))"
proof -
  have "concat (map (\<lambda>n. case pick rows n of None \<Rightarrow> [] | Some r \<Rightarrow> [r]) ns) = List.map_filter (pick rows) ns" for ns
    by (induction ns) (auto simp: List.map_filter_def split: option.splits)
  then show ?thesis by (simp add: first_per_action_def pick_def)
qed

lemma pick_name: "pick rows n = Some r \<Longrightarrow> r \<in> set rows \<and> row_action_name r = n"
  by (auto simp: pick_def dest: first_desc_in)

definition log_of :: "event_row list \<Rightarrow> log_entry list" where
  "log_of rows = List.map_filter row_entry rows"

lemma in_log_of: "x \<in> set (log_of rows) \<longleftrightarrow> (\<exists>r \<in> set rows. row_entry r = Some x)"
  by (force simp: log_of_def List.map_filter_def)

lemma row_entry_Some: "row_entry r = Some x \<Longrightarrow> en_name x = row_action_name r
    \<and> en_fired x = row_fired r \<and> row_run_time r = Some (en_instant x)"
  by (auto simp: row_entry_def split: option.splits)

lemma row_entry_event: "row_run_time r = Some t \<Longrightarrow> row_to_event r t = Inr e \<Longrightarrow> row_entry r = Some (entry e)"
  by (auto simp: row_entry_def row_to_event_def entry_def column_datetime_def utc_instant_def to_utc_def
      split: option.splits)

definition rows_valid :: "event_row list \<Rightarrow> bool" where
  "rows_valid rows = (\<forall>r \<in> set rows. row_run_time r \<noteq> None \<longrightarrow> status_of_value (row_status r) \<noteq> None)"

lemma collect_latest_total: "rows_valid rs \<Longrightarrow> \<exists>d. collect_latest result rs = Inr d"
proof (induction rs arbitrary: result)
  case (Cons r rs)
  then have "rows_valid rs" by (simp add: rows_valid_def)
  with Cons show ?case
    by (auto simp: rows_valid_def row_to_event_def split: option.split)
qed simp

lemma collect_latest_ok: "collect_latest result rs = Inr d \<Longrightarrow> dict_ok result \<Longrightarrow> dict_ok d"
  by (induction rs arbitrary: result) (auto simp: result_simps split: option.splits)

lemma collect_latest_other:
  "collect_latest result rs = Inr d \<Longrightarrow> \<forall>r \<in> set rs. row_run_time r \<noteq> None \<longrightarrow> row_action_name r \<noteq> n
    \<Longrightarrow> dict_get d n = dict_get result n"
proof (induction rs arbitrary: result)
  case (Cons r rs)
  then show ?case
  proof (cases "row_run_time r")
    case (Some t)
    with Cons.prems obtain e where "collect_latest (dict_set result (row_action_name r) e) rs = Inr d"
      by (auto simp: result_simps)
    from Cons.IH [OF this] Cons.prems(2) Some show ?thesis by auto
  qed simp
qed simp

lemma collect_latest_in:
  "collect_latest result rs = Inr d \<Longrightarrow> distinct (map row_action_name rs) \<Longrightarrow> r \<in> set rs
    \<Longrightarrow> row_run_time r = Some t \<Longrightarrow> \<exists>e. row_to_event r t = Inr e \<and> dict_get d (row_action_name r) = Some e"
proof (induction rs arbitrary: result)
  case (Cons q rs)
  show ?case
  proof (cases "q = r")
    case True
    with Cons.prems obtain e where e: "row_to_event r t = Inr e"
      and rest: "collect_latest (dict_set result (row_action_name r) e) rs = Inr d"
      by (auto simp: result_simps)
    have "\<forall>p \<in> set rs. row_run_time p \<noteq> None \<longrightarrow> row_action_name p \<noteq> row_action_name r"
      using Cons.prems(2) True by (auto simp: image_iff)
    from collect_latest_other [OF rest this] e show ?thesis by simp
  next
    case False
    with Cons.prems have "r \<in> set rs" by simp
    from Cons.prems obtain result' where "collect_latest result' rs = Inr d"
      by (auto simp: result_simps split: option.splits)
    from Cons.IH [OF this _ \<open>r \<in> set rs\<close> Cons.prems(4)] Cons.prems(2) show ?thesis by simp
  qed
qed simp

lemma collect_times_ok: "dict_ok result \<Longrightarrow> dict_ok (collect_times result rs)"
  by (induction rs arbitrary: result) (auto split: option.splits)

lemma collect_times_other:
  "\<forall>r \<in> set rs. row_run_time r \<noteq> None \<longrightarrow> row_action_name r \<noteq> n
    \<Longrightarrow> dict_get (collect_times result rs) n = dict_get result n"
  by (induction rs arbitrary: result) (auto split: option.split)

lemma collect_times_in:
  "distinct (map row_action_name rs) \<Longrightarrow> r \<in> set rs \<Longrightarrow> row_run_time r = Some t
    \<Longrightarrow> dict_get (collect_times result rs) (row_action_name r) = Some (column_datetime t)"
proof (induction rs arbitrary: result)
  case (Cons q rs)
  show ?case
  proof (cases "q = r")
    case True
    have "\<forall>p \<in> set rs. row_run_time p \<noteq> None \<longrightarrow> row_action_name p \<noteq> row_action_name r"
      using Cons.prems(1) True by (auto simp: image_iff)
    from collect_times_other [OF this] True Cons.prems(3) show ?thesis by simp
  next
    case False
    with Cons show ?thesis by (auto split: option.split)
  qed
qed simp

lemma set_map_filter: "set (List.map_filter f xs) = {y. \<exists>x \<in> set xs. f x = Some y}"
  by (force simp: List.map_filter_def)

lemma distinct_first_per_action: "distinct (map row_action_name (first_per_action rows))"
proof -
  have "map row_action_name (List.map_filter (pick rows) ns) = filter (\<lambda>n. pick rows n \<noteq> None) ns" for ns
    by (induction ns) (auto simp: List.map_filter_simps split: option.splits dest: pick_name)
  then show ?thesis by (simp add: first_per_action_pick)
qed

lemma set_first_per_action: "set (first_per_action rows) = {r. \<exists>n. pick rows n = Some r}"
  by (auto simp: first_per_action_pick set_map_filter dest: pick_name)

lemma pick_exists: "r \<in> set rows \<Longrightarrow> \<exists>q. pick rows (row_action_name r) = Some q"
  using first_desc_None [of "filter (\<lambda>q. row_action_name q = row_action_name r) rows"]
  by (cases "first_desc (filter (\<lambda>q. row_action_name q = row_action_name r) rows)")
     (auto simp: pick_def filter_empty_conv)

lemma pick_newest:
  "pick rows n = Some r \<Longrightarrow> q \<in> set rows \<Longrightarrow> row_action_name q = n \<Longrightarrow> row_run_time q = Some t
    \<Longrightarrow> \<exists>u. row_run_time r = Some u \<and> t \<le> u"
  using first_desc_newest [of "filter (\<lambda>r. row_action_name r = n) rows" r q t] by (simp add: pick_def)

lemma timed_pick:
  assumes "r \<in> set rows" and "row_run_time r = Some t"
  shows "\<exists>q \<in> set (first_per_action rows). row_run_time q \<noteq> None \<and> row_action_name q = row_action_name r"
proof -
  obtain q where "pick rows (row_action_name r) = Some q" using pick_exists [OF assms(1)] by blast
  with assms pick_newest [OF this assms(1) refl] show ?thesis
    by (force simp: set_first_per_action dest: pick_name)
qed

lemma pick_entry_newest:
  assumes "r \<in> set (first_per_action rows)" and "row_entry r = Some x"
  shows "is_newest (log_of rows) (\<lambda>y. en_name y = row_action_name r) x"
proof -
  have pick: "pick rows (row_action_name r) = Some r"
    using assms(1) by (auto simp: set_first_per_action dest: pick_name)
  then have "r \<in> set rows" by (auto dest: pick_name)
  moreover have "en_instant y \<le> en_instant x" if "q \<in> set rows" "row_entry q = Some y" "en_name y = row_action_name r" for q y
    using pick_newest [OF pick that(1)] row_entry_Some [OF that(2)] row_entry_Some [OF assms(2)] that(3) by auto
  ultimately show ?thesis
    using assms(2) row_entry_Some [OF assms(2)] by (auto simp: is_newest_def in_log_of)
qed

lemma log_of_set: "set rows = set mine \<Longrightarrow> is_newest (log_of rows) P x = is_newest (log_of mine) P x"
proof -
  assume "set rows = set mine"
  then have "set (log_of rows) = set (log_of mine)" by (auto simp: log_of_def set_map_filter)
  then show ?thesis by (simp add: is_newest_def)
qed

lemma latest_of_rows:
  assumes "set rows = set mine" and "rows_valid mine"
  shows "\<exists>d. collect_latest [] (first_per_action rows) = Inr d \<and> dict_ok d \<and> (\<forall>n. case dict_get d n of
      None \<Rightarrow> \<forall>x \<in> set (log_of mine). en_name x \<noteq> n
    | Some e \<Rightarrow> is_newest (log_of mine) (\<lambda>x. en_name x = n) (entry e))"
proof -
  have "set (first_per_action rows) \<subseteq> set rows"
    by (auto simp: set_first_per_action dest: pick_name)
  with assms have "rows_valid (first_per_action rows)" by (auto simp: rows_valid_def)
  then obtain d where d: "collect_latest [] (first_per_action rows) = Inr d"
    using collect_latest_total by blast
  have "case dict_get d n of None \<Rightarrow> \<forall>x \<in> set (log_of mine). en_name x \<noteq> n
    | Some e \<Rightarrow> is_newest (log_of mine) (\<lambda>x. en_name x = n) (entry e)" for n
  proof (cases "\<exists>r \<in> set (first_per_action rows). row_run_time r \<noteq> None \<and> row_action_name r = n")
    case True
    then obtain r t where r: "r \<in> set (first_per_action rows)" "row_run_time r = Some t" "row_action_name r = n"
      by auto
    then obtain e where e: "row_to_event r t = Inr e" "dict_get d n = Some e"
      using collect_latest_in [OF d distinct_first_per_action] by auto
    with pick_entry_newest [OF r(1) row_entry_event [OF r(2) e(1)]] r(3) log_of_set [OF assms(1)]
    show ?thesis by simp
  next
    case False
    then have "dict_get d n = dict_get [] n" by (intro collect_latest_other [OF d]) auto
    moreover have "en_name x \<noteq> n" if x: "x \<in> set (log_of mine)" for x
    proof
      assume "en_name x = n"
      from x obtain r where "r \<in> set rows" "row_entry r = Some x" using assms(1) by (auto simp: in_log_of)
      with timed_pick [OF this(1)] row_entry_Some [OF this(2)] False \<open>en_name x = n\<close> show False by auto
    qed
    ultimately show ?thesis by simp
  qed
  moreover have "dict_ok d" using collect_latest_ok [OF d] by (simp add: dict_ok_def)
  ultimately show ?thesis using d by blast
qed

lemma fired_entries:
  "y \<in> set (log_of (filter row_fired rows)) \<longleftrightarrow> y \<in> set (log_of rows) \<and> en_fired y"
proof -
  have "row_entry r = Some y \<Longrightarrow> row_fired r = en_fired y" for r by (simp add: row_entry_Some)
  then show ?thesis by (auto simp: in_log_of)
qed

lemma newest_fired:
  "is_newest (log_of (filter row_fired rows)) (\<lambda>y. en_name y = n) x
    \<longleftrightarrow> is_newest (log_of rows) (\<lambda>y. en_name y = n \<and> en_fired y) x"
  by (auto simp: is_newest_def fired_entries)

text \<open>A dictionary of instants answers a query about the newest entries.\<close>

definition times_of_log :: "(string, datetime) dict \<Rightarrow> log_entry list \<Rightarrow> bool" where
  "times_of_log d xs = (\<forall>n. case dict_get d n of
      None \<Rightarrow> \<forall>x \<in> set xs. en_name x \<noteq> n
    | Some t \<Rightarrow> \<exists>x. is_newest xs (\<lambda>y. en_name y = n) x \<and> en_instant x = utc_instant t)"

lemma times_of_fired:
  assumes "times_of_log d (log_of (filter row_fired mine))"
  shows "\<forall>n. case dict_get d n of
      None \<Rightarrow> \<forall>x \<in> set (log_of mine). \<not> (en_name x = n \<and> en_fired x)
    | Some t \<Rightarrow> \<exists>x. is_newest (log_of mine) (\<lambda>y. en_name y = n \<and> en_fired y) x \<and> en_instant x = utc_instant t"
proof
  fix n
  have "case dict_get d n of None \<Rightarrow> \<forall>x \<in> set (log_of (filter row_fired mine)). en_name x \<noteq> n
    | Some t \<Rightarrow> \<exists>x. is_newest (log_of (filter row_fired mine)) (\<lambda>y. en_name y = n) x \<and> en_instant x = utc_instant t"
    using assms by (simp add: times_of_log_def)
  then show "case dict_get d n of None \<Rightarrow> \<forall>x \<in> set (log_of mine). \<not> (en_name x = n \<and> en_fired x)
    | Some t \<Rightarrow> \<exists>x. is_newest (log_of mine) (\<lambda>y. en_name y = n \<and> en_fired y) x \<and> en_instant x = utc_instant t"
    by (cases "dict_get d n") (auto simp: newest_fired fired_entries)
qed

lemma column_datetime_instant [simp]: "utc_instant (column_datetime t) = t"
  by (simp add: column_datetime_def utc_instant_def to_utc_def)

lemma rows_valid_entry: "rows_valid rows \<Longrightarrow> r \<in> set rows \<Longrightarrow> row_run_time r = Some t
    \<Longrightarrow> \<exists>x. row_entry r = Some x \<and> en_instant x = t \<and> en_name x = row_action_name r"
  by (fastforce simp: rows_valid_def row_entry_def)

lemma collect_times_of_rows:
  assumes "set rows = set mine" and "rows_valid mine"
  shows "times_of_log (collect_times [] (first_per_action rows)) (log_of mine)"
  unfolding times_of_log_def
proof
  fix n
  let ?d = "collect_times [] (first_per_action rows)"
  show "case dict_get ?d n of None \<Rightarrow> \<forall>x \<in> set (log_of mine). en_name x \<noteq> n
    | Some t \<Rightarrow> \<exists>x. is_newest (log_of mine) (\<lambda>y. en_name y = n) x \<and> en_instant x = utc_instant t"
  proof (cases "\<exists>r \<in> set (first_per_action rows). row_run_time r \<noteq> None \<and> row_action_name r = n")
    case True
    then obtain r t where r: "r \<in> set (first_per_action rows)" "row_run_time r = Some t" "row_action_name r = n"
      by auto
    then have "r \<in> set mine" using assms(1) by (auto simp: set_first_per_action dest: pick_name)
    with rows_valid_entry [OF assms(2) this r(2)] obtain x where x: "row_entry r = Some x" "en_instant x = t"
      by auto
    with pick_entry_newest [OF r(1) x(1)] log_of_set [OF assms(1)] r(3)
      collect_times_in [OF distinct_first_per_action r(1,2), of "[]"] show ?thesis by auto
  next
    case False
    then have "dict_get ?d n = dict_get [] n" by (intro collect_times_other) auto
    moreover have "en_name x \<noteq> n" if x: "x \<in> set (log_of mine)" for x
    proof
      assume "en_name x = n"
      from x obtain r where "r \<in> set rows" "row_entry r = Some x" using assms(1) by (auto simp: in_log_of)
      with timed_pick [OF this(1)] row_entry_Some [OF this(2)] False \<open>en_name x = n\<close> show False by auto
    qed
    ultimately show ?thesis by simp
  qed
qed

lemma max_time_None: "max_time rows = None \<longleftrightarrow> (\<forall>r \<in> set rows. row_run_time r = None)"
proof -
  have "List.map_filter row_run_time rows = [] \<longleftrightarrow> (\<forall>r \<in> set rows. row_run_time r = None)"
    by (induction rows) (auto simp: List.map_filter_simps split: option.split)
  then show ?thesis by (auto simp: max_time_def split: list.split)
qed

lemma max_time_Some:
  assumes "max_time rows = Some m"
  shows "(\<exists>r \<in> set rows. row_run_time r = Some m) \<and> (\<forall>r \<in> set rows. \<forall>t. row_run_time r = Some t \<longrightarrow> t \<le> m)"
proof -
  obtain t ts where ts: "List.map_filter row_run_time rows = t # ts" and m: "m = fold max ts t"
    using assms by (auto simp: max_time_def split: list.splits)
  have "m = Max (set (t # ts))" unfolding m by (simp only: Max.set_eq_fold)
  then have "m \<in> set (t # ts)" and "\<forall>u \<in> set (t # ts). u \<le> m" by (metis List.finite_set Max_in list.distinct(1) set_empty) (use \<open>m = Max _\<close> in auto)
  then show ?thesis unfolding ts [symmetric] by (auto simp: set_map_filter)
qed

definition group_times :: "event_row list \<Rightarrow> (string, datetime) dict" where
  "group_times fired = List.map_filter (\<lambda>(n, t). map_option (\<lambda>t. (n, column_datetime t)) t)
     (map (\<lambda>n. (n, max_time (filter (\<lambda>r. row_action_name r = n) fired))) (remdups (map row_action_name fired)))"

lemma group_times_get:
  "dict_get (group_times fired) n = map_option column_datetime (max_time (filter (\<lambda>r. row_action_name r = n) fired))"
  and group_times_ok: "dict_ok (group_times fired)"
proof -
  let ?g = "\<lambda>n. max_time (filter (\<lambda>r. row_action_name r = n) fired)"
  let ?h = "\<lambda>ns. List.map_filter (\<lambda>(n, t). map_option (\<lambda>t. (n, column_datetime t)) t) (map (\<lambda>n. (n, ?g n)) ns)"
  have get: "dict_get (?h ns) n = (if n \<in> set ns then map_option column_datetime (?g n) else None)" for ns n
    by (induction ns) (auto simp: List.map_filter_simps split: option.splits)
  have keys: "map fst (?h ns) = filter (\<lambda>n. ?g n \<noteq> None) ns" for ns
    by (induction ns) (auto simp: List.map_filter_simps split: option.splits)
  have absent: "n \<notin> row_action_name ` set fired \<Longrightarrow> ?g n = None" for n
    by (auto simp: max_time_None)
  show "dict_get (group_times fired) n = map_option column_datetime (?g n)"
    unfolding group_times_def get by (auto simp: absent)
  show "dict_ok (group_times fired)"
    unfolding group_times_def dict_ok_def keys by simp
qed

lemma group_times_of_rows:
  assumes "set rows = set mine" and "rows_valid mine"
  shows "times_of_log (group_times rows) (log_of mine)"
  unfolding times_of_log_def
proof
  fix n
  let ?mine = "filter (\<lambda>r. row_action_name r = n) rows"
  show "case dict_get (group_times rows) n of None \<Rightarrow> \<forall>x \<in> set (log_of mine). en_name x \<noteq> n
    | Some t \<Rightarrow> \<exists>x. is_newest (log_of mine) (\<lambda>y. en_name y = n) x \<and> en_instant x = utc_instant t"
  proof (cases "max_time ?mine")
    case None
    then have "dict_get (group_times rows) n = None" by (simp add: group_times_get)
    moreover from None have "\<forall>r \<in> set mine. row_action_name r = n \<longrightarrow> row_run_time r = None"
      using assms(1) by (auto simp: max_time_None)
    ultimately show ?thesis by (fastforce simp: in_log_of dest: row_entry_Some)
  next
    case (Some m)
    from max_time_Some [OF this] obtain r where r: "r \<in> set mine" "row_action_name r = n" "row_run_time r = Some m"
      and most: "\<forall>q \<in> set mine. row_action_name q = n \<longrightarrow> (\<forall>t. row_run_time q = Some t \<longrightarrow> t \<le> m)"
      using assms(1) by auto
    from rows_valid_entry [OF assms(2) r(1,3)] obtain x where x: "row_entry r = Some x" "en_instant x = m" "en_name x = n"
      using r(2) by auto
    have "x \<in> set (log_of mine)" using x(1) r(1) by (auto simp: in_log_of)
    moreover have "\<forall>y \<in> set (log_of mine). en_name y = n \<longrightarrow> en_instant y \<le> m"
      using most by (auto simp: in_log_of dest!: row_entry_Some)
    ultimately have "is_newest (log_of mine) (\<lambda>y. en_name y = n) x" using x(2,3) by (simp add: is_newest_def)
    with x Some show ?thesis by (auto simp: group_times_get)
  qed
qed

lemma table_log_rows: "table_log cfg tbl = log_of (filter (\<lambda>r. row_run_config_name r = cfg) (table_rows tbl))"
  by (simp add: table_log_def log_of_def)

lemma table_valid_rows: "table_valid cfg tbl = rows_valid (filter (\<lambda>r. row_run_config_name r = cfg) (table_rows tbl))"
  by (auto simp: table_valid_def rows_valid_def)

lemma filter_fired: "filter (\<lambda>r. row_run_config_name r = cfg \<and> row_fired r) rows
    = filter row_fired (filter (\<lambda>r. row_run_config_name r = cfg) rows)"
  by (simp add: conj_commute)

lemma rows_valid_filter: "rows_valid rows \<Longrightarrow> rows_valid (filter P rows)"
  by (simp add: rows_valid_def)

lemma event_to_row_simps [simp]:
  "row_run_config_name (event_to_row str_of cfg e) = cfg"
  "row_status (event_to_row str_of cfg e) = status_value (ev_status e)"
  by (simp_all add: event_to_row_def)

lemma row_entry_of_event [simp]: "row_entry (event_to_row str_of cfg e) = Some (entry e)"
  by (simp add: row_entry_def event_to_row_def entry_def)

lemma log_of_append: "log_of (rows @ rows') = log_of rows @ log_of rows'"
  by (simp add: log_of_def List.map_filter_def)

lemma log_of_events: "log_of (map (event_to_row str_of cfg) es) = map entry es"
  by (induction es) (simp_all add: log_of_def List.map_filter_simps)

text \<open>Appending the rows of new events to a table extends its log by their entries.\<close>

lemma table_log_append:
  "table_log cfg (Some (table_rows tbl @ map (event_to_row str_of cfg) es)) = table_log cfg tbl @ map entry es"
  by (simp add: table_log_rows table_rows_def [of "Some _"] log_of_append log_of_events)

lemma table_valid_append:
  "table_valid cfg (Some (table_rows tbl @ map (event_to_row str_of cfg) es)) = table_valid cfg tbl"
  by (simp add: table_valid_def table_rows_def [of "Some _"] ball_Un)

lemma loaded_latest:
  assumes "table_valid cfg (Some rows)"
  shows "\<exists>d. collect_latest [] (first_per_action (engine_order scan (filter (\<lambda>r. row_run_config_name r = cfg) rows))) = Inr d
    \<and> dict_ok d \<and> (\<forall>n. case dict_get d n of
      None \<Rightarrow> \<forall>x \<in> set (table_log cfg (Some rows)). en_name x \<noteq> n
    | Some e \<Rightarrow> is_newest (table_log cfg (Some rows)) (\<lambda>x. en_name x = n) (entry e))"
  unfolding table_log_rows table_rows_def option.case
  by (rule latest_of_rows) (use assms in \<open>simp_all add: table_valid_rows table_rows_def\<close>)

lemma empty_log: "table_log cfg None = []"
  by (simp add: table_log_rows table_rows_def log_of_def List.map_filter_simps)

lemma loaded_fired:
  assumes "times_of_log d (log_of (filter row_fired (filter (\<lambda>r. row_run_config_name r = cfg) rows)))"
  shows "\<forall>n. case dict_get d n of
        None \<Rightarrow> \<forall>x \<in> set (table_log cfg (Some rows)). \<not> (en_name x = n \<and> en_fired x)
      | Some t \<Rightarrow> \<exists>x. is_newest (table_log cfg (Some rows)) (\<lambda>x. en_name x = n \<and> en_fired x) x \<and> en_instant x = utc_instant t"
  unfolding table_log_rows table_rows_def option.case by (rule times_of_fired [OF assms])

lemma fired_valid:
  "table_valid cfg (Some rows) \<Longrightarrow> rows_valid (filter row_fired (filter (\<lambda>r. row_run_config_name r = cfg) rows))"
  by (rule rows_valid_filter) (simp add: table_valid_rows table_rows_def)

interpretation table_store: event_store "table_append str_of cfg" "table_load_latest scan cfg"
    "table_load_last_fired scan cfg" "table_valid cfg" "table_log cfg"
  for str_of cfg scan
proof unfold_locales
  fix tbl es
  assume "table_valid cfg tbl"
  then show "\<exists>tbl'. table_append str_of cfg tbl es = Inr tbl' \<and> table_valid cfg tbl'
      \<and> table_log cfg tbl' = table_log cfg tbl @ map entry es"
    by (simp add: table_append_def table_log_append table_valid_append)
next
  fix tbl
  assume "table_valid cfg tbl"
  then show "\<exists>d. table_load_latest scan cfg tbl = Inr d \<and> dict_ok d \<and> (\<forall>n. case dict_get d n of
        None \<Rightarrow> \<forall>x \<in> set (table_log cfg tbl). en_name x \<noteq> n
      | Some e \<Rightarrow> is_newest (table_log cfg tbl) (\<lambda>x. en_name x = n) (entry e))"
    using loaded_latest [of cfg _ scan]
    by (cases tbl) (auto simp: table_load_latest_def empty_log dict_ok_def)
next
  fix tbl
  assume valid: "table_valid cfg tbl"
  show "\<exists>d. table_load_last_fired scan cfg tbl = Inr d \<and> dict_ok d \<and> (\<forall>n. case dict_get d n of
        None \<Rightarrow> \<forall>x \<in> set (table_log cfg tbl). \<not> (en_name x = n \<and> en_fired x)
      | Some t \<Rightarrow> \<exists>x. is_newest (table_log cfg tbl) (\<lambda>x. en_name x = n \<and> en_fired x) x \<and> en_instant x = utc_instant t)"
  proof (cases tbl)
    case None
    then show ?thesis by (simp add: table_load_last_fired_def empty_log dict_ok_def)
  next
    case (Some rows)
    let ?fired = "filter row_fired (filter (\<lambda>r. row_run_config_name r = cfg) rows)"
    let ?d = "group_times (engine_order scan ?fired)"
    have "times_of_log ?d (log_of ?fired)"
      using fired_valid valid Some by (intro group_times_of_rows) simp_all
    from loaded_fired [OF this] group_times_ok [of "engine_order scan ?fired"]
    show ?thesis unfolding Some table_load_last_fired_def option.case filter_fired Let_def group_times_def [symmetric]
      by blast
  qed
qed

definition lakebase_valid :: "string \<Rightarrow> lakebase \<Rightarrow> bool" where
  "lakebase_valid cfg lb = ((lb_bootstrapped lb \<longrightarrow> lb_table lb \<noteq> None) \<and> table_valid cfg (lb_table lb))"

definition lakebase_log :: "string \<Rightarrow> lakebase \<Rightarrow> log_entry list" where
  "lakebase_log cfg lb = table_log cfg (lb_table lb)"

lemma ensure_bootstrapped_table:
  "lakebase_valid cfg lb \<Longrightarrow> lb_table (ensure_bootstrapped lb) = Some (table_rows (lb_table lb))
    \<and> lb_bootstrapped (ensure_bootstrapped lb)"
  by (auto simp: lakebase_valid_def ensure_bootstrapped_def lakebase_bootstrap_def table_rows_def)

interpretation lakebase_store: event_store "lakebase_append str_of cfg" "lakebase_load_latest scan cfg"
    "lakebase_load_last_fired scan cfg" "lakebase_valid cfg" "lakebase_log cfg"
  for str_of cfg scan
proof unfold_locales
  fix lb es
  assume "lakebase_valid cfg lb"
  with ensure_bootstrapped_table [OF this]
  show "\<exists>lb'. lakebase_append str_of cfg lb es = Inr lb' \<and> lakebase_valid cfg lb'
      \<and> lakebase_log cfg lb' = lakebase_log cfg lb @ map entry es"
    by (simp add: lakebase_append_def lakebase_log_def lakebase_valid_def table_log_append table_valid_append)
next
  fix lb
  assume "lakebase_valid cfg lb"
  then have valid: "table_valid cfg (lb_table lb)" by (simp add: lakebase_valid_def)
  show "\<exists>d. lakebase_load_latest scan cfg lb = Inr d \<and> dict_ok d \<and> (\<forall>n. case dict_get d n of
        None \<Rightarrow> \<forall>x \<in> set (lakebase_log cfg lb). en_name x \<noteq> n
      | Some e \<Rightarrow> is_newest (lakebase_log cfg lb) (\<lambda>x. en_name x = n) (entry e))"
  proof (cases "lb_table lb")
    case None
    then show ?thesis by (simp add: lakebase_load_latest_def lakebase_log_def empty_log dict_ok_def)
  next
    case (Some rows)
    show ?thesis unfolding lakebase_load_latest_def lakebase_log_def Some option.case
      by (rule loaded_latest) (use valid Some in simp)
  qed
next
  fix lb
  assume "lakebase_valid cfg lb"
  then have valid: "table_valid cfg (lb_table lb)" by (simp add: lakebase_valid_def)
  show "\<exists>d. lakebase_load_last_fired scan cfg lb = Inr d \<and> dict_ok d \<and> (\<forall>n. case dict_get d n of
        None \<Rightarrow> \<forall>x \<in> set (lakebase_log cfg lb). \<not> (en_name x = n \<and> en_fired x)
      | Some t \<Rightarrow> \<exists>x. is_newest (lakebase_log cfg lb) (\<lambda>x. en_name x = n \<and> en_fired x) x \<and> en_instant x = utc_instant t)"
  proof (cases "lb_table lb")
    case None
    then show ?thesis by (simp add: lakebase_load_last_fired_def lakebase_log_def empty_log dict_ok_def)
  next
    case (Some rows)
    let ?fired = "filter row_fired (filter (\<lambda>r. row_run_config_name r = cfg) rows)"
    let ?d = "collect_times [] (first_per_action (engine_order scan ?fired))"
    have "times_of_log ?d (log_of ?fired)"
      using fired_valid valid Some by (intro collect_times_of_rows) simp_all
    from loaded_fired [OF this] have "\<forall>n. case dict_get ?d n of
        None \<Rightarrow> \<forall>x \<in> set (lakebase_log cfg lb). \<not> (en_name x = n \<and> en_fired x)
      | Some t \<Rightarrow> \<exists>x. is_newest (lakebase_log cfg lb) (\<lambda>x. en_name x = n \<and> en_fired x) x \<and> en_instant x = utc_instant t"
      unfolding lakebase_log_def Some .
    moreover have "dict_ok ?d" by (rule collect_times_ok) (simp add: dict_ok_def)
    ultimately show ?thesis unfolding Some lakebase_load_last_fired_def option.case filter_fired by blast
  qed
qed

subsection \<open>What a restart preserves\<close>


text \<open>The same holds of the Lakebase store, from any state in which its bootstrap flag is only set
  when the table exists.\<close>

theorem lakebase_restart_durable:
  assumes "lakebase_valid cfg lb"
    and "seed (lakebase_load_latest scan cfg) (lakebase_load_last_fired scan cfg) (new_state_store (Some lb)) = Inr st0"
    and "chronological (lakebase_log cfg lb @ map entry es)"
    and "st = fold (record_event (lakebase_append str_of cfg)) es st0"
  shows "\<exists>lb' st'. ss_event_store st = Some lb'
    \<and> seed (lakebase_load_latest scan cfg) (lakebase_load_last_fired scan cfg) (new_state_store (Some lb')) = Inr st'
    \<and> (\<forall>dq ctx c. should_fire st' dq ctx c = should_fire st dq ctx c)"
  using lakebase_store.restart_after_records [OF assms] by blast

text \<open>A run configuration never sees the events of another one.\<close>

lemma table_configs_isolated:
  assumes "cfg \<noteq> cfg'" and "table_append str_of cfg' tbl es = Inr tbl'"
  shows "table_load_latest scan cfg tbl' = table_load_latest scan cfg tbl"
    and "table_load_last_fired scan cfg tbl' = table_load_last_fired scan cfg tbl"
proof -
  have "filter (\<lambda>r. row_run_config_name r = cfg \<and> P r) (map (event_to_row str_of cfg') es) = []" for P
    using assms(1) by (auto simp: filter_empty_conv)
  from this [of "\<lambda>_. True"] this [of row_fired] assms(2)
  show "table_load_latest scan cfg tbl' = table_load_latest scan cfg tbl"
    and "table_load_last_fired scan cfg tbl' = table_load_last_fired scan cfg tbl"
    by (cases tbl; auto simp: table_append_def table_rows_def table_load_latest_def table_load_last_fired_def
        first_per_action_def engine_order_def List.map_filter_simps split: if_splits)+
qed

definition other_config_row :: event_row where
  "other_config_row = event_to_row (\<lambda>_. []) ''other'' (fired_at ''a'' 99)"


theorem lakebase_restart_durable_witness:
  "let es = [fired_at ''a'' 0, (fired_at ''a'' 5)\<lparr>ev_fired := False\<rparr>];
       st0 = new_state_store (Some \<lparr>lb_bootstrapped = False, lb_schema = False, lb_table = None\<rparr>);
       st = fold (record_event (lakebase_append (\<lambda>_. []) ''default'')) es st0 in
   \<exists>lb' st'. ss_event_store st = Some lb'
     \<and> seed (lakebase_load_latest (\<lambda>_ _. 0) ''default'') (lakebase_load_last_fired (\<lambda>_ _. 0) ''default'')
         (new_state_store (Some lb')) = Inr st'
     \<and> (\<forall>dq ctx c. should_fire st' dq ctx c = should_fire st dq ctx c)"
  unfolding Let_def
  by (rule lakebase_restart_durable [of "''default''" "\<lparr>lb_bootstrapped = False, lb_schema = False, lb_table = None\<rparr>",
        OF _ _ _ refl])
     (simp_all add: lakebase_valid_def table_valid_def table_rows_def seed_def new_state_store_def
       lakebase_load_latest_def lakebase_load_last_fired_def chronological_def entry_def fired_at_def
       lakebase_log_def empty_log utc_instant_def to_utc_def)

end
