(* ===== verification/Condition_Safety.thy ===== *)
theory Condition_Safety
  imports Action_Conditions
begin

section \<open>What evaluating a condition can and cannot do\<close>

text \<open>
  Error containment (only \<open>InvalidConditionError\<close> leaves the evaluator), totality over known
  metrics, short-circuiting that never hides a disallowed node, the operator spellings, and
  the validation mode with its placeholder metrics.
\<close>

subsection \<open>Runtimes whose classes raise only arithmetic errors\<close>

definition well_behaved :: "py_runtime \<Rightarrow> bool" where
  "well_behaved rt =
     ((\<forall>x y e. rt_pow rt x y = Inl e \<longrightarrow> caught_binary e) \<and>
      (\<forall>s v e. rt_format rt s v = Inl e \<longrightarrow> caught_binary e) \<and>
      (\<forall>f i e. rt_unop rt f i = Inl e \<longrightarrow> caught_unary e) \<and>
      (\<forall>f a b e. rt_binop rt f a b = Inl e \<longrightarrow> caught_binary e) \<and>
      (\<forall>f a b e. rt_cmp rt f a b = Inl e \<longrightarrow> caught_unary e) \<and>
      (\<forall>i. \<exists>b. rt_truth rt i = Inr b) \<and>
      (\<forall>i e. rt_float rt i = Inl e \<longrightarrow> caught_binary e))"

lemma well_behavedD:
  assumes "well_behaved rt"
  shows "rt_pow rt x y = Inl e \<Longrightarrow> caught_binary e"
    and "rt_format rt s v = Inl e \<Longrightarrow> caught_binary e"
    and "rt_unop rt f i = Inl e \<Longrightarrow> caught_unary e"
    and "rt_binop rt g a b = Inl e \<Longrightarrow> caught_binary e"
    and "rt_cmp rt h a b = Inl e \<Longrightarrow> caught_unary e"
    and "rt_float rt i = Inl e \<Longrightarrow> caught_binary e"
  using assms unfolding well_behaved_def by blast+

lemma truth_total: "well_behaved rt \<Longrightarrow> \<exists>b. py_truth rt v = Inr b"
  by (cases v) (auto simp: well_behaved_def)

subsection \<open>The errors the operators raise\<close>

lemma caught_simps [simp]:
  "caught_unary TypeError" "caught_unary OverflowError"
  "caught_binary TypeError" "caught_binary OverflowError"
  "caught_binary ZeroDivisionError" "caught_binary ValueError"
  by (simp_all add: caught_unary_def caught_binary_def)

lemma num_float_err: "num_float a = Inl e \<Longrightarrow> caught_binary e"
  by (cases a) (auto split: pyfloat.splits)

lemma float_op_err:
  assumes "float_op f a b = Inl e" and "\<And>x y e. f x y = Inl e \<Longrightarrow> caught_binary e"
  shows "caught_binary e"
  using assms(1) by (auto simp: float_op_def result_simps dest: num_float_err assms(2))

lemma float_ok_err: "float_ok f x y = Inl e \<Longrightarrow> caught_binary e"
  by (simp add: float_ok_def)

lemma float_nz_err: "float_nz f x y = Inl e \<Longrightarrow> caught_binary e"
  by (auto simp: float_nz_def split: if_splits)

lemma num_ops_err:
  "num_add a b = Inl e \<Longrightarrow> caught_binary e"
  "num_sub a b = Inl e \<Longrightarrow> caught_binary e"
  "num_mul a b = Inl e \<Longrightarrow> caught_binary e"
  "num_truediv a b = Inl e \<Longrightarrow> caught_binary e"
  "num_floordiv a b = Inl e \<Longrightarrow> caught_binary e"
  "num_mod a b = Inl e \<Longrightarrow> caught_binary e"
  by (cases a; cases b;
      auto split: if_splits pyfloat.splits dest!: float_op_err intro: float_ok_err float_nz_err)+

lemma num2_err:
  assumes "num2 f a b = Inl e" and "\<And>x y e. f x y = Inl e \<Longrightarrow> caught_binary e"
  shows "caught_binary e"
  using assms(1) by (auto simp: num2_def split: option.splits dest: assms(2))

lemma native_mul_err: "native_mul a b = Inl e \<Longrightarrow> caught_binary e"
  unfolding native_mul_def
  by (auto split: pyval.splits option.splits pynum.splits dest!: num2_err intro: num_ops_err)

lemma py_float_err: "well_behaved rt \<Longrightarrow> py_float rt v = Inl e \<Longrightarrow> caught_binary e"
  by (cases v) (auto split: option.splits pyfloat.splits dest: well_behavedD)

lemma native_binop_err:
  assumes "well_behaved rt" and "native_binop rt f a b = Inl e"
  shows "caught_binary e"
proof (cases f)
  case Op_add
  then show ?thesis using assms(2)
    by (auto simp: native_add_def split: pyval.splits dest!: num2_err intro: num_ops_err)
next
  case Op_mod
  then show ?thesis using assms
    by (auto simp: native_mod_def result_simps split: pyval.splits dest!: num2_err
        intro: num_ops_err dest: well_behavedD)
next
  case Op_pow
  then show ?thesis using assms
    by (auto simp: op_pow_def result_simps dest: py_float_err well_behavedD)
next
  case Op_mul
  then show ?thesis using assms(2) native_mul_err by simp
qed (use assms(2) num2_err num_ops_err in \<open>auto dest!: num2_err intro: num_ops_err\<close>)

lemma apply_binop_err:
  "well_behaved rt \<Longrightarrow> apply_binop rt f a b = Inl e \<Longrightarrow> caught_binary e"
  by (auto simp: apply_binop_def split: if_splits dest: native_binop_err well_behavedD)

lemma apply_unop_err:
  assumes "well_behaved rt" and "apply_unop rt f v = Inl e"
  shows "caught_unary e"
proof (cases f)
  case Op_not
  then show ?thesis using assms truth_total [OF assms(1), of v] by (auto simp: op_not_def)
next
  case Op_neg
  then show ?thesis using assms
    by (auto simp: op_neg_def split: pyval.splits option.splits pynum.splits dest: well_behavedD)
next
  case Op_pos
  then show ?thesis using assms
    by (auto simp: op_pos_def split: pyval.splits option.splits pynum.splits dest: well_behavedD)
qed

lemma native_cmp_err: "native_cmp f a b = Inl e \<Longrightarrow> e = TypeError"
  by (cases f) (auto simp: native_order_def split: option.splits pyval.splits)

lemma apply_cmp_err:
  "well_behaved rt \<Longrightarrow> apply_cmp rt f a b = Inl e \<Longrightarrow> caught_unary e"
  by (auto simp: apply_cmp_def split: if_splits dest: native_cmp_err well_behavedD)

lemma guard_op_Inl:
  assumes "guard_op caught r = Inl e" and "\<forall>x. r = Inl x \<longrightarrow> caught x"
  shows "\<exists>x. e = OperatorError x"
  using assms by (cases r) (auto simp: guard_op_def split: if_splits)

lemma guard_unop_err:
  "well_behaved rt \<Longrightarrow> guard_op caught_unary (apply_unop rt f a) = Inl e
    \<Longrightarrow> \<exists>x. e = OperatorError x"
  by (erule guard_op_Inl) (blast intro: apply_unop_err)

lemma guard_binop_err:
  "well_behaved rt \<Longrightarrow> guard_op caught_binary (apply_binop rt f a b) = Inl e
    \<Longrightarrow> \<exists>x. e = OperatorError x"
  by (erule guard_op_Inl) (blast intro: apply_binop_err)

lemma guard_cmp_err:
  "well_behaved rt \<Longrightarrow> guard_op caught_unary (apply_cmp rt f a b) = Inl e
    \<Longrightarrow> \<exists>x. e = OperatorError x"
  by (erule guard_op_Inl) (blast intro: apply_cmp_err)

lemmas op_guard_errors = guard_unop_err guard_binop_err guard_cmp_err

subsection \<open>Every error of a walk\<close>

fun ast_names :: "ast \<Rightarrow> string list" where
  "ast_names (Expression b) = ast_names b"
| "ast_names (BoolOp p vs) = concat (map ast_names vs)"
| "ast_names (UnaryOp p v) = ast_names v"
| "ast_names (BinOp l p r) = ast_names l @ ast_names r"
| "ast_names (Compare l ps cs) = ast_names l @ concat (map ast_names cs)"
| "ast_names (Name n) = [n]"
| "ast_names (Constant v) = []"
| "ast_names (OtherNode n cs) = concat (map ast_names cs)"

definition unknown_in :: "metrics option \<Rightarrow> string set \<Rightarrow> cond_error \<Rightarrow> bool" where
  "unknown_in metrics ns e =
     (\<exists>m n. metrics = Some m \<and> n \<in> ns \<and> n \<notin> dom m \<and> e = UnknownMetric n)"

definition operator_failed :: "cond_error \<Rightarrow> bool" where
  "operator_failed e = (\<exists>x. e = OperatorError x)"

lemma unknown_in_mono: "unknown_in m ns e \<Longrightarrow> ns \<subseteq> ns' \<Longrightarrow> unknown_in m ns' e"
  by (auto simp: unknown_in_def)

lemma first_bad_cmp_None: "list_all (\<lambda>p. \<exists>f. cmp_ops p = Some f) ps \<Longrightarrow> first_bad_cmp ps = None"
  by (induction ps) auto

definition walk_err :: "metrics option \<Rightarrow> string set \<Rightarrow> cond_error + pyval \<Rightarrow> bool" where
  "walk_err m ns r = (\<forall>e. r = Inl e \<longrightarrow> unknown_in m ns e \<or> operator_failed e)"

lemma walk_err_Inr [simp]: "walk_err m ns (Inr v)"
  by (simp add: walk_err_def)

lemma walk_err_mono: "walk_err m ns r \<Longrightarrow> ns \<subseteq> ns' \<Longrightarrow> walk_err m ns' r"
  by (auto simp: walk_err_def intro: unknown_in_mono)

lemma walk_err_sbind:
  assumes "walk_err m ns r" and "\<And>v. r = Inr v \<Longrightarrow> walk_err m ns' (f v)"
  shows "walk_err m (ns \<union> ns') (sbind r f)"
proof (cases r)
  case (Inl e)
  with assms(1) show ?thesis by (auto simp: walk_err_def intro: unknown_in_mono)
next
  case (Inr v)
  with assms(2) show ?thesis by (auto intro: walk_err_mono)
qed

lemma walk_err_last:
  "walk_err m ns r \<Longrightarrow> (\<And>v. walk_err m ns (f v)) \<Longrightarrow> walk_err m ns (sbind r f)"
  using walk_err_sbind [of m ns r ns f] by simp

lemma walk_err_guard:
  assumes "well_behaved rt"
  shows "walk_err m ns (guard_op caught_unary (apply_unop rt f a))"
    and "walk_err m ns (guard_op caught_binary (apply_binop rt g a b))"
  using assms by (auto simp: walk_err_def operator_failed_def dest: op_guard_errors)

lemma walk_err_truth:
  assumes "well_behaved rt" and "\<And>b. walk_err m ns (k b)"
  shows "walk_err m ns (sbind (truth_of rt x) k)"
  using truth_total [OF assms(1), of x] assms(2) by (auto simp: truth_of_def)

lemma walk_err_cmp:
  assumes "well_behaved rt" and "\<And>b. walk_err m ns (k b)"
  shows "walk_err m ns (sbind (guard_op caught_unary (apply_cmp rt f x y)) k)"
  using guard_cmp_err [OF assms(1), of f x y] assms(2)
  by (cases "guard_op caught_unary (apply_cmp rt f x y)") (auto simp: walk_err_def operator_failed_def)

lemma walk_errors:
  assumes wb: "well_behaved rt"
  shows "tree_ok t \<Longrightarrow> walk_err m (set (ast_names t)) (walk rt m t)"
proof (induction t)
  case (BoolOp p vs)
  have ok: "v \<in> set vs \<Longrightarrow> walk_err m (set (ast_names v)) (walk rt m v)" for v
    using BoolOp by (simp add: list_all_iff)
  have conj: "set ws \<subseteq> set vs
      \<Longrightarrow> walk_err m (\<Union>v\<in>set ws. set (ast_names v)) (walk_and rt m r ws)" for ws r
    by (induction ws arbitrary: r) (auto intro!: walk_err_sbind walk_err_truth [OF wb] ok)
  have disj: "set ws \<subseteq> set vs
      \<Longrightarrow> walk_err m (\<Union>v\<in>set ws. set (ast_names v)) (walk_or rt m r ws)" for ws r
    by (induction ws arbitrary: r) (auto intro!: walk_err_sbind walk_err_truth [OF wb] ok)
  show ?case using conj [of vs] disj [of vs] by (simp split: boolop.split)
next
  case (UnaryOp p v)
  then show ?case by (auto intro!: walk_err_last walk_err_guard [OF wb])
next
  case (BinOp l p r)
  then have "walk_err m (set (ast_names r))
      (sbind (walk rt m r) (\<lambda>y. guard_op caught_binary (apply_binop rt f x y)))" for f x
    by (auto intro!: walk_err_last walk_err_guard [OF wb])
  with BinOp show ?case by (auto intro!: walk_err_sbind)
next
  case (Compare l ps cs)
  have ok: "c \<in> set cs \<Longrightarrow> walk_err m (set (ast_names c)) (walk rt m c)" for c
    using Compare by (simp add: list_all_iff)
  have chain: "set ds \<subseteq> set cs \<Longrightarrow> list_all (\<lambda>p. \<exists>f. cmp_ops p = Some f) qs
      \<Longrightarrow> walk_err m (\<Union>c\<in>set ds. set (ast_names c)) (walk_cmp rt m x qs ds)" for ds qs x
  proof (induction ds arbitrary: qs x)
    case Nil
    then show ?case by (cases qs) auto
  next
    case (Cons d ds)
    then show ?case
      by (cases qs) (auto intro!: walk_err_sbind walk_err_cmp [OF wb] ok)
  qed
  show ?case using Compare chain [of cs ps] by (auto simp: first_bad_cmp_None intro!: walk_err_sbind)
qed (auto simp: eval_name_def walk_err_def unknown_in_def split: option.splits)

subsection \<open>The public operations\<close>

definition structural_error :: "cond_error \<Rightarrow> bool" where
  "structural_error e = (e = DisallowedConstant \<or> (\<exists>n. e = DisallowedNode n))"

lemma validate_tree_err: "validate_tree t = Inl e \<Longrightarrow> structural_error e"
proof -
  have "validate_queue q = Inl e \<Longrightarrow> structural_error e" for q
    by (induction q rule: validate_queue.induct)
       (auto simp: result_simps check_node_def structural_error_def split: if_splits node.splits ast.splits)
  then show "validate_tree t = Inl e \<Longrightarrow> structural_error e" by (simp only: validate_tree_def)
qed

lemma parse_condition_err: "parse_condition parse c = Inl e \<Longrightarrow> e = EmptyCondition \<or> e = SyntaxError"
  by (auto simp: parse_condition_def split: if_splits option.splits)

lemma walk_truth_err:
  assumes "well_behaved rt" and "tree_ok t" and "sbind (walk rt m t) (truth_of rt) = Inl e"
  shows "unknown_in m (set (ast_names t)) e \<or> operator_failed e"
proof (cases "walk rt m t")
  case (Inl x)
  with assms walk_errors [OF assms(1,2), of m] show ?thesis by (simp add: walk_err_def)
next
  case (Inr v)
  obtain b where "py_truth rt v = Inr b" using truth_total [OF assms(1)] by blast
  with Inr assms(3) show ?thesis by (simp add: truth_of_def)
qed

lemma evaluate_errors:
  assumes "well_behaved rt" and "evaluate_condition rt parse c m = Inl e"
  shows "e = EmptyCondition \<or> e = SyntaxError \<or> structural_error e \<or> operator_failed e
    \<or> (\<exists>t. parse_condition parse c = Inr t \<and> unknown_in (Some m) (set (ast_names t)) e)"
proof -
  consider "parse_condition parse c = Inl e"
    | t where "parse_condition parse c = Inr t" "validate_tree t = Inl e"
    | t where "parse_condition parse c = Inr t" "validate_tree t = Inr ()"
        "sbind (walk rt (Some m) t) (truth_of rt) = Inl e"
    using assms(2) by (auto simp: evaluate_condition_def sbind_eq_Inl)
  then show ?thesis
  proof cases
    case 1
    then show ?thesis by (auto dest: parse_condition_err)
  next
    case (2 t)
    then show ?thesis by (auto dest: validate_tree_err)
  next
    case (3 t)
    then show ?thesis
      using walk_truth_err [OF assms(1)] by (auto simp: tree_accepted)
  qed
qed

text \<open>Whatever the condition, the parser and the metrics, the only exceptions that leave
  \<open>ConditionEvaluator.evaluate\<close> are \<open>InvalidConditionError\<close>s, as long as the classes of foreign
  metric values raise only the arithmetic exceptions.\<close>

theorem evaluate_only_invalid_condition:
  assumes "well_behaved rt" and "evaluate_condition rt parse c m = Inl e"
  shows "invalid_condition e"
  using evaluate_errors [OF assms]
  by (auto simp: invalid_condition_def structural_error_def operator_failed_def unknown_in_def)

text \<open>A condition that parses, is structurally allowed and names only metrics of the run
  either has a truth value or fails inside one of its operators; it is never reported as
  malformed or as naming an unknown metric.\<close>

theorem evaluate_known_metrics:
  assumes "well_behaved rt" and "parse_condition parse c = Inr t" and "tree_ok t"
    and "set (ast_names t) \<subseteq> dom m"
  shows "(\<exists>b. evaluate_condition rt parse c m = Inr b)
    \<or> (\<exists>x. evaluate_condition rt parse c m = Inl (OperatorError x))"
proof (cases "evaluate_condition rt parse c m")
  case (Inr b)
  then show ?thesis by simp
next
  case (Inl e)
  have "validate_tree t = Inr ()" using assms(3) by (simp add: tree_accepted)
  with Inl assms(2) have "sbind (walk rt (Some m) t) (truth_of rt) = Inl e"
    by (simp add: evaluate_condition_def)
  from walk_truth_err [OF assms(1,3) this] Inl assms(4) show ?thesis
    by (auto simp: unknown_in_def operator_failed_def)
qed

text \<open>Short-circuiting an \<open>or\<close> on its first true operand hides unknown metrics and failing
  operators to its right, but not a disallowed construct there: the pre-pass has already
  rejected it.\<close>

theorem or_short_circuit:
  assumes "parse_condition parse c = Inr (Expression (BoolOp Or (l # vs)))"
    and "walk rt (Some m) l = Inr v" and "py_truth rt v = Inr True"
  shows "if list_all tree_ok (l # vs) then evaluate_condition rt parse c m = Inr True
    else (\<exists>e. evaluate_condition rt parse c m = Inl e \<and> structural_error e)"
proof (cases "validate_tree (Expression (BoolOp Or (l # vs)))")
  case (Inl e)
  then have "\<not> list_all tree_ok (l # vs)"
    using tree_accepted [of "Expression (BoolOp Or (l # vs))"] by simp
  with Inl assms(1) show ?thesis
    by (auto simp: evaluate_condition_def dest: validate_tree_err)
next
  case (Inr u)
  then have "list_all tree_ok (l # vs)"
    using tree_accepted [of "Expression (BoolOp Or (l # vs))"] by simp
  with Inr assms show ?thesis by (simp add: evaluate_condition_def truth_of_def)
qed

text \<open>Validation evaluates the tree with the placeholder 1 for every metric, so a condition
  whose divisor is a difference of two metrics is rejected when the action is constructed,
  for every runtime, although evaluating it on metrics that differ returns a value.\<close>

theorem validate_rejects_difference_divisor:
  assumes "parse_condition parse c =
      Inr (Expression (Compare (BinOp (Name x) FloorDiv (BinOp (Name y) Sub (Name z)))
        [Gt] [Constant (VInt k)]))"
    and "m x = Some (VInt a)" and "m y = Some (VInt b)" and "m z = Some (VInt d)" and "b \<noteq> d"
  shows "validate_condition rt parse c = Inl (OperatorError ZeroDivisionError)
    \<and> evaluate_condition rt parse c m = Inr (k < a div (b - d))"
proof -
  have ok: "validate_tree (Expression (Compare (BinOp (Name x) FloorDiv (BinOp (Name y) Sub (Name z)))
      [Gt] [Constant (VInt k)])) = Inr ()"
    by (simp add: tree_accepted)
  then show ?thesis
    using assms
    by (simp add: validate_condition_def evaluate_condition_def eval_name_def guard_op_def
        apply_binop_def num2_def caught_binary_def apply_cmp_def native_order_def truth_of_def)
qed

subsection \<open>Operator spellings\<close>

lemma sub_single_equals_stable:
  "sub_single_equals p (sub_single_equals p s) = sub_single_equals p s"
proof (induction s arbitrary: p)
  case Nil
  then show ?case by simp
next
  case (Cons c cs)
  have hd_eq: "cs \<noteq> [] \<Longrightarrow> sub_single_equals c cs \<noteq> [] \<and> hd (sub_single_equals c cs) = hd cs"
    by (cases cs) auto
  show ?case
  proof (cases "c = CHR ''='' \<and> p \<notin> set ''=<>!'' \<and> (cs = [] \<or> hd cs \<noteq> CHR ''='')")
    case True
    with Cons show ?thesis by simp
  next
    case False
    then have "sub_single_equals p (c # cs) = c # sub_single_equals c cs" by auto
    moreover have "sub_single_equals p (c # sub_single_equals c cs)
        = c # sub_single_equals c (sub_single_equals c cs)"
      using False hd_eq by (cases "cs = []") auto
    ultimately show ?thesis using Cons by simp
  qed
qed

fun no_sql_ne :: "string \<Rightarrow> bool" where
  "no_sql_ne (c # d # cs) = (\<not> (c = CHR ''<'' \<and> d = CHR ''>'') \<and> no_sql_ne (d # cs))"
| "no_sql_ne _ = True"

lemma no_sql_ne_Cons:
  "no_sql_ne (c # s) = ((s = [] \<or> \<not> (c = CHR ''<'' \<and> hd s = CHR ''>'')) \<and> no_sql_ne s)"
  by (cases s) auto

lemma hd_sub_not_equal: "s \<noteq> [] \<Longrightarrow> hd (sub_not_equal s) \<in> {hd s, CHR ''!''}"
  by (induction s rule: sub_not_equal.induct) auto

lemma no_sql_ne_sub: "no_sql_ne (sub_not_equal s)"
proof (induction s rule: sub_not_equal.induct)
  case (1 c d cs)
  then show ?case using hd_sub_not_equal [of "d # cs"] by (auto simp: no_sql_ne_Cons)
qed auto

lemma no_sql_ne_single: "no_sql_ne s \<Longrightarrow> no_sql_ne (sub_single_equals p s)"
proof (induction s arbitrary: p)
  case (Cons c cs)
  have "cs \<noteq> [] \<Longrightarrow> hd (sub_single_equals c cs) = hd cs" by (cases cs) auto
  with Cons show ?case by (cases "cs = []") (auto simp: no_sql_ne_Cons)
qed simp

lemma sub_not_equal_id: "no_sql_ne s \<Longrightarrow> sub_not_equal s = s"
  by (induction s rule: sub_not_equal.induct) auto

text \<open>Translating the Spark-SQL operators is idempotent: a normalised condition has no
  \<open><>\<close> and no lone \<open>=\<close> left, so normalising it again changes nothing.\<close>

theorem normalize_operators_idem:
  "normalize_operators (normalize_operators c) = normalize_operators c"
proof -
  have "sub_not_equal (normalize_operators c) = normalize_operators c"
    unfolding normalize_operators_def
    by (intro sub_not_equal_id no_sql_ne_single no_sql_ne_sub)
  then show ?thesis
    by (simp add: normalize_operators_def sub_single_equals_stable)
qed

subsection \<open>Concrete runs\<close>

text \<open>A runtime without foreign arithmetic, and the parse of \<open>bad // total > 0\<close>.\<close>

definition strict_runtime :: py_runtime where
  "strict_runtime =
     \<lparr>rt_pow = (\<lambda>x y. Inl OverflowError), rt_format = (\<lambda>s v. Inl TypeError),
      rt_unop = (\<lambda>f i. Inl TypeError), rt_binop = (\<lambda>f a b. Inl TypeError),
      rt_cmp = (\<lambda>f a b. Inl TypeError), rt_truth = (\<lambda>i. Inr True),
      rt_float = (\<lambda>i. Inl TypeError)\<rparr>"

definition ratio_tree :: ast where
  "ratio_tree = Expression (Compare (BinOp (Name ''bad'') FloorDiv (Name ''total'')) [Gt]
     [Constant (VInt 0)])"

definition difference_tree :: ast where
  "difference_tree = Expression (Compare (BinOp (Name ''bad'') FloorDiv
     (BinOp (Name ''total'') Sub (Name ''skipped''))) [Gt] [Constant (VInt 1)])"

definition or_tree :: "ast \<Rightarrow> ast" where
  "or_tree r = Expression (BoolOp Or [Compare (Name ''bad'') [Gt] [Constant (VInt 0)], r])"

lemma strict_runtime_well_behaved: "well_behaved strict_runtime"
  by (auto simp: well_behaved_def strict_runtime_def)

lemma parse_condition_const:
  "py_strip c \<noteq> [] \<Longrightarrow> parse_condition (\<lambda>_. Some t) c = Inr t"
  by (auto simp: parse_condition_def py_strip_def py_lstrip_def py_rstrip_def)

lemma strip_bad: "py_strip ''bad'' \<noteq> []"
  by code_simp

lemma parse_bad: "parse_condition (\<lambda>_. Some t) ''bad'' = Inr t"
  by (rule parse_condition_const) (rule strip_bad)

theorem evaluate_only_invalid_condition_witness:
  "evaluate_condition strict_runtime (\<lambda>_. Some ratio_tree) ''bad''
      [''bad'' \<mapsto> VInt 3, ''total'' \<mapsto> VInt 0] = Inl (OperatorError ZeroDivisionError)
   \<and> invalid_condition (OperatorError ZeroDivisionError)"
proof -
  have ev: "evaluate_condition strict_runtime (\<lambda>_. Some ratio_tree) ''bad''
      [''bad'' \<mapsto> VInt 3, ''total'' \<mapsto> VInt 0] = Inl (OperatorError ZeroDivisionError)"
    using tree_accepted [of ratio_tree]
    by (simp add: evaluate_condition_def parse_bad ratio_tree_def eval_name_def guard_op_def
        apply_binop_def num2_def)
  then show ?thesis
    using evaluate_only_invalid_condition [OF strict_runtime_well_behaved ev] by simp
qed

theorem evaluate_known_metrics_witness:
  "(\<exists>b. evaluate_condition strict_runtime (\<lambda>_. Some ratio_tree) ''bad''
       [''bad'' \<mapsto> VInt 3, ''total'' \<mapsto> VInt 2] = Inr b)
   \<or> (\<exists>x. evaluate_condition strict_runtime (\<lambda>_. Some ratio_tree) ''bad''
       [''bad'' \<mapsto> VInt 3, ''total'' \<mapsto> VInt 2] = Inl (OperatorError x))"
  by (rule evaluate_known_metrics [OF strict_runtime_well_behaved parse_bad])
     (simp_all add: ratio_tree_def)

theorem or_short_circuit_witness:
  "evaluate_condition strict_runtime (\<lambda>_. Some (or_tree (Name ''missing''))) ''bad''
     [''bad'' \<mapsto> VInt 3] = Inr True"
proof -
  have "walk strict_runtime (Some [''bad'' \<mapsto> VInt 3])
      (Compare (Name ''bad'') [Gt] [Constant (VInt 0)]) = Inr (VBool True)"
    by (simp add: eval_name_def guard_op_def apply_cmp_def native_order_def)
  from or_short_circuit [OF parse_bad [of "or_tree (Name ''missing'')", unfolded or_tree_def] this]
  show ?thesis by (simp add: or_tree_def)
qed

definition sample_metrics :: metrics where
  "sample_metrics = [''bad'' \<mapsto> VInt 9, ''total'' \<mapsto> VInt 5, ''skipped'' \<mapsto> VInt 2]"

theorem validate_rejects_difference_divisor_witness:
  "validate_condition strict_runtime (\<lambda>_. Some difference_tree) ''bad''
     = Inl (OperatorError ZeroDivisionError)
   \<and> evaluate_condition strict_runtime (\<lambda>_. Some difference_tree) ''bad'' sample_metrics = Inr True"
proof -
  have m: "sample_metrics ''bad'' = Some (VInt 9)" "sample_metrics ''total'' = Some (VInt 5)"
    "sample_metrics ''skipped'' = Some (VInt 2)"
    by (simp_all add: sample_metrics_def)
  show ?thesis
    using validate_rejects_difference_divisor
      [OF parse_bad [of difference_tree, unfolded difference_tree_def] m, of strict_runtime]
    by (simp add: difference_tree_def)
qed

end
