(* ===== verification/Action_Evaluator.thy ===== *)
theory Action_Evaluator
  imports Event_Store Condition_Safety
begin

section \<open>The action evaluator (\<open>actions/evaluator.py\<close>)\<close>

text \<open>
  The loop that drives every configured action through its condition, the suppression gate and
  its execution, records one event per action and defers terminal errors to the end. The state
  store is threaded through; an exception that is not handled leaves the loop with the state
  reached so far.
\<close>

subsection \<open>The loop\<close>

datatype eval_error = TerminalError string | ConditionCrash cond_error | ActionCrash string

record loop_state =
  lp_results :: "action_result list"
  lp_deferred :: "string list"
  lp_extras :: "(string, text_dict) dict option"

definition build_event ::
    "dq_action \<Rightarrow> action_context \<Rightarrow> bool \<Rightarrow> action_status \<Rightarrow> text_dict \<Rightarrow> alert_event" where
  "build_event dq ctx fired status errors =
     \<lparr>ev_action_name = dq_name dq, ev_condition = dq_condition dq, ev_fired = fired, ev_status = status,
      ev_observed_metrics = ctx_metrics ctx, ev_run_id = ctx_run_id ctx, ev_run_time = ctx_run_time ctx,
      ev_input_location = ctx_input_location ctx, ev_destinations = map fst errors,
      ev_delivery_errors = map snd errors, ev_run_config_name = ''default''\<rparr>"

definition record_extras ::
    "dq_action \<Rightarrow> action_result \<Rightarrow> (string, text_dict) dict option \<Rightarrow> (string, text_dict) dict option" where
  "record_extras dq result accumulated = (case res_extras result of
     None \<Rightarrow> accumulated
   | Some ex \<Rightarrow> if ex = [] then accumulated
       else Some (dict_set (case accumulated of None \<Rightarrow> [] | Some d \<Rightarrow> d) (dq_name dq) ex))"

definition eval_condition ::
    "py_runtime \<Rightarrow> (string \<Rightarrow> ast option) \<Rightarrow> dq_action \<Rightarrow> action_context \<Rightarrow> cond_error + bool" where
  "eval_condition rt parse dq ctx = (case dq_condition dq of
     None \<Rightarrow> Inr True
   | Some c \<Rightarrow> evaluate_condition rt parse c (dict_get (ctx_metrics ctx)))"

type_synonym 's recorder = "alert_event \<Rightarrow> 's state_store \<Rightarrow> 's state_store"

definition execute_step ::
    "action_env \<Rightarrow> 's recorder \<Rightarrow> action_context \<Rightarrow> dq_action \<Rightarrow> 's state_store \<Rightarrow> loop_state
     \<Rightarrow> 's state_store \<times> (eval_error + loop_state)" where
  "execute_step env rec ctx dq st lp =
     (case execute_action env (dq_act dq) (ctx\<lparr>ctx_condition := dq_condition dq, ctx_extras := lp_extras lp\<rparr>) of
        Returned result \<Rightarrow>
          (rec (build_event dq ctx True (res_status result) (res_destination_errors result)) st,
           Inr (lp\<lparr>lp_results := lp_results lp @ [result],
                   lp_extras := record_extras dq result (lp_extras lp)\<rparr>))
      | Terminal msg \<Rightarrow>
          (rec (build_event dq ctx True UNHEALTHY []) st, Inr (lp\<lparr>lp_deferred := lp_deferred lp @ [msg]\<rparr>))
      | Raised msg \<Rightarrow> (st, Inl (ActionCrash msg)))"

definition action_step ::
    "py_runtime \<Rightarrow> (string \<Rightarrow> ast option) \<Rightarrow> action_env \<Rightarrow> 's recorder \<Rightarrow> action_context \<Rightarrow> dq_action
     \<Rightarrow> 's state_store \<Rightarrow> loop_state \<Rightarrow> 's state_store \<times> (eval_error + loop_state)" where
  "action_step rt parse env rec ctx dq st lp = (case eval_condition rt parse dq ctx of
     Inl e \<Rightarrow> if invalid_condition e
       then (rec (build_event dq ctx False CONFIG_ERROR []) st, Inr lp)
       else (st, Inl (ConditionCrash e))
   | Inr False \<Rightarrow> (rec (build_event dq ctx False HEALTHY []) st, Inr lp)
   | Inr True \<Rightarrow> (case try_fire st dq ctx True of
       (False, st) \<Rightarrow> (rec (build_event dq ctx False UNHEALTHY []) st, Inr lp)
     | (True, st) \<Rightarrow> execute_step env rec ctx dq st lp))"

fun eval_loop ::
    "py_runtime \<Rightarrow> (string \<Rightarrow> ast option) \<Rightarrow> action_env \<Rightarrow> 's recorder \<Rightarrow> action_context \<Rightarrow> dq_action list
     \<Rightarrow> 's state_store \<Rightarrow> loop_state \<Rightarrow> 's state_store \<times> (eval_error + loop_state)" where
  "eval_loop rt parse env rec ctx [] st lp = (st, Inr lp)"
| "eval_loop rt parse env rec ctx (dq # dqs) st lp = (case action_step rt parse env rec ctx dq st lp of
     (st, Inl e) \<Rightarrow> (st, Inl e)
   | (st, Inr lp) \<Rightarrow> eval_loop rt parse env rec ctx dqs st lp)"

definition evaluate ::
    "py_runtime \<Rightarrow> (string \<Rightarrow> ast option) \<Rightarrow> action_env \<Rightarrow> 's recorder \<Rightarrow> dq_action list \<Rightarrow> action_context
     \<Rightarrow> 's state_store \<Rightarrow> 's state_store \<times> (eval_error + action_result list)" where
  "evaluate rt parse env rec dqs ctx st =
     (case eval_loop rt parse env rec ctx dqs st
        \<lparr>lp_results = [], lp_deferred = [], lp_extras = ctx_extras ctx\<rparr> of
        (st, Inl e) \<Rightarrow> (st, Inl e)
      | (st, Inr lp) \<Rightarrow> (st, case lp_deferred lp of
            [] \<Rightarrow> Inr (lp_results lp)
          | msg # msgs \<Rightarrow> Inl (TerminalError msg)))"

subsection \<open>One event per action\<close>

text \<open>A run in which no action raises anything but a terminal error.\<close>

definition no_crash :: "py_runtime \<Rightarrow> (string \<Rightarrow> ast option) \<Rightarrow> action_env \<Rightarrow> action_context \<Rightarrow> dq_action \<Rightarrow> bool" where
  "no_crash rt parse env ctx dq \<longleftrightarrow>
     (\<forall>e. eval_condition rt parse dq ctx = Inl e \<longrightarrow> invalid_condition e)
     \<and> (\<forall>c msg. execute_action env (dq_act dq) c \<noteq> Raised msg)"

text \<open>Every step of the loop records exactly one event of its action.\<close>

definition event_of_step :: "action_context \<Rightarrow> dq_action \<Rightarrow> alert_event \<Rightarrow> bool" where
  "event_of_step ctx dq e = (\<exists>fired status errors. e = build_event dq ctx fired status errors)"

lemma event_of_build [simp, intro]: "event_of_step ctx dq (build_event dq ctx f s er)"
  by (auto simp: event_of_step_def)

lemma action_step_records:
  assumes "no_crash rt parse env ctx dq" and "action_step rt parse env rec ctx dq st lp = (st', r)"
  shows "\<exists>e st0 lp'. r = Inr lp' \<and> st' = rec e st0 \<and> event_of_step ctx dq e
    \<and> (st0 = st \<or> (\<exists>b. try_fire st dq ctx True = (b, st0)))"
proof (cases "eval_condition rt parse dq ctx")
  case (Inl e)
  with assms have "r = Inr lp" "st' = rec (build_event dq ctx False CONFIG_ERROR []) st"
    by (auto simp: action_step_def no_crash_def)
  then show ?thesis by blast
next
  case (Inr c)
  obtain b st0 where t: "try_fire st dq ctx True = (b, st0)" by fastforce
  let ?ctx = "ctx\<lparr>ctx_condition := dq_condition dq, ctx_extras := lp_extras lp\<rparr>"
  have "execute_action env (dq_act dq) ?ctx \<noteq> Raised msg" for msg
    using assms(1) by (simp add: no_crash_def)
  then have "\<exists>e st0 lp'. r = Inr lp' \<and> st' = rec e st0 \<and> event_of_step ctx dq e \<and> st0 \<in> {st, st0'}"
    if "st0' = st0" for st0'
    using assms(2) Inr t that
    by (cases c; cases b; cases "execute_action env (dq_act dq) ?ctx")
       (simp_all add: action_step_def execute_step_def, (blast intro: sym)+)
  from this [OF refl] t show ?thesis by auto
qed

lemma try_fire_store: "try_fire st dq ctx c = (b, st') \<Longrightarrow> ss_event_store st' = ss_event_store st"
  by (auto simp: try_fire_def split: if_splits)

context event_store
begin

lemma try_fire_logged:
  "st0 = st \<or> (\<exists>b. try_fire st dq ctx True = (b, st0)) \<Longrightarrow> ss_event_store st0 = ss_event_store st"
  by (auto dest: try_fire_store)

lemma loop_logs:
  assumes "\<forall>dq \<in> set dqs. no_crash rt parse env ctx dq" and "ss_event_store st = Some s" and "valid s"
    and "eval_loop rt parse env (record_event app) ctx dqs st lp = (st', r)"
  shows "\<exists>lp' s' es. r = Inr lp' \<and> ss_event_store st' = Some s' \<and> valid s'
    \<and> log s' = log s @ map entry es \<and> list_all2 (event_of_step ctx) dqs es"
  using assms
proof (induction dqs arbitrary: st s lp)
  case Nil
  then show ?case by auto
next
  case (Cons dq dqs)
  obtain st1 r1 where step: "action_step rt parse env (record_event app) ctx dq st lp = (st1, r1)" by fastforce
  have "no_crash rt parse env ctx dq" using Cons.prems(1) by simp
  from action_step_records [OF this step] obtain e st0 lp1 where
    r1: "r1 = Inr lp1" "st1 = record_event app e st0" "event_of_step ctx dq e"
    and "st0 = st \<or> (\<exists>b. try_fire st dq ctx True = (b, st0))" by blast
  then have st0: "ss_event_store st0 = Some s" using try_fire_logged Cons.prems(2) by metis
  obtain s1 where s1: "app s [e] = Inr s1" "valid s1" "log s1 = log s @ [entry e]"
    using app_law [OF Cons.prems(3), of "[e]"] by auto
  have "ss_event_store st1 = Some s1" using r1(2) st0 s1(1) by (simp add: record_event_def record_memory_def)
  moreover have "eval_loop rt parse env (record_event app) ctx dqs st1 lp1 = (st', r)"
    using Cons.prems(4) step r1(1) by simp
  ultimately obtain lp' s' es where "r = Inr lp'" "ss_event_store st' = Some s'" "valid s'"
      "log s' = log s1 @ map entry es" "list_all2 (event_of_step ctx) dqs es"
    using Cons.IH [of st1 s1 lp1] Cons.prems(1) s1(2) by auto
  then show ?case using s1(3) r1(3)
    by (intro exI [of _ lp'] exI [of _ s'] exI [of _ "e # es"]) simp
qed

end

lemma evaluate_loop:
  "evaluate rt parse env rec dqs ctx st = (st', r) \<Longrightarrow>
    \<exists>r'. eval_loop rt parse env rec ctx dqs st
      \<lparr>lp_results = [], lp_deferred = [], lp_extras = ctx_extras ctx\<rparr> = (st', r')"
  by (auto simp: evaluate_def split: prod.splits sum.splits)

lemma events_of_actions: "list_all2 (event_of_step ctx) dqs es \<Longrightarrow> map ev_action_name es = map dq_name dqs
    \<and> map ev_run_time es = map (\<lambda>_. ctx_run_time ctx) dqs"
  by (induction rule: list_all2_induct) (auto simp: event_of_step_def build_event_def)


subsection \<open>Terminal errors are deferred\<close>

definition non_terminal :: "action_env \<Rightarrow> dq_action \<Rightarrow> bool" where
  "non_terminal env dq = (\<forall>c msg. execute_action env (dq_act dq) c \<noteq> Terminal msg)"

lemma action_step_deferred:
  assumes "no_crash rt parse env ctx dq" and "action_step rt parse env rec ctx dq st lp = (st', r)"
  shows "\<exists>lp'. r = Inr lp' \<and> (\<exists>ms. lp_deferred lp' = lp_deferred lp @ ms)
    \<and> (non_terminal env dq \<longrightarrow> lp_deferred lp' = lp_deferred lp)"
proof (cases "eval_condition rt parse dq ctx")
  case (Inl e)
  then show ?thesis using assms by (auto simp: action_step_def no_crash_def)
next
  case (Inr c)
  obtain b st0 where t: "try_fire st dq ctx True = (b, st0)" by fastforce
  let ?ctx = "ctx\<lparr>ctx_condition := dq_condition dq, ctx_extras := lp_extras lp\<rparr>"
  have "execute_action env (dq_act dq) ?ctx \<noteq> Raised msg" for msg
    using assms(1) by (simp add: no_crash_def)
  then show ?thesis using assms(2) Inr t
    by (cases c; cases b; cases "execute_action env (dq_act dq) ?ctx")
       (auto simp: action_step_def execute_step_def non_terminal_def)
qed

lemma eval_loop_deferred:
  assumes "\<forall>dq \<in> set dqs. no_crash rt parse env ctx dq" and "eval_loop rt parse env rec ctx dqs st lp = (st', r)"
  shows "\<exists>lp'. r = Inr lp' \<and> (\<exists>ms. lp_deferred lp' = lp_deferred lp @ ms)
    \<and> ((\<forall>dq \<in> set dqs. non_terminal env dq) \<longrightarrow> lp_deferred lp' = lp_deferred lp)"
  using assms
proof (induction dqs arbitrary: st lp)
  case (Cons dq dqs)
  obtain st1 r1 where step: "action_step rt parse env rec ctx dq st lp = (st1, r1)" by fastforce
  from action_step_deferred [OF _ step] Cons.prems(1) obtain lp1 ms where
    lp1: "r1 = Inr lp1" "lp_deferred lp1 = lp_deferred lp @ ms"
      "non_terminal env dq \<longrightarrow> lp_deferred lp1 = lp_deferred lp" by auto
  then have "eval_loop rt parse env rec ctx dqs st1 lp1 = (st', r)" using Cons.prems(2) step by simp
  from Cons.IH [OF _ this] Cons.prems(1) lp1 show ?case by auto
qed auto

lemma eval_loop_append:
  "eval_loop rt parse env rec ctx (xs @ ys) st lp = (case eval_loop rt parse env rec ctx xs st lp of
     (st, Inl e) \<Rightarrow> (st, Inl e) | (st, Inr lp) \<Rightarrow> eval_loop rt parse env rec ctx ys st lp)"
  by (induction xs arbitrary: st lp) (auto split: prod.split sum.split)

lemma fail_pipeline_step:
  assumes "dq_act dq = FailPipeline (Some m) n" and "eval_condition rt parse dq ctx = Inr True"
  shows "\<exists>st'. action_step rt parse env rec ctx dq st lp = (st', Inr (lp\<lparr>lp_deferred := lp_deferred lp @ [m]\<rparr>))"
  using assms by (simp add: action_step_def execute_step_def fail_execute_def try_fire_def should_fire_def)

text \<open>A pipeline failure whose condition holds always ends the run, and with its own message when
  it is the first one; it does so only after every other action had its turn, and no alert
  between it and the end of the list can prevent it.\<close>

theorem fail_pipeline_ends_run:
  assumes "\<forall>dq \<in> set (pre @ dq # post). no_crash rt parse env ctx dq"
    and "\<forall>d \<in> set pre. non_terminal env d"
    and "dq_act dq = FailPipeline (Some m) n" and "eval_condition rt parse dq ctx = Inr True"
  shows "snd (evaluate rt parse env rec (pre @ dq # post) ctx st) = Inl (TerminalError m)
    \<and> snd (eval_loop rt parse env rec ctx (pre @ dq # post) st lp) \<noteq> Inl e"
proof -
  have "\<exists>st' lp'. eval_loop rt parse env rec ctx (pre @ dq # post) st lp = (st', Inr lp')
      \<and> (\<exists>ms. lp_deferred lp' = lp_deferred lp @ m # ms)" for lp
  proof -
    obtain st1 r1 where one: "eval_loop rt parse env rec ctx pre st lp = (st1, r1)" by fastforce
    from eval_loop_deferred [OF _ one] assms(1,2) obtain lp1 where
      lp1: "r1 = Inr lp1" "lp_deferred lp1 = lp_deferred lp" by auto
    obtain st2 where two: "action_step rt parse env rec ctx dq st1 lp1
        = (st2, Inr (lp1\<lparr>lp_deferred := lp_deferred lp1 @ [m]\<rparr>))"
      using fail_pipeline_step [OF assms(3,4)] by blast
    obtain st3 r3 where three: "eval_loop rt parse env rec ctx post st2
        (lp1\<lparr>lp_deferred := lp_deferred lp1 @ [m]\<rparr>) = (st3, r3)" by fastforce
    from eval_loop_deferred [OF _ three] assms(1) obtain lp3 ms where
      "r3 = Inr lp3" "lp_deferred lp3 = (lp_deferred lp @ [m]) @ ms" using lp1(2) by auto
    with one two three lp1 show ?thesis by (simp add: eval_loop_append)
  qed
  from this [of lp] this [of "\<lparr>lp_results = [], lp_deferred = [], lp_extras = ctx_extras ctx\<rparr>"]
  show ?thesis by (auto simp: evaluate_def)
qed

subsection \<open>Status changes\<close>

text \<open>The runs of one alert in which it was executed.\<close>

fun fired_runs ::
    "py_runtime \<Rightarrow> (string \<Rightarrow> ast option) \<Rightarrow> action_env \<Rightarrow> 's recorder \<Rightarrow> dq_action \<Rightarrow> action_context list
     \<Rightarrow> 's state_store \<Rightarrow> bool list" where
  "fired_runs rt parse env rec dq [] st = []"
| "fired_runs rt parse env rec dq (ctx # ctxs) st =
     (case evaluate rt parse env rec [dq] ctx st of
        (st', r) \<Rightarrow> (r \<noteq> Inr []) # fired_runs rt parse env rec dq ctxs st')"

text \<open>The specification of \<open>STATUS_CHANGE\<close>: notify when a violation follows a run without one.\<close>

fun transitions :: "bool \<Rightarrow> bool list \<Rightarrow> bool list" where
  "transitions was_bad [] = []"
| "transitions was_bad (bad # rest) = (bad \<and> \<not> was_bad) # transitions bad rest"

definition is_bad :: "'s state_store \<Rightarrow> string \<Rightarrow> bool" where
  "is_bad st n = (dict_get (ss_last_status st) n = Some UNHEALTHY)"

lemma is_bad_record [simp]:
  "is_bad (record_event app (build_event dq ctx f s er) st) (dq_name dq) = (s = UNHEALTHY)"
  by (simp add: is_bad_def record_event_def record_memory_def build_event_def Let_def split: option.split sum.split)

lemma alert_run:
  assumes "dq_act dq = Alert a" and "al_frequency a = ALWAYS" and "al_notify_on a = STATUS_CHANGE"
    and "\<forall>e. eval_condition rt parse dq ctx = Inl e \<longrightarrow> invalid_condition e"
    and "evaluate rt parse env (record_event app) [dq] ctx st = (st', r)"
  shows "(r \<noteq> Inr []) = (eval_condition rt parse dq ctx = Inr True \<and> \<not> is_bad st (dq_name dq))
    \<and> is_bad st' (dq_name dq) = (eval_condition rt parse dq ctx = Inr True)"
proof (cases "eval_condition rt parse dq ctx")
  case (Inl e)
  then show ?thesis using assms(4,5) by (auto simp: evaluate_def action_step_def)
next
  case (Inr c)
  show ?thesis
  proof (cases c)
    case False
    then show ?thesis using assms(5) Inr by (auto simp: evaluate_def action_step_def)
  next
    case True
    have "fst (try_fire st dq ctx True) = (\<not> is_bad st (dq_name dq))"
      using assms(1-3) by (simp add: try_fire_def should_fire_def check_frequency_def check_notify_on_def is_bad_def)
    then obtain st0 where "try_fire st dq ctx True = (\<not> is_bad st (dq_name dq), st0)" by (metis prod.collapse)
    then show ?thesis using assms(1,5) Inr True
      by (cases "is_bad st (dq_name dq)")
         (auto simp: evaluate_def action_step_def execute_step_def alert_execute_def Let_def)
  qed
qed

text \<open>An unthrottled \<open>STATUS_CHANGE\<close> alert is executed in exactly the runs whose condition holds
  while it did not hold, or could not be evaluated, in the run before.\<close>

theorem status_change_refines_transitions:
  assumes "dq_act dq = Alert a" and "al_frequency a = ALWAYS" and "al_notify_on a = STATUS_CHANGE"
    and "\<forall>ctx \<in> set ctxs. \<forall>e. eval_condition rt parse dq ctx = Inl e \<longrightarrow> invalid_condition e"
  shows "fired_runs rt parse env (record_event app) dq ctxs st
    = transitions (is_bad st (dq_name dq)) (map (\<lambda>ctx. eval_condition rt parse dq ctx = Inr True) ctxs)"
  using assms(4)
proof (induction ctxs arbitrary: st)
  case (Cons ctx ctxs)
  obtain st' r where run: "evaluate rt parse env (record_event app) [dq] ctx st = (st', r)" by fastforce
  have "\<forall>e. eval_condition rt parse dq ctx = Inl e \<longrightarrow> invalid_condition e" using Cons.prems by simp
  from alert_run [OF assms(1-3) this run] have
    "(r \<noteq> Inr []) = (eval_condition rt parse dq ctx = Inr True \<and> \<not> is_bad st (dq_name dq))"
    "is_bad st' (dq_name dq) = (eval_condition rt parse dq ctx = Inr True)" by blast+
  with run Cons.IH [of st'] Cons.prems show ?case by simp
qed simp

subsection \<open>The destinations of an event\<close>

lemma no_delivery_errors:
  "\<forall>d msg c. env_deliver env d msg c = None \<Longrightarrow> fold (\<lambda>d em. deliver_task (env_deliver env) msg ctx em d) ds em = em"
  by (induction ds arbitrary: em) (simp_all add: deliver_task_def)

text \<open>The event of a fired alert lists the destinations that failed, not those that were targeted:
  when every delivery succeeds the recorded event names no destination at all.\<close>

theorem delivered_event_names_no_destination:
  assumes "dq_act dq = Alert a" and "eval_condition rt parse dq ctx = Inr True"
    and "should_fire st dq ctx True" and "\<forall>d msg c. env_deliver env d msg c = None"
  shows "\<exists>e st0. fst (action_step rt parse env rec ctx dq st lp) = rec e st0
    \<and> ev_fired e \<and> ev_action_name e = dq_name dq \<and> ev_destinations e = []"
proof -
  have "fst (action_step rt parse env rec ctx dq st lp)
      = rec (build_event dq ctx True UNHEALTHY []) (snd (try_fire st dq ctx True))"
    using assms no_delivery_errors [OF assms(4)]
    by (simp add: action_step_def try_fire_def execute_step_def alert_execute_def Let_def)
  then show ?thesis by (auto simp: build_event_def)
qed

subsection \<open>Concrete runs\<close>

definition sample_env :: action_env where
  "sample_env = \<lparr>env_str = (\<lambda>_. []), env_time_str = (\<lambda>_. []), env_repr = (\<lambda>_. []),
     env_deliver = (\<lambda>d m c. None), env_schedule = (\<lambda>ds. ds),
     env_custom = (\<lambda>c n ctx. Terminal n)\<rparr>"

definition bad_rows :: "string \<Rightarrow> ast option" where
  "bad_rows c = Some (Name ''bad'')"

definition rows_context :: "int \<Rightarrow> int \<Rightarrow> action_context" where
  "rows_context t n = (at_time t)\<lparr>ctx_metrics := [(''bad'', VInt n)]\<rparr>"

definition change_alert :: dq_action where
  "change_alert = \<lparr>dq_act = Alert (sample_alert\<lparr>al_name := ''a'', al_frequency := ALWAYS, al_notify_on := STATUS_CHANGE\<rparr>),
     dq_condition = Some ''bad'', dq_name = ''a''\<rparr>"

definition failing_action :: dq_action where
  "failing_action = \<lparr>dq_act = FailPipeline (Some ''stop'') ''f'', dq_condition = None, dq_name = ''f''\<rparr>"

lemma sample_condition:
  "eval_condition strict_runtime bad_rows change_alert (rows_context t n) = Inr (n \<noteq> 0)"
proof -
  have eq: "bad_rows = (\<lambda>_. Some (Name ''bad''))" by (rule ext) (simp add: bad_rows_def)
  have "parse_condition bad_rows ''bad'' = Inr (Name ''bad'')" unfolding eq by (rule parse_bad)
  moreover have "validate_tree (Name ''bad'') = Inr ()" by (simp add: tree_accepted)
  ultimately show ?thesis
    by (simp add: eval_condition_def change_alert_def evaluate_condition_def
        rows_context_def eval_name_def truth_of_def)
qed

lemma sample_no_crash:
  "no_crash strict_runtime bad_rows sample_env (rows_context t n) change_alert"
  "no_crash strict_runtime bad_rows sample_env (rows_context t n) failing_action"
  by (simp_all add: no_crash_def sample_condition)
     (simp_all add: change_alert_def failing_action_def eval_condition_def fail_execute_def)


theorem fail_pipeline_ends_run_witness:
  "snd (evaluate strict_runtime bad_rows sample_env (record_event (table_append (\<lambda>_. []) ''default''))
     ([change_alert] @ failing_action # [change_alert]) (rows_context 0 3) (new_state_store (Some None)))
   = Inl (TerminalError ''stop'')"
  by (rule conjunct1, rule fail_pipeline_ends_run [of _ _ _ _ _ _ _ _ "''f''"])
     (auto simp: sample_no_crash non_terminal_def, simp_all add: change_alert_def failing_action_def eval_condition_def)

theorem status_change_refines_transitions_witness:
  "fired_runs strict_runtime bad_rows sample_env (record_event (table_append (\<lambda>_. []) ''default'')) change_alert
     [rows_context 0 0, rows_context 1 4, rows_context 2 7, rows_context 3 0, rows_context 4 1]
     (new_state_store (Some None)) = [False, True, False, False, True]"
proof -
  have "fired_runs strict_runtime bad_rows sample_env (record_event (table_append (\<lambda>_. []) ''default'')) change_alert
      [rows_context 0 0, rows_context 1 4, rows_context 2 7, rows_context 3 0, rows_context 4 1]
      (new_state_store (Some None))
    = transitions (is_bad (new_state_store (Some None)) (dq_name change_alert))
       (map (\<lambda>ctx. eval_condition strict_runtime bad_rows change_alert ctx = Inr True)
         [rows_context 0 0, rows_context 1 4, rows_context 2 7, rows_context 3 0, rows_context 4 1])"
    using status_change_refines_transitions [of change_alert
        "sample_alert\<lparr>al_name := ''a'', al_frequency := ALWAYS, al_notify_on := STATUS_CHANGE\<rparr>"
        "[rows_context 0 0, rows_context 1 4, rows_context 2 7, rows_context 3 0, rows_context 4 1]"
        strict_runtime bad_rows sample_env "table_append (\<lambda>_. []) ''default''" "new_state_store (Some None)"]
    by (simp add: sample_condition) (simp add: change_alert_def)
  then show ?thesis by (simp add: sample_condition is_bad_def new_state_store_def)
qed

theorem delivered_event_names_no_destination_witness:
  "\<exists>e st0. fst (action_step strict_runtime bad_rows sample_env (record_event (table_append (\<lambda>_. []) ''default''))
      (rows_context 0 3) change_alert (new_state_store (Some None))
      \<lparr>lp_results = [], lp_deferred = [], lp_extras = None\<rparr>)
    = record_event (table_append (\<lambda>_. []) ''default'') e st0
    \<and> ev_fired e \<and> ev_action_name e = dq_name change_alert \<and> ev_destinations e = []"
  by (rule delivered_event_names_no_destination
      [of _ "sample_alert\<lparr>al_name := ''a'', al_frequency := ALWAYS, al_notify_on := STATUS_CHANGE\<rparr>"])
     (simp_all add: sample_condition, simp_all add: change_alert_def sample_env_def should_fire_def
       check_frequency_def check_notify_on_def new_state_store_def)

end
