(* ===== verification/Webhook_Delivery.thy ===== *)
theory Webhook_Delivery
  imports Py_Float "HOL-Library.Word"
begin

section \<open>Webhook delivery and secrets (\<open>actions/delivery.py\<close>, \<open>secrets.py\<close>, \<open>secret_field.py\<close>)\<close>

text \<open>
  The guard against webhook URLs that reach internal hosts, the retry loop of the client, and
  credential references. A URL is its scheme and host as \<open>urlparse\<close> returns them. IPv4 literals
  are read the way \<open>ipaddress\<close> and \<open>inet_aton\<close> read them, into words of 32 bits; what
  \<open>ipaddress\<close> finds wrong with an IPv6 literal is the parameter \<open>v6\<close> (\<open>None\<close> when the host is no
  such literal). The responses of the server and the reading of an HTTP date are parameters.
\<close>

unbundle bit_operations_syntax

subsection \<open>IPv4 literals\<close>

fun hex_val :: "char \<Rightarrow> nat option" where
  "hex_val c = (let n = of_char c :: nat in
     if 48 \<le> n \<and> n \<le> 57 then Some (n - 48)
     else if 65 \<le> n \<and> n \<le> 70 then Some (n - 55)
     else if 97 \<le> n \<and> n \<le> 102 then Some (n - 87) else None)"

declare hex_val.simps [simp del]

fun digits_in_base :: "nat \<Rightarrow> nat \<Rightarrow> string \<Rightarrow> nat option" where
  "digits_in_base b acc [] = Some acc"
| "digits_in_base b acc (c # cs) = (case hex_val c of
     None \<Rightarrow> None
   | Some d \<Rightarrow> if d < b then digits_in_base b (b * acc + d) cs else None)"

text \<open>An octet for \<open>ipaddress\<close>: one to three decimal digits without a leading zero.\<close>

definition strict_octet :: "string \<Rightarrow> nat option" where
  "strict_octet s =
     (if s = [] \<or> 3 < length s \<or> (hd s = CHR ''0'' \<and> s \<noteq> ''0'') then None
      else case digits_in_base 10 0 s of
        None \<Rightarrow> None
      | Some v \<Rightarrow> if v \<le> 255 then Some v else None)"

definition quad :: "nat \<Rightarrow> nat \<Rightarrow> nat \<Rightarrow> nat \<Rightarrow> 32 word" where
  "quad a b c d = word_of_nat (a * 16777216 + b * 65536 + c * 256 + d)"

definition ipv4_address :: "string \<Rightarrow> 32 word option" where
  "ipv4_address s = (case map strict_octet (py_split (CHR ''.'') s) of
     [Some a, Some b, Some c, Some d] \<Rightarrow> Some (quad a b c d)
   | _ \<Rightarrow> None)"

text \<open>A part of an address for \<open>inet_aton\<close>: decimal, octal after \<open>0\<close> or hexadecimal after \<open>0x\<close>.\<close>

definition aton_part :: "string \<Rightarrow> nat option" where
  "aton_part s = (case s of
     [] \<Rightarrow> None
   | [c] \<Rightarrow> digits_in_base 10 0 [c]
   | c # d # cs \<Rightarrow>
       if c = CHR ''0'' \<and> (d = CHR ''x'' \<or> d = CHR ''X'') then
         (if cs = [] then None else digits_in_base 16 0 cs)
       else if c = CHR ''0'' then digits_in_base 8 0 (d # cs)
       else digits_in_base 10 0 s)"

definition c_isspace :: "char \<Rightarrow> bool" where
  "c_isspace c = (let n = of_char c :: nat in (9 \<le> n \<and> n \<le> 13) \<or> n = 32)"

definition inet_aton :: "string \<Rightarrow> 32 word option" where
  "inet_aton s = (case map aton_part (py_split (CHR ''.'') (takeWhile (\<lambda>c. \<not> c_isspace c) s)) of
     [Some a] \<Rightarrow> if a < 2 ^ 32 then Some (quad 0 0 0 a) else None
   | [Some a, Some b] \<Rightarrow> if a < 256 \<and> b < 2 ^ 24 then Some (quad a 0 0 b) else None
   | [Some a, Some b, Some c] \<Rightarrow> if a < 256 \<and> b < 256 \<and> c < 2 ^ 16 then Some (quad a b 0 c) else None
   | [Some a, Some b, Some c, Some d] \<Rightarrow>
       if a < 256 \<and> b < 256 \<and> c < 256 \<and> d < 256 then Some (quad a b c d) else None
   | _ \<Rightarrow> None)"

definition in_net :: "32 word \<Rightarrow> nat \<times> nat \<times> nat \<times> nat \<times> nat \<Rightarrow> bool" where
  "in_net addr net = (case net of (a, b, c, d, plen) \<Rightarrow>
     drop_bit (32 - plen) addr = drop_bit (32 - plen) (quad a b c d))"

definition private_nets :: "(nat \<times> nat \<times> nat \<times> nat \<times> nat) list" where
  "private_nets = [(0, 0, 0, 0, 8), (10, 0, 0, 0, 8), (127, 0, 0, 0, 8), (169, 254, 0, 0, 16),
     (172, 16, 0, 0, 12), (192, 0, 0, 0, 24), (192, 0, 0, 170, 31), (192, 0, 2, 0, 24),
     (192, 168, 0, 0, 16), (198, 18, 0, 0, 15), (198, 51, 100, 0, 24), (203, 0, 113, 0, 24),
     (240, 0, 0, 0, 4), (255, 255, 255, 255, 32)]"

definition private_exceptions :: "(nat \<times> nat \<times> nat \<times> nat \<times> nat) list" where
  "private_exceptions = [(192, 0, 0, 9, 32), (192, 0, 0, 10, 32)]"

definition is_private :: "32 word \<Rightarrow> bool" where
  "is_private a = (list_ex (in_net a) private_nets \<and> \<not> list_ex (in_net a) private_exceptions)"

definition is_loopback :: "32 word \<Rightarrow> bool" where
  "is_loopback a = in_net a (127, 0, 0, 0, 8)"

definition is_link_local :: "32 word \<Rightarrow> bool" where
  "is_link_local a = in_net a (169, 254, 0, 0, 16)"

definition is_reserved :: "32 word \<Rightarrow> bool" where
  "is_reserved a = in_net a (240, 0, 0, 0, 4)"

definition cloud_metadata_ip :: "32 word" where
  "cloud_metadata_ip = quad 169 254 169 254"

definition block_reasons :: "32 word \<Rightarrow> string list" where
  "block_reasons a =
     (if a = cloud_metadata_ip then [''cloud metadata endpoint''] else [])
     @ (if is_loopback a then [''loopback''] else [])
     @ (if is_private a then [''private''] else [])
     @ (if is_link_local a then [''link-local''] else [])
     @ (if is_reserved a then [''reserved''] else [])"

subsection \<open>\<open>validate_webhook_url\<close>\<close>

record url_parts =
  url_scheme :: string
  url_hostname :: "string option"

datatype url_error =
    NotHttps string
  | NoHost
  | LoopbackHost string
  | BlockedAddress string "string list"
  | HostNotAllowed string

definition sanitize_host :: "string \<Rightarrow> string" where
  "sanitize_host h = filter (\<lambda>ch. 32 \<le> (of_char ch :: nat) \<and> (of_char ch :: nat) \<noteq> 127) h"

definition rstrip_char :: "char \<Rightarrow> string \<Rightarrow> string" where
  "rstrip_char c s = rev (dropWhile (\<lambda>x. x = c) (rev s))"

definition strip_char :: "char \<Rightarrow> string \<Rightarrow> string" where
  "strip_char c s = rstrip_char c (dropWhile (\<lambda>x. x = c) s)"

definition host_matches_suffix :: "string \<Rightarrow> string \<Rightarrow> bool" where
  "host_matches_suffix host_lower suffix =
     (let suffix_lower = strip_char (CHR ''.'') (py_lower suffix)
      in host_lower = suffix_lower \<or> py_endswith host_lower (CHR ''.'' # suffix_lower))"

definition reject_reasons :: "string list \<Rightarrow> string \<Rightarrow> url_error + unit" where
  "reject_reasons reasons host =
     (if reasons = [] then Inr () else Inl (BlockedAddress (sanitize_host host) reasons))"

definition check_ip :: "(string \<Rightarrow> string list option) \<Rightarrow> string \<Rightarrow> url_error + unit" where
  "check_ip v6 host = (case ipv4_address host of
     Some a \<Rightarrow> reject_reasons (block_reasons a) host
   | None \<Rightarrow> (case v6 host of
       Some reasons \<Rightarrow> reject_reasons reasons host
     | None \<Rightarrow> (case inet_aton host of
         None \<Rightarrow> Inr ()
       | Some a \<Rightarrow> reject_reasons (block_reasons a) host)))"

definition webhook_host :: "url_parts \<Rightarrow> string" where
  "webhook_host url = rstrip_char (CHR ''.'')
     (sanitize_host (case url_hostname url of None \<Rightarrow> [] | Some h \<Rightarrow> h))"

definition validate_webhook_url ::
    "(string \<Rightarrow> string list option) \<Rightarrow> url_parts \<Rightarrow> string list option \<Rightarrow> url_error + unit" where
  "validate_webhook_url v6 url allowed =
     (if url_scheme url \<noteq> ''https'' then Inl (NotHttps (url_scheme url))
      else let host = webhook_host url in
        if host = [] then Inl NoHost
        else if py_lower host = ''localhost'' then Inl (LoopbackHost host)
        else sbind (check_ip v6 host) (\<lambda>_. case allowed of
            None \<Rightarrow> Inr ()
          | Some suffixes \<Rightarrow>
              if list_ex (host_matches_suffix (py_lower host)) suffixes then Inr ()
              else Inl (HostNotAllowed (sanitize_host host))))"

subsection \<open>Every spelling of an address is judged alike\<close>

lemma hex_val_digit: "hex_val c = Some d \<Longrightarrow> d < 10 \<Longrightarrow> \<not> c_isspace c \<and> c \<noteq> CHR ''x'' \<and> c \<noteq> CHR ''X'' \<and> c \<noteq> CHR ''.''"
  by (auto simp: hex_val.simps c_isspace_def Let_def split: if_splits)

lemma digits_decimal: "digits_in_base 10 acc s = Some v \<Longrightarrow> \<forall>c \<in> set s. \<exists>d < 10. hex_val c = Some d"
  by (induction s arbitrary: acc) (auto split: option.splits if_splits)

lemma strict_octet_aton:
  assumes "strict_octet s = Some v"
  shows "aton_part s = Some v \<and> v < 256 \<and> (\<forall>c \<in> set s. \<not> c_isspace c)"
proof -
  have s: "s \<noteq> []" "digits_in_base 10 0 s = Some v" "v < 256"
    and lead: "hd s = CHR ''0'' \<longrightarrow> s = ''0''"
    using assms by (auto simp: strict_octet_def split: if_splits option.splits)
  have "aton_part s = digits_in_base 10 0 s"
    using s(1) lead by (auto simp: aton_part_def split: list.split)
  moreover have "\<forall>c \<in> set s. \<not> c_isspace c"
    using digits_decimal [OF s(2)] hex_val_digit by blast
  ultimately show ?thesis using s by simp
qed

lemma py_join_set: "set (py_join sep ps) \<subseteq> set sep \<union> \<Union> (set ` set ps)"
  by (induction sep ps rule: py_join.induct) auto

lemma split_chars: "c \<in> set s \<Longrightarrow> c = sep \<or> (\<exists>p \<in> set (py_split sep s). c \<in> set p)"
  using py_join_set [of "[sep]" "py_split sep s"] by (auto simp: py_join_split)

lemma map_eq_Cons4: "map f xs = [a, b, c, d] \<longleftrightarrow>
    (\<exists>p q r s. xs = [p, q, r, s] \<and> f p = a \<and> f q = b \<and> f r = c \<and> f s = d)"
  by (auto simp: map_eq_Cons_conv)

text \<open>A canonical address is read by \<open>inet_aton\<close> as the same word.\<close>

lemma canonical_aton:
  assumes "ipv4_address s = Some a"
  shows "inet_aton s = Some a"
proof -
  obtain w x y z where parts: "map strict_octet (py_split (CHR ''.'') s) = [Some w, Some x, Some y, Some z]"
    and a: "a = quad w x y z"
    using assms by (auto simp: ipv4_address_def split: list.splits option.splits)
  then obtain p q r t where split: "py_split (CHR ''.'') s = [p, q, r, t]"
    and oct: "strict_octet p = Some w" "strict_octet q = Some x" "strict_octet r = Some y" "strict_octet t = Some z"
    by (auto simp: map_eq_Cons4)
  have nospace: "\<forall>c \<in> set s. \<not> c_isspace c"
  proof
    fix c assume "c \<in> set s"
    from split_chars [OF this, of "CHR ''.''"] split consider "c = CHR ''.''" | "c \<in> set p \<union> set q \<union> set r \<union> set t" by auto
    then show "\<not> c_isspace c"
      using oct [THEN strict_octet_aton] by cases (simp add: c_isspace_def, blast)
  qed
  then have all: "takeWhile (\<lambda>c. \<not> c_isspace c) s = s" by (simp add: takeWhile_eq_all_conv)
  show ?thesis unfolding inet_aton_def all split using oct [THEN strict_octet_aton] a by simp
qed

lemma colon_not_digits: "CHR '':'' \<in> set s \<Longrightarrow> digits_in_base b acc s = None"
  by (induction s arbitrary: acc) (auto simp: hex_val.simps split: option.split)

lemma colon_not_part: "CHR '':'' \<in> set p \<Longrightarrow> aton_part p = None"
  by (auto simp: aton_part_def colon_not_digits simp del: digits_in_base.simps split: list.split)

lemma colon_not_aton:
  assumes "CHR '':'' \<in> set (takeWhile (\<lambda>c. \<not> c_isspace c) h)"
  shows "inet_aton h = None"
proof -
  let ?t = "takeWhile (\<lambda>c. \<not> c_isspace c) h"
  from split_chars [OF assms, of "CHR ''.''"] obtain p where p: "p \<in> set (py_split (CHR ''.'') ?t)" "CHR '':'' \<in> set p"
    by auto
  have "aton_part p = None" by (rule colon_not_part [OF p(2)])
  then have "None \<in> set (map aton_part (py_split (CHR ''.'') ?t))" using p(1) by force
  then show ?thesis by (auto simp: inet_aton_def split: list.splits option.splits)
qed


definition no_v6 :: "string \<Rightarrow> string list option" where
  "no_v6 h = None"


subsection \<open>Retries\<close>

definition f_max0 :: "pyfloat \<Rightarrow> pyfloat" where
  "f_max0 x = (if f_less (Fin 0) x then x else Fin 0)"

definition f_min :: "pyfloat \<Rightarrow> pyfloat \<Rightarrow> pyfloat" where
  "f_min a b = (if f_less b a then b else a)"

text \<open>\<open>http_date\<close> is the number of seconds from now to an HTTP date, \<open>None\<close> when it is malformed.\<close>

definition parse_retry_after :: "(string \<Rightarrow> pyfloat option) \<Rightarrow> string option \<Rightarrow> pyfloat option" where
  "parse_retry_after http_date value = (case value of
     None \<Rightarrow> None
   | Some v \<Rightarrow> (let v = py_strip v in
       if v = [] then None
       else case py_float_of_string v of
         Some x \<Rightarrow> Some (f_max0 x)
       | None \<Rightarrow> map_option f_max0 (http_date v)))"

record webhook_client =
  wc_max_retries :: int
  wc_base_delay :: pyfloat
  wc_max_delay :: pyfloat

datatype response = Success | HttpError int "string option" | TransportError

datatype post_outcome = Delivered | HttpFailed int | Exhausted | BackoffOverflow

text \<open>The backoff of an attempt; Python cannot convert \<open>2 ** attempt\<close> to a float from \<open>1024\<close> on.\<close>

definition backoff :: "webhook_client \<Rightarrow> nat \<Rightarrow> pyfloat option" where
  "backoff wc attempt =
     (if 1024 \<le> attempt then None
      else Some (f_min (f_mul (wc_base_delay wc) (Fin (2 ^ attempt))) (wc_max_delay wc)))"

definition retryable :: "response \<Rightarrow> bool" where
  "retryable r = (case r of
     Success \<Rightarrow> False
   | HttpError code _ \<Rightarrow> \<not> (400 \<le> code \<and> code < 500 \<and> code \<noteq> 429)
   | TransportError \<Rightarrow> True)"

definition retry_after_of :: "(string \<Rightarrow> pyfloat option) \<Rightarrow> response \<Rightarrow> pyfloat option" where
  "retry_after_of http_date r = (case r of
     HttpError code header \<Rightarrow> if code = 429 then parse_retry_after http_date header else None
   | _ \<Rightarrow> None)"

definition delay_after :: "(string \<Rightarrow> pyfloat option) \<Rightarrow> webhook_client \<Rightarrow> nat \<Rightarrow> response \<Rightarrow> pyfloat option" where
  "delay_after http_date wc attempt r = (case backoff wc attempt of
     None \<Rightarrow> None
   | Some b \<Rightarrow> (case retry_after_of http_date r of
       Some ra \<Rightarrow> Some (f_min ra (wc_max_delay wc))
     | None \<Rightarrow> Some b))"

text \<open>The attempts from \<open>attempt\<close> on, \<open>left\<close> of them: the delays slept and the outcome.\<close>

fun post_loop ::
    "(string \<Rightarrow> pyfloat option) \<Rightarrow> webhook_client \<Rightarrow> (nat \<Rightarrow> response) \<Rightarrow> nat \<Rightarrow> nat
     \<Rightarrow> pyfloat list \<times> post_outcome" where
  "post_loop http_date wc opener attempt 0 = ([], Exhausted)"
| "post_loop http_date wc opener attempt (Suc left) =
     (let r = opener attempt in
      if r = Success then ([], Delivered)
      else if \<not> retryable r then
        ([], case r of HttpError code _ \<Rightarrow> HttpFailed code | _ \<Rightarrow> Exhausted)
      else if left = 0 then ([], Exhausted)
      else case delay_after http_date wc attempt r of
          None \<Rightarrow> ([], BackoffOverflow)
        | Some d \<Rightarrow> (case post_loop http_date wc opener (Suc attempt) left of (ds, out) \<Rightarrow> (d # ds, out)))"

definition post ::
    "(string \<Rightarrow> string list option) \<Rightarrow> (string \<Rightarrow> pyfloat option) \<Rightarrow> webhook_client \<Rightarrow> (nat \<Rightarrow> response)
     \<Rightarrow> url_parts \<Rightarrow> string list option \<Rightarrow> url_error + (pyfloat list \<times> post_outcome)" where
  "post v6 http_date wc opener url allowed =
     sbind (validate_webhook_url v6 url allowed) (\<lambda>_.
       Inr (post_loop http_date wc opener 0 (nat (wc_max_retries wc + 1))))"

lemma delay_bounded: "wc_max_delay wc \<noteq> NaN \<Longrightarrow> delay_after hdate wc k r = Some d \<Longrightarrow> \<not> f_less (wc_max_delay wc) d"
  by (auto simp: delay_after_def backoff_def f_min_def f_less_irrefl split: if_splits option.splits)

lemma post_loop_delays:
  assumes "wc_max_delay wc \<noteq> NaN" and "post_loop hdate wc opener k n = (ds, out)"
  shows "length ds \<le> n - 1 \<and> (\<forall>d \<in> set ds. \<not> f_less (wc_max_delay wc) d)"
  using assms(2)
proof (induction n arbitrary: k ds)
  case (Suc n)
  show ?case
  proof (cases "opener k \<noteq> Success \<and> retryable (opener k) \<and> n \<noteq> 0")
    case True
    then show ?thesis
    proof (cases "delay_after hdate wc k (opener k)")
      case (Some d)
      obtain ds' where rest: "post_loop hdate wc opener (Suc k) n = (ds', out)" "ds = d # ds'"
        using Suc.prems True Some by (auto simp: Let_def split: prod.splits)
      from Suc.IH [OF rest(1)] delay_bounded [OF assms(1) Some] True rest(2) show ?thesis by auto
    qed (use Suc.prems True in \<open>simp add: Let_def\<close>)
  next
    case False
    then have "ds = []" using Suc.prems by (auto simp: Let_def split: if_splits)
    then show ?thesis by simp
  qed
qed simp

lemma post_loop_delivered:
  assumes "k + n \<le> 1024"
  shows "snd (post_loop hdate wc opener k n) = Delivered \<longleftrightarrow>
    (\<exists>j < n. opener (k + j) = Success \<and> (\<forall>i < j. retryable (opener (k + i))))"
  using assms
proof (induction n arbitrary: k)
  case (Suc n)
  have split: "(\<exists>j < Suc n. P j) \<longleftrightarrow> P 0 \<or> (\<exists>j < n. P (Suc j))" for P by (auto simp: Ex_less_Suc2)
  have IH: "snd (post_loop hdate wc opener (Suc k) n) = Delivered \<longleftrightarrow>
      (\<exists>j < n. opener (k + Suc j) = Success \<and> (\<forall>i < j. retryable (opener (k + Suc i))))"
    using Suc.IH [of "Suc k"] Suc.prems by simp
  have all: "(\<forall>i < Suc j. retryable (opener (k + i))) \<longleftrightarrow>
      retryable (opener k) \<and> (\<forall>i < j. retryable (opener (k + Suc i)))" for j
    by (auto simp: All_less_Suc2)
  show ?case
  proof (cases "opener k = Success")
    case True
    then show ?thesis by (auto simp: Let_def split)
  next
    case False
    obtain d where d: "delay_after hdate wc k (opener k) = Some d" if "n \<noteq> 0"
      using Suc.prems by (fastforce simp: delay_after_def backoff_def split: option.splits)
    show ?thesis
      using False IH d unfolding split all
      by (cases "n = 0") (auto simp: Let_def split: prod.split response.split)
  qed
qed simp


definition flaky :: "nat \<Rightarrow> response" where
  "flaky k = (if k = 0 then HttpError 429 (Some ''inf'') else Success)"

definition default_client :: webhook_client where
  "default_client = \<lparr>wc_max_retries = 3, wc_base_delay = Fin 1, wc_max_delay = Fin 30\<rparr>"


subsection \<open>Credentials\<close>

record dq_secret =
  sec_scope :: string
  sec_key :: string

datatype credential = Plain string | Secret dq_secret

datatype secret_error = BadReference string | EmptyPart string | ResolveFailed string string

definition as_reference :: "dq_secret \<Rightarrow> string" where
  "as_reference s = sec_scope s @ CHR ''/'' # sec_key s"

definition from_reference :: "string \<Rightarrow> secret_error + dq_secret" where
  "from_reference ref =
     (if CHR ''/'' \<notin> set ref then Inl (BadReference ref)
      else let scope = py_strip (takeWhile (\<lambda>c. c \<noteq> CHR ''/'') ref);
               key = py_strip (drop 1 (dropWhile (\<lambda>c. c \<noteq> CHR ''/'') ref))
           in if scope = [] \<or> key = [] then Inl (EmptyPart ref)
              else Inr \<lparr>sec_scope = scope, sec_key = key\<rparr>)"

text \<open>The persisted form of a credential: a string or the tagged dictionary.\<close>

datatype secret_field = FieldText string | FieldTagged string

fun dump_secret_or_str :: "credential \<Rightarrow> secret_field" where
  "dump_secret_or_str (Plain s) = FieldText s"
| "dump_secret_or_str (Secret s) = FieldTagged (as_reference s)"

fun parse_secret_or_str :: "secret_field \<Rightarrow> secret_error + credential" where
  "parse_secret_or_str (FieldText s) = Inr (Plain s)"
| "parse_secret_or_str (FieldTagged r) = sbind (from_reference r) (\<lambda>s. Inr (Secret s))"

fun resolve_secret :: "(string \<Rightarrow> string \<Rightarrow> string option) \<Rightarrow> credential \<Rightarrow> secret_error + string" where
  "resolve_secret get (Plain s) = Inr s"
| "resolve_secret get (Secret s) = (case get (sec_scope s) (sec_key s) of
     Some v \<Rightarrow> Inr v
   | None \<Rightarrow> Inl (ResolveFailed (sec_scope s) (sec_key s)))"

definition validate_auth_pair :: "credential option \<Rightarrow> credential option \<Rightarrow> bool" where
  "validate_auth_pair username password = ((username = None) = (password = None))"

definition build_auth ::
    "(string \<Rightarrow> string \<Rightarrow> string option) \<Rightarrow> credential option \<Rightarrow> credential option
     \<Rightarrow> secret_error + (string \<times> string) option" where
  "build_auth get username password = (case (username, password) of
     (Some u, Some p) \<Rightarrow> sbind (resolve_secret get u) (\<lambda>ru.
       sbind (resolve_secret get p) (\<lambda>rp. Inr (Some (ru, rp))))
   | _ \<Rightarrow> Inr None)"

text \<open>A secret whose scope has no slash and whose parts are non-empty and free of outer blanks.\<close>

definition canonical_secret :: "dq_secret \<Rightarrow> bool" where
  "canonical_secret s = (CHR ''/'' \<notin> set (sec_scope s) \<and> sec_scope s \<noteq> [] \<and> sec_key s \<noteq> []
     \<and> py_strip (sec_scope s) = sec_scope s \<and> py_strip (sec_key s) = sec_key s)"

lemma strip_subset: "set (py_strip s) \<subseteq> set s"
proof -
  have drop: "set (dropWhile P xs) \<subseteq> set xs" for P and xs :: string by (auto dest: set_dropWhileD)
  have "set (py_rstrip t) \<subseteq> set t" for t
    using drop [of py_isspace "rev t"] by (auto simp: py_rstrip_def)
  then show ?thesis using drop [of py_isspace s] unfolding py_strip_def py_lstrip_def by blast
qed

lemma reference_parts:
  assumes "CHR ''/'' \<notin> set a"
  shows "takeWhile (\<lambda>c. c \<noteq> CHR ''/'') (a @ CHR ''/'' # b) = a"
    and "dropWhile (\<lambda>c. c \<noteq> CHR ''/'') (a @ CHR ''/'' # b) = CHR ''/'' # b"
  using assms by (induction a) auto

text \<open>A stored credential is read back as it was exactly when it is a plain string or a reference
  whose scope has no slash and whose parts are non-empty and stripped; the key may hold slashes.\<close>

theorem credential_roundtrip_iff:
  "parse_secret_or_str (dump_secret_or_str c) = Inr c \<longleftrightarrow>
     (case c of Plain _ \<Rightarrow> True | Secret s \<Rightarrow> canonical_secret s)"
proof (cases c)
  case (Secret s)
  show ?thesis
  proof (cases "CHR ''/'' \<in> set (sec_scope s)")
    case True
    have "from_reference (as_reference s) \<noteq> Inr s"
    proof
      assume "from_reference (as_reference s) = Inr s"
      then have "py_strip (takeWhile (\<lambda>c. c \<noteq> CHR ''/'') (as_reference s)) = sec_scope s"
        by (cases s) (auto simp: from_reference_def Let_def split: if_splits)
      then have "set (sec_scope s) \<subseteq> set (takeWhile (\<lambda>c. c \<noteq> CHR ''/'') (as_reference s))"
        by (metis strip_subset)
      with True show False by (auto dest: set_takeWhileD)
    qed
    with True Secret show ?thesis by (auto simp: canonical_secret_def result_simps)
  next
    case False
    then show ?thesis using Secret
      by (cases s) (auto simp: canonical_secret_def result_simps from_reference_def as_reference_def
          reference_parts Let_def)
  qed
qed simp

text \<open>A destination that passed validation never sends half of a credential pair.\<close>

lemma auth_pair_complete:
  "validate_auth_pair u p \<Longrightarrow> build_auth get u p = Inr auth \<Longrightarrow> (auth = None) = (u = None \<and> p = None)"
  by (auto simp: validate_auth_pair_def build_auth_def result_simps split: option.splits)

end
