(* ===== verification/Check_Validator.thy ===== *)
theory Check_Validator
  imports Py_Value
begin

section \<open>Validation of declarative checks (\<open>checks_validator.py\<close>)\<close>

text \<open>
  A check is a JSON-like value. Its validation is structural (the fields \<open>CheckBlock\<close> and
  \<open>CheckSpec\<close> declare), then semantic: criticality, the check function, and the arguments against
  the function's signature. Messages are values that hold what their text is built from. Resolving
  a function name is the parameter \<open>resolve\<close>.
\<close>

subsection \<open>Values, annotations and signatures\<close>

datatype json =
    JNull
  | JBool bool
  | JInt int
  | JFloat pyfloat
  | JStr string
  | JList "json list"
  | JDict "(string \<times> json) list"

datatype annotation =
    Unchecked
  | AInt
  | AFloat
  | AStr
  | ABool
  | ANone
  | ADict
  | AOpaque string
  | AUnion "annotation list"
  | AList "annotation list"

datatype param_kind = Regular | VarPositional | VarKeyword

record param =
  par_name :: string
  par_annotation :: annotation
  par_kind :: param_kind
  par_has_default :: bool

record check_function =
  fn_name :: string
  fn_params :: "param list"

subsection \<open>Messages\<close>

datatype check_message =
    UnsupportedCheckType
  | CheckMissing
  | CheckNotDict
  | FunctionMissing
  | ForEachEmpty
  | ForEachNotList
  | ArgumentsNotDict
  | InvalidField string
  | InvalidCriticality string
  | FunctionNotDefined string
  | NoArguments string "string list"
  | UnexpectedArgument string string "string list"
  | WrongType string string annotation
  | NotAList string string
  | WrongItem nat string string "annotation list"
  | MissingArgument string string "string list"

subsection \<open>The type of an argument\<close>

text \<open>Strict validation by pydantic: no coercion, an integer passes for a float, a boolean only for a
  boolean. An opaque class is matched by no JSON value.\<close>

fun strict_matches :: "annotation \<Rightarrow> json \<Rightarrow> bool" where
  "strict_matches Unchecked v = True"
| "strict_matches AInt v = (case v of JInt _ \<Rightarrow> True | _ \<Rightarrow> False)"
| "strict_matches AFloat v = (case v of JInt _ \<Rightarrow> True | JFloat _ \<Rightarrow> True | _ \<Rightarrow> False)"
| "strict_matches AStr v = (case v of JStr _ \<Rightarrow> True | _ \<Rightarrow> False)"
| "strict_matches ABool v = (case v of JBool _ \<Rightarrow> True | _ \<Rightarrow> False)"
| "strict_matches ANone v = (v = JNull)"
| "strict_matches ADict v = (case v of JDict _ \<Rightarrow> True | _ \<Rightarrow> False)"
| "strict_matches (AOpaque c) v = False"
| "strict_matches (AUnion as) v = list_ex (\<lambda>a. strict_matches a v) as"
| "strict_matches (AList as) v = (case v of
     JList items \<Rightarrow> (case as of [] \<Rightarrow> True | a # _ \<Rightarrow> list_all (strict_matches a) items)
   | _ \<Rightarrow> False)"

definition matches_type :: "json \<Rightarrow> annotation \<Rightarrow> bool" where
  "matches_type v a =
     (if a = Unchecked then True
      else if strict_matches a v then True
      else case v of JBool b \<Rightarrow> strict_matches a (JInt (if b then 1 else 0)) | _ \<Rightarrow> False)"

fun list_item_errors :: "string \<Rightarrow> string \<Rightarrow> annotation list \<Rightarrow> nat \<Rightarrow> json list \<Rightarrow> check_message list" where
  "list_item_errors arg fname as i [] = []"
| "list_item_errors arg fname as i (v # vs) =
     (if matches_type v (case as of [] \<Rightarrow> Unchecked | a # _ \<Rightarrow> a) then []
      else [WrongItem i arg fname as]) @ list_item_errors arg fname as (Suc i) vs"

definition validate_func_list_args ::
    "string \<Rightarrow> check_function \<Rightarrow> annotation list \<Rightarrow> json \<Rightarrow> check_message list" where
  "validate_func_list_args arg f as v = (case v of
     JList vs \<Rightarrow> list_item_errors arg (fn_name f) as 0 vs
   | _ \<Rightarrow> [NotAList arg (fn_name f)])"

subsection \<open>Arguments against a signature\<close>

type_synonym json_dict = "(string \<times> json) list"

definition param_names :: "check_function \<Rightarrow> string list" where
  "param_names f = map par_name (fn_params f)"

definition find_param :: "check_function \<Rightarrow> string \<Rightarrow> param option" where
  "find_param f n = find (\<lambda>p. par_name p = n) (fn_params f)"

definition required_params :: "check_function \<Rightarrow> string list" where
  "required_params f = map par_name (filter (\<lambda>p. par_kind p = Regular \<and> \<not> par_has_default p) (fn_params f))"

definition missing_required_arguments :: "json_dict \<Rightarrow> check_function \<Rightarrow> check_message list" where
  "missing_required_arguments args f =
     map (\<lambda>n. MissingArgument n (fn_name f) (param_names f))
       (filter (\<lambda>n. \<not> dict_has args n) (required_params f))"

definition argument_errors :: "check_function \<Rightarrow> string \<times> json \<Rightarrow> check_message list" where
  "argument_errors f av = (case av of (arg, v) \<Rightarrow>
     (case find_param f arg of
        None \<Rightarrow> [UnexpectedArgument arg (fn_name f) (param_names f)]
      | Some p \<Rightarrow> (case par_annotation p of
          AList as \<Rightarrow> validate_func_list_args arg f as v
        | a \<Rightarrow> if matches_type v a then [] else [WrongType arg (fn_name f) a])))"

definition validate_func_args :: "json_dict \<Rightarrow> check_function \<Rightarrow> check_message list" where
  "validate_func_args args f =
     (if args = [] \<and> fn_params f \<noteq> [] then [NoArguments (fn_name f) (param_names f)]
      else concat (map (argument_errors f) args) @ missing_required_arguments args f)"

record check_block =
  cb_function :: string
  cb_arguments :: json_dict
  cb_for_each_column :: "json list option"

record check_spec =
  cs_check :: check_block
  cs_criticality :: string
  cs_name :: "string option"
  cs_filter :: "string option"
  cs_user_metadata :: "json_dict option"
  cs_message_expr :: "string option"

definition column_argument :: "check_function \<Rightarrow> string" where
  "column_argument f = (if ''columns'' \<in> set (param_names f) then ''columns'' else ''column'')"

text \<open>The arguments of the rules a check expands to: one per entry of \<open>for_each_column\<close>. The loop of
  the code updates one dictionary in place; since every round sets the same key, each round sees
  the given arguments with that key set.\<close>

fun for_each_errors :: "check_function \<Rightarrow> json_dict \<Rightarrow> json list \<Rightarrow> check_message list" where
  "for_each_errors f args [] = []"
| "for_each_errors f args (c # cs) = (let args = dict_set args (column_argument f) c in
     validate_func_args args f @ for_each_errors f args cs)"

definition validate_check_function_arguments :: "check_block \<Rightarrow> check_function \<Rightarrow> check_message list" where
  "validate_check_function_arguments cb f = (case cb_for_each_column cb of
     Some (c # cs) \<Rightarrow> for_each_errors f (cb_arguments cb) (c # cs)
   | _ \<Rightarrow> validate_func_args (cb_arguments cb) f)"

definition function_and_argument_errors ::
    "(string \<Rightarrow> check_function option) \<Rightarrow> bool \<Rightarrow> check_block \<Rightarrow> check_message list" where
  "function_and_argument_errors resolve strict cb = (case resolve (cb_function cb) of
     None \<Rightarrow> if strict then [FunctionNotDefined (cb_function cb)] else []
   | Some f \<Rightarrow> validate_check_function_arguments cb f)"

subsection \<open>Criticality\<close>

datatype criticality = WARN | ERROR

fun criticality_value :: "criticality \<Rightarrow> string" where
  "criticality_value WARN = ''warn''"
| "criticality_value ERROR = ''error''"

definition valid_criticality :: "string \<Rightarrow> bool" where
  "valid_criticality s = (s \<in> {criticality_value WARN, criticality_value ERROR})"

definition criticality_errors :: "json_dict \<Rightarrow> check_message list" where
  "criticality_errors check = (case dict_get check ''criticality'' of
     Some (JStr s) \<Rightarrow> if valid_criticality s then [] else [InvalidCriticality s]
   | _ \<Rightarrow> [])"

subsection \<open>Fields\<close>

definition str_field :: "json_dict \<Rightarrow> string \<Rightarrow> string option \<Rightarrow> check_message list + string option" where
  "str_field d k dflt = (case dict_get d k of
     None \<Rightarrow> Inr dflt
   | Some (JStr s) \<Rightarrow> Inr (Some s)
   | Some _ \<Rightarrow> Inl [InvalidField k])"

definition opt_str_field :: "json_dict \<Rightarrow> string \<Rightarrow> check_message list + string option" where
  "opt_str_field d k = (case dict_get d k of
     Some JNull \<Rightarrow> Inr None
   | _ \<Rightarrow> str_field d k None)"

definition metadata_field :: "json_dict \<Rightarrow> check_message list + json_dict option" where
  "metadata_field d = (case dict_get d ''user_metadata'' of
     None \<Rightarrow> Inr None
   | Some JNull \<Rightarrow> Inr None
   | Some (JDict m) \<Rightarrow> Inr (Some m)
   | Some _ \<Rightarrow> Inl [InvalidField ''user_metadata''])"

definition function_field :: "json_dict \<Rightarrow> check_message list + string" where
  "function_field d = (case dict_get d ''function'' of
     None \<Rightarrow> Inl [FunctionMissing]
   | Some (JStr s) \<Rightarrow> Inr s
   | Some _ \<Rightarrow> Inl [InvalidField ''check -> function''])"

definition arguments_field :: "json_dict \<Rightarrow> check_message list + json_dict" where
  "arguments_field d = (case dict_get d ''arguments'' of
     None \<Rightarrow> Inr []
   | Some (JDict m) \<Rightarrow> Inr m
   | Some _ \<Rightarrow> Inl [ArgumentsNotDict])"

definition for_each_field :: "json_dict \<Rightarrow> check_message list + json list option" where
  "for_each_field d = (case dict_get d ''for_each_column'' of
     None \<Rightarrow> Inr None
   | Some JNull \<Rightarrow> Inr None
   | Some (JList []) \<Rightarrow> Inl [ForEachEmpty]
   | Some (JList l) \<Rightarrow> Inr (Some l)
   | Some _ \<Rightarrow> Inl [ForEachNotList])"

text \<open>Pydantic validates every field and collects the errors in the order of the fields.\<close>

definition errs :: "'e list + 'a \<Rightarrow> 'e list" where
  "errs m = (case m of Inl e \<Rightarrow> e | Inr _ \<Rightarrow> [])"

definition both :: "'e list + ('a \<Rightarrow> 'b) \<Rightarrow> 'e list + 'a \<Rightarrow> 'e list + 'b" where
  "both f x = (case (f, x) of (Inr g, Inr v) \<Rightarrow> Inr (g v) | _ \<Rightarrow> Inl (errs f @ errs x))"

definition parse_check_block :: "json option \<Rightarrow> check_message list + check_block" where
  "parse_check_block v = (case v of
     None \<Rightarrow> Inl [CheckMissing]
   | Some (JDict d) \<Rightarrow> both (both (both (Inr (\<lambda>f a c. \<lparr>cb_function = f, cb_arguments = a, cb_for_each_column = c\<rparr>))
       (function_field d)) (arguments_field d)) (for_each_field d)
   | Some _ \<Rightarrow> Inl [CheckNotDict])"

definition parse_check_fields :: "json_dict \<Rightarrow> check_message list + check_spec" where
  "parse_check_fields d =
     both (both (both (both (both (both
       (Inr (\<lambda>cb cr n fl um me. \<lparr>cs_check = cb, cs_criticality = the cr, cs_name = n, cs_filter = fl,
          cs_user_metadata = um, cs_message_expr = me\<rparr>))
       (parse_check_block (dict_get d ''check'')))
       (str_field d ''criticality'' (Some (criticality_value ERROR))))
       (opt_str_field d ''name''))
       (opt_str_field d ''filter''))
       (metadata_field d))
       (opt_str_field d ''message_expr'')"

subsection \<open>\<open>CheckSpec.validate_check\<close> and \<open>ChecksValidator\<close>\<close>

definition validate_semantics ::
    "(string \<Rightarrow> check_function option) \<Rightarrow> bool \<Rightarrow> json_dict \<Rightarrow> check_spec \<Rightarrow> check_message list" where
  "validate_semantics resolve strict check spec =
     criticality_errors check @ function_and_argument_errors resolve strict (cs_check spec)"

text \<open>The messages of a check that fails: those of its fields, preceded by the criticality error the
  skipped model validator would have found, or else those of the model validator.\<close>

definition validate_check ::
    "(string \<Rightarrow> check_function option) \<Rightarrow> bool \<Rightarrow> json_dict \<Rightarrow> check_message list + check_spec" where
  "validate_check resolve strict check = (case parse_check_fields check of
     Inl es \<Rightarrow> Inl (criticality_errors check @ es)
   | Inr spec \<Rightarrow> (case validate_semantics resolve strict check spec of
       [] \<Rightarrow> Inr spec
     | es \<Rightarrow> Inl es))"

fun validate_and_parse ::
    "(string \<Rightarrow> check_function option) \<Rightarrow> bool \<Rightarrow> json list \<Rightarrow> check_message list \<times> check_spec option list" where
  "validate_and_parse resolve strict [] = ([], [])"
| "validate_and_parse resolve strict (c # cs) = (case validate_and_parse resolve strict cs of (errors, specs) \<Rightarrow>
     (case c of
        JDict d \<Rightarrow> (case validate_check resolve strict d of
            Inl es \<Rightarrow> (es @ errors, None # specs)
          | Inr spec \<Rightarrow> (errors, Some spec # specs))
      | _ \<Rightarrow> (UnsupportedCheckType # errors, None # specs)))"

definition validate_checks :: "(string \<Rightarrow> check_function option) \<Rightarrow> bool \<Rightarrow> json list \<Rightarrow> check_message list" where
  "validate_checks resolve strict checks = fst (validate_and_parse resolve strict checks)"

subsection \<open>What a valid check is\<close>

definition value_fits :: "json \<Rightarrow> annotation \<Rightarrow> bool" where
  "value_fits v a = (case a of
     AList as \<Rightarrow> (\<exists>vs. v = JList vs \<and> list_all (\<lambda>x. matches_type x (case as of [] \<Rightarrow> Unchecked | a # _ \<Rightarrow> a)) vs)
   | _ \<Rightarrow> matches_type v a)"

definition arguments_fit :: "check_function \<Rightarrow> json_dict \<Rightarrow> bool" where
  "arguments_fit f args \<longleftrightarrow> (args = [] \<longrightarrow> fn_params f = [])
     \<and> (\<forall>(n, v) \<in> set args. \<exists>p. find_param f n = Some p \<and> value_fits v (par_annotation p))
     \<and> (\<forall>n \<in> set (required_params f). dict_has args n)"

text \<open>The argument dictionaries of the rules a check stands for.\<close>

definition call_arguments :: "check_block \<Rightarrow> check_function \<Rightarrow> json_dict list" where
  "call_arguments cb f = (case cb_for_each_column cb of
     Some (c # cs) \<Rightarrow> map (dict_set (cb_arguments cb) (column_argument f)) (c # cs)
   | _ \<Rightarrow> [cb_arguments cb])"

lemma list_item_errors_Nil:
  "list_item_errors arg n as i vs = [] \<longleftrightarrow>
     list_all (\<lambda>x. matches_type x (case as of [] \<Rightarrow> Unchecked | a # _ \<Rightarrow> a)) vs"
  by (induction arg n as i vs rule: list_item_errors.induct) auto

lemma argument_errors_Nil:
  "argument_errors f (n, v) = [] \<longleftrightarrow> (\<exists>p. find_param f n = Some p \<and> value_fits v (par_annotation p))"
proof (cases "find_param f n")
  case (Some p)
  have "validate_func_list_args n f as v = [] \<longleftrightarrow>
      (\<exists>vs. v = JList vs \<and> list_all (\<lambda>x. matches_type x (case as of [] \<Rightarrow> Unchecked | a # _ \<Rightarrow> a)) vs)" for as
    by (simp add: validate_func_list_args_def list_item_errors_Nil split: json.split)
  with Some show ?thesis by (simp add: argument_errors_def value_fits_def split: annotation.split)
qed (simp add: argument_errors_def)

lemma validate_func_args_Nil: "validate_func_args args f = [] \<longleftrightarrow> arguments_fit f args"
proof -
  have "concat (map (argument_errors f) args) = []
      \<longleftrightarrow> (\<forall>(n, v) \<in> set args. \<exists>p. find_param f n = Some p \<and> value_fits v (par_annotation p))"
    using argument_errors_Nil by (auto simp: split_def)
  moreover have "missing_required_arguments args f = [] \<longleftrightarrow> (\<forall>n \<in> set (required_params f). dict_has args n)"
    by (auto simp: missing_required_arguments_def filter_empty_conv)
  ultimately show ?thesis by (auto simp: validate_func_args_def arguments_fit_def)
qed

lemma for_each_errors_Nil:
  "for_each_errors f args cs = [] \<longleftrightarrow> (\<forall>c \<in> set cs. arguments_fit f (dict_set args (column_argument f) c))"
  by (induction cs arbitrary: args) (auto simp: Let_def validate_func_args_Nil)

lemma arguments_validated:
  "validate_check_function_arguments cb f = [] \<longleftrightarrow> (\<forall>args \<in> set (call_arguments cb f). arguments_fit f args)"
  by (auto simp: validate_check_function_arguments_def call_arguments_def for_each_errors_Nil
      validate_func_args_Nil simp del: for_each_errors.simps split: option.split list.split)

lemma both_Inr: "both f x = Inr y \<longleftrightarrow> (\<exists>g v. f = Inr g \<and> x = Inr v \<and> y = g v)"
  by (auto simp: both_def split: sum.splits)

lemma both_Inl: "both f x = Inl es \<longleftrightarrow> es = errs f @ errs x \<and> ((\<exists>e. f = Inl e) \<or> (\<exists>e. x = Inl e))"
  by (auto simp: both_def errs_def split: sum.splits)

lemma parsed_criticality:
  "parse_check_fields d = Inr spec \<Longrightarrow> (criticality_errors d = []) = valid_criticality (cs_criticality spec)"
  by (auto simp: parse_check_fields_def both_Inr str_field_def criticality_errors_def valid_criticality_def
      split: option.splits json.splits if_splits)

lemma semantics_Nil:
  assumes "parse_check_fields d = Inr spec"
  shows "validate_semantics resolve strict d spec = [] \<longleftrightarrow> valid_criticality (cs_criticality spec)
    \<and> (case resolve (cb_function (cs_check spec)) of
         None \<Rightarrow> \<not> strict
       | Some f \<Rightarrow> \<forall>args \<in> set (call_arguments (cs_check spec) f). arguments_fit f args)"
  using parsed_criticality [OF assms]
  by (auto simp: validate_semantics_def function_and_argument_errors_def arguments_validated split: option.split)

text \<open>C37: a check is accepted exactly when its fields have the declared shape, its criticality is one of
  the two levels, and its function is known (or unknown functions are tolerated) and accepts the
  arguments of every rule the check stands for: each argument is a parameter of the right type,
  and every parameter without a default is given.\<close>

theorem validate_check_iff:
  "validate_check resolve strict d = Inr spec \<longleftrightarrow> parse_check_fields d = Inr spec
     \<and> valid_criticality (cs_criticality spec)
     \<and> (case resolve (cb_function (cs_check spec)) of
          None \<Rightarrow> \<not> strict
        | Some f \<Rightarrow> \<forall>args \<in> set (call_arguments (cs_check spec) f). arguments_fit f args)"
proof (cases "parse_check_fields d")
  case (Inr sp)
  show ?thesis
    using semantics_Nil [OF Inr, of resolve strict] Inr
    by (cases "validate_semantics resolve strict d sp") (auto simp: validate_check_def)
qed (simp add: validate_check_def)

text \<open>A failing field reports at least one error.\<close>

definition reports :: "'e list + 'a \<Rightarrow> bool" where
  "reports m = (m \<noteq> Inl [])"

lemma reports_both: "reports f \<Longrightarrow> reports x \<Longrightarrow> reports (both f x)"
  by (cases f; cases x) (auto simp: reports_def both_def errs_def)

lemma reports_fields:
  "reports (Inr v)" "reports (function_field d)" "reports (arguments_field d)" "reports (for_each_field d)"
  "reports (str_field d k w)" "reports (opt_str_field d k)" "reports (metadata_field d)"
  by (simp_all add: reports_def function_field_def arguments_field_def for_each_field_def str_field_def
      opt_str_field_def metadata_field_def split: option.split json.split list.split)

lemma reports_block: "reports (parse_check_block v)"
  unfolding parse_check_block_def
  by (simp add: reports_fields reports_both split: option.split json.split) (simp add: reports_def)

lemma field_errors_nonempty: "parse_check_fields d = Inl es \<Longrightarrow> es \<noteq> []"
proof -
  have "reports (parse_check_fields d)"
    unfolding parse_check_fields_def by (intro reports_both reports_fields reports_block)
  then show "parse_check_fields d = Inl es \<Longrightarrow> es \<noteq> []" by (auto simp: reports_def)
qed

lemma validate_check_errors: "validate_check resolve strict d = Inl es \<Longrightarrow> es \<noteq> []"
  by (auto simp: validate_check_def dest: field_errors_nonempty split: sum.splits list.splits)

definition check_result :: "(string \<Rightarrow> check_function option) \<Rightarrow> bool \<Rightarrow> json \<Rightarrow> check_message list + check_spec" where
  "check_result resolve strict c = (case c of
     JDict d \<Rightarrow> validate_check resolve strict d
   | _ \<Rightarrow> Inl [UnsupportedCheckType])"

lemma validate_and_parse_map:
  "validate_and_parse resolve strict cs =
     (concat (map (\<lambda>c. errs (check_result resolve strict c)) cs),
      map (\<lambda>c. case check_result resolve strict c of Inl _ \<Rightarrow> None | Inr spec \<Rightarrow> Some spec) cs)"
  by (induction cs) (auto simp: check_result_def errs_def split: json.split sum.split)

lemma check_result_errors: "check_result resolve strict c = Inl es \<Longrightarrow> es \<noteq> []"
  by (auto simp: check_result_def dest: validate_check_errors split: json.splits)

text \<open>Validating a list of checks handles each on its own and keeps the positions: the parsed
  representations are aligned with the checks, a check has one exactly when it is valid by itself,
  no error is reported exactly when every check has one, and a check with an invalid criticality
  is reported as such even when its other fields are malformed.\<close>

theorem validate_and_parse_aligned:
  "case validate_and_parse resolve strict cs of (errors, specs) \<Rightarrow>
     length specs = length cs
     \<and> (\<forall>i < length cs. \<forall>spec. specs ! i = Some spec \<longleftrightarrow>
          (\<exists>d. cs ! i = JDict d \<and> validate_check resolve strict d = Inr spec))
     \<and> (errors = [] \<longleftrightarrow> None \<notin> set specs)
     \<and> (\<forall>d s. JDict d \<in> set cs \<and> dict_get d ''criticality'' = Some (JStr s) \<and> \<not> valid_criticality s
          \<longrightarrow> InvalidCriticality s \<in> set errors)"
proof -
  let ?r = "check_result resolve strict"
  have crit: "\<exists>es. ?r (JDict d) = Inl es \<and> InvalidCriticality s \<in> set es"
    if "dict_get d ''criticality'' = Some (JStr s)" and "\<not> valid_criticality s" for d s
    using that by (auto simp: check_result_def validate_check_def validate_semantics_def criticality_errors_def
        split: sum.split)
  have "concat (map (\<lambda>c. errs (?r c)) cs) = [] \<longleftrightarrow> (\<forall>c \<in> set cs. \<exists>spec. ?r c = Inr spec)"
    using check_result_errors by (auto simp: errs_def split: sum.splits) (metis sum.exhaust_sel)
  moreover have "None \<notin> set (map (\<lambda>c. case ?r c of Inl _ \<Rightarrow> None | Inr spec \<Rightarrow> Some spec) cs)
      \<longleftrightarrow> (\<forall>c \<in> set cs. \<exists>spec. ?r c = Inr spec)"
    by (auto simp: image_iff split: sum.splits) (metis sum.exhaust_sel)
  moreover have "(case ?r c of Inl _ \<Rightarrow> None | Inr sp \<Rightarrow> Some sp) = Some spec \<longleftrightarrow>
      (\<exists>d. c = JDict d \<and> validate_check resolve strict d = Inr spec)" for c spec
    by (cases c) (auto simp: check_result_def split: sum.splits)
  ultimately show ?thesis
    using crit by (fastforce simp: validate_and_parse_map errs_def)
qed

definition regex_match :: check_function where
  "regex_match = \<lparr>fn_name = ''regex_match'', fn_params =
     [\<lparr>par_name = ''column'', par_annotation = AUnion [AStr, AOpaque ''Column''], par_kind = Regular, par_has_default = False\<rparr>,
      \<lparr>par_name = ''regex'', par_annotation = AStr, par_kind = Regular, par_has_default = False\<rparr>,
      \<lparr>par_name = ''negate'', par_annotation = ABool, par_kind = Regular, par_has_default = True\<rparr>]\<rparr>"

definition known_functions :: "string \<Rightarrow> check_function option" where
  "known_functions n = (if n = ''regex_match'' then Some regex_match else None)"

definition sample_check :: json_dict where
  "sample_check = [(''check'', JDict [(''function'', JStr ''regex_match''),
     (''arguments'', JDict [(''regex'', JStr ''^a'')]), (''for_each_column'', JList [JStr ''x'', JStr ''y''])])]"

definition bad_check :: json_dict where
  "bad_check = [(''criticality'', JStr ''fatal''), (''check'', JInt 3)]"

definition sample_spec :: check_spec where
  "sample_spec = \<lparr>cs_check = \<lparr>cb_function = ''regex_match'', cb_arguments = [(''regex'', JStr ''^a'')],
     cb_for_each_column = Some [JStr ''x'', JStr ''y'']\<rparr>, cs_criticality = ''error'', cs_name = None,
     cs_filter = None, cs_user_metadata = None, cs_message_expr = None\<rparr>"

lemma sample_fields: "parse_check_fields sample_check = Inr sample_spec"
  by (simp add: parse_check_fields_def sample_check_def sample_spec_def parse_check_block_def both_def
      function_field_def arguments_field_def for_each_field_def str_field_def opt_str_field_def metadata_field_def)

theorem validate_check_iff_witness:
  "validate_check known_functions True sample_check = Inr sample_spec"
proof -
  have "\<forall>args \<in> set (call_arguments (cs_check sample_spec) regex_match). arguments_fit regex_match args"
    by (simp add: sample_spec_def call_arguments_def regex_match_def column_argument_def param_names_def
        arguments_fit_def find_param_def value_fits_def matches_type_def required_params_def dict_has_def)
  then show ?thesis
    using validate_check_iff [of known_functions True sample_check sample_spec] sample_fields
    by (simp add: sample_spec_def valid_criticality_def known_functions_def)
qed

theorem validate_and_parse_aligned_witness:
  "InvalidCriticality ''fatal'' \<in> set (fst (validate_and_parse known_functions True
     [JDict sample_check, JInt 1, JDict bad_check]))"
proof -
  obtain errors specs where vp: "validate_and_parse known_functions True
      [JDict sample_check, JInt 1, JDict bad_check] = (errors, specs)" by fastforce
  have "JDict bad_check \<in> set [JDict sample_check, JInt 1, JDict bad_check]" by simp
  moreover have "dict_get bad_check ''criticality'' = Some (JStr ''fatal'')" "\<not> valid_criticality ''fatal''"
    by (simp_all add: bad_check_def valid_criticality_def)
  ultimately have "InvalidCriticality ''fatal'' \<in> set errors"
    using validate_and_parse_aligned [where resolve = known_functions and strict = True
      and cs = "[JDict sample_check, JInt 1, JDict bad_check]"] unfolding vp prod.case by blast
  then show ?thesis unfolding vp by simp
qed

end
