(* ===== verification/DQ_Rule.thy ===== *)
theory DQ_Rule
  imports Check_Validator
begin

section \<open>Rules and their metadata (\<open>rule.py\<close>, \<open>checks_serializer.py\<close>)\<close>

text \<open>
  A rule binds a check function to its arguments. Rules are built from validated checks, which
  \<open>for_each_column\<close> expands, and written back as metadata. Arguments are the JSON-like values of
  metadata: Spark \<open>Column\<close> objects, which only rules written in Python hold, are not modelled, and
  neither are check functions with variadic parameters. Calling a check function, which yields the
  name of its condition, and Spark's parser of message expressions are parameters.
\<close>

subsection \<open>Rules\<close>

datatype rule_kind = RowRule | DatasetRule

datatype rule_error =
    InvalidChecks "check_message list"
  | AssertionFailed
  | NoneInColumns
  | EmptyColumns
  | BadRuleField string
  | WrongRuleType string
  | BadCriticality string
  | ColumnAndColumns
  | BadMessageExpr string
  | CallFailed string

record dq_rule =
  ru_kind :: rule_kind
  ru_func :: check_function
  ru_name :: string
  ru_criticality :: string
  ru_column :: "string option"
  ru_columns :: "string list option"
  ru_filter :: "string option"
  ru_args :: "json list"
  ru_kwargs :: json_dict
  ru_user_metadata :: "json_dict option"
  ru_message_expr :: "string option"

record rule_env =
  re_registry :: "string \<Rightarrow> string option"
  re_call :: "check_function \<Rightarrow> json list \<Rightarrow> json_dict \<Rightarrow> string option"
  re_valid_expr :: "string \<Rightarrow> bool"

fun expected_rule_type :: "rule_kind \<Rightarrow> string" where
  "expected_rule_type RowRule = ''row''"
| "expected_rule_type DatasetRule = ''dataset''"

definition validate_rule_type :: "rule_env \<Rightarrow> rule_kind \<Rightarrow> check_function \<Rightarrow> rule_error + unit" where
  "validate_rule_type env kind f = (case re_registry env (fn_name f) of
     None \<Rightarrow> Inr ()
   | Some t \<Rightarrow> if t \<noteq> [] \<and> t \<noteq> expected_rule_type kind then Inl (WrongRuleType (fn_name f)) else Inr ())"

subsection \<open>Arguments of the check function\<close>

text \<open>\<open>None\<close> when the parameter is absent, otherwise whether it has a default.\<close>

definition is_optional_argument :: "check_function \<Rightarrow> string \<Rightarrow> bool option" where
  "is_optional_argument f n = map_option par_has_default (find_param f n)"

definition build_column_args :: "string option \<Rightarrow> check_function \<Rightarrow> json list" where
  "build_column_args column f = (case column of
     Some c \<Rightarrow> if ''column'' \<in> set (param_names f) then [JStr c] else []
   | None \<Rightarrow> [])"

definition build_columns_args :: "string list option \<Rightarrow> check_function \<Rightarrow> rule_error + json list" where
  "build_columns_args columns f = (case columns of
     Some cs \<Rightarrow> if ''columns'' \<in> set (param_names f)
       then (if cs = [] then Inl EmptyColumns else Inr [JList (map JStr cs)]) else Inr []
   | None \<Rightarrow> Inr [])"

definition build_args :: "dq_rule \<Rightarrow> rule_error + json list" where
  "build_args r =
     (let f = ru_func r;
          args = (if is_optional_argument f ''column'' \<noteq> Some True then build_column_args (ru_column r) f else [])
      in sbind (if is_optional_argument f ''columns'' \<noteq> Some True then build_columns_args (ru_columns r) f else Inr [])
           (\<lambda>cs. Inr (args @ cs @ ru_args r)))"

definition set_or_pop :: "check_function \<Rightarrow> string \<Rightarrow> json option \<Rightarrow> json_dict \<Rightarrow> json_dict" where
  "set_or_pop f n v kwargs =
     (if is_optional_argument f n = Some True
      then (case v of None \<Rightarrow> kwargs | Some w \<Rightarrow> dict_set kwargs n w)
      else dict_pop kwargs n)"

definition truthy_text :: "string option \<Rightarrow> bool" where
  "truthy_text s = (s \<noteq> None \<and> s \<noteq> Some [])"

definition build_kwargs :: "dq_rule \<Rightarrow> json_dict" where
  "build_kwargs r =
     (let f = ru_func r;
          kwargs = set_or_pop f ''column'' (map_option JStr (ru_column r)) (ru_kwargs r);
          kwargs = set_or_pop f ''columns'' (map_option (\<lambda>cs. JList (map JStr cs)) (ru_columns r)) kwargs
      in if truthy_text (ru_filter r) \<and> ''row_filter'' \<in> set (param_names f)
         then dict_set kwargs ''row_filter'' (JStr (the (ru_filter r))) else kwargs)"

definition prepare_args_and_kwargs :: "dq_rule \<Rightarrow> rule_error + (json list \<times> json_dict)" where
  "prepare_args_and_kwargs r = sbind (build_args r) (\<lambda>args. Inr (args, build_kwargs r))"

text \<open>\<open>inspect.Signature.bind_partial\<close>: the bound arguments in the order of the signature, \<open>None\<close> for
  the \<open>TypeError\<close> it raises.\<close>

definition bind_partial :: "check_function \<Rightarrow> json list \<Rightarrow> json_dict \<Rightarrow> json_dict option" where
  "bind_partial f args kwargs =
     (let names = param_names f; pos = zip names args in
      if length names < length args then None
      else if list_ex (\<lambda>(k, _). k \<notin> set names \<or> dict_has pos k) kwargs then None
      else Some (List.map_filter (\<lambda>n. map_option (Pair n) (dict_get (pos @ kwargs) n)) names))"

subsection \<open>Construction\<close>

definition field_str :: "string \<Rightarrow> json \<Rightarrow> rule_error + string option" where
  "field_str n v = (case v of JNull \<Rightarrow> Inr None | JStr s \<Rightarrow> Inr (Some s) | _ \<Rightarrow> Inl (BadRuleField n))"

fun field_str_list :: "json list \<Rightarrow> rule_error + string list" where
  "field_str_list [] = Inr []"
| "field_str_list (v # vs) = (case v of
     JStr s \<Rightarrow> sbind (field_str_list vs) (\<lambda>ss. Inr (s # ss))
   | _ \<Rightarrow> Inl (BadRuleField ''columns''))"

definition field_columns :: "json \<Rightarrow> rule_error + string list option" where
  "field_columns v = (case v of
     JNull \<Rightarrow> Inr None
   | JList vs \<Rightarrow> if JNull \<in> set vs then Inl NoneInColumns
       else sbind (field_str_list vs) (\<lambda>ss. Inr (Some ss))
   | _ \<Rightarrow> Inl (BadRuleField ''columns''))"

definition populate_from_kwargs :: "string \<Rightarrow> json \<Rightarrow> json_dict \<Rightarrow> json" where
  "populate_from_kwargs n v kwargs = (if v = JNull then dict_get_or kwargs n JNull else v)"

definition validate_attributes :: "dq_rule \<Rightarrow> rule_error + unit" where
  "validate_attributes r =
     (if \<not> valid_criticality (ru_criticality r) then Inl (BadCriticality (ru_criticality r))
      else if ru_column r \<noteq> None \<and> ru_columns r \<noteq> None then Inl ColumnAndColumns
      else Inr ())"

definition validate_and_initialize :: "rule_env \<Rightarrow> dq_rule \<Rightarrow> rule_error + dq_rule" where
  "validate_and_initialize env r =
     sbind (validate_rule_type env (ru_kind r) (ru_func r)) (\<lambda>_.
     sbind (validate_attributes r) (\<lambda>_.
     sbind (prepare_args_and_kwargs r) (\<lambda>(args, kwargs).
       (case re_call env (ru_func r) args kwargs of
          None \<Rightarrow> Inl (CallFailed (fn_name (ru_func r)))
        | Some derived \<Rightarrow>
            sbind (case ru_message_expr r of
                Some e \<Rightarrow> if re_valid_expr env e then Inr () else Inl (BadMessageExpr e)
              | None \<Rightarrow> Inr ())
              (\<lambda>_. Inr (r\<lparr>ru_name := (if ru_name r = [] then derived else ru_name r)\<rparr>))))))"

definition new_rule ::
    "rule_env \<Rightarrow> rule_kind \<Rightarrow> check_function \<Rightarrow> json \<Rightarrow> json \<Rightarrow> json list \<Rightarrow> json_dict \<Rightarrow> check_spec
     \<Rightarrow> rule_error + dq_rule" where
  "new_rule env kind f column columns args kwargs spec =
     sbind (field_columns (populate_from_kwargs ''columns'' columns kwargs)) (\<lambda>cs.
     sbind (field_str ''column'' (populate_from_kwargs ''column'' column kwargs)) (\<lambda>c.
       validate_and_initialize env \<lparr>ru_kind = kind, ru_func = f, ru_name = (case cs_name spec of None \<Rightarrow> [] | Some n \<Rightarrow> n),
         ru_criticality = cs_criticality spec, ru_column = c, ru_columns = cs, ru_filter = cs_filter spec,
         ru_args = args, ru_kwargs = kwargs, ru_user_metadata = cs_user_metadata spec,
         ru_message_expr = cs_message_expr spec\<rparr>))"

definition kind_of :: "rule_env \<Rightarrow> string \<Rightarrow> rule_kind" where
  "kind_of env n = (if re_registry env n = Some ''dataset'' then DatasetRule else RowRule)"

text \<open>\<open>DQForEachColRule.get_rules\<close>\<close>

definition for_each_rule ::
    "rule_env \<Rightarrow> check_function \<Rightarrow> json_dict \<Rightarrow> check_spec \<Rightarrow> json \<Rightarrow> rule_error + dq_rule" where
  "for_each_rule env f kwargs spec column = (case column of
     JList l \<Rightarrow> new_rule env (kind_of env (fn_name f)) f JNull column [] kwargs spec
   | _ \<Rightarrow> new_rule env (kind_of env (fn_name f)) f column JNull [] kwargs spec)"

text \<open>Every entry of \<open>for_each_column\<close> is a string or a list of strings.\<close>

fun for_each_entry :: "json \<Rightarrow> rule_error + unit" where
  "for_each_entry (JStr s) = Inr ()"
| "for_each_entry (JList l) = sbind (field_str_list l) (\<lambda>_. Inr ())"
| "for_each_entry _ = Inl (BadRuleField ''columns'')"

definition get_rules ::
    "rule_env \<Rightarrow> check_function \<Rightarrow> json_dict \<Rightarrow> check_spec \<Rightarrow> json list \<Rightarrow> rule_error + dq_rule list" where
  "get_rules env f kwargs spec columns =
     sbind (smapM for_each_entry columns) (\<lambda>_. smapM (for_each_rule env f kwargs spec) columns)"

subsection \<open>Deserialization\<close>

fun truthy :: "json \<Rightarrow> bool" where
  "truthy JNull = False"
| "truthy (JBool b) = b"
| "truthy (JInt n) = (n \<noteq> 0)"
| "truthy (JFloat x) = (x \<noteq> Fin 0)"
| "truthy (JStr s) = (s \<noteq> [])"
| "truthy (JList l) = (l \<noteq> [])"
| "truthy (JDict d) = (d \<noteq> [])"

text \<open>\<open>check_func_kwargs\<close>: the arguments but \<open>column\<close> and \<open>columns\<close>, which are fields of a rule.\<close>

definition other_arguments :: "json_dict \<Rightarrow> json_dict" where
  "other_arguments args = filter (\<lambda>p. fst p \<notin> {''column'', ''columns''}) args"

definition build_rules ::
    "rule_env \<Rightarrow> (string \<Rightarrow> check_function option) \<Rightarrow> check_spec \<Rightarrow> rule_error + dq_rule list" where
  "build_rules env resolve spec = (case resolve (cb_function (cs_check spec)) of
     None \<Rightarrow> Inl AssertionFailed
   | Some f \<Rightarrow>
       (let args = cb_arguments (cs_check spec);
            column = dict_get_or args ''column'' JNull;
            columns = dict_get_or args ''columns'' JNull;
            kwargs = other_arguments args
        in if truthy column \<and> truthy columns then Inl AssertionFailed
           else case cb_for_each_column (cs_check spec) of
             Some (c # cs) \<Rightarrow> get_rules env f kwargs spec (c # cs)
           | _ \<Rightarrow> sbind (new_rule env (kind_of env (cb_function (cs_check spec))) f column columns [] kwargs spec)
               (\<lambda>r. Inr [r])))"

definition deserialize_checks ::
    "rule_env \<Rightarrow> (string \<Rightarrow> check_function option) \<Rightarrow> json list \<Rightarrow> rule_error + dq_rule list" where
  "deserialize_checks env resolve checks = (case validate_and_parse resolve True checks of (errors, specs) \<Rightarrow>
     if errors \<noteq> [] then Inl (InvalidChecks errors)
     else sbind (smapM (\<lambda>s. case s of None \<Rightarrow> Inl AssertionFailed | Some spec \<Rightarrow> build_rules env resolve spec) specs)
       (\<lambda>rs. Inr (concat rs)))"

subsection \<open>Metadata of a rule\<close>

definition rule_metadata :: "dq_rule \<Rightarrow> json_dict \<Rightarrow> json_dict" where
  "rule_metadata r full_args =
     [(''name'', JStr (ru_name r)), (''criticality'', JStr (ru_criticality r)),
      (''check'', JDict [(''function'', JStr (fn_name (ru_func r))), (''arguments'', JDict full_args)])]
     @ (if truthy_text (ru_filter r) then [(''filter'', JStr (the (ru_filter r)))] else [])
     @ (case ru_user_metadata r of None \<Rightarrow> [] | Some m \<Rightarrow> if m = [] then [] else [(''user_metadata'', JDict m)])
     @ (case ru_message_expr r of None \<Rightarrow> [] | Some e \<Rightarrow> [(''message_expr'', JStr e)])"

definition rule_to_dict :: "dq_rule \<Rightarrow> rule_error + json_dict" where
  "rule_to_dict r = sbind (prepare_args_and_kwargs r) (\<lambda>(args, kwargs).
     (case bind_partial (ru_func r) args kwargs of
        None \<Rightarrow> Inl (CallFailed (fn_name (ru_func r)))
      | Some bound \<Rightarrow> Inr (rule_metadata r bound)))"

definition serialize_checks :: "dq_rule list \<Rightarrow> rule_error + json_dict list" where
  "serialize_checks rs = smapM rule_to_dict rs"

definition effective_filter :: "dq_rule \<Rightarrow> rule_error + string option" where
  "effective_filter r =
     (if truthy_text (ru_filter r) then Inr (ru_filter r)
      else sbind (prepare_args_and_kwargs r) (\<lambda>(args, kwargs).
        let direct = dict_get_or kwargs ''row_filter'' JNull;
            row_filter = (if direct = JNull \<and> ''row_filter'' \<in> set (param_names (ru_func r))
              then (case bind_partial (ru_func r) args kwargs of
                 None \<Rightarrow> JNull | Some b \<Rightarrow> dict_get_or b ''row_filter'' JNull)
              else direct)
        in Inr (case row_filter of JStr s \<Rightarrow> Some s | _ \<Rightarrow> None)))"

subsection \<open>\<open>for_each_column\<close> is an abbreviation\<close>

definition expand_check :: "check_spec \<Rightarrow> json \<Rightarrow> check_spec" where
  "expand_check spec c = spec\<lparr>cs_check := (cs_check spec)\<lparr>
     cb_arguments := other_arguments (cb_arguments (cs_check spec))
       @ [(case c of JList _ \<Rightarrow> ''columns'' | _ \<Rightarrow> ''column'', c)],
     cb_for_each_column := None\<rparr>\<rparr>"

lemma smapM_singletons:
  "sbind (smapM (\<lambda>x. sbind (f x) (\<lambda>r. Inr [r])) xs) (\<lambda>rs. Inr (concat rs)) = smapM f xs"
  by (induction xs) (auto simp: sbind_def split: sum.splits)

lemma smapM_Inr_unit: "\<forall>x \<in> set xs. f x = Inr (g x) \<Longrightarrow> smapM f xs = Inr (map g xs)"
  by (rule smapM_total) simp

lemma other_arguments_get [simp]:
  "map_of (other_arguments d) k = (if k = ''column'' \<or> k = ''columns'' then None else map_of d k)"
  by (induction d) (auto simp: other_arguments_def)

lemma other_arguments_snoc [simp]:
  "k \<in> {''column'', ''columns''} \<Longrightarrow> other_arguments (other_arguments d @ [(k, v)]) = other_arguments d"
  by (auto simp: other_arguments_def)

text \<open>A check with \<open>for_each_column\<close> builds exactly the rules, in order, of the checks that name
  each of its columns (a list of columns as \<open>columns\<close>) in place of any \<open>column\<close> argument given.\<close>

theorem for_each_column_expands:
  assumes "cb_for_each_column (cs_check spec) = Some (c # cs)"
    and "\<forall>x \<in> set (c # cs). for_each_entry x = Inr ()"
    and "resolve (cb_function (cs_check spec)) = Some f" and "fn_name f = cb_function (cs_check spec)"
    and "\<not> (truthy (dict_get_or (cb_arguments (cs_check spec)) ''column'' JNull)
        \<and> truthy (dict_get_or (cb_arguments (cs_check spec)) ''columns'' JNull))"
  shows "build_rules env resolve spec
    = sbind (smapM (\<lambda>x. build_rules env resolve (expand_check spec x)) (c # cs)) (\<lambda>rs. Inr (concat rs))"
proof -
  let ?kw = "other_arguments (cb_arguments (cs_check spec))"
  have one: "build_rules env resolve (expand_check spec x)
      = sbind (for_each_rule env f ?kw spec x) (\<lambda>r. Inr [r])" if "x \<in> set (c # cs)" for x
  proof -
    have "for_each_entry x = Inr ()" using assms(2) that by blast
    then show ?thesis
      by (cases x) (simp_all add: build_rules_def expand_check_def assms(3,4) Let_def for_each_rule_def
          dict_get_or_def map_add_def new_rule_def)
  qed
  have "build_rules env resolve spec = smapM (for_each_rule env f ?kw spec) (c # cs)"
    using smapM_Inr_unit [OF assms(2)]
    by (simp only: build_rules_def Let_def get_rules_def assms(1,3) option.case list.case if_not_P [OF assms(5)] sbind_Inr)
  also have "\<dots> = sbind (smapM (\<lambda>x. sbind (for_each_rule env f ?kw spec x) (\<lambda>r. Inr [r])) (c # cs)) (\<lambda>rs. Inr (concat rs))"
    by (simp only: smapM_singletons)
  also have "smapM (\<lambda>x. sbind (for_each_rule env f ?kw spec x) (\<lambda>r. Inr [r])) (c # cs)
      = smapM (\<lambda>x. build_rules env resolve (expand_check spec x)) (c # cs)"
    by (rule smapM_cong [OF refl]) (simp only: one)
  finally show ?thesis .
qed

subsection \<open>The metadata of a rule builds it again\<close>

text \<open>Positional binding reaches the right parameter: a required \<open>column\<close> or \<open>columns\<close> comes first.\<close>

definition columns_lead :: "check_function \<Rightarrow> bool" where
  "columns_lead f \<longleftrightarrow> distinct (param_names f)
     \<and> (\<forall>n \<in> {''column'', ''columns''}. is_optional_argument f n = Some False \<longrightarrow> hd (param_names f) = n)"

definition keyword_order_irrelevant :: "rule_env \<Rightarrow> bool" where
  "keyword_order_irrelevant env \<longleftrightarrow> (\<forall>f args kw kw'. map_of kw = map_of kw'
     \<longrightarrow> re_call env f args kw = re_call env f args kw')"

definition spec_of_rule :: "dq_rule \<Rightarrow> json_dict \<Rightarrow> check_spec" where
  "spec_of_rule r bound = \<lparr>cs_check = \<lparr>cb_function = fn_name (ru_func r), cb_arguments = bound, cb_for_each_column = None\<rparr>,
     cs_criticality = ru_criticality r, cs_name = Some (ru_name r),
     cs_filter = (if truthy_text (ru_filter r) then ru_filter r else None),
     cs_user_metadata = (case ru_user_metadata r of None \<Rightarrow> None | Some m \<Rightarrow> if m = [] then None else Some m),
     cs_message_expr = ru_message_expr r\<rparr>"

lemma rule_metadata_get:
  "map_of (rule_metadata r b) ''name'' = Some (JStr (ru_name r))"
  "map_of (rule_metadata r b) ''criticality'' = Some (JStr (ru_criticality r))"
  "map_of (rule_metadata r b) ''check'' =
     Some (JDict [(''function'', JStr (fn_name (ru_func r))), (''arguments'', JDict b)])"
  "map_of (rule_metadata r b) ''filter'' =
     (if truthy_text (ru_filter r) then Some (JStr (the (ru_filter r))) else None)"
  "map_of (rule_metadata r b) ''user_metadata'' =
     (case ru_user_metadata r of None \<Rightarrow> None | Some m \<Rightarrow> if m = [] then None else Some (JDict m))"
  "map_of (rule_metadata r b) ''message_expr'' = map_option JStr (ru_message_expr r)"
  by (simp_all add: rule_metadata_def map_add_def split: option.split)

lemma parse_rule_metadata: "parse_check_fields (rule_metadata r b) = Inr (spec_of_rule r b)"
proof -
  have "opt_str_field (rule_metadata r b) ''name'' = Inr (Some (ru_name r))"
    "opt_str_field (rule_metadata r b) ''message_expr'' = Inr (ru_message_expr r)"
    "opt_str_field (rule_metadata r b) ''filter'' = Inr (if truthy_text (ru_filter r) then ru_filter r else None)"
    "metadata_field (rule_metadata r b) =
      Inr (case ru_user_metadata r of None \<Rightarrow> None | Some m \<Rightarrow> if m = [] then None else Some m)"
    by (auto simp: opt_str_field_def str_field_def metadata_field_def rule_metadata_get truthy_text_def split: option.split)
  moreover have "parse_check_block (map_of (rule_metadata r b) ''check'')
      = Inr \<lparr>cb_function = fn_name (ru_func r), cb_arguments = b, cb_for_each_column = None\<rparr>"
    by (simp add: rule_metadata_get parse_check_block_def both_def function_field_def arguments_field_def for_each_field_def)
  moreover have "str_field (rule_metadata r b) ''criticality'' (Some (criticality_value ERROR)) = Inr (Some (ru_criticality r))"
    by (simp add: str_field_def rule_metadata_get)
  ultimately show ?thesis by (simp add: parse_check_fields_def both_def spec_of_rule_def)
qed

lemma find_param_None: "find_param f n = None \<longleftrightarrow> n \<notin> set (param_names f)"
  by (auto simp: find_param_def param_names_def find_None_iff)

lemma optional_None [simp]: "is_optional_argument f n = None \<longleftrightarrow> n \<notin> set (param_names f)"
  by (simp add: is_optional_argument_def find_param_None)

lemma optional_present: "is_optional_argument f n = Some b \<Longrightarrow> n \<in> set (param_names f)"
  by (metis optional_None option.distinct(1))

lemma bind_partial_Some:
  "bind_partial f args kw = Some b \<longleftrightarrow> length args \<le> length (param_names f)
     \<and> (\<forall>k. map_of kw k \<noteq> None \<longrightarrow> k \<in> set (param_names f) \<and> map_of (zip (param_names f) args) k = None)
     \<and> b = List.map_filter (\<lambda>n. map_option (Pair n) (map_of (zip (param_names f) args @ kw) n)) (param_names f)"
proof -
  have "list_ex (\<lambda>(k, _). Q k) kw \<longleftrightarrow> (\<exists>k. map_of kw k \<noteq> None \<and> Q k)" for Q
    by (auto simp: list_ex_iff dest: map_of_SomeD) (metis not_None_eq weak_map_of_SomeI)
  then show ?thesis
    unfolding bind_partial_def Let_def dict_has_get by (auto; metis option.distinct(1))
qed

lemma map_of_map_filter:
  "map_of (List.map_filter (\<lambda>n. map_option (Pair n) (g n)) names) n = (if n \<in> set names then g n else None)"
  by (induction names) (auto simp: List.map_filter_simps split: option.split)

lemma bind_partial_map:
  "bind_partial f args kw = Some b \<Longrightarrow>
     map_of b n = (if n \<in> set (param_names f) then map_of (zip (param_names f) args @ kw) n else None)"
  by (simp add: bind_partial_Some map_of_map_filter del: map_of_append)

lemma bind_partial_cong:
  "map_of kw = map_of kw' \<Longrightarrow> bind_partial f args kw = Some b \<longleftrightarrow> bind_partial f args kw' = Some b"
  by (simp add: bind_partial_Some)

lemma build_args_cong:
  "ru_func r' = ru_func r \<Longrightarrow> ru_args r' = ru_args r \<Longrightarrow>
   (''column'' \<in> set (param_names (ru_func r)) \<Longrightarrow> ru_column r' = ru_column r) \<Longrightarrow>
   (''columns'' \<in> set (param_names (ru_func r)) \<Longrightarrow> ru_columns r' = ru_columns r) \<Longrightarrow>
   build_args r' = build_args r"
  by (auto simp: build_args_def Let_def build_column_args_def build_columns_args_def split: option.split)

text \<open>What the keyword arguments hold, for a rule whose columns are not among them.\<close>

lemma build_kwargs_map:
  assumes "map_of (ru_kwargs r) ''column'' = None" "map_of (ru_kwargs r) ''columns'' = None"
  shows "map_of (build_kwargs r) n =
    (if n = ''row_filter'' \<and> truthy_text (ru_filter r) \<and> n \<in> set (param_names (ru_func r))
       then map_option JStr (ru_filter r)
     else if n = ''column'' then (if is_optional_argument (ru_func r) n = Some True then map_option JStr (ru_column r) else None)
     else if n = ''columns'' then (if is_optional_argument (ru_func r) n = Some True
       then map_option (\<lambda>cs. JList (map JStr cs)) (ru_columns r) else None)
     else map_of (ru_kwargs r) n)"
  using assms by (auto simp: build_kwargs_def set_or_pop_def Let_def truthy_text_def split: option.split)

text \<open>What the positional arguments are bound to.\<close>

lemma build_args_map:
  assumes "columns_lead (ru_func r)" "ru_args r = []" "build_args r = Inr args"
  shows "map_of (zip (param_names (ru_func r)) args) n =
    (if is_optional_argument (ru_func r) n = Some False \<and> n = ''column'' then map_option JStr (ru_column r)
     else if is_optional_argument (ru_func r) n = Some False \<and> n = ''columns''
       then map_option (\<lambda>cs. JList (map JStr cs)) (ru_columns r)
     else None)"
proof -
  obtain p ps where names: "param_names (ru_func r) = p # ps \<or> param_names (ru_func r) = []"
    by (cases "param_names (ru_func r)") auto
  have "is_optional_argument (ru_func r) ''column'' = Some False \<Longrightarrow> param_names (ru_func r) = ''column'' # ps"
    "is_optional_argument (ru_func r) ''columns'' = Some False \<Longrightarrow> param_names (ru_func r) = ''columns'' # ps"
    using assms(1) names optional_present by (force simp: columns_lead_def)+
  then show ?thesis
    using assms(2,3)
    by (cases "is_optional_argument (ru_func r) ''column''"; cases "is_optional_argument (ru_func r) ''columns''")
       (auto simp: build_args_def Let_def build_column_args_def build_columns_args_def result_simps
         split: option.splits if_splits bool.splits dest: optional_present)
qed

definition rebuilt :: "rule_env \<Rightarrow> dq_rule \<Rightarrow> json_dict \<Rightarrow> dq_rule" where
  "rebuilt env r b = r\<lparr>ru_kind := kind_of env (fn_name (ru_func r)),
     ru_column := (if ''column'' \<in> set (param_names (ru_func r)) then ru_column r else None),
     ru_columns := (if ''columns'' \<in> set (param_names (ru_func r)) then ru_columns r else None),
     ru_filter := (if truthy_text (ru_filter r) then ru_filter r else None),
     ru_kwargs := other_arguments b,
     ru_user_metadata := (case ru_user_metadata r of None \<Rightarrow> None | Some m \<Rightarrow> if m = [] then None else Some m)\<rparr>"

lemma bound_arguments:
  assumes "columns_lead (ru_func r)" "ru_args r = []"
    and "map_of (ru_kwargs r) ''column'' = None" "map_of (ru_kwargs r) ''columns'' = None"
    and "build_args r = Inr args" "bind_partial (ru_func r) args (build_kwargs r) = Some b"
  shows "map_of b ''column'' = (if ''column'' \<in> set (param_names (ru_func r)) then map_option JStr (ru_column r) else None)"
    and "map_of b ''columns'' = (if ''columns'' \<in> set (param_names (ru_func r))
      then map_option (\<lambda>cs. JList (map JStr cs)) (ru_columns r) else None)"
    and "n \<noteq> ''column'' \<Longrightarrow> n \<noteq> ''columns'' \<Longrightarrow> map_of b n = map_of (build_kwargs r) n"
proof -
  note bm = bind_partial_map [OF assms(6)] and am = build_args_map [OF assms(1,2,5)]
    and km = build_kwargs_map [OF assms(3,4)]
  have opt: "k \<in> set (param_names (ru_func r)) \<Longrightarrow> is_optional_argument (ru_func r) k = Some True
      \<or> is_optional_argument (ru_func r) k = Some False" for k
    by (cases "is_optional_argument (ru_func r) k") auto
  show "map_of b ''column'' = (if ''column'' \<in> set (param_names (ru_func r)) then map_option JStr (ru_column r) else None)"
    using opt [of "''column''"] by (auto simp: bm map_add_def am km split: option.split)
  show "map_of b ''columns'' = (if ''columns'' \<in> set (param_names (ru_func r))
      then map_option (\<lambda>cs. JList (map JStr cs)) (ru_columns r) else None)"
    using opt [of "''columns''"] by (auto simp: bm map_add_def am km split: option.split)
  have "map_of (build_kwargs r) n \<noteq> None \<Longrightarrow> n \<in> set (param_names (ru_func r))"
    using assms(6) by (simp add: bind_partial_Some)
  then show "n \<noteq> ''column'' \<Longrightarrow> n \<noteq> ''columns'' \<Longrightarrow> map_of b n = map_of (build_kwargs r) n"
    by (cases "map_of (build_kwargs r) n") (simp_all add: bm map_add_def am)
qed

lemma rebuilt_prepares:
  assumes "columns_lead (ru_func r)" "ru_args r = []"
    and "map_of (ru_kwargs r) ''column'' = None" "map_of (ru_kwargs r) ''columns'' = None"
    and "build_args r = Inr args" "bind_partial (ru_func r) args (build_kwargs r) = Some b"
  shows "build_args (rebuilt env r b) = Inr args"
    and "map_of (build_kwargs (rebuilt env r b)) = map_of (build_kwargs r)"
proof -
  show "build_args (rebuilt env r b) = Inr args"
    using assms(5) by (subst build_args_cong [of _ r]) (auto simp: rebuilt_def)
  have fields: "ru_func (rebuilt env r b) = ru_func r" "ru_kwargs (rebuilt env r b) = other_arguments b"
      "truthy_text (ru_filter (rebuilt env r b)) = truthy_text (ru_filter r)"
      "truthy_text (ru_filter r) \<Longrightarrow> ru_filter (rebuilt env r b) = ru_filter r"
      "''column'' \<in> set (param_names (ru_func r)) \<Longrightarrow> ru_column (rebuilt env r b) = ru_column r"
      "''columns'' \<in> set (param_names (ru_func r)) \<Longrightarrow> ru_columns (rebuilt env r b) = ru_columns r"
    by (simp_all add: rebuilt_def truthy_text_def)
  show "map_of (build_kwargs (rebuilt env r b)) = map_of (build_kwargs r)"
  proof
    fix n
    have new: "map_of (ru_kwargs (rebuilt env r b)) ''column'' = None" "map_of (ru_kwargs (rebuilt env r b)) ''columns'' = None"
      by (simp_all add: fields)
    show "map_of (build_kwargs (rebuilt env r b)) n = map_of (build_kwargs r) n"
    proof (cases "n = ''column'' \<or> n = ''columns''")
      case True
      then show ?thesis
        using fields(5,6) optional_present by (auto simp: build_kwargs_map [OF new] build_kwargs_map [OF assms(3,4)] fields(1))
    next
      case False
      then show ?thesis
        using bound_arguments(3) [OF assms, of n] fields(4)
        by (cases "n = ''row_filter'' \<and> truthy_text (ru_filter r) \<and> n \<in> set (param_names (ru_func r))")
           (auto simp: build_kwargs_map [OF new] build_kwargs_map [OF assms(3,4)] fields(1-3))
    qed
  qed
qed

lemma rebuilt_metadata: "rule_metadata (rebuilt env r b) b = rule_metadata r b"
  by (auto simp: rule_metadata_def rebuilt_def truthy_text_def split: option.split)

lemma rename_parts:
  "build_args (r\<lparr>ru_name := n\<rparr>) = build_args r" "build_kwargs (r\<lparr>ru_name := n\<rparr>) = build_kwargs r"
  "validate_attributes (r\<lparr>ru_name := n\<rparr>) = validate_attributes r"
  unfolding build_args_def build_kwargs_def validate_attributes_def Let_def by (simp_all cong: if_cong)

lemma initialized_rule:
  assumes "validate_and_initialize env r0 = Inr r"
  shows "validate_rule_type env (ru_kind r) (ru_func r) = Inr ()"
    and "validate_attributes r = Inr ()"
    and "build_args r = Inr args \<Longrightarrow> re_call env (ru_func r) args (build_kwargs r) \<noteq> None"
    and "\<forall>e. ru_message_expr r = Some e \<longrightarrow> re_valid_expr env e"
  using assms by (auto simp: validate_and_initialize_def prepare_args_and_kwargs_def result_simps rename_parts
      split: option.splits if_splits)

lemma rebuilt_valid:
  assumes "validate_and_initialize env r0 = Inr r" "keyword_order_irrelevant env" "ru_name r \<noteq> []"
    and "build_args r = Inr args" "build_args (rebuilt env r b) = Inr args"
    and "map_of (build_kwargs (rebuilt env r b)) = map_of (build_kwargs r)"
  shows "validate_and_initialize env (rebuilt env r b) = Inr (rebuilt env r b)"
proof -
  note init = initialized_rule [OF assms(1)]
  have "validate_rule_type env (ru_kind (rebuilt env r b)) (ru_func (rebuilt env r b)) = Inr ()"
    using init(1) by (cases "ru_kind r") (auto simp: validate_rule_type_def rebuilt_def kind_of_def split: option.splits if_splits)
  moreover have "validate_attributes (rebuilt env r b) = Inr ()"
    using init(2) by (auto simp: validate_attributes_def rebuilt_def split: if_splits)
  moreover have "\<exists>n. re_call env (ru_func (rebuilt env r b)) args (build_kwargs (rebuilt env r b)) = Some n"
  proof -
    have "re_call env (ru_func r) args (build_kwargs (rebuilt env r b)) = re_call env (ru_func r) args (build_kwargs r)"
      using assms(2,6) unfolding keyword_order_irrelevant_def by blast
    moreover have "ru_func (rebuilt env r b) = ru_func r" by (simp add: rebuilt_def)
    ultimately show ?thesis using init(3) [OF assms(4)] by auto
  qed
  moreover have "rebuilt env r b\<lparr>ru_name := ru_name r\<rparr> = rebuilt env r b" "ru_name (rebuilt env r b) = ru_name r"
      "ru_message_expr (rebuilt env r b) = ru_message_expr r"
    by (simp_all add: rebuilt_def)
  ultimately show ?thesis
    using init(4) assms(3,5)
    by (auto simp: validate_and_initialize_def prepare_args_and_kwargs_def split: option.split)
qed

lemma field_str_list_strings [simp]: "field_str_list (map JStr ss) = Inr ss"
  by (induction ss) auto

lemma rebuilt_from_spec:
  assumes "map_of b ''column'' = (if ''column'' \<in> set (param_names (ru_func r)) then map_option JStr (ru_column r) else None)"
    and "map_of b ''columns'' = (if ''columns'' \<in> set (param_names (ru_func r))
      then map_option (\<lambda>cs. JList (map JStr cs)) (ru_columns r) else None)"
    and "resolve (fn_name (ru_func r)) = Some (ru_func r)" "ru_args r = []" "validate_attributes r = Inr ()"
  shows "build_rules env resolve (spec_of_rule r b) = sbind (validate_and_initialize env (rebuilt env r b)) (\<lambda>r'. Inr [r'])"
proof -
  let ?c = "dict_get_or b ''column'' JNull" and ?cs = "dict_get_or b ''columns'' JNull"
  let ?s = "spec_of_rule r b"
  have both: "\<not> (truthy ?c \<and> truthy ?cs)"
    using assms(1,2,5) by (auto simp: dict_get_or_def validate_attributes_def split: if_splits option.splits)
  have column: "field_str ''column'' ?c = Inr (ru_column (rebuilt env r b))"
    by (auto simp: dict_get_or_def assms(1) field_str_def rebuilt_def split: option.split)
  have columns: "field_columns ?cs = Inr (ru_columns (rebuilt env r b))"
    by (auto simp: dict_get_or_def assms(2) field_columns_def rebuilt_def split: option.split)
  have populate: "populate_from_kwargs n v (other_arguments b) = v" if "n \<in> {''column'', ''columns''}" for n v
    using that by (auto simp: populate_from_kwargs_def dict_get_or_def)
  have spec: "cb_function (cs_check ?s) = fn_name (ru_func r)" "cb_arguments (cs_check ?s) = b"
      "cb_for_each_column (cs_check ?s) = None"
    by (simp_all add: spec_of_rule_def)
  have "new_rule env (kind_of env (fn_name (ru_func r))) (ru_func r) ?c ?cs [] (other_arguments b) ?s
      = validate_and_initialize env (rebuilt env r b)"
    unfolding new_rule_def using assms(4)
    by (cases r) (simp add: populate column columns, simp add: spec_of_rule_def rebuilt_def)
  then show ?thesis
    by (simp only: build_rules_def spec assms(3) option.case Let_def if_not_P [OF both])
qed

text \<open>Two rules that check the same: the function is called with the same arguments, and what is
  reported with a failure is the same (an empty filter is none, and so is empty metadata).\<close>

definition same_check :: "dq_rule \<Rightarrow> dq_rule \<Rightarrow> bool" where
  "same_check r r' \<longleftrightarrow> ru_func r = ru_func r' \<and> build_args r = build_args r'
     \<and> map_of (build_kwargs r) = map_of (build_kwargs r')
     \<and> ru_name r = ru_name r' \<and> ru_criticality r = ru_criticality r' \<and> ru_message_expr r = ru_message_expr r'
     \<and> (if truthy_text (ru_filter r) then ru_filter r' = ru_filter r else \<not> truthy_text (ru_filter r'))
     \<and> (case ru_user_metadata r of None \<Rightarrow> [] | Some m \<Rightarrow> m) = (case ru_user_metadata r' of None \<Rightarrow> [] | Some m \<Rightarrow> m)"

text \<open>The metadata of a rule whose arguments came from metadata is a check that builds one rule,
  which checks the same and has the same metadata again: storing and loading a rule changes neither
  what it does nor its fingerprint.\<close>

theorem rule_metadata_rebuilds:
  assumes "keyword_order_irrelevant env" "validate_and_initialize env r0 = Inr r" "ru_name r \<noteq> []"
    and "ru_args r = []" "map_of (ru_kwargs r) ''column'' = None" "map_of (ru_kwargs r) ''columns'' = None"
    and "columns_lead (ru_func r)" "resolve (fn_name (ru_func r)) = Some (ru_func r)"
    and "rule_to_dict r = Inr d"
  shows "\<exists>spec r'. parse_check_fields d = Inr spec \<and> build_rules env resolve spec = Inr [r']
    \<and> same_check r r' \<and> rule_to_dict r' = Inr d"
proof -
  from assms(9) obtain args b where args: "build_args r = Inr args"
    and b: "bind_partial (ru_func r) args (build_kwargs r) = Some b" and d: "d = rule_metadata r b"
    by (auto simp: rule_to_dict_def prepare_args_and_kwargs_def result_simps split: option.splits)
  note parts = assms(7,4,5,6) args b
  note new = rebuilt_prepares [OF parts, of env]
  have "build_rules env resolve (spec_of_rule r b) = Inr [rebuilt env r b]"
    using rebuilt_from_spec [where r = r and b = b and env = env and resolve = resolve,
        OF bound_arguments(1,2) [OF parts] assms(8,4) initialized_rule(2) [OF assms(2)]]
      rebuilt_valid [OF assms(2,1,3) args new] by simp
  moreover have "rule_to_dict (rebuilt env r b) = Inr d"
  proof -
    have "bind_partial (ru_func r) args (build_kwargs (rebuilt env r b)) = Some b"
      using b bind_partial_cong [OF new(2)] by blast
    moreover have "ru_func (rebuilt env r b) = ru_func r" by (simp add: rebuilt_def)
    ultimately show ?thesis
      by (simp add: rule_to_dict_def prepare_args_and_kwargs_def new(1) d rebuilt_metadata)
  qed
  moreover have "same_check r (rebuilt env r b)"
    unfolding same_check_def by (simp add: new args) (simp add: rebuilt_def truthy_text_def split: option.split)
  ultimately show ?thesis using parse_rule_metadata d by blast
qed

text \<open>Deserialization trusts the validation to have refused a check that gives both \<open>column\<close> and
  \<open>columns\<close>, which it does not do: for a function with both parameters such a check is valid, and
  building its rule fails an assertion in place of reporting an invalid check.\<close>

theorem both_columns_escape_validation:
  assumes "validate_check resolve True d = Inr spec" and "resolve (cb_function (cs_check spec)) = Some f"
    and "dict_get (cb_arguments (cs_check spec)) ''column'' = Some (JStr (x # xs))"
    and "dict_get (cb_arguments (cs_check spec)) ''columns'' = Some (JList (c # cs))"
  shows "deserialize_checks env resolve [JDict d] = Inl AssertionFailed"
  using assms by (simp add: deserialize_checks_def build_rules_def dict_get_or_def Let_def)

subsection \<open>Concrete checks\<close>

definition sample_env :: rule_env where
  "sample_env = \<lparr>re_registry = (\<lambda>n. if n = ''regex_match'' then Some ''row'' else None),
     re_call = (\<lambda>f args kw. Some ''a_not_matching_regex''), re_valid_expr = (\<lambda>e. True)\<rparr>"

definition sample_rule :: dq_rule where
  "sample_rule = \<lparr>ru_kind = RowRule, ru_func = regex_match, ru_name = ''a_not_matching_regex'',
     ru_criticality = ''error'', ru_column = Some ''a'', ru_columns = None, ru_filter = Some ''b > 0'', ru_args = [],
     ru_kwargs = [(''negate'', JBool True), (''regex'', JStr ''^a'')], ru_user_metadata = None, ru_message_expr = None\<rparr>"

definition two_columns :: check_function where
  "two_columns = \<lparr>fn_name = ''two_columns'', fn_params =
     [\<lparr>par_name = ''column'', par_annotation = AStr, par_kind = Regular, par_has_default = True\<rparr>,
      \<lparr>par_name = ''columns'', par_annotation = AList [AStr], par_kind = Regular, par_has_default = True\<rparr>]\<rparr>"

definition two_columns_check :: json_dict where
  "two_columns_check = [(''check'', JDict [(''function'', JStr ''two_columns''),
     (''arguments'', JDict [(''column'', JStr ''a''), (''columns'', JList [JStr ''b''])])])]"

lemma regex_match_params [simp]:
  "param_names regex_match = [''column'', ''regex'', ''negate'']"
  "is_optional_argument regex_match ''column'' = Some False"
  "is_optional_argument regex_match ''columns'' = None"
  "fn_name regex_match = ''regex_match''"
  by (simp_all add: regex_match_def param_names_def is_optional_argument_def find_param_def)

theorem for_each_column_expands_witness:
  "build_rules sample_env known_functions sample_spec
     = sbind (smapM (\<lambda>x. build_rules sample_env known_functions (expand_check sample_spec x)) [JStr ''x'', JStr ''y''])
         (\<lambda>rs. Inr (concat rs))"
  by (rule for_each_column_expands [where f = regex_match])
     (simp_all add: sample_spec_def known_functions_def dict_get_or_def)

theorem rule_metadata_rebuilds_witness:
  "\<exists>d spec r'. rule_to_dict sample_rule = Inr d \<and> parse_check_fields d = Inr spec
     \<and> build_rules sample_env known_functions spec = Inr [r'] \<and> same_check sample_rule r' \<and> rule_to_dict r' = Inr d"
proof -
  have args: "build_args sample_rule = Inr [JStr ''a'']"
    and kwargs: "build_kwargs sample_rule = ru_kwargs sample_rule"
    by (simp_all add: build_args_def build_column_args_def build_columns_args_def build_kwargs_def set_or_pop_def
        sample_rule_def dict_pop_def)
  then obtain d where d: "rule_to_dict sample_rule = Inr d"
    by (simp add: rule_to_dict_def prepare_args_and_kwargs_def)
       (simp add: sample_rule_def bind_partial_def dict_has_def)
  have "validate_and_initialize sample_env sample_rule = Inr sample_rule"
    by (simp add: validate_and_initialize_def prepare_args_and_kwargs_def args kwargs)
       (simp add: sample_rule_def sample_env_def validate_rule_type_def validate_attributes_def valid_criticality_def)
  moreover have "keyword_order_irrelevant sample_env" by (simp add: keyword_order_irrelevant_def sample_env_def)
  moreover have "columns_lead regex_match" by (simp add: columns_lead_def)
  ultimately show ?thesis
    using rule_metadata_rebuilds [where env = sample_env and ?r0.0 = sample_rule and r = sample_rule
        and resolve = known_functions and d = d] d
    by (fastforce simp: sample_rule_def known_functions_def)
qed

theorem both_columns_escape_validation_witness:
  "deserialize_checks sample_env (\<lambda>n. if n = ''two_columns'' then Some two_columns else None) [JDict two_columns_check]
     = Inl AssertionFailed"
proof -
  let ?spec = "\<lparr>cs_check = \<lparr>cb_function = ''two_columns'', cb_arguments = [(''column'', JStr ''a''), (''columns'', JList [JStr ''b''])],
     cb_for_each_column = None\<rparr>, cs_criticality = ''error'', cs_name = None,
     cs_filter = None, cs_user_metadata = None, cs_message_expr = None\<rparr>"
  let ?resolve = "\<lambda>n. if n = ''two_columns'' then Some two_columns else None"
  have "parse_check_fields two_columns_check = Inr ?spec"
    by (simp add: parse_check_fields_def two_columns_check_def parse_check_block_def both_def
      function_field_def arguments_field_def for_each_field_def str_field_def opt_str_field_def metadata_field_def)
  moreover have "validate_semantics ?resolve True two_columns_check ?spec = []"
    by (simp add: validate_semantics_def criticality_errors_def two_columns_check_def function_and_argument_errors_def
        validate_check_function_arguments_def validate_func_args_def argument_errors_def find_param_def two_columns_def
        matches_type_def validate_func_list_args_def missing_required_arguments_def required_params_def)
  ultimately have "validate_check ?resolve True two_columns_check = Inr ?spec"
    by (simp add: validate_check_def)
  then show ?thesis
    by (rule both_columns_escape_validation [where f = two_columns]) simp_all
qed

end
