(* ===== verification/SQL_Safety.thy ===== *)
theory SQL_Safety
  imports DQX_Prelude "HOL-Library.Sublist"
begin

section \<open>The scan for destructive SQL (\<open>utils.py\<close>, \<open>backend/sql_utils.py\<close>)\<close>

text \<open>
  \<open>is_sql_query_safe\<close> rejects a query that holds the keyword of a destructive statement outside its
  quoted parts. The regular expression that finds comments and quoted parts becomes a scanner:
  \<open>re.sub\<close> goes from left to right, tries the alternatives in order at each position and copies the
  character where none matches; a greedy repetition is tried longest first and gives characters
  back when the rest does not match. \<open>strip_sql_line_comments\<close> is the application's own scanner,
  which removes comments before the scan.
\<close>

subsection \<open>Comments and quoted parts\<close>

datatype sql_token = Comment string | Quoted string | Plain char

definition quote_char :: char where "quote_char = CHR 0x27"
definition double_quote :: char where "double_quote = CHR 0x22"
definition backtick :: char where "backtick = CHR 0x60"
definition backslash :: char where "backslash = CHR 0x5C"
definition newline :: char where "newline = CHR 0x0A"

lemmas sql_chars = quote_char_def double_quote_def backtick_def backslash_def newline_def

text \<open>What follows a quoted part, from after its opening quote: a doubled quote stays inside, and so
  does, with \<open>esc\<close>, any character after a backslash. A doubled quote after which the part is never
  closed ends it instead.\<close>

fun quoted_rest :: "bool \<Rightarrow> char \<Rightarrow> string \<Rightarrow> string option" where
  "quoted_rest esc q [] = None"
| "quoted_rest esc q (c # s) =
     (if c = q then (case s of
        d # t \<Rightarrow> if d = q then (case quoted_rest esc q t of Some r \<Rightarrow> Some r | None \<Rightarrow> Some s) else Some s
      | [] \<Rightarrow> Some s)
      else if esc \<and> c = backslash then (case s of [] \<Rightarrow> None | d # t \<Rightarrow> quoted_rest esc q t)
      else quoted_rest esc q s)"

text \<open>What follows a block comment, from after its opening.\<close>

fun block_rest :: "string \<Rightarrow> string option" where
  "block_rest [] = None"
| "block_rest (c # s) = (if c = CHR ''*'' \<and> py_startswith s ''/'' then Some (tl s) else block_rest s)"

definition token_at :: "string \<Rightarrow> (bool \<times> string) option" where
  "token_at s = (case s of
     [] \<Rightarrow> None
   | c # t \<Rightarrow>
       if py_startswith s ''--'' then Some (True, dropWhile (\<lambda>d. d \<noteq> newline) (tl t))
       else if py_startswith s ''/*'' then map_option (Pair True) (block_rest (tl t))
       else if c = quote_char \<or> c = double_quote then map_option (Pair False) (quoted_rest True c t)
       else if c = backtick then map_option (Pair False) (quoted_rest False c t)
       else None)"

lemma quoted_rest_suffix: "quoted_rest esc q s = Some r \<Longrightarrow> suffix r s"
proof (induction esc q s rule: quoted_rest.induct)
  case (2 esc q c s)
  then show ?case
    by (cases s) (auto intro: suffix_ConsI split: if_splits option.splits)
qed simp

lemma block_rest_suffix: "block_rest s = Some r \<Longrightarrow> suffix r s"
  by (induction s) (auto intro: suffix_ConsI suffix_order.trans [OF suffix_tl] split: if_splits)

lemma token_at_suffix: "token_at (c # t) = Some (k, r) \<Longrightarrow> suffix r t"
proof -
  have "suffix (dropWhile (\<lambda>d. d \<noteq> newline) (tl t)) t"
    by (rule suffix_order.trans [OF suffix_dropWhile suffix_tl])
  moreover have "block_rest (tl t) = Some r \<Longrightarrow> suffix r t"
    by (rule suffix_order.trans [OF block_rest_suffix suffix_tl])
  moreover note quoted_rest_suffix [of _ _ t r]
  ultimately show "token_at (c # t) = Some (k, r) \<Longrightarrow> suffix r t"
    unfolding token_at_def list.case by (auto split: if_splits simp del: py_startswith.simps)
qed

lemma token_at_length: "token_at (c # t) = Some (k, r) \<Longrightarrow> length r \<le> length t"
  using token_at_suffix suffix_length_le by blast

function tokenise :: "string \<Rightarrow> sql_token list" where
  "tokenise [] = []"
| "tokenise (c # s) = (case token_at (c # s) of
     None \<Rightarrow> Plain c # tokenise s
   | Some (k, r) \<Rightarrow> (if k then Comment else Quoted) (take (length (c # s) - length r) (c # s)) # tokenise r)"
  by pat_completeness auto
termination by (relation "measure length") (auto dest: token_at_length simp: less_Suc_eq_le)

fun token_text :: "sql_token \<Rightarrow> string" where
  "token_text (Comment t) = t"
| "token_text (Quoted t) = t"
| "token_text (Plain c) = [c]"

lemma tokenise_lossless: "concat (map token_text (tokenise s)) = s"
proof (induction s rule: tokenise.induct)
  case (2 c s)
  show ?case
  proof (cases "token_at (c # s)")
    case (Some kr)
    then obtain k r where kr: "token_at (c # s) = Some (k, r)" by (cases kr) auto
    then obtain p where p: "c # s = p @ r" using token_at_suffix [THEN suffix_ConsI] by (metis suffix_def)
    have "take (length (c # s) - length r) (c # s) = p" unfolding p by simp
    then have "concat (map token_text (tokenise (c # s))) = p @ r"
      using 2(2) [OF kr refl] kr by (cases k) simp_all
    then show ?thesis using p by simp
  qed (use 2(1) in simp)
qed simp

subsection \<open>The scan\<close>

fun strip_literals_keep_comments :: "sql_token \<Rightarrow> string" where
  "strip_literals_keep_comments (Comment t) = t"
| "strip_literals_keep_comments (Quoted t) = '' ''"
| "strip_literals_keep_comments (Plain c) = [c]"

fun strip_literals_and_comments :: "sql_token \<Rightarrow> string" where
  "strip_literals_and_comments (Comment t) = []"
| "strip_literals_and_comments (Quoted t) = '' ''"
| "strip_literals_and_comments (Plain c) = [c]"

definition forbidden_sql_keywords :: "string list" where
  "forbidden_sql_keywords = [''delete'', ''insert'', ''update'', ''drop'', ''truncate'', ''alter'', ''create'',
     ''replace'', ''grant'', ''revoke'', ''merge'', ''use'', ''refresh'', ''analyze'', ''optimize'', ''zorder'']"

text \<open>\<open>\w\<close> of a regular expression.\<close>

definition word_char :: "char \<Rightarrow> bool" where
  "word_char c = (let n = of_char c :: nat in (48 \<le> n \<and> n \<le> 57) \<or> (65 \<le> n \<and> n \<le> 90) \<or> n = 95 \<or> (97 \<le> n \<and> n \<le> 122)
     \<or> n \<in> {170, 178, 179, 181, 185, 186, 188, 189, 190} \<or> (192 \<le> n \<and> n \<noteq> 215 \<and> n \<noteq> 247))"

text \<open>\<open>\b(?:k1|k2|...)\b\<close>, after a character that is (\<open>w\<close>) or is not a word character.\<close>

fun search_keyword :: "bool \<Rightarrow> string list \<Rightarrow> string \<Rightarrow> bool" where
  "search_keyword w ks [] = False"
| "search_keyword w ks (c # s) =
     ((\<not> w \<and> list_ex (\<lambda>k. py_startswith (c # s) k \<and>
        (case drop (length k) (c # s) of [] \<Rightarrow> True | d # _ \<Rightarrow> \<not> word_char d)) ks)
      \<or> search_keyword (word_char c) ks s)"

fun py_contains :: "string \<Rightarrow> string \<Rightarrow> bool" where
  "py_contains p [] = (p = [])"
| "py_contains p (c # s) = (py_startswith (c # s) p \<or> py_contains p s)"

definition is_sql_query_safe :: "string \<Rightarrow> bool" where
  "is_sql_query_safe q =
     (let with_comments = py_lower (concat (map strip_literals_keep_comments (tokenise q)))
      in if search_keyword False forbidden_sql_keywords with_comments then False
         else if \<not> py_contains ''--'' with_comments \<and> \<not> py_contains ''/*'' with_comments then True
         else \<not> search_keyword False forbidden_sql_keywords
           (py_lower (concat (map strip_literals_and_comments (tokenise q)))))"

text \<open>A text has a word when it occurs with no word character on either side.\<close>

definition has_word :: "string \<Rightarrow> string \<Rightarrow> bool" where
  "has_word k s \<longleftrightarrow> (\<exists>a b. s = a @ k @ b \<and> (a = [] \<or> \<not> word_char (last a)) \<and> (b = [] \<or> \<not> word_char (hd b)))"

lemma search_keyword_iff:
  assumes "[] \<notin> set ks"
  shows "search_keyword w ks s \<longleftrightarrow> (\<exists>k \<in> set ks. \<exists>a b. s = a @ k @ b
    \<and> (if a = [] then \<not> w else \<not> word_char (last a)) \<and> (b = [] \<or> \<not> word_char (hd b)))"
proof (induction s arbitrary: w)
  case Nil
  then show ?case using assms by auto
next
  case (Cons c s)
  let ?at = "\<lambda>k a b w s. s = a @ k @ b \<and> (if a = [] then \<not> w else \<not> word_char (last a)) \<and> (b = [] \<or> \<not> word_char (hd b))"
  have here: "(py_startswith (c # s) k \<and> (case drop (length k) (c # s) of [] \<Rightarrow> True | d # _ \<Rightarrow> \<not> word_char d))
      \<longleftrightarrow> (\<exists>b. c # s = k @ b \<and> (b = [] \<or> \<not> word_char (hd b)))" for k
  proof -
    have "(case b of [] \<Rightarrow> True | d # _ \<Rightarrow> \<not> word_char d) = (b = [] \<or> \<not> word_char (hd b))" for b
      by (cases b) simp_all
    then show ?thesis unfolding py_startswith_iff by (metis append_eq_conv_conj)
  qed
  have there: "(\<exists>a b. ?at k a b w (c # s)) \<longleftrightarrow>
      (\<not> w \<and> (\<exists>b. c # s = k @ b \<and> (b = [] \<or> \<not> word_char (hd b)))) \<or> (\<exists>a b. ?at k a b (word_char c) s)" for k
  proof
    assume "\<exists>a b. ?at k a b w (c # s)"
    then obtain a b where ab: "?at k a b w (c # s)" by blast
    then show "(\<not> w \<and> (\<exists>b. c # s = k @ b \<and> (b = [] \<or> \<not> word_char (hd b)))) \<or> (\<exists>a b. ?at k a b (word_char c) s)"
      by (cases a) (auto split: if_splits)
  next
    assume "(\<not> w \<and> (\<exists>b. c # s = k @ b \<and> (b = [] \<or> \<not> word_char (hd b)))) \<or> (\<exists>a b. ?at k a b (word_char c) s)"
    then show "\<exists>a b. ?at k a b w (c # s)"
    proof
      assume "\<not> w \<and> (\<exists>b. c # s = k @ b \<and> (b = [] \<or> \<not> word_char (hd b)))"
      then show ?thesis by (metis append_Nil)
    next
      assume "\<exists>a b. ?at k a b (word_char c) s"
      then obtain a b where "?at k a b (word_char c) s" by blast
      then have "?at k (c # a) b w (c # s)" by (auto split: if_splits)
      then show ?thesis by blast
    qed
  qed
  have "search_keyword w ks (c # s) \<longleftrightarrow> (\<exists>k \<in> set ks. (\<not> w \<and> (\<exists>b. c # s = k @ b \<and> (b = [] \<or> \<not> word_char (hd b))))
      \<or> (\<exists>a b. ?at k a b (word_char c) s))"
    unfolding search_keyword.simps list_ex_iff here Cons.IH by (simp only: bex_disj_distrib bex_simps)
  then show ?case by (simp only: there)
qed

lemma search_forbidden_iff:
  "search_keyword False forbidden_sql_keywords s \<longleftrightarrow> (\<exists>k \<in> set forbidden_sql_keywords. has_word k s)"
proof -
  have "[] \<notin> set forbidden_sql_keywords" by (simp add: forbidden_sql_keywords_def)
  then show ?thesis
    by (simp only: search_keyword_iff has_word_def not_False_eq_True if_bool_eq_disj simp_thms) blast
qed

lemma comment_marker:
  "Comment t \<in> set (tokenise s) \<Longrightarrow> py_startswith t ''--'' \<or> py_startswith t ''/*''"
proof (induction s rule: tokenise.induct)
  case (2 c s)
  show ?case
  proof (cases "token_at (c # s)")
    case (Some kr)
    then obtain k r where kr: "token_at (c # s) = Some (k, r)" by (cases kr) auto
    show ?thesis
    proof (cases "Comment t \<in> set (tokenise r)")
      case True
      then show ?thesis using 2(2) [OF kr refl] by simp
    next
      case False
      then have k: k and t: "t = take (length (c # s) - length r) (c # s)"
        using "2.prems" kr by (auto split: if_splits)
      then have "(py_startswith (c # s) ''--'' \<or> py_startswith (c # s) ''/*'') \<and> suffix r (tl s)"
        using kr suffix_dropWhile block_rest_suffix
        by (auto simp: token_at_def split: if_splits simp del: py_startswith.simps)
      then show ?thesis
        unfolding t py_startswith_iff by (auto simp: suffix_def)
    qed
  next
    case None
    with 2 show ?thesis by simp
  qed
qed simp

lemma py_contains_middle: "p \<noteq> [] \<Longrightarrow> py_contains p (x @ p @ y)"
proof (induction x)
  case Nil
  then show ?case by (cases p) (simp_all add: py_startswith_iff)
qed simp

lemma py_lower_markers:
  assumes "py_startswith t ''--'' \<or> py_startswith t ''/*''"
  shows "py_contains ''--'' (py_lower (a @ t @ b)) \<or> py_contains ''/*'' (py_lower (a @ t @ b))"
proof -
  have "py_lower (a @ (p @ y) @ b) = py_lower a @ p @ py_lower (y @ b)" if "p \<in> {''--'', ''/*''}" for p y
    using that by (auto simp: py_lower_def py_lower_char_def Let_def)
  then show ?thesis
    using assms py_contains_middle unfolding py_startswith_iff by (metis insertI1 insertI2 list.distinct(1))
qed

lemma no_comments_same:
  "(\<And>t. Comment t \<notin> set ts) \<Longrightarrow>
     map strip_literals_keep_comments ts = map strip_literals_and_comments ts"
  by (rule map_cong [OF refl]) (metis strip_literals_keep_comments.elims strip_literals_and_comments.simps)

text \<open>A query is rejected exactly when some destructive keyword, in any case, is a word of it once its
  quoted parts are blanked, either with its comments kept (a keyword inside a comment counts) or
  with them removed (so does one that a comment splits): skipping the second scan when the text
  shows no comment marker changes no verdict.\<close>

theorem is_sql_query_safe_iff:
  "(\<not> is_sql_query_safe q) = (\<exists>k \<in> set forbidden_sql_keywords.
     has_word k (py_lower (concat (map strip_literals_keep_comments (tokenise q))))
     \<or> has_word k (py_lower (concat (map strip_literals_and_comments (tokenise q)))))"
proof (cases "\<exists>t. Comment t \<in> set (tokenise q)")
  case True
  then obtain t where t: "Comment t \<in> set (tokenise q)" by blast
  then obtain xs ys where "tokenise q = xs @ Comment t # ys" by (meson split_list)
  then have "concat (map strip_literals_keep_comments (tokenise q)) =
      concat (map strip_literals_keep_comments xs) @ t @ concat (map strip_literals_keep_comments ys)" by simp
  then have "py_contains ''--'' (py_lower (concat (map strip_literals_keep_comments (tokenise q))))
      \<or> py_contains ''/*'' (py_lower (concat (map strip_literals_keep_comments (tokenise q))))"
    using py_lower_markers [OF comment_marker [OF t]] by simp
  then show ?thesis
    unfolding is_sql_query_safe_def Let_def search_forbidden_iff by auto
next
  case False
  then have same: "map strip_literals_keep_comments (tokenise q) = map strip_literals_and_comments (tokenise q)"
    by (intro no_comments_same) blast
  show ?thesis
    unfolding is_sql_query_safe_def Let_def search_forbidden_iff same by auto
qed

subsection \<open>\<open>strip_sql_line_comments\<close>\<close>

text \<open>The quoted region after its opening quote: what is copied and what is left.\<close>

fun copy_quoted :: "char \<Rightarrow> string \<Rightarrow> string \<times> string" where
  "copy_quoted q [] = ([], [])"
| "copy_quoted q (c # s) =
     (if c = q then (case s of
        d # t \<Rightarrow> if d = q then (case copy_quoted q t of (out, r) \<Rightarrow> (c # d # out, r)) else ([c], s)
      | [] \<Rightarrow> ([c], []))
      else (case copy_quoted q s of (out, r) \<Rightarrow> (c # out, r)))"

text \<open>What is left after a block comment, which is everything to the end if it is not closed.\<close>

fun skip_block :: "string \<Rightarrow> string" where
  "skip_block [] = []"
| "skip_block (c # s) = (if c = CHR ''*'' \<and> py_startswith s ''/'' then tl s else skip_block s)"

lemma copy_quoted_length: "length (snd (copy_quoted q s)) \<le> length s"
proof (induction q s rule: copy_quoted.induct)
  case (2 q c s)
  show ?case
  proof (cases "c = q \<and> s \<noteq> []")
    case True
    then obtain d t where s: "s = d # t" by (cases s) auto
    show ?thesis using 2(1) [of d t] True by (cases "d = q") (auto simp: s case_prod_beta)
  next
    case False
    then show ?thesis using 2(2) by (auto simp: case_prod_beta)
  qed
qed simp

lemma skip_block_length: "length (skip_block s) \<le> length s"
  by (induction s) auto

function strip_sql_line_comments :: "string \<Rightarrow> string" where
  "strip_sql_line_comments [] = []"
| "strip_sql_line_comments (c # s) =
     (if c \<in> {quote_char, double_quote, backtick}
      then c # fst (copy_quoted c s) @ strip_sql_line_comments (snd (copy_quoted c s))
      else if py_startswith (c # s) ''--'' then strip_sql_line_comments (dropWhile (\<lambda>d. d \<noteq> newline) (tl s))
      else if py_startswith (c # s) ''/*'' then strip_sql_line_comments (skip_block (tl s))
      else c # strip_sql_line_comments s)"
  by pat_completeness auto
termination
proof (relation "measure length"; simp)
  fix s :: string
  show "length (snd (copy_quoted q s)) < Suc (length s)" for q
    using copy_quoted_length by (simp add: le_imp_less_Suc)
  have "length (dropWhile P (tl s)) \<le> length (tl s)" for P
    by (rule length_dropWhile_le)
  then show "length (dropWhile P (tl s)) < Suc (length s)" for P
    by (metis diff_le_self le_imp_less_Suc le_trans length_tl)
  show "length (skip_block (tl s)) < Suc (length s)"
    using skip_block_length [of "tl s"] by simp
qed

text \<open>Every quoted part and every block comment is closed.\<close>

fun all_closed :: "sql_token list \<Rightarrow> bool" where
  "all_closed [] = True"
| "all_closed (Plain c # ts) = (c \<notin> {quote_char, double_quote, backtick}
     \<and> \<not> (c = CHR ''/'' \<and> (case ts of Plain d # _ \<Rightarrow> d = CHR ''*'' | _ \<Rightarrow> False)) \<and> all_closed ts)"
| "all_closed (_ # ts) = all_closed ts"

fun uncommented :: "sql_token \<Rightarrow> string" where
  "uncommented (Comment t) = []"
| "uncommented t = token_text t"

lemma copy_quoted_rest:
  assumes "quoted_rest esc q s = Some r" "backslash \<notin> set s"
  shows "(\<exists>p. s = p @ r \<and> copy_quoted q s = (p, r)) \<or> (\<exists>t. r = q # t \<and> quoted_rest esc q t = None)"
  using assms
proof (induction esc q s rule: quoted_rest.induct)
  case (2 esc q c s)
  show ?case
  proof (cases "c = q")
    case True
    show ?thesis
    proof (cases s)
      case (Cons d t)
      then show ?thesis
        using 2(1) [of d t] "2.prems" True by (cases "d = q") (auto split: option.splits)
    qed (use 2 True in simp)
  next
    case False
    then show ?thesis using 2(3) "2.prems" by (auto simp: case_prod_beta)
  qed
qed simp

lemma skip_block_rest: "block_rest s = Some r \<Longrightarrow> skip_block s = r"
  by (induction s) (auto split: if_splits)

lemma char_neqs [simp]:
  "quote_char \<noteq> CHR ''-''" "double_quote \<noteq> CHR ''-''" "backtick \<noteq> CHR ''-''"
  "quote_char \<noteq> CHR ''/''" "double_quote \<noteq> CHR ''/''" "backtick \<noteq> CHR ''/''"
  "quote_char \<noteq> backtick" "double_quote \<noteq> backtick" "backtick \<noteq> quote_char" "backtick \<noteq> double_quote"
  "newline \<noteq> CHR ''-''" "newline \<noteq> CHR ''/''" "newline \<noteq> quote_char" "newline \<noteq> double_quote" "newline \<noteq> backtick"
  by (simp_all add: sql_chars)

lemma token_at_quote:
  "c \<in> {quote_char, double_quote, backtick} \<Longrightarrow>
     token_at (c # s) = map_option (Pair False) (quoted_rest (c \<noteq> backtick) c s)"
  by (auto simp: token_at_def)

text \<open>On a query without backslashes in which every quoted part and block comment is closed, the
  application's stripper removes exactly the comments that the scan finds, and changes nothing else.\<close>

theorem strip_removes_comments:
  assumes "backslash \<notin> set q" "all_closed (tokenise q)"
  shows "strip_sql_line_comments q = concat (map uncommented (tokenise q))"
  using assms
proof (induction q rule: tokenise.induct)
  case (2 c s)
  show ?case
  proof (cases "token_at (c # s)")
    case None
    have rest: "strip_sql_line_comments s = concat (map uncommented (tokenise s))"
      using 2(1) [OF None] "2.prems" None by simp
    have "\<not> py_startswith (c # s) ''/*''"
    proof
      assume *: "py_startswith (c # s) ''/*''"
      then obtain t where s: "c = CHR ''/''" "s = CHR ''*'' # t" by (auto simp: py_startswith_iff)
      have "token_at (CHR ''*'' # t) = None" by (simp add: token_at_def sql_chars)
      then show False using "2.prems"(2) None s by simp
    qed
    moreover have "\<not> py_startswith (c # s) ''--''" using None by (auto simp: token_at_def)
    ultimately show ?thesis
      using "2.prems"(2) None rest by (simp del: py_startswith.simps)
  next
    case (Some kr)
    then obtain k r where kr: "token_at (c # s) = Some (k, r)" by (cases kr) auto
    have "suffix r s" using kr by (rule token_at_suffix)
    then have "set r \<subseteq> set s" by (rule set_mono_suffix)
    moreover have closed: "all_closed (tokenise r)" using "2.prems"(2) kr by (cases k) simp_all
    ultimately have rest: "strip_sql_line_comments r = concat (map uncommented (tokenise r))"
      using 2(2) [OF kr refl] "2.prems"(1) by auto
    consider (quote) "c \<in> {quote_char, double_quote, backtick}" | (line) "py_startswith (c # s) ''--''"
      | (block) "py_startswith (c # s) ''/*''" "\<not> py_startswith (c # s) ''--''"
      using kr unfolding token_at_def list.case by (auto split: if_splits simp del: py_startswith.simps)
    then show ?thesis
    proof cases
      case quote
      then have q: "quoted_rest (c \<noteq> backtick) c s = Some r" "\<not> k"
        using kr by (auto simp: token_at_quote)
      have "\<not> (\<exists>t. r = c # t \<and> quoted_rest (c \<noteq> backtick) c t = None)"
      proof
        assume "\<exists>t. r = c # t \<and> quoted_rest (c \<noteq> backtick) c t = None"
        then obtain t where t: "r = c # t" "quoted_rest (c \<noteq> backtick) c t = None" by blast
        then have "tokenise r = Plain c # tokenise t" by (simp add: token_at_quote [OF quote])
        then show False using closed quote by auto
      qed
      then obtain p where p: "s = p @ r" "copy_quoted c s = (p, r)"
        using copy_quoted_rest [OF q(1)] "2.prems"(1) by auto
      have "uncommented (Quoted (take (length (c # s) - length r) (c # s))) = c # p" unfolding p(1) by simp
      then show ?thesis using quote kr q(2) p rest by simp
    next
      case line
      then have "c \<notin> {quote_char, double_quote, backtick}" by (auto simp: sql_chars)
      moreover have "k" "r = dropWhile (\<lambda>d. d \<noteq> newline) (tl s)"
        using kr line unfolding token_at_def list.case by simp_all
      ultimately show ?thesis using line kr rest by (simp del: py_startswith.simps)
    next
      case block
      then have "c \<notin> {quote_char, double_quote, backtick}" by (auto simp: sql_chars)
      moreover have "k" "skip_block (tl s) = r"
        using kr block skip_block_rest unfolding token_at_def list.case by (auto simp del: py_startswith.simps)
      ultimately show ?thesis using block kr rest by (simp del: py_startswith.simps)
    qed
  qed
qed simp

lemma tokenise_newline: "tokenise (newline # s) = Plain newline # tokenise s"
  by (simp add: token_at_def)

lemma tokenise_space: "tokenise (CHR '' '' # s) = Plain CHR '' '' # tokenise s"
  by (simp add: token_at_def sql_chars)

lemma blank_prefix:
  assumes "c = newline \<or> c = CHR '' ''"
  shows "search_keyword False forbidden_sql_keywords (py_lower (c # s)) = search_keyword False forbidden_sql_keywords (py_lower s)"
    and "py_contains ''--'' (py_lower (c # s)) = py_contains ''--'' (py_lower s)"
    and "py_contains ''/*'' (py_lower (c # s)) = py_contains ''/*'' (py_lower s)"
proof -
  have lower: "py_lower (c # s) = c # py_lower s"
    using assms by (elim disjE; simp add: py_lower_def py_lower_char_def newline_def)
  have "\<not> py_startswith (c # t) k" if "k \<in> set forbidden_sql_keywords" for t k
  proof -
    have "list_all (\<lambda>k. case k of [] \<Rightarrow> False | d # _ \<Rightarrow> d \<noteq> newline \<and> d \<noteq> CHR '' '') forbidden_sql_keywords"
      by (simp add: forbidden_sql_keywords_def newline_def)
    with that have "case k of [] \<Rightarrow> False | d # _ \<Rightarrow> d \<noteq> newline \<and> d \<noteq> CHR '' ''"
      unfolding list_all_iff by blast
    with assms show ?thesis by (cases k) auto
  qed
  then have "\<not> list_ex (\<lambda>k. py_startswith (c # t) k \<and> P k) forbidden_sql_keywords" for t P
    by (auto simp: list_ex_iff)
  moreover have "\<not> word_char c"
    using assms by (elim disjE; simp add: word_char_def newline_def Let_def)
  ultimately show "search_keyword False forbidden_sql_keywords (py_lower (c # s)) = search_keyword False forbidden_sql_keywords (py_lower s)"
    unfolding lower search_keyword.simps by simp
  show "py_contains ''--'' (py_lower (c # s)) = py_contains ''--'' (py_lower s)"
    "py_contains ''/*'' (py_lower (c # s)) = py_contains ''/*'' (py_lower s)"
    unfolding lower using assms by (auto simp: newline_def)
qed

lemma safe_blank:
  assumes "tokenise q = t # tokenise s" "t \<in> {Plain newline, Plain CHR '' ''} \<or> (\<exists>x. t = Quoted x)"
  shows "is_sql_query_safe q = is_sql_query_safe s"
proof -
  obtain c where c: "c = newline \<or> c = CHR '' ''"
    and "strip_literals_keep_comments t = [c]" "strip_literals_and_comments t = [c]"
  proof (cases "t = Plain newline")
    case True
    then show ?thesis by (intro that [of newline]) simp_all
  next
    case False
    with assms(2) show ?thesis by (intro that [of "CHR '' ''"]) auto
  qed
  then show ?thesis
    by (simp only: is_sql_query_safe_def Let_def assms(1) list.simps(9) concat.simps append_Cons append_Nil blank_prefix [OF c])
qed

lemma safe_newline: "is_sql_query_safe (newline # s) = is_sql_query_safe s"
  by (rule safe_blank [OF tokenise_newline]) simp

text \<open>An explanation that the application puts before a rule's SQL as comment lines never changes the
  verdict, whatever its words.\<close>

theorem explanation_never_matters:
  assumes "\<forall>line \<in> set explanation. newline \<notin> set line"
  shows "is_sql_query_safe (strip_sql_line_comments (concat (map (\<lambda>line. ''--'' @ line @ [newline]) explanation) @ q))
    = is_sql_query_safe (strip_sql_line_comments q)"
  using assms
proof (induction explanation)
  case (Cons line lines)
  have "dropWhile (\<lambda>d. d \<noteq> newline) (line @ newline # rest) = newline # rest" for rest
    using Cons.prems by (subst dropWhile_append2) auto
  then have "strip_sql_line_comments (''--'' @ line @ newline # rest) = newline # strip_sql_line_comments rest" for rest
    by (simp add: sql_chars)
  then show ?case using Cons by (simp add: safe_newline del: strip_sql_line_comments.simps)
qed simp

text \<open>A backslash hides a statement from every scan made after stripping: to the stripper the literal
  \<open>'\' -- '\<close> ends at its second quote, so what follows is a comment it removes, while the scan (like
  the parser the scan follows) reads one literal and goes on to the statement.\<close>

theorem backslash_hides_statement:
  assumes "newline \<notin> set code"
    and "q = [quote_char, backslash, quote_char] @ '' -- '' @ [quote_char] @ '' '' @ code"
  shows "is_sql_query_safe (strip_sql_line_comments q) \<and> is_sql_query_safe q = is_sql_query_safe code"
proof -
  have drop: "dropWhile (\<lambda>d. d \<noteq> CHR 0x0A) code = []"
    using assms(1) by (auto simp: dropWhile_eq_Nil_conv newline_def)
  have "strip_sql_line_comments q = [quote_char, backslash, quote_char, CHR '' '']"
    by (simp add: assms(2) sql_chars drop)
  moreover have "tokenise [quote_char, backslash, quote_char, CHR '' ''] =
      [Plain quote_char, Plain backslash, Plain quote_char, Plain CHR '' '']"
    by (simp add: token_at_def sql_chars)
  ultimately have "is_sql_query_safe (strip_sql_line_comments q)"
    by (simp add: is_sql_query_safe_def py_lower_def py_lower_char_def forbidden_sql_keywords_def word_char_def
        Let_def sql_chars del: tokenise.simps)
  moreover have "tokenise q = Quoted ([quote_char, backslash, quote_char] @ '' -- '' @ [quote_char]) # tokenise ('' '' @ code)"
    by (simp add: assms(2) token_at_def sql_chars)
  then have "is_sql_query_safe q = is_sql_query_safe ('' '' @ code)" by (rule safe_blank) simp
  moreover have "is_sql_query_safe ('' '' @ code) = is_sql_query_safe code"
    by (simp only: append_Cons append_Nil) (rule safe_blank [OF tokenise_space], simp)
  ultimately show ?thesis by simp
qed

subsection \<open>Concrete queries\<close>

theorem strip_removes_comments_witness:
  "strip_sql_line_comments ''a /* drop */ > 0 -- x'' = ''a  > 0 ''"
  by (subst strip_removes_comments) (simp_all add: token_at_def sql_chars)

theorem explanation_never_matters_witness:
  "is_sql_query_safe (strip_sql_line_comments (concat (map (\<lambda>line. ''--'' @ line @ [newline]) ['' drop old rows'']) @ ''a > 0''))
    = is_sql_query_safe (strip_sql_line_comments ''a > 0'')"
  by (rule explanation_never_matters) (simp add: newline_def)

theorem backslash_hides_statement_witness:
  "is_sql_query_safe (strip_sql_line_comments ([quote_char, backslash, quote_char] @ '' -- '' @ [quote_char] @ '' '' @ ''drop table t''))
   \<and> \<not> is_sql_query_safe ([quote_char, backslash, quote_char] @ '' -- '' @ [quote_char] @ '' '' @ ''drop table t'')"
proof -
  have "\<not> is_sql_query_safe ''drop table t''"
    by (simp add: is_sql_query_safe_def Let_def token_at_def sql_chars py_lower_def py_lower_char_def
        forbidden_sql_keywords_def word_char_def)
  moreover have "newline \<notin> set ''drop table t''" by (simp add: newline_def)
  ultimately show ?thesis using backslash_hides_statement [of "''drop table t''", OF _ refl] by blast
qed

end
