(* ===== verification/SQL_Text.thy ===== *)
theory SQL_Text
  imports SQL_Safety
begin

section \<open>Quoting and validation of SQL text (\<open>utils.py\<close>, \<open>backend/sql_utils.py\<close>)\<close>

text \<open>
  The functions that put names and values into SQL text. A function that raises \<open>ValueError\<close> is a
  predicate of the text it returns unchanged. What the engines do with the text is not code of the
  repository: the readers below state the rules its documentation gives for a quoted literal and
  a quoted identifier, and serve as the specification of the writers.
\<close>

subsection \<open>Writers\<close>

definition escape_sql_string_literal :: "string \<Rightarrow> string" where
  "escape_sql_string_literal value =
     py_replace_char quote_char [backslash, quote_char] (py_replace_char backslash [backslash, backslash] value)"

definition quote_column_name :: "string \<Rightarrow> string" where
  "quote_column_name name = [backtick] @ py_replace_char backtick [backtick, backtick] name @ [backtick]"

text \<open>\<open>s.replace(c + c, r)\<close>.\<close>

fun replace_pair :: "char \<Rightarrow> string \<Rightarrow> string \<Rightarrow> string" where
  "replace_pair q r (c # d # s) = (if c = q \<and> d = q then r @ replace_pair q r s else c # replace_pair q r (d # s))"
| "replace_pair q r s = s"

definition unquote_column_name :: "string \<Rightarrow> string" where
  "unquote_column_name name =
     (if length name \<ge> 2 \<and> hd name = backtick \<and> last name = backtick
      then (let inner = butlast (tl name) in
        if backtick \<notin> set (replace_pair backtick [] inner) then replace_pair backtick [backtick] inner else name)
      else name)"

definition escape_sql_string :: "string \<Rightarrow> string" where
  "escape_sql_string value = py_replace_char quote_char [quote_char, quote_char] value"

definition escape_json_for_sql_string_literal :: "string \<Rightarrow> string" where
  "escape_json_for_sql_string_literal value =
     escape_sql_string (py_replace_char backslash [backslash, backslash] value)"

definition escape_sql_string_strict :: "string \<Rightarrow> string" where
  "escape_sql_string_strict value =
     py_replace_char quote_char [quote_char, quote_char] (py_replace_char backslash [backslash, backslash] value)"

definition sql_string_in_list :: "string list \<Rightarrow> string" where
  "sql_string_in_list values =
     py_join '', '' (map (\<lambda>v. [quote_char] @ escape_sql_string_strict v @ [quote_char]) values)"

definition unwrap_ident :: "string \<Rightarrow> string" where
  "unwrap_ident part =
     (if length part \<ge> 2 \<and> hd part = backtick \<and> last part = backtick then butlast (tl part) else part)"

definition quote_ident :: "string \<Rightarrow> string" where
  "quote_ident part = [backtick] @ py_replace_char backtick [backtick, backtick] (unwrap_ident part) @ [backtick]"

definition quote_object_fqn :: "string \<Rightarrow> string \<Rightarrow> string \<Rightarrow> string" where
  "quote_object_fqn catalog schema name = quote_ident catalog @ ''.'' @ quote_ident schema @ ''.'' @ name"

definition quote_fqn :: "string \<Rightarrow> string" where
  "quote_fqn fqn = py_join ''.'' (map quote_ident (py_split CHR ''.'' fqn))"

subsection \<open>Validators\<close>

text \<open>\<open>re.match\<close> of \<open>^[class]{lo,hi}$\<close>: the dollar sign also matches before a newline that ends the text.
  With \<open>\\A\<close> and \<open>\\Z\<close> it does not.\<close>

definition class_match :: "(char \<Rightarrow> bool) \<Rightarrow> nat \<Rightarrow> nat option \<Rightarrow> string \<Rightarrow> bool" where
  "class_match P lo hi s \<longleftrightarrow> list_all P s \<and> lo \<le> length s \<and> (case hi of None \<Rightarrow> True | Some h \<Rightarrow> length s \<le> h)"

definition dollar_match :: "(char \<Rightarrow> bool) \<Rightarrow> nat \<Rightarrow> nat option \<Rightarrow> string \<Rightarrow> bool" where
  "dollar_match P lo hi s \<longleftrightarrow> class_match P lo hi s
     \<or> (s \<noteq> [] \<and> last s = newline \<and> class_match P lo hi (butlast s))"

definition ascii_letter :: "char \<Rightarrow> bool" where
  "ascii_letter c = (let n = of_char c :: nat in (65 \<le> n \<and> n \<le> 90) \<or> (97 \<le> n \<and> n \<le> 122))"

definition ident_char :: "char \<Rightarrow> bool" where
  "ident_char c = (ascii_letter c \<or> py_isdigit c \<or> c = CHR ''_'')"

definition id_char :: "char \<Rightarrow> bool" where
  "id_char c = (ident_char c \<or> c = CHR ''-'')"

definition fqn_part_char :: "char \<Rightarrow> bool" where
  "fqn_part_char c = (let n = of_char c :: nat in c \<noteq> backtick \<and> c \<noteq> backslash \<and> 31 < n \<and> n \<noteq> 127)"

definition fqn_part_re :: "string \<Rightarrow> bool" where
  "fqn_part_re s = dollar_match fqn_part_char 1 None s"

definition simple_ident_re :: "string \<Rightarrow> bool" where
  "simple_ident_re s = (s \<noteq> [] \<and> (ascii_letter (hd s) \<or> hd s = CHR ''_'') \<and> dollar_match ident_char 0 None (tl s))"

definition sql_check_re :: "string \<Rightarrow> bool" where
  "sql_check_re s = (py_startswith s ''__sql_check__/'' \<and> dollar_match id_char 1 None (drop (length ''__sql_check__/'') s))"

definition valid_part :: "string \<Rightarrow> bool" where
  "valid_part part = (let cleaned = unwrap_ident part in cleaned \<noteq> [] \<and> length cleaned \<le> 255 \<and> fqn_part_re cleaned)"

definition validate_fqn :: "string \<Rightarrow> bool" where
  "validate_fqn fqn =
     (if fqn = [] then False
      else if sql_check_re fqn then True
      else let parts = py_split CHR ''.'' fqn in length parts = 3 \<and> list_all valid_part parts)"

definition validate_identifier :: "string \<Rightarrow> bool" where
  "validate_identifier name = (name \<noteq> [] \<and> length name \<le> 255 \<and> fqn_part_re name)"

definition fqn_needs_quoting :: "string \<Rightarrow> bool" where
  "fqn_needs_quoting fqn =
     (let parts = py_split CHR ''.'' fqn in if length parts \<noteq> 3 then True else \<not> list_all simple_ident_re parts)"

definition validate_schedule_name :: "string \<Rightarrow> bool" where
  "validate_schedule_name name = dollar_match (\<lambda>c. id_char c \<or> c = CHR '':'') 1 (Some 64) name"

definition validate_run_id :: "string \<Rightarrow> bool" where
  "validate_run_id run_id = class_match (\<lambda>c. id_char c \<or> c = CHR ''.'' \<or> c = CHR '':'') 1 (Some 256) run_id"

definition validate_object_id :: "string \<Rightarrow> bool" where
  "validate_object_id object_id =
     (object_id \<noteq> [] \<and> length object_id \<le> 128 \<and> class_match id_char 1 (Some 128) object_id)"

subsection \<open>Readers\<close>

text \<open>A literal from after its opening quote: its value and what follows its closing quote. \<open>unesc\<close> is the
  character an escape sequence stands for; \<open>esc\<close> says whether backslashes escape, \<open>dbl\<close> whether a
  doubled quote is one quote of the value.\<close>

fun read_literal :: "(char \<Rightarrow> char) \<Rightarrow> bool \<Rightarrow> bool \<Rightarrow> string \<Rightarrow> (string \<times> string) option" where
  "read_literal unesc esc dbl [] = None"
| "read_literal unesc esc dbl (c # s) =
     (if c = quote_char then (case s of
        d # t \<Rightarrow> if dbl \<and> d = quote_char then map_option (\<lambda>(v, r). (quote_char # v, r)) (read_literal unesc esc dbl t)
          else Some ([], s)
      | [] \<Rightarrow> Some ([], s))
      else if esc \<and> c = backslash then (case s of
        [] \<Rightarrow> None
      | d # t \<Rightarrow> map_option (\<lambda>(v, r). (unesc d # v, r)) (read_literal unesc esc dbl t))
      else map_option (\<lambda>(v, r). (c # v, r)) (read_literal unesc esc dbl s))"

text \<open>Comma-separated literals.\<close>

function read_literals :: "(char \<Rightarrow> char) \<Rightarrow> string \<Rightarrow> string list option" where
  "read_literals unesc s = (case s of
     [] \<Rightarrow> None
   | c # t \<Rightarrow> if c \<noteq> quote_char then None else (case read_literal unesc True True t of
        None \<Rightarrow> None
      | Some (v, r) \<Rightarrow> if r = [] then Some [v]
          else if py_startswith r '', '' \<and> length r < length s then map_option (Cons v) (read_literals unesc (drop 2 r)) else None))"
  by pat_completeness auto
termination by (relation "measure (\<lambda>(_, s). length s)") (auto split: list.splits)

text \<open>Dotted identifiers in backticks.\<close>

fun read_ident :: "string \<Rightarrow> (string \<times> string) option" where
  "read_ident [] = None"
| "read_ident (c # s) =
     (if c = backtick then (case s of
        d # t \<Rightarrow> if d = backtick then map_option (\<lambda>(v, r). (backtick # v, r)) (read_ident t) else Some ([], s)
      | [] \<Rightarrow> Some ([], s))
      else map_option (\<lambda>(v, r). (c # v, r)) (read_ident s))"

function read_fqn :: "string \<Rightarrow> string list option" where
  "read_fqn s = (case s of
     [] \<Rightarrow> None
   | c # t \<Rightarrow> if c \<noteq> backtick then None else (case read_ident t of
        None \<Rightarrow> None
      | Some (v, r) \<Rightarrow> if r = [] then Some [v]
          else if hd r = CHR ''.'' \<and> length r < length s then map_option (Cons v) (read_fqn (tl r)) else None))"
  by pat_completeness auto
termination by (relation "measure length") (auto split: list.splits)

declare read_literals.simps [simp del] read_fqn.simps [simp del]

subsection \<open>What is written is read back\<close>

lemma replace_char_Nil [simp]: "py_replace_char c r [] = []"
  by (simp add: py_replace_char_def)

lemma replace_char_Cons [simp]: "py_replace_char c r (x # s) = (if x = c then r else [x]) @ py_replace_char c r s"
  by (simp add: py_replace_char_def)

lemma quote_backslash [simp]: "quote_char \<noteq> backslash" "backslash \<noteq> quote_char"
  by (simp_all add: sql_chars)

lemma escape_literal_Cons:
  "escape_sql_string_literal (x # s) =
     (if x = backslash then [backslash, backslash] else if x = quote_char then [backslash, quote_char] else [x])
     @ escape_sql_string_literal s"
  by (simp add: escape_sql_string_literal_def)

lemma escape_strict_Cons:
  "escape_sql_string_strict (x # s) =
     (if x = backslash then [backslash, backslash] else if x = quote_char then [quote_char, quote_char] else [x])
     @ escape_sql_string_strict s"
  by (simp add: escape_sql_string_strict_def)

lemma escape_Nil: "escape_sql_string_literal [] = []" "escape_sql_string_strict [] = []"
  by (simp_all add: escape_sql_string_literal_def escape_sql_string_strict_def)

text \<open>A value escaped for a Spark literal is read back unchanged, and the literal ends at its closing
  quote whatever follows, under any reading in which a backslash escapes itself and the quote.\<close>

theorem spark_literal_roundtrip:
  assumes "unesc backslash = backslash" "unesc quote_char = quote_char"
    and "dbl \<longrightarrow> rest = [] \<or> hd rest \<noteq> quote_char"
  shows "read_literal unesc True dbl (escape_sql_string_literal v @ quote_char # rest) = Some (v, rest)"
proof (induction v)
  case Nil
  then show ?case using assms(3) by (cases rest) (auto simp: escape_Nil)
next
  case (Cons x v)
  then show ?case by (simp add: escape_literal_Cons assms(1,2))
qed

lemma read_strict:
  assumes "unesc backslash = backslash" "rest = [] \<or> hd rest \<noteq> quote_char"
  shows "read_literal unesc True True (escape_sql_string_strict v @ quote_char # rest) = Some (v, rest)"
proof (induction v)
  case Nil
  then show ?case using assms(2) by (cases rest) (auto simp: escape_Nil)
next
  case (Cons x v)
  then show ?case by (simp add: escape_strict_Cons assms(1))
qed

text \<open>The list of literals built from unvalidated values is read back as exactly those values, so no
  value can end its literal or add another one.\<close>

theorem in_list_roundtrip:
  assumes "unesc backslash = backslash" "values \<noteq> []"
  shows "read_literals unesc (sql_string_in_list values) = Some values"
  using assms(2)
proof (induction "values" rule: list_nonempty_induct)
  case (single v)
  show ?case
    using read_strict [where unesc = unesc and rest = "[]" and v = v] assms(1)
    by (subst read_literals.simps) (simp add: sql_string_in_list_def)
next
  case (cons v vs)
  have split: "sql_string_in_list (v # vs) = quote_char # escape_sql_string_strict v @ quote_char # '', '' @ sql_string_in_list vs"
    using cons.hyps by (cases vs) (simp_all add: sql_string_in_list_def)
  have "read_literal unesc True True (escape_sql_string_strict v @ quote_char # '', '' @ sql_string_in_list vs)
      = Some (v, '', '' @ sql_string_in_list vs)"
    by (rule read_strict [where unesc = unesc]) (rule assms(1), simp add: quote_char_def)
  then show ?case
    unfolding split by (subst read_literals.simps) (simp add: cons.IH)
qed

lemma read_plain:
  assumes "backslash \<notin> set v" "rest = [] \<or> hd rest \<noteq> quote_char"
  shows "read_literal unesc esc True (escape_sql_string v @ quote_char # rest) = Some (v, rest)"
  using assms(1)
proof (induction v)
  case Nil
  then show ?case using assms(2) by (cases rest) (auto simp: escape_sql_string_def)
next
  case (Cons x v)
  then show ?case by (cases "x = backslash") (simp_all add: escape_sql_string_def)
qed

text \<open>A value is no longer than what it was read from allows.\<close>

lemma read_literal_weight:
  "read_literal unesc esc True s = Some (v, r) \<Longrightarrow>
     2 * length v + 1 \<le> 2 * length (filter (\<lambda>c. c \<noteq> quote_char) s) + length (filter (\<lambda>c. c = quote_char) s)"
proof (induction unesc esc "True" s arbitrary: v rule: read_literal.induct)
  case (2 unesc esc c s)
  note IH = 2(1-3) and prem = "2.prems"
  show ?case
  proof (cases s)
    case Nil
    then show ?thesis using prem by (auto split: if_splits)
  next
    case (Cons d t)
    consider "c = quote_char" "d = quote_char" | "c = quote_char" "d \<noteq> quote_char"
      | "c \<noteq> quote_char" "esc" "c = backslash" | "c \<noteq> quote_char" "\<not> (esc \<and> c = backslash)" by blast
    then show ?thesis
    proof cases
      case 1
      then obtain w where "read_literal unesc esc True t = Some (w, r)" "v = quote_char # w"
        using prem Cons by auto
      then show ?thesis using IH(1) [of d t w] 1 Cons by simp
    next
      case 2
      then show ?thesis using prem Cons by simp
    next
      case 3
      then obtain w where "read_literal unesc esc True t = Some (w, r)" "v = unesc d # w"
        using prem Cons by auto
      then show ?thesis using IH(2) [of d t w] 3 Cons by simp
    next
      case 4
      then obtain w where "read_literal unesc esc True s = Some (w, r)" "v = c # w"
        using prem by auto
      then show ?thesis using IH(3) [of w] 4 by simp
    qed
  qed
qed simp

text \<open>Doubling the quotes is enough exactly for values without backslashes: read by the rules of the
  Delta path, such a value comes back unchanged, and any other value does not.\<close>

theorem plain_escape_exact:
  "read_literal unesc True True (escape_sql_string v @ [quote_char]) = Some (v, []) \<longleftrightarrow> backslash \<notin> set v"
proof
  assume "backslash \<notin> set v"
  then show "read_literal unesc True True (escape_sql_string v @ [quote_char]) = Some (v, [])"
    by (rule read_plain) simp
next
  assume read: "read_literal unesc True True (escape_sql_string v @ [quote_char]) = Some (v, [])"
  show "backslash \<notin> set v"
  proof
    assume "backslash \<in> set v"
    then obtain a b where ab: "v = a @ backslash # b" "backslash \<notin> set a" by (meson split_list_first)
    have weight: "2 * length (filter (\<lambda>c. c \<noteq> quote_char) (escape_sql_string u)) + length (filter (\<lambda>c. c = quote_char) (escape_sql_string u))
        = 2 * length u" for u
      by (induction u) (auto simp: escape_sql_string_def)
    have skip: "read_literal unesc True True (escape_sql_string (a @ u) @ [quote_char]) = Some (a @ u, [])
        \<Longrightarrow> read_literal unesc True True (escape_sql_string u @ [quote_char]) = Some (u, [])" for u
      using ab(2) by (induction a) (auto simp: escape_sql_string_def split: if_splits)
    have "read_literal unesc True True (escape_sql_string (backslash # b) @ [quote_char]) = Some (backslash # b, [])"
      using read unfolding ab(1) by (rule skip)
    then obtain d t where dt: "escape_sql_string b @ [quote_char] = d # t" "read_literal unesc True True t = Some (b, [])"
      by (auto simp: escape_sql_string_def split: list.splits)
    have "2 * length b + 1 \<le> 2 * length (filter (\<lambda>c. c \<noteq> quote_char) t) + length (filter (\<lambda>c. c = quote_char) t)"
      using dt(2) by (rule read_literal_weight)
    moreover have "2 * length (filter (\<lambda>c. c \<noteq> quote_char) (d # t)) + length (filter (\<lambda>c. c = quote_char) (d # t)) = 2 * length b + 1"
      unfolding dt(1) [symmetric] using weight [of b] by simp
    ultimately show False by (simp split: if_splits)
  qed
qed

lemma read_ident_doubled:
  "rest = [] \<or> hd rest \<noteq> backtick \<Longrightarrow>
     read_ident (py_replace_char backtick [backtick, backtick] n @ backtick # rest) = Some (n, rest)"
proof (induction n)
  case Nil
  then show ?case by (cases rest) auto
qed simp

text \<open>Whatever the name, quoting it part by part gives a dotted identifier that is read back as exactly
  its parts, each without the backticks it may have come with.\<close>

theorem quote_fqn_reads_back:
  "read_fqn (quote_fqn fqn) = Some (map unwrap_ident (py_split CHR ''.'' fqn))"
proof -
  have "read_fqn (py_join ''.'' (map quote_ident ps)) = Some (map unwrap_ident ps)" if "ps \<noteq> []" for ps
    using that
  proof (induction ps rule: list_nonempty_induct)
    case (single p)
    show ?case
      using read_ident_doubled [of "[]"] by (subst read_fqn.simps) (simp add: quote_ident_def)
  next
    case (cons p ps)
    have split: "py_join ''.'' (map quote_ident (p # ps)) = backtick # py_replace_char backtick [backtick, backtick] (unwrap_ident p)
        @ backtick # ''.'' @ py_join ''.'' (map quote_ident ps)"
      using cons.hyps by (cases ps) (simp_all add: quote_ident_def)
    have "read_ident (py_replace_char backtick [backtick, backtick] (unwrap_ident p) @ backtick # ''.'' @ py_join ''.'' (map quote_ident ps))
        = Some (unwrap_ident p, ''.'' @ py_join ''.'' (map quote_ident ps))"
      by (rule read_ident_doubled) (simp add: backtick_def)
    then show ?case
      unfolding split by (subst read_fqn.simps) (simp add: cons.IH)
  qed
  then show ?thesis by (simp add: quote_fqn_def)
qed

lemma replace_pair_doubled:
  "replace_pair q r (py_replace_char q [q, q] n) = py_replace_char q r n"
proof (induction n)
  case (Cons x n)
  show ?case
  proof (cases "x = q")
    case False
    then show ?thesis
      using Cons by (cases "py_replace_char q [q, q] n") (simp_all)
  qed (simp add: Cons)
qed simp

text \<open>Unquoting undoes quoting for every column name, backticks in the name included.\<close>

theorem unquote_quoted_column: "unquote_column_name (quote_column_name name) = name"
proof -
  have "py_replace_char backtick [backtick] name = name"
    by (induction name) auto
  moreover have "backtick \<notin> set (py_replace_char backtick [] name)"
    by (rule py_replace_char_removes) simp
  ultimately show ?thesis
    by (simp add: unquote_column_name_def quote_column_name_def replace_pair_doubled butlast_append)
qed

subsection \<open>What validation lets through\<close>

text \<open>The validators of names that reach a string literal.\<close>

definition validated_name :: "string \<Rightarrow> bool" where
  "validated_name s \<longleftrightarrow> validate_fqn s \<or> validate_identifier s \<or> validate_run_id s \<or> validate_object_id s \<or> validate_schedule_name s"

lemma class_match_avoids: "class_match P lo hi s \<Longrightarrow> \<not> P c \<Longrightarrow> c \<notin> set s"
  by (auto simp: class_match_def list_all_iff)

lemma dollar_match_avoids: "dollar_match P lo hi s \<Longrightarrow> \<not> P c \<Longrightarrow> c \<noteq> newline \<Longrightarrow> c \<notin> set s"
proof -
  assume *: "dollar_match P lo hi s" "\<not> P c" "c \<noteq> newline"
  then have "class_match P lo hi s \<or> (\<exists>b. s = b @ [newline] \<and> class_match P lo hi b)"
    unfolding dollar_match_def by (metis append_butlast_last_id)
  then show "c \<notin> set s"
    using class_match_avoids [where P = P and c = c] *(2,3) by fastforce
qed

lemma backslash_classes [simp]:
  "\<not> fqn_part_char backslash" "\<not> id_char backslash" "backslash \<noteq> newline" "\<not> ident_char backslash"
  "backslash \<noteq> CHR ''.''" "backslash \<noteq> CHR '':''" "backslash \<noteq> backtick"
  by (simp_all add: fqn_part_char_def id_char_def ident_char_def ascii_letter_def py_isdigit_def sql_chars Let_def)

lemma unwrap_ident_cover: "c \<noteq> backtick \<Longrightarrow> c \<in> set p \<Longrightarrow> c \<in> set (unwrap_ident p)"
proof -
  assume *: "c \<noteq> backtick" "c \<in> set p"
  show "c \<in> set (unwrap_ident p)"
  proof (cases "length p \<ge> 2 \<and> hd p = backtick \<and> last p = backtick")
    case True
    then obtain m where "p = backtick # m @ [backtick]"
      by (cases p; cases "tl p" rule: rev_cases) auto
    then show ?thesis using * by (simp add: unwrap_ident_def)
  qed (use * in \<open>auto simp: unwrap_ident_def\<close>)
qed

lemma validate_fqn_backslash: "validate_fqn f \<Longrightarrow> backslash \<notin> set f"
proof (cases "sql_check_re f")
  case True
  then obtain t where f: "f = ''__sql_check__/'' @ t" and t: "dollar_match id_char 1 None t"
    by (auto simp: sql_check_re_def py_startswith_iff simp del: py_startswith.simps)
  have "backslash \<notin> set t"
    using t by (rule dollar_match_avoids) simp_all
  moreover have "backslash \<notin> set ''__sql_check__/''" by (simp add: backslash_def)
  ultimately show ?thesis unfolding f by (simp only: set_append Un_iff simp_thms)
next
  case False
  assume "validate_fqn f"
  then have "list_all valid_part (py_split CHR ''.'' f)"
    using False by (auto simp: validate_fqn_def Let_def split: if_splits)
  then have "backslash \<notin> set p" if "p \<in> set (py_split CHR ''.'' f)" for p
    using that unwrap_ident_cover [of backslash p] dollar_match_avoids [of fqn_part_char 1 None "unwrap_ident p" backslash]
    by (auto simp: list_all_iff valid_part_def fqn_part_re_def Let_def)
  moreover have "c \<in> set (py_join ''.'' ps) \<Longrightarrow> c = CHR ''.'' \<or> (\<exists>p \<in> set ps. c \<in> set p)" for c ps
    by (induction ps rule: induct_list012) auto
  moreover have "py_join ''.'' (py_split CHR ''.'' f) = f" by (rule py_join_split)
  ultimately show ?thesis by (metis backslash_classes(5))
qed

text \<open>A name that any of the validators accepts can be put into a literal with its quotes doubled: it is
  read back unchanged, whether or not the engine honours backslashes.\<close>

theorem validated_names_escape:
  assumes "validated_name s" "rest = [] \<or> hd rest \<noteq> quote_char"
  shows "read_literal unesc esc True (escape_sql_string s @ quote_char # rest) = Some (s, rest)"
proof -
  have "backslash \<notin> set s"
    using assms(1) validate_fqn_backslash [of s]
    by (auto simp: validated_name_def validate_identifier_def fqn_part_re_def validate_run_id_def validate_object_id_def
        validate_schedule_name_def dest!: dollar_match_avoids [where c = backslash] class_match_avoids [where c = backslash])
  then show ?thesis using assms(2) by (rule read_plain)
qed

text \<open>The pattern for a part of a name ends with a dollar sign, so a table name that ends with a newline,
  which the validation is documented to reject as a control character, is accepted, and so are the
  control characters from 128 to 159.\<close>

theorem fqn_newline_accepted:
  assumes "\<forall>p \<in> {c, s, t}. class_match fqn_part_char 1 (Some 254) p \<and> CHR ''.'' \<notin> set p"
  shows "validate_fqn (c @ ''.'' @ s @ ''.'' @ t @ [newline]) \<and> (\<forall>n \<in> {128..159}. fqn_part_char (char_of (n :: nat)))"
proof
  have plain: "unwrap_ident p = p" if "backtick \<notin> set p" for p
    using that by (cases p) (auto simp: unwrap_ident_def)
  have parts: "py_split CHR ''.'' (c @ ''.'' @ s @ ''.'' @ t @ [newline]) = [c, s, t @ [newline]]"
    using assms by (simp add: py_split_append py_split_single newline_def)
  have "valid_part p" if p_in: "p \<in> {c, s, t @ [newline]}" for p
  proof -
    obtain b nl where p: "p = b @ nl" "nl = [] \<or> nl = [newline]" "class_match fqn_part_char 1 (Some 254) b"
    proof (cases "p = t @ [newline]")
      case True
      then show ?thesis using assms by (intro that [of t "[newline]"]) simp_all
    next
      case False
      with p_in have "p \<in> {c, s, t}" by blast
      then show ?thesis using assms by (intro that [of p "[]"]) auto
    qed
    have "\<not> fqn_part_char backtick" by (simp add: fqn_part_char_def)
    then have "backtick \<notin> set p" using p class_match_avoids [OF p(3)] by (auto simp: newline_def backtick_def)
    then show ?thesis
      using p by (auto simp: valid_part_def plain fqn_part_re_def dollar_match_def class_match_def Let_def)
  qed
  then show "validate_fqn (c @ ''.'' @ s @ ''.'' @ t @ [newline])"
    unfolding validate_fqn_def Let_def parts by simp
  show "\<forall>n \<in> {128..159}. fqn_part_char (char_of (n :: nat))"
  proof
    fix n :: nat assume "n \<in> {128..159}"
    then have n: "of_char (char_of n :: char) = n" by simp
    moreover have "char_of n \<noteq> backtick" "char_of n \<noteq> backslash"
      using \<open>n \<in> {128..159}\<close> n by (auto simp: sql_chars dest: arg_cong [where f = "of_char :: char \<Rightarrow> nat"])
    ultimately show "fqn_part_char (char_of n)"
      using \<open>n \<in> {128..159}\<close> unfolding fqn_part_char_def Let_def by auto
  qed
qed

subsection \<open>Concrete values\<close>

theorem spark_literal_roundtrip_witness:
  "read_literal id True False (escape_sql_string_literal [quote_char, backslash] @ quote_char # '' OR 1=1'')
     = Some ([quote_char, backslash], '' OR 1=1'')"
  by (rule spark_literal_roundtrip) simp_all

theorem in_list_roundtrip_witness:
  "read_literals id (sql_string_in_list [''a'', [backslash], [quote_char]]) = Some [''a'', [backslash], [quote_char]]"
  by (rule in_list_roundtrip) simp_all

theorem validated_names_escape_witness:
  "read_literal id True True (escape_sql_string ''run-1'' @ quote_char # '')'') = Some (''run-1'', '')'')"
proof (rule validated_names_escape)
  have "validate_run_id ''run-1''"
    by (simp add: validate_run_id_def class_match_def id_char_def ident_char_def ascii_letter_def py_isdigit_def Let_def)
  then show "validated_name ''run-1''" by (simp add: validated_name_def)
qed (simp add: quote_char_def)

theorem fqn_newline_accepted_witness:
  "validate_fqn (''main.dq.orders'' @ [newline])"
proof -
  have "\<forall>p \<in> {''main'', ''dq'', ''orders''}. class_match fqn_part_char 1 (Some 254) p \<and> CHR ''.'' \<notin> set p"
    by (simp add: class_match_def fqn_part_char_def sql_chars)
  then show ?thesis using fqn_newline_accepted [of "''main''" "''dq''" "''orders''"] by simp
qed

end
