(* ===== verification/Registry_Model.thy ===== *)
theory Registry_Model
  imports SQL_Text Check_Validator "HOL-Library.Char_ord" "HOL-Library.List_Lexorder" "HOL-Library.Multiset"
begin

section \<open>Rules of the registry (\<open>backend/registry_models.py\<close>, \<open>backend/registry_fingerprint.py\<close>)\<close>

text \<open>
  The rule template of the registry, its frozen versions, and the fingerprint that finds duplicates.
  A definition is stored as JSON text, and reading it back gives the value that was written. The
  text of canonical JSON and its SHA-256 digest are the parameter \<open>digest\<close>. Timestamps, which the
  database sets, and fields that are computed for display are left out.
\<close>

subsection \<open>Data\<close>

datatype rule_mode = DqxNative | Lowcode | SqlMode
datatype rule_status = Draft | PendingApproval | Approved | Rejected | Deprecated
datatype polarity = PolarityPass | PolarityFail
datatype author_kind = Human | AiGenerated | AiAssisted

text \<open>The family of a slot is any string in a stored row: families were retired.\<close>

record rule_slot =
  sl_name :: string
  sl_family :: string
  sl_position :: int
  sl_cardinality :: string
  sl_arg_key :: "string option"

record rule_parameter =
  pm_name :: string
  pm_type :: string
  pm_value :: json

record rule_definition =
  df_body :: json_dict
  df_slots :: "rule_slot list"
  df_parameters :: "rule_parameter list"
  df_error_message :: "string option"
  df_filter :: "string option"

record registry_rule =
  rr_id :: string
  rr_mode :: rule_mode
  rr_status :: rule_status
  rr_version :: nat
  rr_polarity :: "polarity option"
  rr_author_kind :: "author_kind option"
  rr_definition :: rule_definition
  rr_user_metadata :: json_dict
  rr_fingerprint :: "string option"
  rr_owner :: "string option"
  rr_owner_display_name :: "string option"
  rr_is_builtin :: bool
  rr_source :: "string option"
  rr_pending_rationale :: "string option"
  rr_last_decision_rationale :: "string option"
  rr_created_by :: "string option"
  rr_updated_by :: "string option"

record rule_version =
  rv_rule_id :: string
  rv_version :: nat
  rv_mode :: "rule_mode option"
  rv_definition :: rule_definition
  rv_polarity :: "polarity option"
  rv_user_metadata :: json_dict
  rv_created_by :: "string option"

fun mode_value :: "rule_mode \<Rightarrow> string" where
  "mode_value DqxNative = ''dqx_native''"
| "mode_value Lowcode = ''lowcode''"
| "mode_value SqlMode = ''sql''"

fun polarity_value :: "polarity \<Rightarrow> string" where
  "polarity_value PolarityPass = ''pass''"
| "polarity_value PolarityFail = ''fail''"

subsection \<open>Comparison of JSON values\<close>

text \<open>\<open>json.dumps(sort_keys=True)\<close> writes the keys of every dictionary in order.\<close>

fun sort_json :: "json \<Rightarrow> json" where
  "sort_json (JList vs) = JList (map sort_json vs)"
| "sort_json (JDict d) = JDict (sort_key fst (map (\<lambda>(k, v). (k, sort_json v)) d))"
| "sort_json v = v"

text \<open>Python's \<open>==\<close>: the order of keys is immaterial, \<open>True == 1 == 1.0\<close>, and a NaN equals nothing.\<close>

fun norm_number :: "json \<Rightarrow> json" where
  "norm_number (JBool b) = JInt (if b then 1 else 0)"
| "norm_number (JFloat (Fin q)) = (if of_int \<lfloor>q\<rfloor> = q then JInt \<lfloor>q\<rfloor> else JFloat (Fin q))"
| "norm_number (JList vs) = JList (map norm_number vs)"
| "norm_number (JDict d) = JDict (map (\<lambda>(k, v). (k, norm_number v)) d)"
| "norm_number v = v"

fun has_nan :: "json \<Rightarrow> bool" where
  "has_nan (JFloat NaN) = True"
| "has_nan (JList vs) = list_ex has_nan vs"
| "has_nan (JDict d) = list_ex (\<lambda>(k, v). has_nan v) d"
| "has_nan v = False"

definition py_eq :: "json \<Rightarrow> json \<Rightarrow> bool" where
  "py_eq v w = (sort_json (norm_number v) = sort_json (norm_number w) \<and> \<not> has_nan v)"

definition opt_json :: "string option \<Rightarrow> json" where
  "opt_json s = (case s of None \<Rightarrow> JNull | Some t \<Rightarrow> JStr t)"

text \<open>\<open>RuleDefinition.model_dump\<close>\<close>

definition slot_json :: "rule_slot \<Rightarrow> json" where
  "slot_json s = JDict [(''name'', JStr (sl_name s)), (''family'', JStr (sl_family s)), (''position'', JInt (sl_position s)),
     (''cardinality'', JStr (sl_cardinality s)), (''arg_key'', opt_json (sl_arg_key s))]"

definition parameter_json :: "rule_parameter \<Rightarrow> json" where
  "parameter_json p = JDict [(''name'', JStr (pm_name p)), (''type'', JStr (pm_type p)), (''value'', pm_value p)]"

definition definition_json :: "rule_definition \<Rightarrow> json" where
  "definition_json d = JDict [(''body'', JDict (df_body d)), (''slots'', JList (map slot_json (df_slots d))),
     (''parameters'', JList (map parameter_json (df_parameters d))),
     (''error_message'', opt_json (df_error_message d)), (''filter'', opt_json (df_filter d))]"

subsection \<open>Fingerprint\<close>

definition normalize_slot :: "rule_slot \<Rightarrow> json" where
  "normalize_slot s = JDict [(''name'', JStr (sl_name s)), (''family'', JStr (sl_family s)), (''cardinality'', JStr (sl_cardinality s))]"

definition normalize_parameter :: "rule_parameter \<Rightarrow> json" where
  "normalize_parameter p = JDict [(''name'', JStr (pm_name p)), (''type'', JStr (pm_type p)), (''value'', pm_value p)]"

text \<open>The normalizer of bound arguments is the identity on JSON values.\<close>

definition fingerprint_data :: "rule_mode \<Rightarrow> polarity option \<Rightarrow> rule_definition \<Rightarrow> json" where
  "fingerprint_data mode pol d = JDict
     [(''mode'', JStr (mode_value mode)),
      (''polarity'', opt_json (map_option polarity_value pol)),
      (''body'', JDict (df_body d)),
      (''slots'', JList (map normalize_slot (sort_key sl_name (df_slots d)))),
      (''parameters'', JList (map normalize_parameter (sort_key pm_name (df_parameters d)))),
      (''filter'', opt_json (df_filter d))]"

definition compute_registry_rule_fingerprint :: "(json \<Rightarrow> string) \<Rightarrow> registry_rule \<Rightarrow> string" where
  "compute_registry_rule_fingerprint digest r =
     digest (sort_json (fingerprint_data (rr_mode r) (rr_polarity r) (rr_definition r)))"

lemma distinct_sort_keys: "distinct (map fst (sort_key fst l)) = distinct (map fst l)"
  by (simp add: distinct_map)

lemma map_of_sort_keys: "distinct (map fst l) \<Longrightarrow> map_of (sort_key fst l) = map_of l"
  using distinct_sort_keys [of l] by (simp add: map_of_inject_set)

lemma values_keys:
  "map fst (map (\<lambda>(k, v). (k, f v)) e) = map fst e" "map snd (map (\<lambda>(k, v). (k, f v)) e) = map (f \<circ> snd) e"
  by (induction e) auto

lemma sort_json_dict:
  assumes "distinct (map fst d)" "map fst d = map fst d'"
  shows "sort_json (JDict d) = sort_json (JDict d') \<longleftrightarrow> map (sort_json \<circ> snd) d = map (sort_json \<circ> snd) d'"
proof -
  let ?f = "map (\<lambda>(k, v). (k, sort_json v))"
  note keys = values_keys [where f = sort_json]
  have get: "map_of (sort_key fst (?f e)) = map_of (?f e)" if "distinct (map fst e)" for e
    by (rule map_of_sort_keys) (simp only: keys(1) that)
  show ?thesis
  proof
    assume "sort_json (JDict d) = sort_json (JDict d')"
    then have "map_of (?f d) = map_of (?f d')" using get [of d] get [of d'] assms by simp
    then have "map (map_of (?f d)) (map fst (?f d)) = map (map_of (?f d')) (map fst (?f d'))"
      by (simp only: keys(1) assms(2))
    moreover have "map (map_of e) (map fst e) = map Some (map snd e)" if "distinct (map fst e)" for e :: "(string \<times> json) list"
      using that by (auto simp: comp_def intro!: map_cong)
    ultimately have "map Some (map snd (?f d)) = map Some (map snd (?f d'))"
      using assms keys(1) by metis
    then show "map (sort_json \<circ> snd) d = map (sort_json \<circ> snd) d'"
      by (simp only: keys(2) inj_map_eq_map inj_Some)
  next
    assume "map (sort_json \<circ> snd) d = map (sort_json \<circ> snd) d'"
    then have "map snd (?f d) = map snd (?f d')" by (simp only: keys(2))
    moreover have "map fst (?f d) = map fst (?f d')" by (simp only: keys(1) assms(2))
    ultimately have "?f d = ?f d'" by (rule pair_list_eqI [rotated])
    then show "sort_json (JDict d) = sort_json (JDict d')" by simp
  qed
qed

lemma opt_json_inject: "sort_json (opt_json a) = sort_json (opt_json b) \<longleftrightarrow> a = b"
  by (cases a; cases b) (auto simp: opt_json_def)

lemma mode_value_inject [simp]: "mode_value a = mode_value b \<longleftrightarrow> a = b"
  by (cases a; cases b) simp_all

lemma polarity_value_inject: "map_option polarity_value a = map_option polarity_value b \<longleftrightarrow> a = b"
proof -
  have "polarity_value x = polarity_value y \<longleftrightarrow> x = y" for x y
    by (cases x; cases y) simp_all
  then show ?thesis by (cases a; cases b) simp_all
qed

definition slot_key :: "rule_slot \<Rightarrow> string \<times> string \<times> string" where
  "slot_key s = (sl_name s, sl_family s, sl_cardinality s)"

definition parameter_key :: "rule_parameter \<Rightarrow> string \<times> string \<times> json" where
  "parameter_key p = (pm_name p, pm_type p, sort_json (pm_value p))"

lemma normalize_slot_inject: "sort_json (normalize_slot s) = sort_json (normalize_slot t) \<longleftrightarrow> slot_key s = slot_key t"
  unfolding normalize_slot_def by (subst sort_json_dict) (auto simp: slot_key_def)

lemma normalize_parameter_inject:
  "sort_json (normalize_parameter p) = sort_json (normalize_parameter q) \<longleftrightarrow> parameter_key p = parameter_key q"
  unfolding normalize_parameter_def by (subst sort_json_dict) (auto simp: parameter_key_def)

lemma map_inject: "(\<And>x y. f x = f y \<longleftrightarrow> g x = g y) \<Longrightarrow> map f xs = map f ys \<longleftrightarrow> map g xs = map g ys"
proof (induction xs arbitrary: ys)
  case (Cons x xs)
  then show ?case by (cases ys) simp_all
qed simp

lemma sort_key_mset: "inj_on f (set l) \<Longrightarrow> sort_key f l = sort_key f m \<longleftrightarrow> mset l = mset m"
proof
  assume "sort_key f l = sort_key f m"
  then have "mset (sort_key f l) = mset (sort_key f m)" by (rule arg_cong)
  then show "mset l = mset m" by (simp only: mset_sort)
next
  assume "inj_on f (set l)" "mset l = mset m"
  then show "sort_key f l = sort_key f m" by (intro sort_key_inj_key_eq) simp_all
qed

text \<open>Sorting by a name that the list does not repeat forgets exactly the order.\<close>

lemma sorted_keys_mset:
  assumes "distinct (map k xs)" "\<And>x. fst (g x) = k x"
  shows "map g (sort_key k xs) = map g (sort_key k ys) \<longleftrightarrow> mset (map g xs) = mset (map g ys)"
proof -
  have "map g (insort_key k z zs) = insort_key fst (g z) (map g zs)" for z zs
    using assms(2) by (induction zs) simp_all
  then have "map g (sort_key k zs) = sort_key fst (map g zs)" for zs
    by (induction zs) (simp_all add: sort_key_def)
  moreover have "inj_on fst (set (map g xs))"
    using assms by (auto simp: inj_on_def distinct_map)
  ultimately show ?thesis by (simp only: sort_key_mset)
qed

lemma fingerprint_fields:
  "sort_json (JDict [(''mode'', a1), (''polarity'', a2), (''body'', a3), (''slots'', a4), (''parameters'', a5), (''filter'', a6)])
     = sort_json (JDict [(''mode'', b1), (''polarity'', b2), (''body'', b3), (''slots'', b4), (''parameters'', b5), (''filter'', b6)])
   \<longleftrightarrow> sort_json a1 = sort_json b1 \<and> sort_json a2 = sort_json b2 \<and> sort_json a3 = sort_json b3
     \<and> sort_json a4 = sort_json b4 \<and> sort_json a5 = sort_json b5 \<and> sort_json a6 = sort_json b6"
  by (rule trans [OF sort_json_dict]; simp del: sort_json.simps)

text \<open>C40: Unless the digest of their two texts collides, two rules have the same fingerprint exactly when they have the same
  mode, polarity, body and filter and the same slots and parameters, in whatever order these and
  the keys of the body were written; tags, owner, status and version play no part.\<close>

theorem fingerprint_canonical:
  assumes "inj_on digest {sort_json (fingerprint_data (rr_mode r) (rr_polarity r) (rr_definition r)),
      sort_json (fingerprint_data (rr_mode r') (rr_polarity r') (rr_definition r'))}"
    and "distinct (map sl_name (df_slots (rr_definition r)))" "distinct (map pm_name (df_parameters (rr_definition r)))"
  shows "compute_registry_rule_fingerprint digest r = compute_registry_rule_fingerprint digest r' \<longleftrightarrow>
    rr_mode r = rr_mode r' \<and> rr_polarity r = rr_polarity r'
    \<and> sort_json (JDict (df_body (rr_definition r))) = sort_json (JDict (df_body (rr_definition r')))
    \<and> df_filter (rr_definition r) = df_filter (rr_definition r')
    \<and> mset (map slot_key (df_slots (rr_definition r))) = mset (map slot_key (df_slots (rr_definition r')))
    \<and> mset (map parameter_key (df_parameters (rr_definition r))) = mset (map parameter_key (df_parameters (rr_definition r')))"
proof -
  let ?d = "rr_definition r" and ?d' = "rr_definition r'"
  have slots: "sort_json (JList (map normalize_slot (sort_key sl_name (df_slots ?d))))
      = sort_json (JList (map normalize_slot (sort_key sl_name (df_slots ?d'))))
    \<longleftrightarrow> mset (map slot_key (df_slots ?d)) = mset (map slot_key (df_slots ?d'))"
    using map_inject [of "sort_json \<circ> normalize_slot" slot_key, simplified, OF normalize_slot_inject]
      sorted_keys_mset [OF assms(2), of slot_key] by (simp add: slot_key_def)
  have parameters: "sort_json (JList (map normalize_parameter (sort_key pm_name (df_parameters ?d))))
      = sort_json (JList (map normalize_parameter (sort_key pm_name (df_parameters ?d'))))
    \<longleftrightarrow> mset (map parameter_key (df_parameters ?d)) = mset (map parameter_key (df_parameters ?d'))"
    using map_inject [of "sort_json \<circ> normalize_parameter" parameter_key, simplified, OF normalize_parameter_inject]
      sorted_keys_mset [OF assms(3), of parameter_key] by (simp add: parameter_key_def)
  have "compute_registry_rule_fingerprint digest r = compute_registry_rule_fingerprint digest r' \<longleftrightarrow>
      sort_json (fingerprint_data (rr_mode r) (rr_polarity r) ?d) = sort_json (fingerprint_data (rr_mode r') (rr_polarity r') ?d')"
    unfolding compute_registry_rule_fingerprint_def
    by (rule inj_on_eq_iff [OF assms(1)]) (rule insertI1, rule insertI2, rule insertI1)
  also have "\<dots> \<longleftrightarrow> rr_mode r = rr_mode r' \<and> rr_polarity r = rr_polarity r'
      \<and> sort_json (JDict (df_body ?d)) = sort_json (JDict (df_body ?d'))
      \<and> mset (map slot_key (df_slots ?d)) = mset (map slot_key (df_slots ?d'))
      \<and> mset (map parameter_key (df_parameters ?d)) = mset (map parameter_key (df_parameters ?d'))
      \<and> df_filter ?d = df_filter ?d'"
    unfolding fingerprint_data_def slots [symmetric] parameters [symmetric]
    unfolding fingerprint_fields opt_json_inject polarity_value_inject by simp
  finally show ?thesis by blast
qed

definition example_rule :: "string \<Rightarrow> rule_status \<Rightarrow> json_dict \<Rightarrow> rule_slot list \<Rightarrow> registry_rule" where
  "example_rule rid status body slots = \<lparr>rr_id = rid, rr_mode = DqxNative, rr_status = status, rr_version = 0, rr_polarity = None,
     rr_author_kind = Some Human,
     rr_definition = \<lparr>df_body = body, df_slots = slots, df_parameters = [], df_error_message = None, df_filter = None\<rparr>,
     rr_user_metadata = [], rr_fingerprint = Some ''f'', rr_owner = Some ''ann'', rr_owner_display_name = None,
     rr_is_builtin = False, rr_source = Some ''ui'', rr_pending_rationale = None, rr_last_decision_rationale = None,
     rr_created_by = Some ''ann'', rr_updated_by = Some ''ann''\<rparr>"

definition example_slot :: "string \<Rightarrow> rule_slot" where
  "example_slot name = \<lparr>sl_name = name, sl_family = ''any'', sl_position = 0, sl_cardinality = ''one'', sl_arg_key = None\<rparr>"

definition example_digest :: "json \<Rightarrow> string" where
  "example_digest j = (case j of JDict ((k, JDict ((c, v) # d)) # _) \<Rightarrow> c | _ \<Rightarrow> ''none'')"

lemma fingerprint_canonical_witness:
  "compute_registry_rule_fingerprint example_digest (example_rule ''a'' Draft [(''k'', JInt 1), (''l'', JInt 2)] [example_slot ''x'', example_slot ''y''])
     = compute_registry_rule_fingerprint example_digest (example_rule ''b'' Approved [(''l'', JInt 2), (''k'', JInt 1)] [example_slot ''y'', example_slot ''x''])"
proof -
  let ?r = "example_rule ''a'' Draft [(''k'', JInt 1), (''l'', JInt 2)] [example_slot ''x'', example_slot ''y'']"
  let ?r' = "example_rule ''b'' Approved [(''l'', JInt 2), (''k'', JInt 1)] [example_slot ''y'', example_slot ''x'']"
  have same: "sort_json (fingerprint_data (rr_mode ?r) (rr_polarity ?r) (rr_definition ?r))
      = sort_json (fingerprint_data (rr_mode ?r') (rr_polarity ?r') (rr_definition ?r'))"
    by code_simp
  have "inj_on example_digest {sort_json (fingerprint_data (rr_mode ?r) (rr_polarity ?r) (rr_definition ?r)),
      sort_json (fingerprint_data (rr_mode ?r') (rr_polarity ?r') (rr_definition ?r'))}"
    unfolding same by simp
  moreover have "distinct (map sl_name (df_slots (rr_definition ?r)))" by code_simp
  moreover have "distinct (map pm_name (df_parameters (rr_definition ?r)))" by code_simp
  ultimately show ?thesis by (subst fingerprint_canonical) (assumption, assumption, assumption, simp add: example_rule_def example_slot_def slot_key_def)
qed

end
