(* ===== verification/Registry_Service.thy ===== *)
theory Registry_Service
  imports Registry_Model
begin

section \<open>The service of the rules registry (\<open>backend/services/registry_service.py\<close>)\<close>

text \<open>
  The operations of \<open>RegistryService\<close> on the three tables of the registry. An operation raises before
  it writes, or else writes and returns the rule: its result is an error, or the new database with
  the rule. The order in which the database returns rows, the lookup of an owner in the directory,
  and whether the best-effort audit insert succeeds are parameters. An empty string is stored as
  \<open>NULL\<close>.
\<close>

subsection \<open>Tables\<close>

record history_row =
  hr_rule_id :: string
  hr_definition :: rule_definition
  hr_version :: nat
  hr_action :: string
  hr_prev_status :: "rule_status option"
  hr_new_status :: "rule_status option"
  hr_changed_by :: string
  hr_rationale :: "string option"

record registry_db =
  db_rules :: "registry_rule list"
  db_versions :: "rule_version list"
  db_history :: "history_row list"
  db_seeded :: "(string \<times> string) list"

record registry_env =
  rg_digest :: "json \<Rightarrow> string"
  rg_order :: "registry_rule list \<Rightarrow> registry_rule list"
  rg_canonicalize_owner :: "string \<Rightarrow> string option \<times> string option"
  rg_history_ok :: "history_row \<Rightarrow> bool"
  rg_permissions :: bool

datatype registry_error =
    RuleNotFound string
  | NotEditable rule_status
  | InvalidTransition rule_status rule_status
  | NothingToSubmit
  | NotPending rule_status
  | UnsafeSql
  | FilterTooLong
  | DuplicateRule string "string option"
  | ConcurrentModification string

fun rule_status_value :: "rule_status \<Rightarrow> string" where
  "rule_status_value Draft = ''draft''"
| "rule_status_value PendingApproval = ''pending_approval''"
| "rule_status_value Approved = ''approved''"
| "rule_status_value Rejected = ''rejected''"
| "rule_status_value Deprecated = ''deprecated''"

fun valid_transitions :: "rule_status \<Rightarrow> rule_status list" where
  "valid_transitions Draft = [PendingApproval]"
| "valid_transitions PendingApproval = [Approved, Rejected, Draft]"
| "valid_transitions Approved = [Deprecated, PendingApproval]"
| "valid_transitions Rejected = []"
| "valid_transitions Deprecated = [Approved]"

definition editable_statuses :: "rule_status list" where
  "editable_statuses = [Draft, Approved]"

subsection \<open>Rows\<close>

text \<open>\<open>_opt_str\<close>\<close>

definition opt_str :: "string option \<Rightarrow> string option" where
  "opt_str s = (if s = Some [] then None else s)"

text \<open>The row \<open>_insert\<close> writes: the rationales are not among its columns.\<close>

definition insert_row :: "registry_rule \<Rightarrow> registry_rule" where
  "insert_row r = r\<lparr>rr_fingerprint := opt_str (rr_fingerprint r), rr_owner := opt_str (rr_owner r),
     rr_owner_display_name := opt_str (rr_owner_display_name r), rr_source := opt_str (rr_source r),
     rr_pending_rationale := None, rr_last_decision_rationale := None,
     rr_created_by := opt_str (rr_created_by r), rr_updated_by := opt_str (rr_updated_by r)\<rparr>"

text \<open>The columns \<open>_update\<close> sets.\<close>

definition update_row :: "registry_rule \<Rightarrow> registry_rule \<Rightarrow> registry_rule" where
  "update_row r row = row\<lparr>rr_mode := rr_mode r, rr_status := rr_status r, rr_version := rr_version r,
     rr_polarity := rr_polarity r, rr_author_kind := rr_author_kind r, rr_definition := rr_definition r,
     rr_user_metadata := rr_user_metadata r, rr_fingerprint := opt_str (rr_fingerprint r),
     rr_owner := opt_str (rr_owner r), rr_owner_display_name := opt_str (rr_owner_display_name r),
     rr_pending_rationale := opt_str (rr_pending_rationale r),
     rr_last_decision_rationale := opt_str (rr_last_decision_rationale r),
     rr_updated_by := opt_str (rr_updated_by r)\<rparr>"

definition retired_slot_families :: "string list" where
  "retired_slot_families = [''table'', ''array'']"

definition drop_retired_slots :: "rule_definition \<Rightarrow> rule_definition" where
  "drop_retired_slots d = d\<lparr>df_slots := filter (\<lambda>s. sl_family s \<notin> set retired_slot_families) (df_slots d)\<rparr>"

definition row_to_rule :: "registry_rule \<Rightarrow> registry_rule" where
  "row_to_rule row = row\<lparr>rr_definition := drop_retired_slots (rr_definition row)\<rparr>"

definition row_to_version :: "rule_version \<Rightarrow> rule_version" where
  "row_to_version row = row\<lparr>rv_definition := drop_retired_slots (rv_definition row)\<rparr>"

subsection \<open>Queries\<close>

definition first_row :: "registry_env \<Rightarrow> registry_rule list \<Rightarrow> registry_rule option" where
  "first_row env rows = (case rg_order env rows of [] \<Rightarrow> None | row # _ \<Rightarrow> Some (row_to_rule row))"

definition get_rule :: "registry_env \<Rightarrow> registry_db \<Rightarrow> string \<Rightarrow> registry_rule option" where
  "get_rule env db rid = first_row env (filter (\<lambda>r. rr_id r = rid) (db_rules db))"

definition get_rule_by_fingerprint :: "registry_env \<Rightarrow> registry_db \<Rightarrow> string \<Rightarrow> registry_rule option" where
  "get_rule_by_fingerprint env db fp = first_row env (filter (\<lambda>r. rr_fingerprint r = Some fp) (db_rules db))"

definition get_approved_rule_by_fingerprint :: "registry_env \<Rightarrow> registry_db \<Rightarrow> string \<Rightarrow> registry_rule option" where
  "get_approved_rule_by_fingerprint env db fp =
     first_row env (filter (\<lambda>r. rr_fingerprint r = Some fp \<and> rr_status r = Approved) (db_rules db))"

text \<open>\<open>ORDER BY\<close> the preference of the status.\<close>

fun active_rank :: "rule_status \<Rightarrow> nat" where
  "active_rank Approved = 0"
| "active_rank PendingApproval = 1"
| "active_rank _ = 2"

definition get_active_rule_by_fingerprint :: "registry_env \<Rightarrow> registry_db \<Rightarrow> string \<Rightarrow> registry_rule option" where
  "get_active_rule_by_fingerprint env db fp =
     (case sort_key (active_rank \<circ> rr_status) (rg_order env
        (filter (\<lambda>r. rr_fingerprint r = Some fp \<and> rr_status r \<in> {Draft, PendingApproval, Approved}) (db_rules db))) of
        [] \<Rightarrow> None | row # _ \<Rightarrow> Some (row_to_rule row))"

definition find_duplicate_published :: "registry_env \<Rightarrow> registry_db \<Rightarrow> registry_rule \<Rightarrow> registry_rule option" where
  "find_duplicate_published env db r = (case opt_str (rr_fingerprint r) of
     None \<Rightarrow> None
   | Some fp \<Rightarrow> first_row env (filter (\<lambda>q. rr_fingerprint q = Some fp \<and> rr_status q = Approved \<and> rr_id q \<noteq> rr_id r) (db_rules db)))"

text \<open>The key of a version is a constraint of neither table; the first row in table order is taken.\<close>

definition get_version :: "registry_db \<Rightarrow> string \<Rightarrow> nat \<Rightarrow> rule_version option" where
  "get_version db rid n = map_option row_to_version (find (\<lambda>v. rv_rule_id v = rid \<and> rv_version v = n) (db_versions db))"

definition compute_modified :: "registry_rule \<Rightarrow> rule_version option \<Rightarrow> bool" where
  "compute_modified r snapshot = (case snapshot of
     None \<Rightarrow> False
   | Some v \<Rightarrow>
       if rr_version r \<le> 0 then False
       else if rr_polarity r \<noteq> rv_polarity v then True
       else if rv_mode v \<noteq> None \<and> Some (rr_mode r) \<noteq> rv_mode v then True
       else if \<not> py_eq (definition_json (rr_definition r)) (definition_json (rv_definition v)) then True
       else \<not> py_eq (JDict (rr_user_metadata r)) (JDict (rv_user_metadata v)))"

definition get_rule_with_version ::
    "registry_env \<Rightarrow> registry_db \<Rightarrow> string \<Rightarrow> (registry_rule \<times> rule_version option \<times> bool) option" where
  "get_rule_with_version env db rid = (case get_rule env db rid of
     None \<Rightarrow> None
   | Some r \<Rightarrow> if rr_version r \<le> 0 then Some (r, None, False)
       else let v = get_version db (rr_id r) (rr_version r) in Some (r, v, compute_modified r v))"

subsection \<open>Writes\<close>

definition insert_rule :: "registry_rule \<Rightarrow> registry_db \<Rightarrow> registry_db" where
  "insert_rule r db = db\<lparr>db_rules := db_rules db @ [insert_row r]\<rparr>"

definition update_rule :: "registry_rule \<Rightarrow> registry_db \<Rightarrow> registry_db" where
  "update_rule r db = db\<lparr>db_rules := map (\<lambda>row. if rr_id row = rr_id r then update_row r row else row) (db_rules db)\<rparr>"

definition write_version_snapshot :: "registry_rule \<Rightarrow> string \<Rightarrow> registry_db \<Rightarrow> registry_db" where
  "write_version_snapshot r user db = db\<lparr>db_versions := db_versions db @
     [\<lparr>rv_rule_id = rr_id r, rv_version = rr_version r, rv_mode = Some (rr_mode r), rv_definition = rr_definition r,
       rv_polarity = rr_polarity r, rv_user_metadata = rr_user_metadata r, rv_created_by = Some user\<rparr>]\<rparr>"

definition record_history ::
    "registry_env \<Rightarrow> registry_rule \<Rightarrow> string \<Rightarrow> rule_status option \<Rightarrow> rule_status option \<Rightarrow> string
     \<Rightarrow> string option \<Rightarrow> registry_db \<Rightarrow> registry_db" where
  "record_history env r action prev new user rationale db =
     (let row = \<lparr>hr_rule_id = rr_id r, hr_definition = rr_definition r, hr_version = rr_version r, hr_action = action,
        hr_prev_status = prev, hr_new_status = new, hr_changed_by = user, hr_rationale = opt_str rationale\<rparr>
      in if rg_history_ok env row then db\<lparr>db_history := db_history db @ [row]\<rparr> else db)"

subsection \<open>Safety of the SQL of a definition\<close>

definition sql_candidates :: "rule_mode \<Rightarrow> json_dict \<Rightarrow> string list" where
  "sql_candidates mode body =
     (let texts = (\<lambda>d keys. List.map_filter (\<lambda>k. case dict_get d k of Some (JStr (c # s)) \<Rightarrow> Some (c # s) | _ \<Rightarrow> None) keys)
      in case mode of
        DqxNative \<Rightarrow> (case (dict_get body ''function'', dict_get body ''arguments'') of
            (Some (JStr f), Some (JDict arguments)) \<Rightarrow>
              if f \<in> {''sql_query'', ''sql_expression''} then texts arguments [''query'', ''expression''] else []
          | _ \<Rightarrow> [])
      | _ \<Rightarrow> texts body [''sql_query'', ''predicate''])"

definition validate_definition_sql_safety :: "rule_mode \<Rightarrow> rule_definition \<Rightarrow> registry_error + unit" where
  "validate_definition_sql_safety mode d =
     (if \<not> list_all (\<lambda>c. is_sql_query_safe (strip_sql_line_comments c)) (sql_candidates mode (df_body d)) then Inl UnsafeSql
      else case df_filter d of
        None \<Rightarrow> Inr ()
      | Some f \<Rightarrow>
          if py_strip f = [] then Inr ()
          else if 4000 < length (py_strip f) then Inl FilterTooLong
          else if \<not> is_sql_query_safe (''SELECT * FROM _t WHERE ('' @ py_strip f @ '')'') then Inl UnsafeSql
          else Inr ())"

subsection \<open>Creation and editing\<close>

definition get_reserved_tag :: "json_dict \<Rightarrow> string \<Rightarrow> string option" where
  "get_reserved_tag m k = (case dict_get m k of Some (JStr (c # s)) \<Rightarrow> Some (c # s) | _ \<Rightarrow> None)"

definition get_rule_name :: "json_dict \<Rightarrow> string option" where
  "get_rule_name m = get_reserved_tag m ''name''"

text \<open>The arguments of \<open>create_rule\<close>.\<close>

record rule_input =
  in_mode :: rule_mode
  in_definition :: rule_definition
  in_user :: string
  in_polarity :: "polarity option"
  in_author_kind :: author_kind
  in_user_metadata :: json_dict
  in_owner :: "string option"
  in_owner_display_name :: "string option"
  in_source :: string
  in_allow_duplicate :: bool

text \<open>\<open>a or b\<close> of an optional string.\<close>

definition str_or :: "string option \<Rightarrow> string \<Rightarrow> string" where
  "str_or a b = (case a of Some (c # s) \<Rightarrow> c # s | _ \<Rightarrow> b)"

definition draft_of :: "registry_env \<Rightarrow> string \<Rightarrow> rule_input \<Rightarrow> registry_rule" where
  "draft_of env rid i =
     (let owner = str_or (in_owner i) (in_user i);
          (owner, display) = (case in_owner_display_name i of
            Some d \<Rightarrow> (owner, Some d)
          | None \<Rightarrow> (case rg_canonicalize_owner env owner of (canonical, d) \<Rightarrow> (str_or canonical owner, d)));
          r = \<lparr>rr_id = rid, rr_mode = in_mode i, rr_status = Draft, rr_version = 0, rr_polarity = in_polarity i,
            rr_author_kind = Some (in_author_kind i), rr_definition = in_definition i,
            rr_user_metadata = in_user_metadata i, rr_fingerprint = None, rr_owner = Some owner,
            rr_owner_display_name = display, rr_is_builtin = False, rr_source = Some (in_source i),
            rr_pending_rationale = None, rr_last_decision_rationale = None,
            rr_created_by = Some (in_user i), rr_updated_by = Some (in_user i)\<rparr>
      in r\<lparr>rr_fingerprint := Some (compute_registry_rule_fingerprint (rg_digest env) r)\<rparr>)"

text \<open>The warning is the name and the id of the published duplicate. \<open>rid\<close> is the id \<open>uuid4\<close> gives.\<close>

definition create_rule ::
    "registry_env \<Rightarrow> string \<Rightarrow> rule_input \<Rightarrow> registry_db
     \<Rightarrow> (registry_error + registry_rule \<times> (string \<times> string) option) \<times> registry_db" where
  "create_rule env rid i db = (case validate_definition_sql_safety (in_mode i) (in_definition i) of
     Inl e \<Rightarrow> (Inl e, db)
   | Inr _ \<Rightarrow>
       (let r = draft_of env rid i;
            duplicate = find_duplicate_published env db r;
            warning = map_option (\<lambda>q. (str_or (get_rule_name (rr_user_metadata q)) (rr_id q), rr_id q)) duplicate
        in case (warning, in_allow_duplicate i) of
          (Some (name, qid), False) \<Rightarrow> (Inl (DuplicateRule qid (if name \<noteq> qid then Some name else None)), db)
        | _ \<Rightarrow>
            (let db = record_history env r ''create'' None (Some Draft) (in_user i) None (insert_rule r db);
                 db = (if rg_permissions env then db\<lparr>db_seeded := db_seeded db @ [(rid, in_user i)]\<rparr> else db)
             in (Inr (r, warning), db))))"

definition builtin_rule ::
    "registry_env \<Rightarrow> string \<Rightarrow> rule_definition \<Rightarrow> json_dict \<Rightarrow> string \<Rightarrow> string option \<Rightarrow> registry_rule" where
  "builtin_rule env rid d metadata user owner =
     (let r = \<lparr>rr_id = rid, rr_mode = DqxNative, rr_status = Approved, rr_version = 1, rr_polarity = None,
            rr_author_kind = Some Human, rr_definition = d, rr_user_metadata = metadata, rr_fingerprint = None,
            rr_owner = owner, rr_owner_display_name = None, rr_is_builtin = True, rr_source = Some ''builtin'',
            rr_pending_rationale = None, rr_last_decision_rationale = None,
            rr_created_by = Some user, rr_updated_by = Some user\<rparr>
      in r\<lparr>rr_fingerprint := Some (compute_registry_rule_fingerprint (rg_digest env) r)\<rparr>)"

definition seed_builtin_rule ::
    "registry_env \<Rightarrow> string \<Rightarrow> rule_definition \<Rightarrow> json_dict \<Rightarrow> string \<Rightarrow> string option \<Rightarrow> registry_db
     \<Rightarrow> (registry_error + registry_rule) \<times> registry_db" where
  "seed_builtin_rule env rid d metadata user owner db = (case validate_definition_sql_safety DqxNative d of
     Inl e \<Rightarrow> (Inl e, db)
   | Inr _ \<Rightarrow>
       (let r = builtin_rule env rid d metadata user owner
        in (Inr r, record_history env r ''seed'' None (Some Approved) user None
              (write_version_snapshot r user (insert_rule r db)))))"

text \<open>The arguments of \<open>update_draft\<close>; \<open>None\<close> leaves a field unchanged.\<close>

record rule_patch =
  pt_mode :: "rule_mode option"
  pt_definition :: "rule_definition option"
  pt_polarity :: "polarity option"
  pt_user_metadata :: "json_dict option"
  pt_owner :: "string option"
  pt_owner_display_name :: "string option"
  pt_author_kind :: "author_kind option"
  pt_clear_polarity :: bool

definition or_else :: "'a option \<Rightarrow> 'a \<Rightarrow> 'a" where
  "or_else a b = (case a of None \<Rightarrow> b | Some x \<Rightarrow> x)"

text \<open>The patched rule, once the definition passed its check.\<close>

definition patch_rule :: "registry_env \<Rightarrow> string \<Rightarrow> rule_patch \<Rightarrow> registry_rule \<Rightarrow> registry_rule" where
  "patch_rule env user p r =
     (let r = r\<lparr>rr_mode := or_else (pt_mode p) (rr_mode r)\<rparr>;
          r = r\<lparr>rr_definition := or_else (pt_definition p) (rr_definition r)\<rparr>;
          r = (case pt_polarity p of
              Some q \<Rightarrow> r\<lparr>rr_polarity := Some q\<rparr>
            | None \<Rightarrow> if pt_clear_polarity p then r\<lparr>rr_polarity := None\<rparr> else r);
          r = r\<lparr>rr_user_metadata := or_else (pt_user_metadata p) (rr_user_metadata r)\<rparr>;
          r = (case pt_owner p of
              None \<Rightarrow> r
            | Some owner \<Rightarrow> (case pt_owner_display_name p of
                Some _ \<Rightarrow> r\<lparr>rr_owner := Some owner\<rparr>
              | None \<Rightarrow> (case rg_canonicalize_owner env owner of (canonical, d) \<Rightarrow>
                  r\<lparr>rr_owner := Some (str_or canonical owner), rr_owner_display_name := d\<rparr>)));
          r = (case pt_owner_display_name p of None \<Rightarrow> r | Some d \<Rightarrow> r\<lparr>rr_owner_display_name := Some d\<rparr>);
          r = (case pt_author_kind p of None \<Rightarrow> r | Some k \<Rightarrow> r\<lparr>rr_author_kind := Some k\<rparr>);
          r = r\<lparr>rr_fingerprint := Some (compute_registry_rule_fingerprint (rg_digest env) r)\<rparr>
      in r\<lparr>rr_updated_by := Some user\<rparr>)"

definition update_draft ::
    "registry_env \<Rightarrow> string \<Rightarrow> string \<Rightarrow> rule_patch \<Rightarrow> registry_db \<Rightarrow> (registry_error + registry_rule) \<times> registry_db" where
  "update_draft env rid user p db = (case get_rule env db rid of
     None \<Rightarrow> (Inl (RuleNotFound rid), db)
   | Some r \<Rightarrow>
       if rr_status r \<notin> set editable_statuses then (Inl (NotEditable (rr_status r)), db)
       else (case (case pt_definition p of
                None \<Rightarrow> Inr ()
              | Some d \<Rightarrow> validate_definition_sql_safety (or_else (pt_mode p) (rr_mode r)) d) of
           Inl e \<Rightarrow> (Inl e, db)
         | Inr _ \<Rightarrow>
             (let r = patch_rule env user p r
              in (Inr r, record_history env r ''update'' (Some (rr_status r)) (Some (rr_status r)) user None (update_rule r db)))))"

subsection \<open>Lifecycle\<close>

text \<open>What a transition does with the rationales: \<open>as_submit\<close>, \<open>as_decision\<close>, \<open>clear_pending_rationale\<close> or none.\<close>

datatype rationale_mode = AsSubmit | AsDecision | ClearPending | KeepRationales

fun set_rationales :: "rationale_mode \<Rightarrow> string option \<Rightarrow> registry_rule \<Rightarrow> registry_rule" where
  "set_rationales AsSubmit rationale r = r\<lparr>rr_pending_rationale := rationale\<rparr>"
| "set_rationales AsDecision rationale r = r\<lparr>rr_pending_rationale := None, rr_last_decision_rationale := rationale\<rparr>"
| "set_rationales ClearPending rationale r = r\<lparr>rr_pending_rationale := None\<rparr>"
| "set_rationales KeepRationales rationale r = r"

definition check_transition :: "rule_status \<Rightarrow> rule_status \<Rightarrow> registry_error + unit" where
  "check_transition current new =
     (if new \<in> set (valid_transitions current) then Inr () else Inl (InvalidTransition current new))"

definition transition ::
    "registry_env \<Rightarrow> string \<Rightarrow> rule_status \<Rightarrow> string \<Rightarrow> rationale_mode \<Rightarrow> string option \<Rightarrow> registry_db
     \<Rightarrow> (registry_error + registry_rule) \<times> registry_db" where
  "transition env rid new user mode rationale db = (case get_rule env db rid of
     None \<Rightarrow> (Inl (RuleNotFound rid), db)
   | Some r \<Rightarrow> (case check_transition (rr_status r) new of
       Inl e \<Rightarrow> (Inl e, db)
     | Inr _ \<Rightarrow>
         (let q = set_rationales mode rationale (r\<lparr>rr_status := new, rr_updated_by := Some user\<rparr>)
          in (Inr q, record_history env q (''status:'' @ rule_status_value new) (Some (rr_status r)) (Some new) user
                (if mode \<in> {AsSubmit, AsDecision} then rationale else None) (update_rule q db)))))"

definition submit ::
    "registry_env \<Rightarrow> string \<Rightarrow> string \<Rightarrow> string option \<Rightarrow> registry_db \<Rightarrow> (registry_error + registry_rule) \<times> registry_db" where
  "submit env rid user rationale db = (case get_rule env db rid of
     None \<Rightarrow> (Inl (RuleNotFound rid), db)
   | Some r \<Rightarrow>
       if rr_status r = Approved \<and> \<not> compute_modified r (get_version db (rr_id r) (rr_version r))
       then (Inl NothingToSubmit, db)
       else transition env rid PendingApproval user AsSubmit rationale db)"

text \<open>\<open>approve\<close> in the steps it takes against the database: the read, the conditional update, the re-read that
  decides whether the update took place, and the insert of the frozen version.\<close>

definition approve_read :: "registry_env \<Rightarrow> registry_db \<Rightarrow> string \<Rightarrow> registry_error + registry_rule" where
  "approve_read env db rid = (case get_rule env db rid of
     None \<Rightarrow> Inl (RuleNotFound rid)
   | Some r \<Rightarrow> sbind (check_transition (rr_status r) Approved) (\<lambda>_. Inr r))"

definition approved_rule :: "string \<Rightarrow> string option \<Rightarrow> registry_rule \<Rightarrow> registry_rule" where
  "approved_rule user rationale r = r\<lparr>rr_status := Approved, rr_version := rr_version r + 1, rr_pending_rationale := None,
     rr_last_decision_rationale := rationale, rr_updated_by := Some user\<rparr>"

definition approve_update :: "registry_rule \<Rightarrow> nat \<Rightarrow> rule_status \<Rightarrow> registry_db \<Rightarrow> registry_db" where
  "approve_update r expected_version expected_status db = db\<lparr>db_rules := map (\<lambda>row.
     if rr_id row = rr_id r \<and> rr_version row = expected_version \<and> rr_status row = expected_status
     then update_row r row else row) (db_rules db)\<rparr>"

definition approve_confirmed :: "registry_env \<Rightarrow> registry_db \<Rightarrow> registry_rule \<Rightarrow> bool" where
  "approve_confirmed env db r = (case get_rule env db (rr_id r) of
     None \<Rightarrow> False
   | Some q \<Rightarrow> rr_version q = rr_version r \<and> rr_status q = rr_status r \<and> rr_updated_by q = rr_updated_by r)"

definition approve ::
    "registry_env \<Rightarrow> string \<Rightarrow> string \<Rightarrow> string option \<Rightarrow> registry_db \<Rightarrow> (registry_error + registry_rule) \<times> registry_db" where
  "approve env rid user rationale db = (case approve_read env db rid of
     Inl e \<Rightarrow> (Inl e, db)
   | Inr r \<Rightarrow>
       (let q = approved_rule user rationale r;
            db = approve_update q (rr_version r) (rr_status r) db
        in if \<not> approve_confirmed env db q then (Inl (ConcurrentModification rid), db)
           else (Inr q, record_history env q ''approve'' (Some (rr_status r)) (Some Approved) user rationale
                  (write_version_snapshot q user db))))"

definition reject ::
    "registry_env \<Rightarrow> string \<Rightarrow> string \<Rightarrow> string option \<Rightarrow> registry_db \<Rightarrow> (registry_error + registry_rule) \<times> registry_db" where
  "reject env rid user rationale db = (case get_rule env db rid of
     None \<Rightarrow> (Inl (RuleNotFound rid), db)
   | Some r \<Rightarrow> transition env rid (if 1 \<le> rr_version r then Approved else Rejected) user AsDecision rationale db)"

definition revoke ::
    "registry_env \<Rightarrow> string \<Rightarrow> string \<Rightarrow> registry_db \<Rightarrow> (registry_error + registry_rule) \<times> registry_db" where
  "revoke env rid user db = (case get_rule env db rid of
     None \<Rightarrow> (Inl (RuleNotFound rid), db)
   | Some r \<Rightarrow>
       if rr_status r \<noteq> PendingApproval then (Inl (NotPending (rr_status r)), db)
       else transition env rid (if 1 \<le> rr_version r then Approved else Draft) user ClearPending None db)"

definition deprecate ::
    "registry_env \<Rightarrow> string \<Rightarrow> string \<Rightarrow> registry_db \<Rightarrow> (registry_error + registry_rule) \<times> registry_db" where
  "deprecate env rid user db = transition env rid Deprecated user KeepRationales None db"

definition undeprecate ::
    "registry_env \<Rightarrow> string \<Rightarrow> string \<Rightarrow> registry_db \<Rightarrow> (registry_error + registry_rule) \<times> registry_db" where
  "undeprecate env rid user db = transition env rid Approved user KeepRationales None db"

definition delete_rule ::
    "registry_env \<Rightarrow> string \<Rightarrow> string \<Rightarrow> registry_db \<Rightarrow> (registry_error + unit) \<times> registry_db" where
  "delete_rule env rid user db = (case get_rule env db rid of
     None \<Rightarrow> (Inl (RuleNotFound rid), db)
   | Some r \<Rightarrow> (Inr (), record_history env r ''delete'' (Some (rr_status r)) None user None
       (db\<lparr>db_rules := filter (\<lambda>row. rr_id row \<noteq> rid) (db_rules db)\<rparr>)))"

definition delete_builtin_rules :: "registry_db \<Rightarrow> nat \<times> registry_db" where
  "delete_builtin_rules db =
     (let ids = map rr_id (filter rr_is_builtin (db_rules db))
      in if ids = [] then (0, db)
         else (length ids, db\<lparr>db_versions := filter (\<lambda>v. rv_rule_id v \<notin> set ids) (db_versions db),
                db_rules := filter (\<lambda>r. \<not> rr_is_builtin r) (db_rules db)\<rparr>))"

subsection \<open>Match or create\<close>

definition probe_fingerprint :: "registry_env \<Rightarrow> rule_definition \<Rightarrow> string" where
  "probe_fingerprint env d = rg_digest env (sort_json (fingerprint_data DqxNative None d))"

definition find_approved_rule_for_definition :: "registry_env \<Rightarrow> registry_db \<Rightarrow> rule_definition \<Rightarrow> registry_rule option" where
  "find_approved_rule_for_definition env db d = get_approved_rule_by_fingerprint env db (probe_fingerprint env d)"

definition profiling_input :: "rule_definition \<Rightarrow> json_dict \<Rightarrow> string \<Rightarrow> rule_input" where
  "profiling_input d metadata user = \<lparr>in_mode = DqxNative, in_definition = d, in_user = user, in_polarity = None,
     in_author_kind = AiAssisted, in_user_metadata = metadata, in_owner = None, in_owner_display_name = None,
     in_source = ''profiling'', in_allow_duplicate = False\<rparr>"

definition match_or_create_approved_rule ::
    "registry_env \<Rightarrow> string \<Rightarrow> rule_definition \<Rightarrow> json_dict \<Rightarrow> string \<Rightarrow> registry_db
     \<Rightarrow> (registry_error + registry_rule option \<times> bool) \<times> registry_db" where
  "match_or_create_approved_rule env rid d metadata user db =
     (case find_approved_rule_for_definition env db d of
        Some r \<Rightarrow> (Inr (Some r, False), db)
      | None \<Rightarrow>
          if get_rule_by_fingerprint env db (probe_fingerprint env d) \<noteq> None then (Inr (None, False), db)
          else (case create_rule env rid (profiling_input d metadata user) db of
             (Inl e, db) \<Rightarrow> (Inl e, db)
           | (Inr (r, _), db) \<Rightarrow> (case submit env (rr_id r) user None db of
               (Inl e, db) \<Rightarrow> (Inl e, db)
             | (Inr _, db) \<Rightarrow> (case approve env (rr_id r) user None db of
                 (Inl e, db) \<Rightarrow> (Inl e, db)
               | (Inr q, db) \<Rightarrow> (Inr (Some q, True), db)))))"

end
