(* ===== verification/Registry_Lifecycle.thy ===== *)
theory Registry_Lifecycle
  imports Registry_Service
begin

section \<open>The lifecycle of registry rules\<close>

text \<open>
  Every operation of the service as a labelled step, the runs of the service as lists of steps, and
  what holds in every reachable registry: versions are frozen exactly once per publication, what
  was frozen keeps being served, and the audit trail tells the status of every rule. At the end,
  the steps of two approvals interleave.
\<close>

subsection \<open>Steps and runs\<close>

datatype registry_op =
    OpCreate string rule_input
  | OpSeed string rule_definition json_dict string "string option"
  | OpUpdate string string rule_patch
  | OpSubmit string string "string option"
  | OpApprove string string "string option"
  | OpReject string string "string option"
  | OpRevoke string string
  | OpDeprecate string string
  | OpUndeprecate string string
  | OpDelete string string
  | OpDeleteBuiltins
  | OpMatchOrCreate string rule_definition json_dict string

fun apply_op :: "registry_env \<Rightarrow> registry_op \<Rightarrow> registry_db \<Rightarrow> registry_db" where
  "apply_op env (OpCreate rid i) db = snd (create_rule env rid i db)"
| "apply_op env (OpSeed rid d m user owner) db = snd (seed_builtin_rule env rid d m user owner db)"
| "apply_op env (OpUpdate rid user p) db = snd (update_draft env rid user p db)"
| "apply_op env (OpSubmit rid user rationale) db = snd (submit env rid user rationale db)"
| "apply_op env (OpApprove rid user rationale) db = snd (approve env rid user rationale db)"
| "apply_op env (OpReject rid user rationale) db = snd (reject env rid user rationale db)"
| "apply_op env (OpRevoke rid user) db = snd (revoke env rid user db)"
| "apply_op env (OpDeprecate rid user) db = snd (deprecate env rid user db)"
| "apply_op env (OpUndeprecate rid user) db = snd (undeprecate env rid user db)"
| "apply_op env (OpDelete rid user) db = snd (delete_rule env rid user db)"
| "apply_op env OpDeleteBuiltins db = snd (delete_builtin_rules db)"
| "apply_op env (OpMatchOrCreate rid d m user) db = snd (match_or_create_approved_rule env rid d m user db)"

text \<open>New ids are new, and whoever approves is someone.\<close>

definition fresh_id :: "string \<Rightarrow> registry_db \<Rightarrow> bool" where
  "fresh_id rid db \<longleftrightarrow> rid \<notin> rr_id ` set (db_rules db) \<and> rid \<notin> rv_rule_id ` set (db_versions db)
     \<and> rid \<notin> hr_rule_id ` set (db_history db)"

fun op_guard :: "registry_op \<Rightarrow> registry_db \<Rightarrow> bool" where
  "op_guard (OpCreate rid i) db = fresh_id rid db"
| "op_guard (OpSeed rid d m user owner) db = fresh_id rid db"
| "op_guard (OpMatchOrCreate rid d m user) db = (fresh_id rid db \<and> user \<noteq> [])"
| "op_guard (OpApprove rid user rationale) db = (user \<noteq> [])"
| "op_guard _ db = True"

inductive registry_step :: "registry_env \<Rightarrow> registry_db \<Rightarrow> registry_op \<Rightarrow> registry_db \<Rightarrow> bool" for env where
  step: "op_guard op db \<Longrightarrow> registry_step env db op (apply_op env op db)"

inductive registry_run :: "registry_env \<Rightarrow> registry_db \<Rightarrow> registry_op list \<Rightarrow> registry_db \<Rightarrow> bool" for env where
  run_nil: "registry_run env db [] db"
| run_snoc: "registry_run env db ops db' \<Longrightarrow> registry_step env db' op db'' \<Longrightarrow> registry_run env db (ops @ [op]) db''"

inductive_simps registry_step_iff: "registry_step env db op db'"
inductive_cases registry_run_snocE: "registry_run env db (ops @ [op]) db'"

definition empty_registry :: registry_db where
  "empty_registry = \<lparr>db_rules = [], db_versions = [], db_history = [], db_seeded = []\<rparr>"

lemma run_invariant:
  assumes "registry_run env db ops db'" "I db"
    and "\<And>db op. I db \<Longrightarrow> op \<in> set ops \<Longrightarrow> op_guard op db \<Longrightarrow> I (apply_op env op db)"
  shows "I db'"
  using assms
proof (induction rule: registry_run.induct)
  case (run_snoc db ops db' op db'')
  then have "I db'" by simp
  with run_snoc show ?case by (auto simp: registry_step_iff)
qed simp

subsection \<open>Reading a rule by its id\<close>

definition order_permutes :: "registry_env \<Rightarrow> bool" where
  "order_permutes env \<longleftrightarrow> (\<forall>rows. mset (rg_order env rows) = mset rows)"

definition unique_ids :: "registry_db \<Rightarrow> bool" where
  "unique_ids db \<longleftrightarrow> distinct (map rr_id (db_rules db))"

lemma find_found: "find P xs = Some x \<Longrightarrow> x \<in> set xs \<and> P x"
  by (auto simp: find_Some_iff)

lemma filter_unique_id:
  "distinct (map rr_id rows) \<Longrightarrow> filter (\<lambda>r. rr_id r = rid) rows =
     (case find (\<lambda>r. rr_id r = rid) rows of None \<Rightarrow> [] | Some r \<Rightarrow> [r])"
proof (induction rows)
  case (Cons r rows)
  have "filter (\<lambda>q. rr_id q = rr_id r) rows = []"
    using Cons.prems by (auto simp: filter_empty_conv image_iff)
  then show ?case using Cons by (cases "rr_id r = rid") simp_all
qed simp

lemma get_rule_find:
  assumes "order_permutes env" "unique_ids db"
  shows "get_rule env db rid = map_option row_to_rule (find (\<lambda>r. rr_id r = rid) (db_rules db))"
proof -
  let ?f = "find (\<lambda>r. rr_id r = rid) (db_rules db)"
  have "filter (\<lambda>r. rr_id r = rid) (db_rules db) = (case ?f of None \<Rightarrow> [] | Some r \<Rightarrow> [r])"
    using assms(2) by (intro filter_unique_id) (simp add: unique_ids_def)
  moreover have "rg_order env [] = []" "rg_order env [r] = [r]" for r
    using assms(1) unfolding order_permutes_def by (metis mset_zero_iff mset.simps(1), metis mset_single_iff_right mset.simps(1,2) add_mset_add_single)
  ultimately show ?thesis
    by (cases ?f) (simp_all add: get_rule_def first_row_def)
qed

lemma row_to_rule_simps [simp]:
  "rr_id (row_to_rule r) = rr_id r" "rr_version (row_to_rule r) = rr_version r"
  "rr_status (row_to_rule r) = rr_status r" "rr_updated_by (row_to_rule r) = rr_updated_by r"
  "rr_fingerprint (row_to_rule r) = rr_fingerprint r"
  by (simp_all add: row_to_rule_def)

lemma update_row_simps [simp]:
  "rr_id (update_row r row) = rr_id row" "rr_version (update_row r row) = rr_version r"
  "rr_status (update_row r row) = rr_status r" "rr_updated_by (update_row r row) = opt_str (rr_updated_by r)"
  "rr_fingerprint (update_row r row) = opt_str (rr_fingerprint r)" "rr_is_builtin (update_row r row) = rr_is_builtin row"
  by (simp_all add: update_row_def)

lemma insert_row_simps [simp]:
  "rr_id (insert_row r) = rr_id r" "rr_version (insert_row r) = rr_version r" "rr_status (insert_row r) = rr_status r"
  "rr_fingerprint (insert_row r) = opt_str (rr_fingerprint r)"
  by (simp_all add: insert_row_def)

lemma set_rationales_simps [simp]:
  "rr_id (set_rationales m x r) = rr_id r" "rr_version (set_rationales m x r) = rr_version r"
  "rr_status (set_rationales m x r) = rr_status r" "rr_updated_by (set_rationales m x r) = rr_updated_by r"
  by (cases m; simp)+

lemma record_history_simps [simp]:
  "db_rules (record_history env r a p n u x db) = db_rules db"
  "db_versions (record_history env r a p n u x db) = db_versions db"
  by (simp_all add: record_history_def Let_def)

subsection \<open>Versions\<close>

text \<open>The frozen versions of a rule are numbered from 1 to its version, each written once and in order.\<close>

definition versions_of :: "registry_db \<Rightarrow> string \<Rightarrow> nat list" where
  "versions_of db rid = map rv_version (filter (\<lambda>v. rv_rule_id v = rid) (db_versions db))"

definition versions_exact :: "registry_db \<Rightarrow> bool" where
  "versions_exact db \<longleftrightarrow> unique_ids db \<and> (\<forall>r \<in> set (db_rules db). versions_of db (rr_id r) = [1..<Suc (rr_version r)])"

text \<open>The rows a write touches keep their id and version: nothing about versions changes.\<close>

definition same_versions :: "registry_db \<Rightarrow> registry_db \<Rightarrow> bool" where
  "same_versions db db' \<longleftrightarrow> db_versions db' = db_versions db
     \<and> map (\<lambda>r. (rr_id r, rr_version r)) (db_rules db') = map (\<lambda>r. (rr_id r, rr_version r)) (db_rules db)"

lemma same_versions_refl [simp, intro]: "same_versions db db"
  by (simp add: same_versions_def)

lemma same_versions_history [simp]:
  "same_versions db (record_history env r a p n u x db') = same_versions db db'"
  by (simp add: same_versions_def)

lemma same_versions_exact: "same_versions db db' \<Longrightarrow> versions_exact db \<Longrightarrow> versions_exact db'"
proof -
  assume same: "same_versions db db'" and ok: "versions_exact db"
  then have pairs: "map (\<lambda>r. (rr_id r, rr_version r)) (db_rules db') = map (\<lambda>r. (rr_id r, rr_version r)) (db_rules db)"
    by (simp add: same_versions_def)
  have ids: "map rr_id (db_rules db') = map rr_id (db_rules db)"
    using arg_cong [OF pairs, of "map fst"] by (simp add: comp_def)
  have row: "\<exists>q \<in> set (db_rules db). rr_id q = rr_id r \<and> rr_version q = rr_version r" if "r \<in> set (db_rules db')" for r
  proof -
    have "(rr_id r, rr_version r) \<in> set (map (\<lambda>r. (rr_id r, rr_version r)) (db_rules db'))" using that by auto
    then show ?thesis unfolding pairs by auto
  qed
  have versions: "versions_of db' rid = versions_of db rid" for rid
    using same by (simp add: versions_of_def same_versions_def)
  show ?thesis
    unfolding versions_exact_def
  proof
    show "unique_ids db'" using ok ids by (simp add: versions_exact_def unique_ids_def)
    show "\<forall>r \<in> set (db_rules db'). versions_of db' (rr_id r) = [1..<Suc (rr_version r)]"
    proof
      fix r assume "r \<in> set (db_rules db')"
      then obtain q where "q \<in> set (db_rules db)" "rr_id q = rr_id r" "rr_version q = rr_version r" using row by blast
      then show "versions_of db' (rr_id r) = [1..<Suc (rr_version r)]"
        using ok unfolding versions_exact_def versions by (metis)
    qed
  qed
qed

lemma same_versions_update:
  assumes "\<And>row. row \<in> set (db_rules db) \<Longrightarrow> rr_id row = rr_id r \<Longrightarrow> rr_version row = rr_version r"
  shows "same_versions db (update_rule r db)"
  using assms by (auto simp: same_versions_def update_rule_def)

text \<open>Under unique ids, a rule that was read has the version of its row.\<close>

lemma get_rule_row:
  assumes "order_permutes env" "unique_ids db" "get_rule env db rid = Some r"
  obtains row where "row \<in> set (db_rules db)" "r = row_to_rule row" "rr_id row = rid"
proof -
  from assms(3) obtain row where "find (\<lambda>r. rr_id r = rid) (db_rules db) = Some row" "r = row_to_rule row"
    using get_rule_find [OF assms(1,2), of rid] by auto
  then show ?thesis using find_found [of "\<lambda>r. rr_id r = rid" "db_rules db" row] that by blast
qed

lemma row_of_id:
  "unique_ids db \<Longrightarrow> row \<in> set (db_rules db) \<Longrightarrow> row' \<in> set (db_rules db) \<Longrightarrow> rr_id row = rr_id row' \<Longrightarrow> row = row'"
  by (auto simp: unique_ids_def distinct_map dest: inj_onD)

lemma update_read_rule:
  assumes "order_permutes env" "unique_ids db" "get_rule env db rid = Some r"
    and "rr_id q = rid" "rr_version q = rr_version r"
  shows "same_versions db (update_rule q db)"
proof (rule same_versions_update)
  fix row assume "row \<in> set (db_rules db)" "rr_id row = rr_id q"
  moreover obtain row' where "row' \<in> set (db_rules db)" "r = row_to_rule row'" "rr_id row' = rid"
    using get_rule_row [OF assms(1-3)] .
  ultimately have "row = row'" using row_of_id [OF assms(2)] assms(4) by metis
  then show "rr_version row = rr_version q" using assms(5) \<open>r = row_to_rule row'\<close> by simp
qed

lemma get_rule_id:
  "order_permutes env \<Longrightarrow> unique_ids db \<Longrightarrow> get_rule env db rid = Some r \<Longrightarrow> rr_id r = rid"
  by (erule (2) get_rule_row) simp

lemma transition_versions:
  assumes "order_permutes env" "unique_ids db"
  shows "same_versions db (snd (transition env rid new user m x db))"
  using update_read_rule [OF assms] get_rule_id [OF assms]
  by (auto simp: transition_def Let_def split: option.split sum.split)

lemma patch_rule_simps [simp]:
  "rr_id (patch_rule env user p r) = rr_id r" "rr_version (patch_rule env user p r) = rr_version r"
  "rr_status (patch_rule env user p r) = rr_status r"
  by (simp_all add: patch_rule_def Let_def split: option.split prod.split)

lemma quiet_ops:
  assumes "order_permutes env" "unique_ids db"
  shows "same_versions db (snd (update_draft env rid user p db))"
    and "same_versions db (snd (submit env rid user x db))"
    and "same_versions db (snd (reject env rid user x db))"
    and "same_versions db (snd (revoke env rid user db))"
    and "same_versions db (snd (deprecate env rid user db))"
    and "same_versions db (snd (undeprecate env rid user db))"
  using update_read_rule [OF assms] get_rule_id [OF assms] transition_versions [OF assms]
  by (auto simp: update_draft_def submit_def reject_def revoke_def deprecate_def undeprecate_def Let_def
      split: option.split sum.split)

lemma versions_fresh: "rid \<notin> rv_rule_id ` set (db_versions db) \<Longrightarrow> versions_of db rid = []"
  by (auto simp: versions_of_def filter_empty_conv)

lemma draft_of_simps [simp]:
  "rr_id (draft_of env rid i) = rid" "rr_version (draft_of env rid i) = 0" "rr_status (draft_of env rid i) = Draft"
  by (simp_all add: draft_of_def Let_def split: option.split prod.split)

lemma builtin_rule_simps [simp]:
  "rr_id (builtin_rule env rid d m user owner) = rid" "rr_version (builtin_rule env rid d m user owner) = 1"
  "rr_status (builtin_rule env rid d m user owner) = Approved"
  by (simp_all add: builtin_rule_def Let_def)

lemma insert_exact:
  assumes "versions_exact db" "fresh_id (rr_id r) db" "rr_version r = 0"
  shows "versions_exact (insert_rule r db)"
  using assms versions_fresh [of "rr_id r" db]
  by (auto simp: versions_exact_def unique_ids_def fresh_id_def insert_rule_def versions_of_def)

lemma create_exact:
  assumes "versions_exact db" "fresh_id rid db"
  shows "versions_exact (snd (create_rule env rid i db))"
proof -
  have "versions_exact (insert_rule (draft_of env rid i) db)" using assms by (intro insert_exact) simp_all
  then have "versions_exact db'" if "db_rules db' = db_rules (insert_rule (draft_of env rid i) db)"
    "db_versions db' = db_versions (insert_rule (draft_of env rid i) db)" for db'
    using that by (auto simp: versions_exact_def unique_ids_def versions_of_def)
  then show ?thesis using assms(1)
    by (auto simp: create_rule_def Let_def split: sum.split option.split bool.split)
qed

lemma seed_exact:
  assumes "versions_exact db" "fresh_id rid db"
  shows "versions_exact (snd (seed_builtin_rule env rid d m user owner db))"
  using assms versions_fresh [of rid db]
  by (auto simp: versions_exact_def unique_ids_def fresh_id_def insert_rule_def versions_of_def seed_builtin_rule_def
      Let_def write_version_snapshot_def split: sum.split)

text \<open>Alone, the conditional update of an approval takes place and is confirmed.\<close>

lemma approve_alone:
  assumes "order_permutes env" "unique_ids db" "get_rule env db rid = Some r" "user \<noteq> []"
  shows "approve_update (approved_rule user x r) (rr_version r) (rr_status r) db = update_rule (approved_rule user x r) db"
    and "approve_confirmed env (update_rule (approved_rule user x r) db) (approved_rule user x r)"
    and "unique_ids (update_rule (approved_rule user x r) db)"
proof -
  obtain row where row: "row \<in> set (db_rules db)" "r = row_to_rule row" "rr_id row = rid"
    using get_rule_row [OF assms(1-3)] .
  have only: "rr_version p = rr_version r \<and> rr_status p = rr_status r" if "p \<in> set (db_rules db)" "rr_id p = rr_id r" for p
    using row_of_id [OF assms(2) that(1) row(1)] that(2) row(2) by simp
  then show "approve_update (approved_rule user x r) (rr_version r) (rr_status r) db = update_rule (approved_rule user x r) db"
    unfolding approve_update_def update_rule_def
    by (intro arg_cong [where f = "\<lambda>rows. db\<lparr>db_rules := rows\<rparr>"] map_cong refl) (simp add: approved_rule_def)
  show unique: "unique_ids (update_rule (approved_rule user x r) db)"
    using assms(2) by (simp add: unique_ids_def update_rule_def comp_def if_distrib cong: if_cong)
  let ?db = "update_rule (approved_rule user x r) db" and ?p = "\<lambda>q. rr_id q = rid"
  have here: "update_row (approved_rule user x r) row \<in> set (db_rules ?db)"
    using row by (force simp: update_rule_def approved_rule_def)
  obtain q where q: "find ?p (db_rules ?db) = Some q"
    using here row(3) by (cases "find ?p (db_rules ?db)") (auto simp: find_None_iff)
  have "q = update_row (approved_rule user x r) row"
    using row_of_id [OF unique _ here, of q] find_found [OF q] row(3) by simp
  then show "approve_confirmed env ?db (approved_rule user x r)"
    using get_rule_find [OF assms(1) unique, of rid] q row assms(4)
    by (simp add: approve_confirmed_def approved_rule_def opt_str_def)
qed

lemma approve_exact:
  assumes "order_permutes env" "versions_exact db" "user \<noteq> []"
  shows "versions_exact (snd (approve env rid user x db))"
proof (cases "approve_read env db rid")
  case (Inl e)
  then show ?thesis using assms(2) by (simp add: approve_def)
next
  case (Inr r)
  then have get: "get_rule env db rid = Some r"
    by (auto simp: approve_read_def result_simps split: option.splits)
  have unique: "unique_ids db" using assms(2) by (simp add: versions_exact_def)
  obtain row where row: "row \<in> set (db_rules db)" "r = row_to_rule row" "rr_id row = rid"
    using get_rule_row [OF assms(1) unique get] .
  let ?q = "approved_rule user x r"
  let ?db = "write_version_snapshot ?q user (update_rule ?q db)"
  have q: "rr_id ?q = rid" "rr_version ?q = Suc (rr_version row)" using row by (simp_all add: approved_rule_def)
  have "versions_of ?db (rr_id p) = [1..<Suc (rr_version p)]" if "p \<in> set (db_rules ?db)" for p
  proof -
    from that obtain p0 where p0: "p0 \<in> set (db_rules db)" "p = (if rr_id p0 = rid then update_row ?q p0 else p0)"
      using q(1) by (auto simp: write_version_snapshot_def update_rule_def)
    have old: "versions_of db (rr_id p0) = [1..<Suc (rr_version p0)]" using assms(2) p0(1) by (simp add: versions_exact_def)
    show ?thesis
    proof (cases "rr_id p0 = rid")
      case True
      then have "p0 = row" using row_of_id [OF unique p0(1) row(1)] row(3) by simp
      then show ?thesis using True old p0(2) q
        by (simp add: versions_of_def write_version_snapshot_def update_rule_def)
    next
      case False
      then show ?thesis using old p0(2) q by (simp add: versions_of_def write_version_snapshot_def update_rule_def)
    qed
  qed
  moreover have "unique_ids ?db"
    using approve_alone(3) [OF assms(1) unique get assms(3)] by (simp add: unique_ids_def write_version_snapshot_def)
  ultimately have "versions_exact ?db" by (simp add: versions_exact_def)
  then show ?thesis
    using Inr approve_alone(1,2) [OF assms(1) unique get assms(3)]
    by (simp add: approve_def Let_def versions_exact_def unique_ids_def versions_of_def)
qed

lemma delete_exact: "versions_exact db \<Longrightarrow> versions_exact (snd (delete_rule env rid user db))"
  by (auto simp: delete_rule_def versions_exact_def unique_ids_def versions_of_def distinct_map inj_on_def
      split: option.split)

lemma delete_builtin_exact: "versions_exact db \<Longrightarrow> versions_exact (snd (delete_builtin_rules db))"
proof (cases "map rr_id (filter rr_is_builtin (db_rules db)) = []")
  case False
  assume ok: "versions_exact db"
  let ?ids = "map rr_id (filter rr_is_builtin (db_rules db))"
  let ?db = "db\<lparr>db_versions := filter (\<lambda>v. rv_rule_id v \<notin> set ?ids) (db_versions db),
    db_rules := filter (\<lambda>r. \<not> rr_is_builtin r) (db_rules db)\<rparr>"
  have "versions_of ?db (rr_id r) = [1..<Suc (rr_version r)]" if "r \<in> set (db_rules db)" "\<not> rr_is_builtin r" for r
  proof -
    have "rr_id r \<notin> set ?ids" using that ok row_of_id [of db r] by (auto simp: versions_exact_def)
    then have "filter (\<lambda>v. rv_rule_id v = rr_id r) (filter (\<lambda>v. rv_rule_id v \<notin> set ?ids) (db_versions db))
        = filter (\<lambda>v. rv_rule_id v = rr_id r) (db_versions db)"
      unfolding filter_filter by (intro filter_cong refl) metis
    then have "versions_of ?db (rr_id r) = versions_of db (rr_id r)" unfolding versions_of_def by simp
    then show ?thesis using ok that(1) by (simp add: versions_exact_def)
  qed
  moreover have "unique_ids ?db"
    using ok by (simp add: versions_exact_def unique_ids_def distinct_map_filter)
  ultimately have "versions_exact ?db" unfolding versions_exact_def by simp
  moreover have "snd (delete_builtin_rules db) = ?db" using False unfolding delete_builtin_rules_def Let_def by simp
  ultimately show ?thesis by simp
qed (simp add: delete_builtin_rules_def)

lemma submit_exact: "order_permutes env \<Longrightarrow> versions_exact db \<Longrightarrow> versions_exact (snd (submit env rid user x db))"
  using same_versions_exact [OF quiet_ops(2)] unfolding versions_exact_def by blast

lemma match_or_create_invariant:
  assumes "I db" "I (snd (create_rule env rid (profiling_input d m user) db))"
    and submit: "\<And>db r. I db \<Longrightarrow> I (snd (submit env r user None db))"
    and approve: "\<And>db r. I db \<Longrightarrow> I (snd (approve env r user None db))"
  shows "I (snd (match_or_create_approved_rule env rid d m user db))"
proof -
  obtain c db1 where create: "create_rule env rid (profiling_input d m user) db = (c, db1)" by fastforce
  show ?thesis
  proof (cases c)
    case (Inr rw)
    obtain r w where rw: "rw = (r, w)" by fastforce
    obtain s db2 where s: "submit env (rr_id r) user None db1 = (s, db2)" by fastforce
    obtain a db3 where a: "approve env (rr_id r) user None db2 = (a, db3)" by fastforce
    have "I db1" using assms(2) create by simp
    moreover from this have "I db2" using submit [of db1 "rr_id r"] s by simp
    moreover from this have "I db3" using approve [of db2 "rr_id r"] a by simp
    ultimately show ?thesis using assms(1) create Inr rw s a
      by (simp add: match_or_create_approved_rule_def split: option.split sum.split)
  qed (use assms(1,2) create in \<open>simp add: match_or_create_approved_rule_def split: option.split\<close>)
qed

lemma match_or_create_exact:
  assumes "order_permutes env" "versions_exact db" "fresh_id rid db" "user \<noteq> []"
  shows "versions_exact (snd (match_or_create_approved_rule env rid d m user db))"
proof -
  show ?thesis
    by (rule match_or_create_invariant [where I = versions_exact])
      (use assms create_exact submit_exact approve_exact in blast)+
qed

lemma apply_op_exact:
  assumes "order_permutes env" "versions_exact db" "op_guard op db"
  shows "versions_exact (apply_op env op db)"
proof -
  have "unique_ids db" using assms(2) by (simp add: versions_exact_def)
  note quiet = quiet_ops [OF assms(1) this, THEN same_versions_exact, OF assms(2)]
  show ?thesis
    using assms quiet create_exact seed_exact approve_exact delete_exact delete_builtin_exact match_or_create_exact
    by (cases op) simp_all
qed

text \<open>C5: In every registry the service can reach from an empty one, whatever order its queries return rows in
  and whichever audit inserts fail, rule ids are unique and the frozen versions of each rule are exactly
  1, 2, ..., up to its current version, each frozen once and in order.\<close>
theorem registry_versions_exact:
  assumes "order_permutes env" "registry_run env empty_registry ops db" "r \<in> set (db_rules db)"
  shows "unique_ids db \<and> versions_of db (rr_id r) = [1..<Suc (rr_version r)]"
proof -
  have "versions_exact empty_registry"
    by (simp add: versions_exact_def unique_ids_def empty_registry_def)
  with assms(2) have "versions_exact db"
    by (rule run_invariant) (rule apply_op_exact [OF assms(1)])
  then show ?thesis using assms(3) by (simp add: versions_exact_def)
qed

subsection \<open>Frozen versions stay served\<close>

definition keeps_version :: "string \<Rightarrow> nat \<Rightarrow> rule_version \<Rightarrow> registry_db \<Rightarrow> bool" where
  "keeps_version rid n v db \<longleftrightarrow> get_version db rid n = Some v \<and> (rid, True) \<notin> (\<lambda>r. (rr_id r, rr_is_builtin r)) ` set (db_rules db)"

lemma find_append_Some: "find P xs = Some x \<Longrightarrow> find P (xs @ ys) = Some x"
  by (induction xs) (auto split: if_splits)

lemma find_filter_Some: "find P xs = Some x \<Longrightarrow> (\<And>y. P y \<Longrightarrow> Q y) \<Longrightarrow> find P (filter Q xs) = Some x"
  by (induction xs) (auto split: if_splits)

lemma keeps_fresh: "keeps_version rid n v db \<Longrightarrow> fresh_id q db \<Longrightarrow> q \<noteq> rid"
  by (auto simp: keeps_version_def get_version_def fresh_id_def dest!: find_found)

lemma keeps_writes [intro!]:
  "keeps_version rid n v db \<Longrightarrow> rr_id r \<noteq> rid \<Longrightarrow> keeps_version rid n v (insert_rule r db)"
  "keeps_version rid n v db \<Longrightarrow> keeps_version rid n v (update_rule r db)"
  "keeps_version rid n v db \<Longrightarrow> keeps_version rid n v (approve_update r k st db)"
  "keeps_version rid n v db \<Longrightarrow> keeps_version rid n v (record_history env r a p s u x db)"
  "keeps_version rid n v db \<Longrightarrow> keeps_version rid n v (db\<lparr>db_seeded := seeded\<rparr>)"
  "keeps_version rid n v db \<Longrightarrow> keeps_version rid n v (db\<lparr>db_rules := filter P (db_rules db)\<rparr>)"
  by (auto simp: keeps_version_def get_version_def insert_rule_def update_rule_def approve_update_def insert_row_def
      image_iff record_history_def Let_def split: if_splits)

lemma keeps_snapshot [intro!]: "keeps_version rid n v db \<Longrightarrow> keeps_version rid n v (write_version_snapshot r u db)"
  by (auto simp: keeps_version_def get_version_def write_version_snapshot_def find_append_Some)

lemma keeps_delete_builtin: "keeps_version rid n v db \<Longrightarrow> keeps_version rid n v (snd (delete_builtin_rules db))"
  by (auto simp: keeps_version_def get_version_def delete_builtin_rules_def Let_def image_iff intro!: find_filter_Some)

lemma keeps_transition [intro!]: "keeps_version rid n v db \<Longrightarrow> keeps_version rid n v (snd (transition env q s u m x db))"
  by (auto simp: transition_def Let_def split: option.split sum.split)

lemma keeps_create: "keeps_version rid n v db \<Longrightarrow> q \<noteq> rid \<Longrightarrow> keeps_version rid n v (snd (create_rule env q i db))"
  by (auto simp: create_rule_def Let_def split: option.split sum.split bool.split)

lemma keeps_lifecycle:
  assumes "keeps_version rid n v db"
  shows "keeps_version rid n v (snd (update_draft env q u p db))" "keeps_version rid n v (snd (submit env q u x db))"
    "keeps_version rid n v (snd (approve env q u x db))" "keeps_version rid n v (snd (reject env q u x db))"
    "keeps_version rid n v (snd (revoke env q u db))" "keeps_version rid n v (snd (deprecate env q u db))"
    "keeps_version rid n v (snd (undeprecate env q u db))" "keeps_version rid n v (snd (delete_rule env q u db))"
  using assms
  by (auto simp: submit_def reject_def revoke_def deprecate_def undeprecate_def split: option.split,
      auto simp: update_draft_def approve_def delete_rule_def Let_def split: option.split sum.split)

lemma keeps_seed: "keeps_version rid n v db \<Longrightarrow> q \<noteq> rid \<Longrightarrow> keeps_version rid n v (snd (seed_builtin_rule env q d m u ow db))"
  by (auto simp: seed_builtin_rule_def Let_def split: sum.split)

lemma keeps_op: "keeps_version rid n v db \<Longrightarrow> op_guard op db \<Longrightarrow> keeps_version rid n v (apply_op env op db)"
proof (cases op)
  case (OpMatchOrCreate q d m u)
  assume "keeps_version rid n v db" "op_guard op db"
  then have "keeps_version rid n v db" "q \<noteq> rid" using keeps_fresh OpMatchOrCreate by auto
  then show ?thesis unfolding OpMatchOrCreate apply_op.simps
    by (intro match_or_create_invariant [where I = "keeps_version rid n v"] keeps_lifecycle keeps_create)
qed (auto intro: keeps_lifecycle keeps_create keeps_seed keeps_delete_builtin dest: keeps_fresh)

text \<open>C6: A version of a rule that was frozen keeps being served as it was: whatever edits, decisions,
  deletions, reseedings of the built-in rules and audit failures follow, looking it up returns the same
  version, even after the rule itself was deleted, unless the rule is a built-in one.\<close>
theorem frozen_version_served:
  assumes "registry_run env db ops db'" "get_version db rid n = Some v"
    and "(rid, True) \<notin> (\<lambda>r. (rr_id r, rr_is_builtin r)) ` set (db_rules db)"
  shows "get_version db' rid n = Some v"
proof -
  have "keeps_version rid n v db" using assms(2,3) by (simp add: keeps_version_def)
  with assms(1) have "keeps_version rid n v db'" by (rule run_invariant) (rule keeps_op)
  then show ?thesis by (simp add: keeps_version_def)
qed

subsection \<open>The audit trail\<close>

text \<open>The changes of status the service allows, \<open>None\<close> standing for a rule that does not exist. Replaying a
  trail follows it as long as each row starts at the status the row before it left and changes it in an
  allowed way.\<close>

fun legal_change :: "rule_status option \<Rightarrow> rule_status option \<Rightarrow> bool" where
  "legal_change None (Some t) = (t \<in> {Draft, Approved})"
| "legal_change (Some s) (Some t) = (t \<in> set (valid_transitions s) \<or> s = t \<and> s \<in> set editable_statuses)"
| "legal_change (Some s) None = True"
| "legal_change None None = False"

fun replay :: "rule_status option \<Rightarrow> history_row list \<Rightarrow> rule_status option option" where
  "replay s [] = Some s"
| "replay s (h # hs) = (if hr_prev_status h = s \<and> legal_change s (hr_new_status h) then replay (hr_new_status h) hs else None)"

definition trail :: "registry_db \<Rightarrow> string \<Rightarrow> history_row list" where
  "trail db rid = filter (\<lambda>h. hr_rule_id h = rid) (db_history db)"

definition audited :: "registry_db \<Rightarrow> bool" where
  "audited db \<longleftrightarrow> (\<forall>r \<in> set (db_rules db). replay None (trail db (rr_id r)) = Some (Some (rr_status r)))"

definition history_written :: "registry_env \<Rightarrow> bool" where
  "history_written env \<longleftrightarrow> (\<forall>h. rg_history_ok env h)"

lemma replay_append: "replay s (xs @ ys) = (case replay s xs of None \<Rightarrow> None | Some t \<Rightarrow> replay t ys)"
  by (induction s xs rule: replay.induct) simp_all

lemma trail_record:
  "history_written env \<Longrightarrow> trail (record_history env r a p s u x db) rid =
     (if rid = rr_id r then trail db rid @ [\<lparr>hr_rule_id = rr_id r, hr_definition = rr_definition r, hr_version = rr_version r,
        hr_action = a, hr_prev_status = p, hr_new_status = s, hr_changed_by = u, hr_rationale = opt_str x\<rparr>] else trail db rid)"
  by (simp add: trail_def record_history_def history_written_def Let_def)

lemma trail_unchanged [simp]:
  "trail (insert_rule r db) = trail db" "trail (update_rule r db) = trail db"
  "trail (write_version_snapshot r u db) = trail db" "trail (db\<lparr>db_rules := rows\<rparr>) = trail db"
  "trail (db\<lparr>db_versions := vs\<rparr>) = trail db" "trail (db\<lparr>db_seeded := sd\<rparr>) = trail db"
  by (simp_all add: fun_eq_iff trail_def insert_rule_def update_rule_def write_version_snapshot_def)

lemma audited_snapshot [simp]:
  "audited (record_history env r a p s u x (write_version_snapshot q v db)) = audited (record_history env r a p s u x db)"
  by (simp add: audited_def trail_def write_version_snapshot_def record_history_def Let_def)

text \<open>A write of a rule that was read, recorded as a change from the status it had, keeps the trail.\<close>

lemma audited_update:
  assumes "history_written env" "order_permutes env" "unique_ids db" "audited db" "get_rule env db rid = Some r"
    and "rr_id q = rid" "legal_change (Some (rr_status r)) (Some (rr_status q))"
  shows "audited (record_history env q a (Some (rr_status r)) (Some (rr_status q)) u x (update_rule q db))"
  unfolding audited_def
proof
  fix p assume "p \<in> set (db_rules (record_history env q a (Some (rr_status r)) (Some (rr_status q)) u x (update_rule q db)))"
  then obtain p0 where p0: "p0 \<in> set (db_rules db)" "p = (if rr_id p0 = rid then update_row q p0 else p0)"
    using assms(6) by (auto simp: update_rule_def)
  have before: "replay None (trail db (rr_id p0)) = Some (Some (rr_status p0))"
    using assms(4) p0(1) by (simp add: audited_def)
  obtain row where "row \<in> set (db_rules db)" "r = row_to_rule row" "rr_id row = rid" using get_rule_row [OF assms(2,3,5)] .
  then have "rr_status p0 = rr_status r" if "rr_id p0 = rid" using row_of_id [OF assms(3) p0(1)] that by simp
  then show "replay None (trail (record_history env q a (Some (rr_status r)) (Some (rr_status q)) u x (update_rule q db)) (rr_id p))
      = Some (Some (rr_status p))"
    using before p0(2) assms(6,7) by (cases "rr_id p0 = rid") (simp_all add: trail_record [OF assms(1)] replay_append)
qed

lemma audited_insert:
  assumes "history_written env" "audited db" "fresh_id (rr_id r) db" "legal_change None (Some (rr_status r))"
  shows "audited (record_history env r a None (Some (rr_status r)) u x (insert_rule r db))"
proof -
  have "trail db (rr_id r) = []" using assms(3) by (auto simp: fresh_id_def trail_def filter_empty_conv image_iff)
  then show ?thesis using assms by (auto simp: audited_def trail_record [OF assms(1)] replay_append insert_rule_def fresh_id_def)
qed

lemma audited_transition:
  assumes "history_written env" "order_permutes env" "unique_ids db" "audited db"
  shows "audited (snd (transition env rid new user m x db))"
proof (cases "get_rule env db rid")
  case (Some r)
  show ?thesis
  proof (cases "new \<in> set (valid_transitions (rr_status r))")
    case True
    let ?q = "set_rationales m x (r\<lparr>rr_status := new, rr_updated_by := Some user\<rparr>)"
    have "rr_id ?q = rid" "rr_status ?q = new" using get_rule_id [OF assms(2,3) Some] by simp_all
    then show ?thesis
      using Some True audited_update [OF assms Some, of ?q]
      by (simp add: transition_def check_transition_def Let_def)
  qed (use assms(4) Some in \<open>simp add: transition_def check_transition_def\<close>)
qed (use assms(4) in \<open>simp add: transition_def\<close>)

lemma audited_edit:
  assumes "history_written env" "order_permutes env" "unique_ids db" "audited db"
  shows "audited (snd (update_draft env rid user p db))"
proof (cases "get_rule env db rid")
  case (Some r)
  have "rr_id (patch_rule env user p r) = rid" using get_rule_id [OF assms(2,3) Some] by simp
  then show ?thesis
    using Some assms(4) audited_update [OF assms Some, of "patch_rule env user p r"]
    by (auto simp: update_draft_def Let_def split: sum.split)
qed (use assms(4) in \<open>simp add: update_draft_def\<close>)

lemma audited_approve:
  assumes "history_written env" "order_permutes env" "unique_ids db" "audited db" "user \<noteq> []"
  shows "audited (snd (approve env rid user x db))"
proof (cases "approve_read env db rid")
  case (Inl e)
  then show ?thesis using assms(4) by (simp add: approve_def)
next
  case (Inr r)
  then have get: "get_rule env db rid = Some r" and legal: "Approved \<in> set (valid_transitions (rr_status r))"
    by (auto simp: approve_read_def check_transition_def result_simps split: option.splits if_splits)
  have "rr_id (approved_rule user x r) = rid" "rr_status (approved_rule user x r) = Approved"
    using get_rule_id [OF assms(2,3) get] by (simp_all add: approved_rule_def)
  then show ?thesis
    using Inr legal approve_alone(1,2) [OF assms(2,3) get assms(5)] audited_update [OF assms(1-4) get, of "approved_rule user x r"]
    by (simp add: approve_def Let_def)
qed

lemma audited_create:
  assumes "history_written env" "audited db" "fresh_id rid db"
  shows "audited (snd (create_rule env rid i db))"
proof -
  have "audited (record_history env (draft_of env rid i) ''create'' None (Some Draft) u x (insert_rule (draft_of env rid i) db))" for u x
    using audited_insert [OF assms(1,2), of "draft_of env rid i"] assms(3) by simp
  moreover have "audited (db\<lparr>db_seeded := sd\<rparr>) = audited db" for sd db by (simp add: audited_def trail_def)
  ultimately show ?thesis using assms(2)
    by (simp add: create_rule_def Let_def split: sum.split option.split bool.split)
qed

lemma audited_seed:
  assumes "history_written env" "audited db" "fresh_id rid db"
  shows "audited (snd (seed_builtin_rule env rid d m user owner db))"
  using audited_insert [OF assms(1,2), of "builtin_rule env rid d m user owner"] assms(2,3)
  by (simp add: seed_builtin_rule_def Let_def split: sum.split)

lemma audited_delete:
  assumes "history_written env" "audited db" "order_permutes env" "unique_ids db"
  shows "audited (snd (delete_rule env rid user db))" "audited (snd (delete_builtin_rules db))"
  using assms(2) get_rule_id [OF assms(3,4), of rid]
  by (auto simp: delete_rule_def delete_builtin_rules_def audited_def Let_def trail_record [OF assms(1)] split: option.split)

lemma audited_decisions:
  assumes "history_written env" "order_permutes env" "unique_ids db" "audited db"
  shows "audited (snd (submit env rid user x db))" "audited (snd (reject env rid user x db))"
    "audited (snd (revoke env rid user db))" "audited (snd (deprecate env rid user db))" "audited (snd (undeprecate env rid user db))"
  using audited_transition [OF assms] assms(4)
  by (simp_all add: submit_def reject_def revoke_def deprecate_def undeprecate_def split: option.split)

lemma apply_op_audited:
  assumes "history_written env" "order_permutes env" "versions_exact db \<and> audited db" "op_guard op db"
  shows "versions_exact (apply_op env op db) \<and> audited (apply_op env op db)"
proof
  show exact: "versions_exact (apply_op env op db)" using apply_op_exact assms by blast
  have unique: "unique_ids db" "audited db" using assms(3) by (simp_all add: versions_exact_def)
  show "audited (apply_op env op db)"
  proof (cases op)
    case (OpMatchOrCreate rid d m user)
    let ?I = "\<lambda>db. versions_exact db \<and> audited db"
    have guard: "fresh_id rid db" "user \<noteq> []" using assms(4) OpMatchOrCreate by simp_all
    have kept: "?I (snd (submit env r user None db')) \<and> ?I (snd (approve env r user None db'))" if "?I db'" for db' r
    proof -
      have "unique_ids db'" using that by (simp add: versions_exact_def)
      then show ?thesis
        using that submit_exact [OF assms(2), of db' r user None] approve_exact [OF assms(2) _ guard(2), of db' r None]
          audited_decisions(1) [OF assms(1,2)] audited_approve [OF assms(1,2) _ _ guard(2)] by blast
    qed
    have "?I (snd (create_rule env rid (profiling_input d m user) db))"
      using assms(3) create_exact [OF _ guard(1)] audited_create [OF assms(1) _ guard(1)] by blast
    then have "?I (snd (match_or_create_approved_rule env rid d m user db))"
      using kept by (intro match_or_create_invariant [where I = ?I] assms(3)) blast+
    then show ?thesis using OpMatchOrCreate by simp
  qed (use assms unique in \<open>auto intro: audited_edit audited_decisions audited_approve audited_create audited_seed audited_delete\<close>)
qed

text \<open>C7: When every audit row can be written, then in every registry the service can reach from an empty one
  the audit trail of a rule replays: each of its rows starts at the status the row before left, changes it in a way
  the lifecycle allows, and the last one leaves the status the rule has.\<close>
theorem audit_trail_replays:
  assumes "history_written env" "order_permutes env" "registry_run env empty_registry ops db" "r \<in> set (db_rules db)"
  shows "replay None (trail db (rr_id r)) = Some (Some (rr_status r))"
proof -
  have "versions_exact empty_registry \<and> audited empty_registry"
    by (simp add: versions_exact_def unique_ids_def audited_def empty_registry_def)
  with assms(3) have "versions_exact db \<and> audited db"
    by (rule run_invariant) (rule apply_op_audited [OF assms(1,2)])
  then show ?thesis using assms(4) by (simp add: audited_def)
qed

subsection \<open>Examples\<close>

text \<open>A run is the fold of its operations over the registry, when each of them is guarded.\<close>

fun guarded :: "registry_env \<Rightarrow> registry_op list \<Rightarrow> registry_db \<Rightarrow> bool" where
  "guarded env [] db = True"
| "guarded env (op # ops) db = (op_guard op db \<and> guarded env ops (apply_op env op db))"

lemma guarded_append: "guarded env (ops @ ops') db = (guarded env ops db \<and> guarded env ops' (fold (apply_op env) ops db))"
  by (induction ops arbitrary: db) simp_all

lemma guarded_run: "guarded env ops db \<Longrightarrow> registry_run env db ops (fold (apply_op env) ops db)"
  by (induction ops rule: rev_induct) (auto simp: guarded_append intro: registry_run.intros registry_step.intros)

definition example_env :: registry_env where
  "example_env = \<lparr>rg_digest = (\<lambda>_. ''f''), rg_order = rev, rg_canonicalize_owner = (\<lambda>owner. (Some owner, None)),
     rg_history_ok = (\<lambda>_. True), rg_permissions = False\<rparr>"

lemma example_env_simps: "order_permutes example_env" "history_written example_env"
  by (simp_all add: example_env_def order_permutes_def history_written_def)

definition example_input :: rule_input where
  "example_input = profiling_input \<lparr>df_body = [(''function'', JStr ''is_not_null'')], df_slots = [], df_parameters = [],
     df_error_message = None, df_filter = None\<rparr> [] ''ann''"

definition example_ops :: "registry_op list" where
  "example_ops = [OpCreate ''r'' example_input, OpSubmit ''r'' ''ann'' None, OpApprove ''r'' ''bob'' None]"

definition example_db :: registry_db where
  "example_db = fold (apply_op example_env) example_ops empty_registry"

lemma example_run: "registry_run example_env empty_registry example_ops example_db"
proof -
  have "guarded example_env example_ops empty_registry" by code_simp
  then show ?thesis unfolding example_db_def by (rule guarded_run)
qed

lemma example_served: "\<exists>v. get_version example_db ''r'' 1 = Some v"
proof -
  have "get_version example_db ''r'' 1 \<noteq> None" by code_simp
  then show ?thesis by blast
qed

definition pending_db :: registry_db where
  "pending_db = fold (apply_op example_env) (butlast example_ops) empty_registry"

lemma pending_exact: "versions_exact pending_db"
  by code_simp

lemma registry_versions_exact_witness: "versions_of example_db ''r'' = [1] \<and> db_rules example_db \<noteq> []"
proof -
  have "hd (db_rules example_db) \<in> set (db_rules example_db)" "rr_id (hd (db_rules example_db)) = ''r''"
    "rr_version (hd (db_rules example_db)) = 1" "db_rules example_db \<noteq> []" by code_simp+
  then show ?thesis using registry_versions_exact [OF example_env_simps(1) example_run] by fastforce
qed

lemma audit_trail_replays_witness: "\<exists>r \<in> set (db_rules example_db). replay None (trail example_db (rr_id r)) = Some (Some Approved)"
proof -
  have "hd (db_rules example_db) \<in> set (db_rules example_db)" "rr_status (hd (db_rules example_db)) = Approved" by code_simp+
  then show ?thesis using audit_trail_replays [OF example_env_simps(2,1) example_run] by metis
qed

lemma frozen_version_served_witness:
  "get_version (fold (apply_op example_env) [OpDelete ''r'' ''ann''] example_db) ''r'' 1 = get_version example_db ''r'' 1"
proof -
  have "guarded example_env [OpDelete ''r'' ''ann''] example_db" by code_simp
  note run = guarded_run [OF this]
  have "(''r'', True) \<notin> (\<lambda>r. (rr_id r, rr_is_builtin r)) ` set (db_rules example_db)" by code_simp
  then show ?thesis using frozen_version_served [OF run, of "''r''" 1] example_served by fastforce
qed

end
