(* ===== verification/Registry_Gate.thy ===== *)
theory Registry_Gate
  imports Registry_Lifecycle
begin

section \<open>What passes the gates of the registry\<close>

text \<open>
  The SQL of a definition is scanned when the definition is written, and a rule is published by
  \<open>approve\<close>. Here: what these two gates guarantee of the versions that are served, and the two ways around
  them that the operations leave open.
\<close>

subsection \<open>The scan\<close>

definition row_scanned :: "registry_rule \<Rightarrow> bool" where
  "row_scanned r \<longleftrightarrow> validate_definition_sql_safety (rr_mode r) (rr_definition r) = Inr ()"

definition scanned :: "registry_db \<Rightarrow> bool" where
  "scanned db \<longleftrightarrow> (\<forall>r \<in> set (db_rules db). row_scanned r)
     \<and> (\<forall>v \<in> set (db_versions db). validate_definition_sql_safety (the (rv_mode v)) (rv_definition v) = Inr ())"

text \<open>Editing the mode of a rule without its definition.\<close>

fun changes_mode_alone :: "registry_op \<Rightarrow> bool" where
  "changes_mode_alone (OpUpdate rid user p) = (pt_mode p \<noteq> None \<and> pt_definition p = None)"
| "changes_mode_alone _ = False"

lemma scan_ignores_slots [simp]:
  "validate_definition_sql_safety mode (drop_retired_slots d) = validate_definition_sql_safety mode d"
  by (simp add: validate_definition_sql_safety_def drop_retired_slots_def)

lemma row_scanned_stable [simp]:
  "row_scanned (row_to_rule r) = row_scanned r" "row_scanned (update_row q r) = row_scanned q"
  "row_scanned (insert_row r) = row_scanned r" "row_scanned (set_rationales m x r) = row_scanned r"
  "row_scanned (r\<lparr>rr_status := st, rr_updated_by := u\<rparr>) = row_scanned r"
  "row_scanned (approved_rule user x r) = row_scanned r"
  by (cases m; simp add: row_scanned_def row_to_rule_def update_row_def insert_row_def approved_rule_def)+

lemma get_rule_scanned: "order_permutes env \<Longrightarrow> scanned db \<Longrightarrow> get_rule env db rid = Some r \<Longrightarrow> row_scanned r"
proof -
  assume order: "order_permutes env" and ok: "scanned db" and "get_rule env db rid = Some r"
  then obtain row rows where row: "rg_order env (filter (\<lambda>r. rr_id r = rid) (db_rules db)) = row # rows" "r = row_to_rule row"
    by (auto simp: get_rule_def first_row_def split: list.splits)
  have "set (rg_order env (filter (\<lambda>r. rr_id r = rid) (db_rules db))) = set (filter (\<lambda>r. rr_id r = rid) (db_rules db))"
    using order unfolding order_permutes_def by (metis mset_eq_setD)
  then have "row \<in> set (db_rules db)" using row(1) by auto
  then show "row_scanned r" using ok row(2) by (simp add: scanned_def)
qed

lemma scanned_writes [intro!]:
  "scanned db \<Longrightarrow> row_scanned r \<Longrightarrow> scanned (insert_rule r db)"
  "scanned db \<Longrightarrow> row_scanned r \<Longrightarrow> scanned (update_rule r db)"
  "scanned db \<Longrightarrow> row_scanned r \<Longrightarrow> scanned (approve_update r k st db)"
  "scanned db \<Longrightarrow> row_scanned r \<Longrightarrow> scanned (write_version_snapshot r user db)"
  "scanned db \<Longrightarrow> scanned (record_history env r a p n user x db)"
  "scanned db \<Longrightarrow> scanned (db\<lparr>db_seeded := seeded\<rparr>)"
  "scanned db \<Longrightarrow> scanned (db\<lparr>db_rules := filter P (db_rules db)\<rparr>)"
  by (auto simp: scanned_def insert_rule_def update_rule_def approve_update_def write_version_snapshot_def row_scanned_def
      record_history_def Let_def update_row_def insert_row_def)

lemma scanned_transition [intro!]:
  "order_permutes env \<Longrightarrow> scanned db \<Longrightarrow> scanned (snd (transition env rid st user m x db))"
  by (cases m) (auto simp: transition_def Let_def row_scanned_def split: option.split sum.split
      dest: get_rule_scanned [unfolded row_scanned_def])

lemma scanned_decisions:
  assumes "order_permutes env" "scanned db"
  shows "scanned (snd (submit env rid user x db))" "scanned (snd (reject env rid user x db))"
    "scanned (snd (revoke env rid user db))" "scanned (snd (deprecate env rid user db))" "scanned (snd (undeprecate env rid user db))"
  using assms by (auto simp: submit_def reject_def revoke_def deprecate_def undeprecate_def split: option.split)

lemma scanned_approve:
  assumes "order_permutes env" "scanned db"
  shows "scanned (snd (approve env rid user x db))"
proof (cases "approve_read env db rid")
  case (Inr r)
  then have "row_scanned r"
    using get_rule_scanned [OF assms] by (auto simp: approve_read_def result_simps split: option.splits)
  then show ?thesis using Inr assms(2) by (auto simp: approve_def Let_def)
qed (use assms in \<open>simp add: approve_def\<close>)

lemma draft_mode [simp]:
  "rr_mode (draft_of env rid i) = in_mode i" "rr_definition (draft_of env rid i) = in_definition i"
  "rr_mode (builtin_rule env rid d m user owner) = DqxNative" "rr_definition (builtin_rule env rid d m user owner) = d"
  by (simp_all add: draft_of_def builtin_rule_def Let_def split: option.split prod.split)

lemma patch_mode [simp]:
  "rr_mode (patch_rule env user p r) = or_else (pt_mode p) (rr_mode r)"
  "rr_definition (patch_rule env user p r) = or_else (pt_definition p) (rr_definition r)"
  by (simp_all add: patch_rule_def Let_def split: option.split prod.split)

lemma scanned_create:
  assumes "scanned db"
  shows "scanned (snd (create_rule env rid i db))"
proof -
  have "scanned (insert_rule (draft_of env rid i) db)"
    if "validate_definition_sql_safety (in_mode i) (in_definition i) = Inr ()"
    using assms that by (intro scanned_writes) (simp_all add: row_scanned_def)
  then show ?thesis using assms
    by (auto simp: create_rule_def Let_def row_scanned_def split: sum.split option.split bool.split)
qed

lemma scanned_seed:
  assumes "scanned db"
  shows "scanned (snd (seed_builtin_rule env rid d m user owner db))"
  using assms by (auto simp: seed_builtin_rule_def Let_def row_scanned_def split: sum.split)

lemma scanned_delete:
  assumes "scanned db"
  shows "scanned (snd (delete_rule env rid user db))" "scanned (snd (delete_builtin_rules db))"
  using assms by (auto simp: delete_rule_def delete_builtin_rules_def Let_def scanned_def split: option.split)

lemma scanned_update:
  assumes "order_permutes env" "scanned db" "\<not> changes_mode_alone (OpUpdate rid user p)"
  shows "scanned (snd (update_draft env rid user p db))"
proof (cases "get_rule env db rid")
  case (Some r)
  have "row_scanned r" by (rule get_rule_scanned [OF assms(1,2) Some])
  then have "row_scanned (patch_rule env user p r)"
    if "(case pt_definition p of None \<Rightarrow> Inr () | Some d \<Rightarrow> validate_definition_sql_safety (or_else (pt_mode p) (rr_mode r)) d) = Inr ()"
    using that assms(3) by (auto simp: row_scanned_def or_else_def split: option.splits)
  then show ?thesis using Some assms(2)
    by (auto simp: update_draft_def Let_def split: sum.split)
qed (use assms(2) in \<open>simp add: update_draft_def\<close>)

lemma scanned_op:
  assumes "order_permutes env" "scanned db" "\<not> changes_mode_alone op"
  shows "scanned (apply_op env op db)"
proof (cases op)
  case (OpMatchOrCreate rid d m user)
  then show ?thesis unfolding OpMatchOrCreate apply_op.simps
    by (intro match_or_create_invariant [where I = scanned] assms(2) scanned_create)
       (blast intro: scanned_decisions(1) [OF assms(1)] scanned_approve [OF assms(1)])+
next
  case (OpUpdate rid user p)
  then show ?thesis using scanned_update assms by simp
qed (use assms in \<open>auto intro: scanned_decisions scanned_approve scanned_create scanned_seed scanned_delete\<close>)

text \<open>C8: As long as nobody edits the mode of a rule without sending its definition along, every version the
  registry serves has passed the scan of its SQL and of its filter.\<close>
theorem served_versions_scanned:
  assumes "order_permutes env" "registry_run env empty_registry ops db" "\<not> list_ex changes_mode_alone ops"
    and "get_version db rid n = Some v"
  shows "validate_definition_sql_safety (the (rv_mode v)) (rv_definition v) = Inr ()"
proof -
  have "scanned empty_registry" by (simp add: scanned_def empty_registry_def)
  with assms(2) have ok: "scanned db"
    by (rule run_invariant) (use assms(3) in \<open>auto simp: list_ex_iff intro: scanned_op [OF assms(1)]\<close>)
  obtain w where w: "find (\<lambda>v. rv_rule_id v = rid \<and> rv_version v = n) (db_versions db) = Some w" "v = row_to_version w"
    using assms(4) by (auto simp: get_version_def)
  then show ?thesis using ok find_found [OF w(1)] by (simp add: scanned_def row_to_version_def)
qed

text \<open>An edit of the mode alone stores a body that was scanned as another mode's: a query that drops a table
  passes every step to a served version of a SQL rule, though \<open>create_rule\<close> refuses the very same rule.\<close>
theorem mode_edit_skips_scan:
  "\<exists>ops db v. registry_run example_env empty_registry ops db \<and> get_version db ''r'' 1 = Some v \<and> rv_mode v = Some SqlMode
    \<and> validate_definition_sql_safety SqlMode (rv_definition v) = Inl UnsafeSql"
proof -
  let ?d = "\<lparr>df_body = [(''function'', JStr ''f''), (''sql_query'', JStr ''DROP TABLE t'')], df_slots = [], df_parameters = [],
     df_error_message = None, df_filter = None\<rparr>"
  let ?patch = "\<lparr>pt_mode = Some SqlMode, pt_definition = None, pt_polarity = None, pt_user_metadata = None, pt_owner = None,
     pt_owner_display_name = None, pt_author_kind = None, pt_clear_polarity = False\<rparr>"
  let ?ops = "[OpCreate ''r'' (profiling_input ?d [] ''ann''), OpUpdate ''r'' ''ann'' ?patch, OpSubmit ''r'' ''ann'' None,
     OpApprove ''r'' ''bob'' None]"
  let ?db = "fold (apply_op example_env) ?ops empty_registry"
  have "guarded example_env ?ops empty_registry" by code_simp
  then have "registry_run example_env empty_registry ?ops ?db" by (rule guarded_run)
  moreover have "(case get_version ?db ''r'' 1 of None \<Rightarrow> False | Some v \<Rightarrow> rv_mode v = Some SqlMode
      \<and> validate_definition_sql_safety SqlMode (rv_definition v) = Inl UnsafeSql)"
    by code_simp
  ultimately show ?thesis by (auto split: option.splits)
qed

subsection \<open>Publication\<close>

text \<open>\<open>undeprecate\<close> does not ask whether the rule is deprecated. Called on a rule that is waiting for its
  first approval it approves the rule without a decision and without a frozen version, so an approved
  rule of version 0 results, of which no version can be served.\<close>
theorem undeprecate_approves_pending:
  assumes "order_permutes env" "versions_exact db" "get_rule env db rid = Some r" "rr_status r = PendingApproval"
  shows "\<exists>q db'. undeprecate env rid user db = (Inr q, db') \<and> rr_status q = Approved \<and> rr_version q = rr_version r
    \<and> versions_of db' rid = [1..<Suc (rr_version r)]"
proof -
  have unique: "unique_ids db" using assms(2) by (simp add: versions_exact_def)
  obtain row where row: "row \<in> set (db_rules db)" "r = row_to_rule row" "rr_id row = rid"
    using get_rule_row [OF assms(1) unique assms(3)] .
  then have "versions_of db rid = [1..<Suc (rr_version r)]" using assms(2) unfolding versions_exact_def by force
  then show ?thesis
    using assms(3,4) by (simp add: undeprecate_def transition_def check_transition_def Let_def versions_of_def update_rule_def)
qed

text \<open>\<open>reject\<close> does not ask whether the rule is pending. Called on a deprecated rule that was published it
  reinstates the rule.\<close>
theorem reject_reinstates_deprecated:
  assumes "get_rule env db rid = Some r" "rr_status r = Deprecated" "1 \<le> rr_version r"
  shows "\<exists>q. fst (reject env rid user rationale db) = Inr q \<and> rr_status q = Approved \<and> rr_version q = rr_version r"
  using assms by (simp add: reject_def transition_def check_transition_def Let_def)

lemma undeprecate_approves_pending_witness:
  "\<exists>q db'. undeprecate example_env ''r'' ''bob'' pending_db = (Inr q, db') \<and> rr_status q = Approved \<and> versions_of db' ''r'' = []"
proof -
  have "get_rule example_env pending_db ''r'' = Some (hd (db_rules pending_db))"
    "rr_status (hd (db_rules pending_db)) = PendingApproval" "rr_version (hd (db_rules pending_db)) = 0" by code_simp+
  then show ?thesis
    using undeprecate_approves_pending [OF example_env_simps(1) pending_exact, of "''r''" "hd (db_rules pending_db)" "''bob''"] by auto
qed

lemma reject_reinstates_deprecated_witness:
  "\<exists>q. fst (reject example_env ''r'' ''bob'' None (snd (deprecate example_env ''r'' ''bob'' example_db))) = Inr q \<and> rr_status q = Approved"
proof -
  let ?db = "snd (deprecate example_env ''r'' ''bob'' example_db)"
  have "get_rule example_env ?db ''r'' = Some (hd (db_rules ?db))"
    "rr_status (hd (db_rules ?db)) = Deprecated" "1 \<le> rr_version (hd (db_rules ?db))" by code_simp+
  then show ?thesis using reject_reinstates_deprecated by blast
qed

lemma served_versions_scanned_witness:
  "\<exists>v. get_version example_db ''r'' 1 = Some v \<and> validate_definition_sql_safety (the (rv_mode v)) (rv_definition v) = Inr ()"
proof -
  obtain v where "get_version example_db ''r'' 1 = Some v" using example_served by blast
  moreover have "\<not> list_ex changes_mode_alone example_ops" by code_simp
  ultimately show ?thesis using served_versions_scanned [OF example_env_simps(1) example_run] by blast
qed

end
