(* ===== verification/Registry_Race.thy ===== *)
theory Registry_Race
  imports Registry_Lifecycle
begin

section \<open>Approvals that race\<close>

text \<open>
  \<open>RegistryService.approve\<close> takes five steps against the database, and the steps of several callers
  interleave: the read with its check, the conditional update, the re-read that decides whether this
  caller's update took place, the insert of the frozen version and the insert of the audit row. A
  schedule is the list of the callers in the order they take their steps.
\<close>

datatype approval_pc =
    ApStart
  | ApRead registry_rule
  | ApUpdated registry_rule
  | ApConfirmed registry_rule
  | ApFrozen registry_rule
  | ApDone registry_rule
  | ApFailed registry_error

text \<open>One step of a caller, who is an email and a rationale.\<close>

fun approval_step ::
    "registry_env \<Rightarrow> string \<Rightarrow> string \<times> string option \<Rightarrow> approval_pc \<Rightarrow> registry_db \<Rightarrow> approval_pc \<times> registry_db" where
  "approval_step env rid (user, x) ApStart db =
     (case approve_read env db rid of Inl e \<Rightarrow> (ApFailed e, db) | Inr r \<Rightarrow> (ApRead r, db))"
| "approval_step env rid (user, x) (ApRead r) db =
     (ApUpdated r, approve_update (approved_rule user x r) (rr_version r) (rr_status r) db)"
| "approval_step env rid (user, x) (ApUpdated r) db =
     (if approve_confirmed env db (approved_rule user x r) then (ApConfirmed r, db)
      else (ApFailed (ConcurrentModification rid), db))"
| "approval_step env rid (user, x) (ApConfirmed r) db =
     (ApFrozen r, write_version_snapshot (approved_rule user x r) user db)"
| "approval_step env rid (user, x) (ApFrozen r) db =
     (ApDone (approved_rule user x r),
      record_history env (approved_rule user x r) ''approve'' (Some (rr_status r)) (Some Approved) user x db)"
| "approval_step env rid (user, x) pc db = (pc, db)"

type_synonym race_state = "approval_pc list \<times> registry_db"

definition race_step ::
    "registry_env \<Rightarrow> string \<Rightarrow> (string \<times> string option) list \<Rightarrow> nat \<Rightarrow> race_state \<Rightarrow> race_state" where
  "race_step env rid callers i s = (case s of (pcs, db) \<Rightarrow>
     if i < length callers \<and> i < length pcs
     then (case approval_step env rid (callers ! i) (pcs ! i) db of (pc, db) \<Rightarrow> (pcs[i := pc], db)) else s)"

definition race ::
    "registry_env \<Rightarrow> string \<Rightarrow> (string \<times> string option) list \<Rightarrow> nat list \<Rightarrow> registry_db \<Rightarrow> race_state" where
  "race env rid callers schedule db = fold (race_step env rid callers) schedule (replicate (length callers) ApStart, db)"

fun finished :: "approval_pc \<Rightarrow> bool" where
  "finished (ApDone r) = True"
| "finished (ApFailed e) = True"
| "finished _ = False"

text \<open>A caller who is not disturbed takes the steps of \<open>approve\<close>.\<close>

lemma approve_is_undisturbed_race:
  "race env rid [(user, x)] [0, 0, 0, 0, 0] db =
     (case approve env rid user x db of
        (Inl e, db') \<Rightarrow> ([ApFailed e], db') | (Inr r, db') \<Rightarrow> ([ApDone r], db'))"
  by (cases "approve_read env db rid") (simp_all add: race_def race_step_def approve_def Let_def)

subsection \<open>Callers with different emails\<close>

text \<open>Until someone's update takes place nothing changes; afterwards there is a winner, whose update every
  later read sees.\<close>

definition not_yet :: "registry_rule \<Rightarrow> registry_db \<Rightarrow> race_state \<Rightarrow> bool" where
  "not_yet r db0 s \<longleftrightarrow> snd s = db0 \<and> set (fst s) \<subseteq> {ApStart, ApRead r}"

definition won :: "registry_rule \<Rightarrow> registry_db \<Rightarrow> (string \<times> string option) list \<Rightarrow> nat \<Rightarrow> race_state \<Rightarrow> bool" where
  "won r db0 callers i s \<longleftrightarrow>
     (let q = approved_rule (fst (callers ! i)) (snd (callers ! i)) r in
      i < length callers \<and> db_rules (snd s) = db_rules (update_rule q db0)
      \<and> (fst s ! i \<in> {ApUpdated r, ApConfirmed r} \<and> db_versions (snd s) = db_versions db0
         \<or> fst s ! i \<in> {ApFrozen r, ApDone q} \<and> db_versions (snd s) = db_versions (write_version_snapshot q (fst (callers ! i)) db0))
      \<and> (\<forall>j < length callers. j \<noteq> i \<longrightarrow> fst s ! j \<in> {ApStart, ApRead r, ApUpdated r} \<union> range ApFailed))"

lemma approved_rule_simps [simp]:
  "rr_id (approved_rule user x r) = rr_id r" "rr_version (approved_rule user x r) = Suc (rr_version r)"
  "rr_status (approved_rule user x r) = Approved" "rr_updated_by (approved_rule user x r) = Some user"
  by (simp_all add: approved_rule_def)

lemma approve_update_late:
  assumes "db_rules db = db_rules (update_rule (approved_rule user x r) db0)"
  shows "approve_update (approved_rule user' x' r) (rr_version r) st db = db"
proof -
  have "map (\<lambda>row. if rr_id row = rr_id r \<and> rr_version row = rr_version r \<and> rr_status row = st
      then update_row (approved_rule user' x' r) row else row) (db_rules db) = db_rules db"
    unfolding assms by (intro map_idI) (auto simp: update_rule_def)
  then show ?thesis by (simp add: approve_update_def)
qed

lemma get_rule_cong: "db_rules db = db_rules db' \<Longrightarrow> get_rule env db = get_rule env db'"
  by (simp add: fun_eq_iff get_rule_def)

lemma read_after_win:
  assumes "order_permutes env" "unique_ids db0" "get_rule env db0 rid = Some r" "user \<noteq> []"
    and "db_rules db = db_rules (update_rule (approved_rule user x r) db0)"
  shows "\<exists>q. get_rule env db rid = Some q \<and> rr_version q = Suc (rr_version r) \<and> rr_status q = Approved \<and> rr_updated_by q = Some user"
proof -
  have "rr_id r = rid" by (rule get_rule_id [OF assms(1-3)])
  then show ?thesis
    using approve_alone(2) [OF assms(1-4), of x] get_rule_cong [OF assms(5), of env]
    by (auto simp: approve_confirmed_def split: option.splits)
qed

definition raceable :: "registry_env \<Rightarrow> string \<Rightarrow> registry_rule \<Rightarrow> registry_db \<Rightarrow> (string \<times> string option) list \<Rightarrow> bool" where
  "raceable env rid r db callers \<longleftrightarrow> order_permutes env \<and> unique_ids db \<and> get_rule env db rid = Some r
     \<and> Approved \<in> set (valid_transitions (rr_status r)) \<and> distinct (map fst callers) \<and> [] \<notin> fst ` set callers"

lemma race_step_before:
  assumes "raceable env rid r db0 callers" "not_yet r db0 s" "length (fst s) = length callers"
  shows "not_yet r db0 (race_step env rid callers j s) \<or> won r db0 callers j (race_step env rid callers j s)"
proof (cases "j < length callers")
  case True
  obtain pcs where s: "s = (pcs, db0)" "set pcs \<subseteq> {ApStart, ApRead r}" using assms(2) by (cases s) (auto simp: not_yet_def)
  have len: "length pcs = length callers" using assms(3) s by simp
  obtain user x where caller: "callers ! j = (user, x)" by fastforce
  have "user \<noteq> []" using assms(1) True caller nth_mem [OF True] by (force simp: raceable_def)
  note alone = approve_alone [of env db0 rid r user x]
  have pcs: "pcs ! k \<in> {ApStart, ApRead r}" if "k < length callers" for k
    using s(2) that len by (metis nth_mem subsetD)
  then have "pcs ! j = ApStart \<or> pcs ! j = ApRead r" using True by blast
  then show ?thesis
  proof
    assume pc: "pcs ! j = ApStart"
    have "approve_read env db0 rid = Inr r"
      using assms(1) by (simp add: approve_read_def check_transition_def raceable_def)
    then have "race_step env rid callers j s = (pcs[j := ApRead r], db0)"
      using s caller pc True len by (simp add: race_step_def)
    then show ?thesis using s(2) set_update_subset_insert [of pcs j "ApRead r"] by (auto simp: not_yet_def)
  next
    assume pc: "pcs ! j = ApRead r"
    have "race_step env rid callers j s = (pcs[j := ApUpdated r], update_rule (approved_rule user x r) db0)"
      using s caller pc True len alone(1) assms(1) \<open>user \<noteq> []\<close> by (simp add: race_step_def raceable_def)
    then show ?thesis using True caller len pcs by (simp add: won_def update_rule_def) blast
  qed
qed (use assms(2) in \<open>simp add: race_step_def split: prod.split\<close>)

lemma race_step_winner:
  assumes "raceable env rid r db0 callers" "won r db0 callers i s" "length (fst s) = length callers"
  shows "won r db0 callers i (race_step env rid callers i s)"
proof -
  obtain pcs db where s: "s = (pcs, db)" by fastforce
  obtain user x where caller: "callers ! i = (user, x)" by fastforce
  let ?q = "approved_rule user x r"
  have i: "i < length callers" "i < length pcs" using assms(2,3) s by (simp_all add: won_def Let_def)
  have "user \<noteq> []" using assms(1) i(1) caller nth_mem [OF i(1)] by (force simp: raceable_def)
  have rules: "db_rules db = db_rules (update_rule ?q db0)" using assms(2) s caller by (simp add: won_def Let_def)
  have "rr_id r = rid" using assms(1) get_rule_id by (auto simp: raceable_def)
  then have confirmed: "approve_confirmed env db ?q"
    using read_after_win [of env db0 rid r user, OF _ _ _ \<open>user \<noteq> []\<close> rules] assms(1)
    by (auto simp: approve_confirmed_def raceable_def)
  have frozen: "db_versions (write_version_snapshot ?q user db) = db_versions (write_version_snapshot ?q user db0)"
    if "db_versions db = db_versions db0" using that by (simp add: write_version_snapshot_def)
  have kept: "db_rules (write_version_snapshot ?q user db) = db_rules db" by (simp add: write_version_snapshot_def)
  have "pcs ! i \<in> {ApUpdated r, ApConfirmed r, ApFrozen r, ApDone ?q}" using assms(2) s caller by (auto simp: won_def Let_def)
  then show ?thesis
    using assms(2) s caller i confirmed frozen kept
    by (elim insertE emptyE) (simp_all add: won_def race_step_def Let_def)
qed

lemma race_step_loser:
  assumes "raceable env rid r db0 callers" "won r db0 callers i s" "length (fst s) = length callers" "j \<noteq> i"
  shows "won r db0 callers i (race_step env rid callers j s)"
proof (cases "j < length callers")
  case True
  obtain pcs db where s: "s = (pcs, db)" by fastforce
  obtain user x where caller: "callers ! i = (user, x)" by fastforce
  obtain user' x' where caller': "callers ! j = (user', x')" by fastforce
  have i: "i < length callers" "i < length pcs" "j < length pcs" using assms(2,3) True s by (simp_all add: won_def Let_def)
  have "user \<noteq> []" using assms(1) i(1) caller nth_mem [OF i(1)] by (force simp: raceable_def)
  have rules: "db_rules db = db_rules (update_rule (approved_rule user x r) db0)" using assms(2) s caller by (simp add: won_def Let_def)
  obtain q where q: "get_rule env db rid = Some q" "rr_status q = Approved" "rr_updated_by q = Some user"
    using read_after_win [of env db0 rid r user, OF _ _ _ \<open>user \<noteq> []\<close> rules] assms(1) by (auto simp: raceable_def)
  have "map fst callers ! j \<noteq> map fst callers ! i"
    using assms(1,4) True i(1) nth_eq_iff_index_eq [of "map fst callers" j i] by (simp add: raceable_def)
  then have "user' \<noteq> user" using caller caller' True i(1) by simp
  have "rr_id r = rid" using assms(1) get_rule_id by (auto simp: raceable_def)
  have lost: "\<not> approve_confirmed env db (approved_rule user' x' r)"
    using q \<open>user' \<noteq> user\<close> \<open>rr_id r = rid\<close> by (simp add: approve_confirmed_def)
  have read: "approve_read env db rid = Inl (InvalidTransition Approved Approved)"
    using q by (simp add: approve_read_def check_transition_def)
  have update: "approve_update (approved_rule user' x' r) (rr_version r) (rr_status r) db = db"
    by (rule approve_update_late [OF rules])
  obtain pc db' where step: "approval_step env rid (user', x') (pcs ! j) db = (pc, db')" by fastforce
  have "pcs ! j \<in> {ApStart, ApRead r, ApUpdated r} \<union> range ApFailed" using assms(2,4) s True by (simp add: won_def Let_def)
  moreover have "db' = db \<and> pc \<in> {ApStart, ApRead r, ApUpdated r} \<union> range ApFailed"
    if "approval_step env rid (user', x') p db = (pc, db')" "p \<in> {ApStart, ApRead r, ApUpdated r} \<union> range ApFailed" for p
    using that read update lost by (cases p) auto
  ultimately have "db' = db \<and> pc \<in> {ApStart, ApRead r, ApUpdated r} \<union> range ApFailed" using step by blast
  moreover from this have "race_step env rid callers j s = (pcs[j := pc], db)"
    using s caller' True i(3) step by (simp add: race_step_def)
  moreover have "pcs[j := pc] ! k \<in> {ApStart, ApRead r, ApUpdated r} \<union> range ApFailed" if "k < length callers" "k \<noteq> i" for k
    using assms(2) s i(3) calculation(1) that by (cases "k = j") (simp_all add: won_def Let_def)
  ultimately show ?thesis using assms(2,4) s by (simp add: won_def Let_def)
qed (use assms(2) in \<open>simp add: race_step_def split: prod.split\<close>)

lemma race_length: "length (fst (fold (race_step env rid callers) schedule s)) = length (fst s)"
  by (induction schedule arbitrary: s) (simp_all add: race_step_def split: prod.split)

lemma race_invariant:
  assumes "raceable env rid r db callers"
  shows "not_yet r db (race env rid callers schedule db) \<or> (\<exists>i. won r db callers i (race env rid callers schedule db))"
proof (induction schedule rule: rev_induct)
  case Nil
  show ?case by (auto simp: race_def not_yet_def)
next
  case (snoc j schedule)
  let ?s = "race env rid callers schedule db"
  have len: "length (fst ?s) = length callers" by (simp add: race_def race_length)
  have "race env rid callers (schedule @ [j]) db = race_step env rid callers j ?s" by (simp add: race_def)
  then show ?case
    using snoc race_step_before [OF assms _ len] race_step_winner [OF assms _ len] race_step_loser [OF assms _ len] by metis
qed

subsection \<open>Every caller finishes\<close>

fun steps_left :: "approval_pc \<Rightarrow> nat" where
  "steps_left ApStart = 5"
| "steps_left (ApRead r) = 4"
| "steps_left (ApUpdated r) = 3"
| "steps_left (ApConfirmed r) = 2"
| "steps_left (ApFrozen r) = 1"
| "steps_left (ApDone r) = 0"
| "steps_left (ApFailed e) = 0"

lemma steps_left_finished: "steps_left pc = 0 \<longleftrightarrow> finished pc"
  by (cases pc) simp_all

lemma approval_step_decreases: "steps_left (fst (approval_step env rid caller pc db)) \<le> steps_left pc - 1"
  by (cases caller; cases pc) (simp_all split: sum.split)

lemma race_steps_left:
  assumes "i < length callers" "length (fst s) = length callers"
  shows "steps_left (fst (fold (race_step env rid callers) schedule s) ! i) \<le> steps_left (fst s ! i) - count_list schedule i"
  using assms(2)
proof (induction schedule arbitrary: s)
  case (Cons j schedule)
  let ?s = "race_step env rid callers j s"
  have "length (fst ?s) = length callers" using Cons.prems by (cases s) (simp add: race_step_def split: prod.split)
  note IH = Cons.IH [OF this]
  have "steps_left (fst ?s ! i) \<le> steps_left (fst s ! i) - (if j = i then 1 else 0)"
    using Cons.prems assms(1) approval_step_decreases [of env rid "callers ! i" "fst s ! i" "snd s"]
    by (auto simp: race_step_def split: prod.splits)
  then show ?case using IH by (auto split: if_splits)
qed simp

lemma race_finishes:
  assumes "i < length callers" "5 \<le> count_list schedule i"
  shows "finished (fst (race env rid callers schedule db) ! i)"
  using race_steps_left [of i callers "(replicate (length callers) ApStart, db)" env rid schedule] assms
  by (simp add: race_def flip: steps_left_finished)

text \<open>The new versions of the rule are the ones the winner froze.\<close>

lemma won_versions:
  assumes "won r db0 callers i s" "rr_id r = rid" "versions_of db0 rid = [1..<Suc (rr_version r)]"
  shows "versions_of (snd s) rid = (if fst s ! i \<in> {ApUpdated r, ApConfirmed r} then [1..<Suc (rr_version r)] else [1..<Suc (Suc (rr_version r))])"
  using assms by (auto simp: won_def Let_def versions_of_def write_version_snapshot_def)

lemma raceable_versions:
  assumes "raceable env rid r db callers" "versions_exact db"
  shows "rr_id r = rid" "versions_of db rid = [1..<Suc (rr_version r)]"
proof -
  have facts: "order_permutes env" "unique_ids db" "get_rule env db rid = Some r" using assms(1) by (simp_all add: raceable_def)
  show "rr_id r = rid" by (rule get_rule_id [OF facts])
  obtain row where "row \<in> set (db_rules db)" "r = row_to_rule row" "rr_id row = rid" using get_rule_row [OF facts] .
  then show "versions_of db rid = [1..<Suc (rr_version r)]" using assms(2) unfolding versions_exact_def by force
qed

text \<open>C9: However the steps of any number of approvers of one rule interleave, as long as their emails differ,
  version N+1 of the rule is frozen at most once and no other version is.\<close>
theorem racing_approvals_freeze_once:
  assumes "raceable env rid r db callers" "versions_exact db"
  shows "versions_of (snd (race env rid callers schedule db)) rid \<in> {[1..<Suc (rr_version r)], [1..<Suc (Suc (rr_version r))]}"
  using race_invariant [OF assms(1), of schedule]
proof
  assume "not_yet r db (race env rid callers schedule db)"
  then show ?thesis using raceable_versions [OF assms] by (simp add: not_yet_def)
next
  assume "\<exists>i. won r db callers i (race env rid callers schedule db)"
  then obtain i where "won r db callers i (race env rid callers schedule db)" ..
  from won_versions [OF this raceable_versions [OF assms]] show ?thesis by (simp split: if_splits)
qed

text \<open>C10: Under every schedule that lets each approver take five steps, exactly one of them publishes the rule
  as version N+1 and every other one is told of an error.\<close>
theorem racing_approvals_finish:
  assumes "raceable env rid r db callers" "versions_exact db" "callers \<noteq> []"
    and "\<And>i. i < length callers \<Longrightarrow> 5 \<le> count_list schedule i"
  shows "\<exists>i < length callers. fst (race env rid callers schedule db) ! i = ApDone (approved_rule (fst (callers ! i)) (snd (callers ! i)) r)
    \<and> versions_of (snd (race env rid callers schedule db)) rid = [1..<Suc (Suc (rr_version r))]
    \<and> \<not> (\<exists>j < length callers. j \<noteq> i \<and> fst (race env rid callers schedule db) ! j \<notin> range ApFailed)"
proof -
  let ?s = "race env rid callers schedule db"
  have finished: "finished (fst ?s ! j)" if "j < length callers" for j using race_finishes [OF that assms(4) [OF that]] .
  have "\<not> not_yet r db ?s"
  proof
    assume "not_yet r db ?s"
    moreover have "length (fst ?s) = length callers" by (simp add: race_def race_length)
    then have "fst ?s ! 0 \<in> set (fst ?s)" using assms(3) by (intro nth_mem) simp
    ultimately have "fst ?s ! 0 \<in> {ApStart, ApRead r}" unfolding not_yet_def by blast
    then show False using finished [of 0] assms(3) by auto
  qed
  then obtain i where won: "won r db callers i ?s" using race_invariant [OF assms(1)] by blast
  then have i: "i < length callers" by (simp add: won_def Let_def)
  have "fst ?s ! i = ApDone (approved_rule (fst (callers ! i)) (snd (callers ! i)) r)"
    using won finished [OF i] by (auto simp: won_def Let_def)
  moreover from this have "versions_of (snd ?s) rid = [1..<Suc (Suc (rr_version r))]"
    using won_versions [OF won raceable_versions [OF assms(1,2)]] by simp
  moreover have "fst ?s ! j \<in> range ApFailed" if "j < length callers" "j \<noteq> i" for j
    using won finished [OF that(1)] that by (auto simp: won_def Let_def)
  ultimately show ?thesis using i by blast
qed

subsection \<open>One caller twice\<close>

text \<open>When the same user approves twice at once, say by a double click, both requests confirm the one
  update as theirs and version N+1 is frozen twice, although the update itself took place once.\<close>
theorem double_click_freezes_twice:
  assumes "raceable env rid r db [(user, x)]" "versions_exact db"
  shows "versions_of (snd (race env rid [(user, x), (user, x)] [0, 1, 0, 1, 0, 1, 0, 1] db)) rid
    = [1..<Suc (Suc (rr_version r))] @ [Suc (rr_version r)]"
proof -
  have facts: "order_permutes env" "unique_ids db" "get_rule env db rid = Some r" "user \<noteq> []"
    "Approved \<in> set (valid_transitions (rr_status r))"
    using assms(1) by (auto simp: raceable_def)
  note alone = approve_alone [OF facts(1-4), of x]
  have "approve_read env db rid = Inr r" using facts by (simp add: approve_read_def check_transition_def)
  moreover have "approve_update (approved_rule user x r) (rr_version r) (rr_status r) (update_rule (approved_rule user x r) db)
      = update_rule (approved_rule user x r) db"
    by (rule approve_update_late) (rule refl)
  ultimately show ?thesis
    using alone(1,2) raceable_versions [OF assms]
    by (simp add: race_def race_step_def versions_of_def write_version_snapshot_def update_rule_def)
qed

subsection \<open>Examples\<close>

lemma pending_example:
  "raceable example_env ''r'' (hd (db_rules pending_db)) pending_db [(''ann'', None), (''bob'', None)]"
  "raceable example_env ''r'' (hd (db_rules pending_db)) pending_db [(''ann'', None)]"
  "rr_version (hd (db_rules pending_db)) = 0"
proof -
  have "get_rule example_env pending_db ''r'' = Some (hd (db_rules pending_db))" by code_simp
  moreover have "rr_status (hd (db_rules pending_db)) = PendingApproval" by code_simp
  moreover have "unique_ids pending_db" by code_simp
  ultimately show "raceable example_env ''r'' (hd (db_rules pending_db)) pending_db [(''ann'', None), (''bob'', None)]"
    "raceable example_env ''r'' (hd (db_rules pending_db)) pending_db [(''ann'', None)]"
    using example_env_simps(1) by (simp_all add: raceable_def)
  show "rr_version (hd (db_rules pending_db)) = 0" by code_simp
qed

lemma racing_approvals_freeze_once_witness:
  "versions_of (snd (race example_env ''r'' [(''ann'', None), (''bob'', None)] [0, 1, 1, 0, 1] pending_db)) ''r'' \<in> {[], [1]}"
  using racing_approvals_freeze_once [OF pending_example(1) pending_exact, of "[0, 1, 1, 0, 1]"] pending_example(3) by simp

lemma racing_approvals_finish_witness:
  "versions_of (snd (race example_env ''r'' [(''ann'', None), (''bob'', None)] [0, 1, 1, 0, 1, 1, 0, 0, 1, 0] pending_db)) ''r'' = [1]"
proof -
  have "5 \<le> count_list [0, 1, 1, 0, 1, 1, 0, 0, 1, 0] i" if "i < length [(''ann'', None), (''bob'', None :: string option)]" for i :: nat
    using that by (auto simp: less_Suc_eq)
  from racing_approvals_finish [OF pending_example(1) pending_exact _ this] pending_example(3) show ?thesis by auto
qed

lemma double_click_freezes_twice_witness:
  "versions_of (snd (race example_env ''r'' [(''ann'', None), (''ann'', None)] [0, 1, 0, 1, 0, 1, 0, 1] pending_db)) ''r'' = [1, 1]"
  using double_click_freezes_twice [OF pending_example(2) pending_exact] pending_example(3) by simp

end
