(* ===== verification/Py_Text.thy ===== *)
theory Py_Text
  imports Action_Base
begin

section \<open>More of Python's texts\<close>

text \<open>
  Integers and their texts, replacement of a pattern, splitting at white space and at the first
  occurrence of a separator.
\<close>

text \<open>\<open>int(s)\<close>; \<open>None\<close> is its \<open>ValueError\<close>. The interpreter's configurable limit on digits is left out.\<close>

definition py_int_of_string :: "string \<Rightarrow> int option" where
  "py_int_of_string s = (let (neg, u) = scan_sign (py_strip s); (ds, rest) = scan_digits u in
     if ds = [] \<or> rest \<noteq> [] then None
     else Some (if neg then - int (nat_of_digits ds) else int (nat_of_digits ds)))"

text \<open>\<open>s.replace(p, r)\<close> for a pattern that is not empty.\<close>

function py_replace :: "string \<Rightarrow> string \<Rightarrow> string \<Rightarrow> string" where
  "py_replace p r [] = []"
| "py_replace p r (c # s) =
     (if p \<noteq> [] \<and> py_startswith (c # s) p then r @ py_replace p r (drop (length p - 1) s) else c # py_replace p r s)"
  by pat_completeness auto
termination by (relation "measure (\<lambda>(p, r, s). length s)") auto

text \<open>\<open>s.split()\<close>: the words of a text.\<close>

fun split_words :: "string \<Rightarrow> string \<Rightarrow> string list" where
  "split_words w [] = (if w = [] then [] else [w])"
| "split_words w (c # s) =
     (if \<not> py_isspace c then split_words (w @ [c]) s
      else if w = [] then split_words [] s else w # split_words [] s)"

definition py_words :: "string \<Rightarrow> string list" where
  "py_words s = split_words [] s"

text \<open>\<open>s.partition(c)\<close>: what is before and what is after the first \<open>c\<close>.\<close>

definition py_partition :: "char \<Rightarrow> string \<Rightarrow> string \<times> string" where
  "py_partition c s = (takeWhile (\<lambda>d. d \<noteq> c) s, drop 1 (dropWhile (\<lambda>d. d \<noteq> c) s))"

text \<open>\<open>s.upper()\<close> where the result is again a character below 256.\<close>

definition py_upper :: "string \<Rightarrow> string" where
  "py_upper s = map (\<lambda>c. let n = of_char c :: nat in
     if (97 \<le> n \<and> n \<le> 122) \<or> (224 \<le> n \<and> n \<le> 254 \<and> n \<noteq> 247) then char_of (n - 32) else c) s"

lemma nat_str_digits: "nat_str n \<noteq> [] \<and> list_all py_isdigit (nat_str n) \<and> nat_of_digits (map digit_val (nat_str n)) = n"
proof (induction n rule: nat_str.induct)
  case (1 n)
  have digit: "py_isdigit (char_of (48 + d)) \<and> digit_val (char_of (48 + d)) = d" if "d < 10" for d :: nat
    using that by (simp add: py_isdigit_def digit_val_def)
  show ?case
  proof (cases "n < 10")
    case True
    then show ?thesis using digit [of n] by (simp add: nat_str.simps [of n] nat_of_digits_def)
  next
    case False
    then show ?thesis
      using 1 digit [of "n mod 10"] by (simp add: nat_str.simps [of n] nat_of_digits_def)
  qed
qed

lemma py_int_of_nat_str: "py_int_of_string (int_str (int n)) = Some (int n)"
proof -
  obtain c cs where s: "nat_str n = c # cs" using nat_str_digits [of n] by (cases "nat_str n") auto
  then have c: "py_isdigit c" "list_all py_isdigit (c # cs)" using nat_str_digits [of n] by simp_all
  have "scan_sign (py_strip (nat_str n)) = (False, nat_str n)"
    using py_isdigit_props [OF c(1)] nat_str_digits [of n] by (simp add: digits_strip scan_sign_def s)
  moreover have "scan_digits (nat_str n) = (map digit_val (nat_str n), [])"
    using c by (simp add: s scan_digits_def scan_digits_tail_digits)
  ultimately show ?thesis
    using nat_str_digits [of n] by (simp add: py_int_of_string_def int_str_def)
qed

end
