(* ===== verification/Rule_Render.thy ===== *)
theory Rule_Render
  imports Registry_Gate Py_Text
begin

section \<open>Rendering of applied rules (\<open>backend/services/materializer.py\<close>, first part)\<close>

text \<open>
  How a frozen version of a registry rule becomes a check for the runner: the columns mapped to its
  slots are put in place of the \<open>{{slot}}\<close> placeholders, parameters are bound, tags are merged, and the
  SQL that results is scanned. What \<open>str\<close> makes of a float, a list or a dictionary, and \<open>dict\<close> of a
  list, are parameters.
\<close>

subsection \<open>Tags (\<open>backend/registry_models.py\<close>)\<close>

datatype render_error = RenderValueError | RenderUnsafeSql | RenderTypeError | RenderOverflow

record render_settings =
  rs_pass_threshold_enabled :: bool
  rs_default_pass_threshold :: int
  rs_label_definitions :: "json_dict list"
  rs_text :: "json \<Rightarrow> string"
  rs_dict :: "json list \<Rightarrow> render_error + json_dict"

text \<open>\<open>str(v)\<close>\<close>

fun json_text :: "render_settings \<Rightarrow> json \<Rightarrow> string" where
  "json_text st (JStr s) = s"
| "json_text st JNull = ''None''"
| "json_text st (JBool b) = (if b then ''True'' else ''False'')"
| "json_text st (JInt n) = int_str n"
| "json_text st v = rs_text st v"

definition clamp_percent :: "int \<Rightarrow> int" where
  "clamp_percent n = max 0 (min 100 n)"

text \<open>The \<open>OverflowError\<close> of \<open>int(inf)\<close> is not caught.\<close>

fun coerce_threshold :: "json \<Rightarrow> render_error + int option" where
  "coerce_threshold (JBool b) = Inr (Some (if b then 1 else 0))"
| "coerce_threshold (JInt n) = Inr (Some (clamp_percent n))"
| "coerce_threshold (JFloat (Fin q)) = Inr (Some (clamp_percent (trunc_rat q)))"
| "coerce_threshold (JFloat NaN) = Inr None"
| "coerce_threshold (JFloat _) = Inl RenderOverflow"
| "coerce_threshold (JStr s) = Inr (map_option clamp_percent (py_int_of_string s))"
| "coerce_threshold _ = Inr None"

definition get_rule_pass_threshold :: "json_dict \<Rightarrow> render_error + int option" where
  "get_rule_pass_threshold m = (case dict_get m ''pass_threshold'' of None \<Rightarrow> Inr None | Some v \<Rightarrow> coerce_threshold v)"

fun column_thresholds :: "json_dict \<Rightarrow> render_error + (string \<times> int) list" where
  "column_thresholds [] = Inr []"
| "column_thresholds ((c, v) # d) = sbind (coerce_threshold v) (\<lambda>t. sbind (column_thresholds d) (\<lambda>out.
     Inr (case t of None \<Rightarrow> out | Some n \<Rightarrow> (c, n) # out)))"

definition get_applied_column_pass_thresholds :: "json_dict \<Rightarrow> render_error + (string \<times> int) list" where
  "get_applied_column_pass_thresholds m = (case dict_get m ''column_pass_thresholds'' of
     Some (JDict d) \<Rightarrow> column_thresholds d
   | _ \<Rightarrow> Inr [])"

definition resolve_pass_threshold :: "int option \<Rightarrow> int option \<Rightarrow> int option \<Rightarrow> int \<Rightarrow> int" where
  "resolve_pass_threshold column rule registry admin = or_else column (or_else rule (or_else registry admin))"

definition severity_to_criticality :: "string \<Rightarrow> string" where
  "severity_to_criticality s = (if s \<in> {''High'', ''Critical''} then ''error'' else ''warn'')"

definition resolve_criticality :: "render_settings \<Rightarrow> string option \<Rightarrow> string" where
  "resolve_criticality st severity = (case severity of
     None \<Rightarrow> ''warn''
   | Some s \<Rightarrow> (case find (\<lambda>d. dict_get d ''key'' = Some (JStr ''severity'')) (rs_label_definitions st) of
       None \<Rightarrow> severity_to_criticality s
     | Some d \<Rightarrow> (case dict_get d ''value_criticality'' of
         Some (JDict m) \<Rightarrow> (case dict_get m s of Some v \<Rightarrow> json_text st v | None \<Rightarrow> severity_to_criticality s)
       | _ \<Rightarrow> severity_to_criticality s)))"

subsection \<open>Placeholders\<close>

type_synonym mapping_group = "(string \<times> string) list"

definition placeholder :: "rule_slot \<Rightarrow> string" where
  "placeholder slot = ''{{'' @ sl_name slot @ ''}}''"

text \<open>The columns of the comma-separated text that a slot of cardinality many is mapped to.\<close>

definition column_list :: "string \<Rightarrow> string list" where
  "column_list mapped = filter (\<lambda>c. c \<noteq> []) (map py_strip (py_split CHR '','' mapped))"

definition is_many :: "rule_slot \<Rightarrow> bool" where
  "is_many slot = (sl_cardinality slot = ''many'')"

definition slot_text :: "rule_slot \<Rightarrow> string \<Rightarrow> string" where
  "slot_text slot mapped = (if is_many slot then py_join '', '' (column_list mapped) else mapped)"

fun substitute_slots :: "mapping_group \<Rightarrow> rule_slot list \<Rightarrow> string \<Rightarrow> render_error + json" where
  "substitute_slots grp [] s = Inr (JStr s)"
| "substitute_slots grp (slot # slots) s =
     (if \<not> py_contains (placeholder slot) s then substitute_slots grp slots s
      else (case dict_get grp (sl_name slot) of
        None \<Rightarrow> Inl RenderValueError
      | Some mapped \<Rightarrow>
          if is_many slot \<and> s = placeholder slot then Inr (JList (map JStr (column_list mapped)))
          else substitute_slots grp slots (py_replace (placeholder slot) (slot_text slot mapped) s)))"

fun substitute_value :: "mapping_group \<Rightarrow> rule_slot list \<Rightarrow> json \<Rightarrow> render_error + json" where
  "substitute_value grp slots (JList vs) = sbind (smapM (substitute_value grp slots) vs) (\<lambda>ws. Inr (JList ws))"
| "substitute_value grp slots (JStr s) = substitute_slots grp slots s"
| "substitute_value grp slots v = Inr v"

fun substitute_text :: "string \<Rightarrow> mapping_group \<Rightarrow> rule_slot list \<Rightarrow> render_error + string" where
  "substitute_text s grp [] = Inr s"
| "substitute_text s grp (slot # slots) = (case dict_get grp (sl_name slot) of
     None \<Rightarrow> Inl RenderValueError
   | Some mapped \<Rightarrow> substitute_text (py_replace (placeholder slot) (slot_text slot mapped) s) grp slots)"

text \<open>The columns of a slot, for the list of mapped columns and for those of the filter.\<close>

definition slot_columns :: "rule_slot \<Rightarrow> string \<Rightarrow> string list" where
  "slot_columns slot mapped =
     (if is_many slot then column_list mapped else if py_strip mapped = [] then [] else [py_strip mapped])"

definition mapped_columns :: "mapping_group \<Rightarrow> rule_slot list \<Rightarrow> string list" where
  "mapped_columns grp slots = fold (\<lambda>slot cols. case dict_get grp (sl_name slot) of
     None \<Rightarrow> cols
   | Some mapped \<Rightarrow> fold (\<lambda>c cs. if c \<in> set cs then cs else cs @ [c]) (slot_columns slot mapped) cols) slots []"

definition filter_only_slot_names :: "rule_slot list \<Rightarrow> string option \<Rightarrow> string list" where
  "filter_only_slot_names slots f = (case f of
     None \<Rightarrow> []
   | Some f \<Rightarrow> if f = [] then [] else map sl_name (filter (\<lambda>slot. py_contains (placeholder slot) f) slots))"

definition filter_only_columns :: "mapping_group \<Rightarrow> rule_slot list \<Rightarrow> string option \<Rightarrow> string list" where
  "filter_only_columns grp slots f = concat (map (\<lambda>slot.
     if sl_name slot \<in> set (filter_only_slot_names slots f)
     then slot_columns slot (or_else (dict_get grp (sl_name slot)) []) else []) slots)"

text \<open>\<open>item not in columns\<close>: a list or a dictionary cannot be looked up in a set.\<close>

fun without_columns :: "string list \<Rightarrow> json list \<Rightarrow> render_error + json list" where
  "without_columns cols [] = Inr []"
| "without_columns cols (v # vs) = (case v of
     JList _ \<Rightarrow> Inl RenderTypeError
   | JDict _ \<Rightarrow> Inl RenderTypeError
   | JStr s \<Rightarrow> sbind (without_columns cols vs) (\<lambda>ws. Inr (if s \<in> set cols then ws else v # ws))
   | _ \<Rightarrow> sbind (without_columns cols vs) (\<lambda>ws. Inr (v # ws)))"

definition strip_filter_only :: "string list \<Rightarrow> string \<times> json \<Rightarrow> render_error + string \<times> json" where
  "strip_filter_only cols kv = (case kv of
     (k, JList vs) \<Rightarrow> sbind (without_columns cols vs) (\<lambda>ws. Inr (k, JList ws))
   | _ \<Rightarrow> Inr kv)"

definition bind_parameters :: "rule_parameter list \<Rightarrow> json_dict \<Rightarrow> json_dict" where
  "bind_parameters ps args = fold (\<lambda>p args. if pm_value p = JNull then args else dict_set args (pm_name p) (pm_value p)) ps args"

definition substitute_arguments ::
    "json_dict \<Rightarrow> mapping_group \<Rightarrow> rule_slot list \<Rightarrow> rule_parameter list \<Rightarrow> string option \<Rightarrow> render_error + json_dict" where
  "substitute_arguments body_arguments grp slots ps f =
     sbind (smapM (\<lambda>(k, v). sbind (substitute_value grp slots v) (\<lambda>w. Inr (k, w))) body_arguments) (\<lambda>args.
     if \<not> list_all (\<lambda>slot. dict_has grp (sl_name slot)) slots then Inl RenderValueError
     else (let args = bind_parameters ps args; cols = filter_only_columns grp slots f
       in if cols = [] then Inr args else smapM (strip_filter_only cols) args))"

subsection \<open>\<open>render_check\<close>\<close>

record rendered_check =
  rc_criticality :: string
  rc_function :: string
  rc_arguments :: json_dict
  rc_user_metadata :: "(string \<times> string) list"
  rc_name :: "string option"
  rc_message_expr :: "string option"
  rc_filter :: "string option"

text \<open>The dictionary the record stands for.\<close>

definition check_json :: "rendered_check \<Rightarrow> json_dict" where
  "check_json c = [(''criticality'', JStr (rc_criticality c)),
     (''check'', JDict [(''function'', JStr (rc_function c)), (''arguments'', JDict (rc_arguments c))]),
     (''user_metadata'', JDict (map (\<lambda>(k, v). (k, JStr v)) (rc_user_metadata c)))]
     @ (case rc_name c of None \<Rightarrow> [] | Some n \<Rightarrow> [(''name'', JStr n)])
     @ (case rc_message_expr c of None \<Rightarrow> [] | Some m \<Rightarrow> [(''message_expr'', JStr m)])
     @ (case rc_filter c of None \<Rightarrow> [] | Some f \<Rightarrow> [(''filter'', JStr f)])"

text \<open>\<open>json.dumps\<close> of a list of strings.\<close>

definition hex_digit :: "nat \<Rightarrow> char" where
  "hex_digit n = ''0123456789abcdef'' ! n"

definition json_char :: "char \<Rightarrow> string" where
  "json_char c = (let n = of_char c :: nat in
     if c = double_quote then [backslash, double_quote]
     else if c = backslash then [backslash, backslash]
     else if n = 10 then [backslash, CHR ''n''] else if n = 13 then [backslash, CHR ''r'']
     else if n = 9 then [backslash, CHR ''t''] else if n = 8 then [backslash, CHR ''b'']
     else if n = 12 then [backslash, CHR ''f'']
     else if n < 32 \<or> 126 < n then backslash # ''u00'' @ [hex_digit (n div 16), hex_digit (n mod 16)]
     else [c])"

definition dumps_texts :: "string list \<Rightarrow> string" where
  "dumps_texts ts = ''['' @ py_join '', '' (map (\<lambda>t. double_quote # concat (map json_char t) @ [double_quote]) ts) @ '']''"

definition build_user_metadata ::
    "json_dict \<Rightarrow> json_dict \<Rightarrow> string \<Rightarrow> polarity option \<Rightarrow> string \<Rightarrow> nat \<Rightarrow> string \<Rightarrow> (string \<times> string) list" where
  "build_user_metadata rule_tags tags severity pol rid version aid =
     (let texts = List.map_filter (\<lambda>(k, v). case v of JStr s \<Rightarrow> Some (k, s) | _ \<Rightarrow> None);
          m = dict_update [] (texts rule_tags @ texts tags);
          m = (case get_reserved_tag rule_tags ''dimension'' of None \<Rightarrow> m | Some d \<Rightarrow> dict_set m ''dimension'' d);
          m = dict_set m ''severity'' severity;
          m = (case pol of None \<Rightarrow> m | Some q \<Rightarrow> dict_set m ''polarity'' (polarity_value q))
      in dict_update m [(''registry_rule_id'', rid), (''registry_version'', int_str (int version)), (''applied_rule_id'', aid)])"

text \<open>What the caller passes besides the version and the mapping group.\<close>

record render_request =
  rq_severity :: string
  rq_tags :: json_dict
  rq_rule_id :: string
  rq_version :: nat
  rq_applied_id :: string
  rq_pass_threshold :: "int option"

text \<open>The branch of \<open>sql\<close> and \<open>lowcode\<close> rules with a query, and the one with a predicate.\<close>

definition render_query ::
    "render_settings \<Rightarrow> rule_definition \<Rightarrow> bool \<Rightarrow> mapping_group \<Rightarrow> json \<Rightarrow> render_error + string \<times> json_dict" where
  "render_query st d negate grp text =
     sbind (substitute_text (json_text st text) grp (df_slots d)) (\<lambda>query.
     if \<not> is_sql_query_safe (strip_sql_line_comments query) then Inl RenderUnsafeSql
     else (let args = [(''query'', JStr query), (''negate'', JBool negate)] in
       sbind (case dict_get (df_body d) ''merge_columns'' of
           Some (JList (c # cs)) \<Rightarrow>
             sbind (smapM (\<lambda>c. substitute_text (json_text st c) grp (df_slots d)) (c # cs)) (\<lambda>ts.
             Inr (args @ [(''merge_columns'', JList (map JStr ts))]))
         | _ \<Rightarrow> Inr args) (\<lambda>args.
       Inr (''sql_query'', bind_parameters (df_parameters d) args))))"

definition render_predicate ::
    "render_settings \<Rightarrow> rule_definition \<Rightarrow> bool \<Rightarrow> mapping_group \<Rightarrow> json option \<Rightarrow> render_error + string \<times> json_dict" where
  "render_predicate st d negate grp text =
     sbind (substitute_text (case text of None \<Rightarrow> [] | Some t \<Rightarrow> json_text st t) grp (df_slots d)) (\<lambda>expression.
     if \<not> is_sql_query_safe (strip_sql_line_comments expression) then Inl RenderUnsafeSql
     else (let args = [(''expression'', JStr expression), (''negate'', JBool negate)];
               cols = mapped_columns grp (df_slots d);
               args = (if cols = [] then args else args @ [(''columns'', JList (map JStr cols))])
       in Inr (''sql_expression'', bind_parameters (df_parameters d) args)))"

text \<open>\<open>dict(body.get('arguments', {}))\<close>\<close>

definition body_arguments :: "render_settings \<Rightarrow> json_dict \<Rightarrow> render_error + json_dict" where
  "body_arguments st body = (case dict_get body ''arguments'' of
     None \<Rightarrow> Inr []
   | Some (JDict d) \<Rightarrow> Inr d
   | Some (JList []) \<Rightarrow> Inr []
   | Some (JList vs) \<Rightarrow> rs_dict st vs
   | Some (JStr s) \<Rightarrow> if s = [] then Inr [] else Inl RenderValueError
   | Some _ \<Rightarrow> Inl RenderTypeError)"

definition render_native ::
    "render_settings \<Rightarrow> rule_version \<Rightarrow> mapping_group \<Rightarrow> render_error + string \<times> json_dict" where
  "render_native st v grp =
     (let d = rv_definition v in
      sbind (body_arguments st (df_body d)) (\<lambda>body_args.
      sbind (substitute_arguments body_args grp (df_slots d) (df_parameters d) (df_filter d)) (\<lambda>args.
      Inr (case dict_get (df_body d) ''function'' of None \<Rightarrow> [] | Some f \<Rightarrow> json_text st f,
           case rv_polarity v of None \<Rightarrow> args | Some q \<Rightarrow> dict_set args ''negate'' (JBool (q = PolarityFail))))))"

definition render_inner ::
    "render_settings \<Rightarrow> rule_mode \<Rightarrow> rule_version \<Rightarrow> mapping_group \<Rightarrow> render_error + string \<times> json_dict" where
  "render_inner st mode v grp =
     (let d = rv_definition v; negate = (rv_polarity v = Some PolarityFail) in
      if mode = DqxNative then render_native st v grp
      else (case dict_get (df_body d) ''sql_query'' of
        Some text \<Rightarrow> render_query st d negate grp text
      | None \<Rightarrow> render_predicate st d negate grp (dict_get (df_body d) ''predicate'')))"

definition is_tableless :: "rule_mode \<Rightarrow> rule_version \<Rightarrow> bool" where
  "is_tableless mode v \<longleftrightarrow> mode \<noteq> DqxNative \<and> dict_has (df_body (rv_definition v)) ''sql_query''
     \<and> df_slots (rv_definition v) = []"

definition effective_threshold ::
    "render_settings \<Rightarrow> rule_version \<Rightarrow> mapping_group \<Rightarrow> render_request \<Rightarrow> render_error + int" where
  "effective_threshold st v grp rq =
     sbind (get_applied_column_pass_thresholds (rq_tags rq)) (\<lambda>by_column.
     sbind (get_rule_pass_threshold (rv_user_metadata v)) (\<lambda>registry.
     let overrides = List.map_filter (dict_get by_column) (mapped_columns grp (df_slots (rv_definition v)))
     in Inr (resolve_pass_threshold (if overrides = [] then None else Some (Max (set overrides)))
          (rq_pass_threshold rq) registry (rs_default_pass_threshold st))))"

definition render_filter :: "rule_definition \<Rightarrow> mapping_group \<Rightarrow> render_error + string option" where
  "render_filter d grp = (case df_filter d of
     None \<Rightarrow> Inr None
   | Some f \<Rightarrow>
       if py_strip f = [] then Inr None
       else sbind (substitute_text f grp (df_slots d)) (\<lambda>t.
         if \<not> is_sql_query_safe (''SELECT * FROM _t WHERE ('' @ strip_sql_line_comments t @ '')'') then Inl RenderUnsafeSql
         else Inr (Some t)))"

definition render_check ::
    "render_settings \<Rightarrow> rule_mode \<Rightarrow> rule_version \<Rightarrow> mapping_group \<Rightarrow> render_request \<Rightarrow> render_error + rendered_check \<times> bool" where
  "render_check st mode v grp rq =
     sbind (render_inner st mode v grp) (\<lambda>(f, args).
     let m = build_user_metadata (rv_user_metadata v) (rq_tags rq) (rq_severity rq) (rv_polarity v)
               (rq_rule_id rq) (rq_version rq) (rq_applied_id rq) in
     sbind (if rs_pass_threshold_enabled st
            then sbind (effective_threshold st v grp rq) (\<lambda>n. Inr (dict_set m ''pass_threshold'' (int_str n)))
            else Inr m) (\<lambda>m.
     sbind (render_filter (rv_definition v) grp) (\<lambda>flt.
     let cols = mapped_columns grp (df_slots (rv_definition v));
         m = (if cols = [] then m else dict_set m ''mapped_columns'' (dumps_texts cols)) in
     Inr (\<lparr>rc_criticality = resolve_criticality st (Some (rq_severity rq)), rc_function = f, rc_arguments = args,
        rc_user_metadata = m, rc_name = get_rule_name (rv_user_metadata v),
        rc_message_expr = opt_str (df_error_message (rv_definition v)), rc_filter = flt\<rparr>, is_tableless mode v))))"

text \<open>The check of one mapping group among several gets the group's columns in its name.\<close>

definition suffix_check_name_with_columns :: "mapping_group \<Rightarrow> rule_slot list \<Rightarrow> rendered_check \<Rightarrow> rendered_check" where
  "suffix_check_name_with_columns grp slots c =
     (let cols = mapped_columns grp slots in
      case opt_str (rc_name c) of
        None \<Rightarrow> c
      | Some n \<Rightarrow> if cols = [] then c else c\<lparr>rc_name := Some (n @ '' ('' @ py_join '', '' cols @ '')'')\<rparr>)"

subsection \<open>What every rendered check has\<close>

lemmas render_cases = result_simps render_check_def render_inner_def render_query_def render_predicate_def

text \<open>The rendered dictionary is one that \<open>CheckSpec\<close> reads back, field by field.\<close>

lemma check_json_fields:
  "dict_get (check_json c) ''check'' = Some (JDict [(''function'', JStr (rc_function c)), (''arguments'', JDict (rc_arguments c))])"
  "dict_get (check_json c) ''criticality'' = Some (JStr (rc_criticality c))"
  "dict_get (check_json c) ''user_metadata'' = Some (JDict (map (\<lambda>(k, v). (k, JStr v)) (rc_user_metadata c)))"
  "dict_get (check_json c) ''name'' = map_option JStr (rc_name c)"
  "dict_get (check_json c) ''message_expr'' = map_option JStr (rc_message_expr c)"
  "dict_get (check_json c) ''filter'' = map_option JStr (rc_filter c)"
  "dict_get (check_json c) ''for_each_column'' = None"
  by (simp_all add: check_json_def map_add_def split: option.split)

text \<open>The runner's validator reads every rendered check back as it was rendered: the function, the arguments, the
  criticality, the tags and, where there are any, the name, the message and the filter.\<close>
theorem rendered_check_parses:
  "parse_check_fields (check_json c) = Inr
     \<lparr>cs_check = \<lparr>cb_function = rc_function c, cb_arguments = rc_arguments c, cb_for_each_column = None\<rparr>,
      cs_criticality = rc_criticality c, cs_name = rc_name c, cs_filter = rc_filter c,
      cs_user_metadata = Some (map (\<lambda>(k, v). (k, JStr v)) (rc_user_metadata c)), cs_message_expr = rc_message_expr c\<rparr>"
proof -
  have "parse_check_block (dict_get (check_json c) ''check'') = Inr \<lparr>cb_function = rc_function c,
      cb_arguments = rc_arguments c, cb_for_each_column = None\<rparr>"
    by (simp add: check_json_fields parse_check_block_def function_field_def arguments_field_def for_each_field_def both_def)
  then show ?thesis
    by (simp add: parse_check_fields_def opt_str_field_def str_field_def metadata_field_def check_json_fields both_def
        split: option.split)
qed

lemma user_metadata_fields:
  assumes "m = build_user_metadata tags tags' severity pol rid n aid"
  shows "dict_get m ''registry_rule_id'' = Some rid" "dict_get m ''applied_rule_id'' = Some aid"
    "dict_get m ''severity'' = Some severity" "dict_get m ''registry_version'' = Some (int_str (int n))"
  unfolding assms build_user_metadata_def Let_def by (simp_all split: option.split)

lemma render_tags:
  assumes "render_check st mode v grp rq = Inr (c, tbl)"
  shows "dict_get (rc_user_metadata c) ''registry_rule_id'' = Some (rq_rule_id rq)
    \<and> dict_get (rc_user_metadata c) ''applied_rule_id'' = Some (rq_applied_id rq)
    \<and> dict_get (rc_user_metadata c) ''severity'' = Some (rq_severity rq)
    \<and> map_option py_int_of_string (dict_get (rc_user_metadata c) ''registry_version'') = Some (Some (int (rq_version rq)))"
proof -
  let ?m = "build_user_metadata (rv_user_metadata v) (rq_tags rq) (rq_severity rq) (rv_polarity v) (rq_rule_id rq) (rq_version rq) (rq_applied_id rq)"
  have "dict_get (rc_user_metadata c) k = dict_get ?m k" if "k \<noteq> ''pass_threshold''" "k \<noteq> ''mapped_columns''" for k
    using assms that by (auto simp: render_check_def result_simps Let_def split: if_splits)
  then show ?thesis by (simp add: user_metadata_fields [OF refl] py_int_of_nat_str)
qed

text \<open>The tags of a rule or of an application never displace the provenance of a check: whatever they say,
  the rendered check names the rule, the version and the application it was rendered from and the severity
  that was decided for it, and the version is read back from its text.\<close>
theorem rendered_provenance:
  assumes "render_check st mode v grp rq = Inr (c, tbl)"
  shows "dict_get (rc_user_metadata c) ''registry_rule_id'' = Some (rq_rule_id rq)
    \<and> dict_get (rc_user_metadata c) ''applied_rule_id'' = Some (rq_applied_id rq)
    \<and> dict_get (rc_user_metadata c) ''severity'' = Some (rq_severity rq)
    \<and> map_option py_int_of_string (dict_get (rc_user_metadata c) ''registry_version'') = Some (Some (int (rq_version rq)))"
  by (rule render_tags [OF assms])

lemma bind_parameters_get:
  "(\<And>p. p \<in> set ps \<Longrightarrow> pm_value p \<noteq> JNull \<Longrightarrow> pm_name p \<noteq> k) \<Longrightarrow> dict_get (bind_parameters ps args) k = dict_get args k"
  by (induction ps arbitrary: args) (auto simp: bind_parameters_def)

definition sql_argument :: "string \<Rightarrow> string" where
  "sql_argument f = (if f = ''sql_query'' then ''query'' else ''expression'')"

definition binds :: "rule_definition \<Rightarrow> string \<Rightarrow> bool" where
  "binds d k \<longleftrightarrow> list_ex (\<lambda>p. pm_name p = k \<and> pm_value p \<noteq> JNull) (df_parameters d)"

lemma render_inner_scanned:
  assumes "render_inner st mode v grp = Inr (f, args)" "mode \<noteq> DqxNative"
    and "\<not> binds (rv_definition v) ''query''" "\<not> binds (rv_definition v) ''expression''"
  shows "\<exists>sql. dict_get args (sql_argument f) = Some (JStr sql) \<and> is_sql_query_safe (strip_sql_line_comments sql)"
proof -
  let ?ps = "df_parameters (rv_definition v)"
  have get: "dict_get (bind_parameters ?ps a) ''query'' = dict_get a ''query''"
    "dict_get (bind_parameters ?ps a) ''expression'' = dict_get a ''expression''" for a
    using assms(3,4) by (intro bind_parameters_get; auto simp: binds_def list_ex_iff)+
  show ?thesis
  proof (cases "dict_get (df_body (rv_definition v)) ''sql_query''")
    case None
    then show ?thesis using assms(1,2) get(2)
      by (auto simp: render_cases sql_argument_def Let_def split: if_splits)
  next
    case (Some t)
    then show ?thesis using assms(1,2) get(1)
      by (auto simp: render_cases sql_argument_def Let_def split: if_splits option.splits json.splits list.splits)
  qed
qed

text \<open>C11: The SQL a SQL or low-code rule hands to the runner, with the mapped columns already in it, passed the scan for
  destructive statements, and so did the row filter, as long as no parameter of the rule is called
  \<open>query\<close> or \<open>expression\<close>.\<close>
theorem rendered_sql_scanned:
  assumes "render_check st mode v grp rq = Inr (c, tbl)" "mode \<noteq> DqxNative"
    and "\<not> binds (rv_definition v) ''query''" "\<not> binds (rv_definition v) ''expression''"
  shows "(\<exists>sql. dict_get (rc_arguments c) (sql_argument (rc_function c)) = Some (JStr sql)
      \<and> is_sql_query_safe (strip_sql_line_comments sql))
    \<and> (rc_filter c = None \<or> (\<exists>f. rc_filter c = Some f
      \<and> is_sql_query_safe (''SELECT * FROM _t WHERE ('' @ strip_sql_line_comments f @ '')'')))"
proof -
  obtain f args where inner: "render_inner st mode v grp = Inr (f, args)" and c: "rc_function c = f" "rc_arguments c = args"
    and flt: "render_filter (rv_definition v) grp = Inr (rc_filter c)"
    using assms(1) by (auto simp: render_check_def result_simps Let_def)
  show ?thesis
  proof
    show "\<exists>sql. dict_get (rc_arguments c) (sql_argument (rc_function c)) = Some (JStr sql)
        \<and> is_sql_query_safe (strip_sql_line_comments sql)"
      using render_inner_scanned [OF inner assms(2-4)] c by simp
    show "rc_filter c = None \<or> (\<exists>f. rc_filter c = Some f
        \<and> is_sql_query_safe (''SELECT * FROM _t WHERE ('' @ strip_sql_line_comments f @ '')''))"
      using flt by (auto simp: render_filter_def result_simps split: option.splits if_splits)
  qed
qed

subsection \<open>Around the scan\<close>

definition example_settings :: render_settings where
  "example_settings = \<lparr>rs_pass_threshold_enabled = True, rs_default_pass_threshold = 95, rs_label_definitions = [],
     rs_text = (\<lambda>_. []), rs_dict = (\<lambda>_. Inl RenderTypeError)\<rparr>"

definition example_request :: render_request where
  "example_request = \<lparr>rq_severity = ''High'', rq_tags = [], rq_rule_id = ''r'', rq_version = 1, rq_applied_id = ''a'',
     rq_pass_threshold = None\<rparr>"

definition example_version :: "rule_mode \<Rightarrow> json_dict \<Rightarrow> rule_slot list \<Rightarrow> rule_parameter list \<Rightarrow> string option \<Rightarrow> rule_version" where
  "example_version mode body slots ps f = \<lparr>rv_rule_id = ''r'', rv_version = 1, rv_mode = Some mode,
     rv_definition = \<lparr>df_body = body, df_slots = slots, df_parameters = ps, df_error_message = None, df_filter = f\<rparr>,
     rv_polarity = None, rv_user_metadata = [(''name'', JStr ''n'')], rv_created_by = None\<rparr>"

lemma rendered_case: "(case m of Inl e \<Rightarrow> False | Inr (c, b) \<Rightarrow> P c b) \<Longrightarrow> \<exists>c b. m = Inr (c, b) \<and> P c b"
  by (auto split: sum.splits)

text \<open>A parameter called \<open>query\<close> replaces the query that was scanned: a rule that passes the scan when it is
  written and again when it is rendered hands the runner a statement that drops a table.\<close>
theorem parameter_replaces_scanned_query:
  "\<exists>v c. validate_definition_sql_safety SqlMode (rv_definition v) = Inr ()
    \<and> render_check example_settings SqlMode v [] example_request = Inr (c, True)
    \<and> dict_get (rc_arguments c) ''query'' = Some (JStr ''DROP TABLE t'') \<and> \<not> is_sql_query_safe ''DROP TABLE t''"
proof -
  let ?v = "example_version SqlMode [(''sql_query'', JStr ''SELECT 1'')] []
    [\<lparr>pm_name = ''query'', pm_type = ''string'', pm_value = JStr ''DROP TABLE t''\<rparr>] None"
  have valid: "validate_definition_sql_safety SqlMode (rv_definition ?v) = Inr ()" by code_simp
  have "(case render_check example_settings SqlMode ?v [] example_request of Inl e \<Rightarrow> False
    | Inr (c, tbl) \<Rightarrow> tbl = True \<and> dict_get (rc_arguments c) ''query'' = Some (JStr ''DROP TABLE t''))" by code_simp
  from rendered_case [OF this] obtain c where c: "render_check example_settings SqlMode ?v [] example_request = Inr (c, True)"
    "dict_get (rc_arguments c) ''query'' = Some (JStr ''DROP TABLE t'')" by blast
  have "\<not> is_sql_query_safe ''DROP TABLE t''" by code_simp
  with valid c show ?thesis by blast
qed

text \<open>The columns mapped to a native rule reach its SQL expression unscanned: a mapping with a destructive
  statement is refused by the same expression in a SQL rule, and rendered in a native one.\<close>
theorem native_mapping_unscanned:
  "\<exists>d grp c. validate_definition_sql_safety DqxNative d = Inr ()
    \<and> render_check example_settings DqxNative (example_version DqxNative (df_body d) (df_slots d) [] None) grp example_request = Inr (c, False)
    \<and> dict_get (rc_arguments c) ''expression'' = Some (JStr ''(DROP TABLE t) > 0'')
    \<and> render_check example_settings SqlMode (example_version SqlMode [(''predicate'', JStr ''{{x}} > 0'')] (df_slots d) [] None) grp
        example_request = Inl RenderUnsafeSql"
proof -
  let ?d = "\<lparr>df_body = [(''function'', JStr ''sql_expression''), (''arguments'', JDict [(''expression'', JStr ''{{x}} > 0'')])],
    df_slots = [example_slot ''x''], df_parameters = [], df_error_message = None, df_filter = None\<rparr>"
  let ?g = "[(''x'', ''(DROP TABLE t)'')]"
  have valid: "validate_definition_sql_safety DqxNative ?d = Inr ()" by code_simp
  have "(case render_check example_settings DqxNative (example_version DqxNative (df_body ?d) (df_slots ?d) [] None) ?g example_request of
      Inl e \<Rightarrow> False
    | Inr (c, tbl) \<Rightarrow> tbl = False \<and> dict_get (rc_arguments c) ''expression'' = Some (JStr ''(DROP TABLE t) > 0''))" by code_simp
  from rendered_case [OF this] obtain c where c: "render_check example_settings DqxNative (example_version DqxNative (df_body ?d) (df_slots ?d) [] None) ?g example_request = Inr (c, False)"
    "dict_get (rc_arguments c) ''expression'' = Some (JStr ''(DROP TABLE t) > 0'')" by blast
  have "render_check example_settings SqlMode (example_version SqlMode [(''predicate'', JStr ''{{x}} > 0'')] (df_slots ?d) [] None) ?g
      example_request = Inl RenderUnsafeSql" by code_simp
  with valid c show ?thesis by blast
qed

text \<open>A slot that the row filter uses is taken out of the list arguments even when the rule's own arguments use it: a rule
  on the uniqueness of \<open>{{x}}\<close> that only looks at rows where \<open>{{x}}\<close> is positive is rendered without columns.\<close>
theorem filter_takes_argument_away:
  "\<exists>c. render_check example_settings DqxNative
      (example_version DqxNative [(''function'', JStr ''is_unique''), (''arguments'', JDict [(''columns'', JList [JStr ''{{x}}''])])]
        [example_slot ''x''] [] (Some ''{{x}} > 0'')) [(''x'', ''id'')] example_request = Inr (c, False)
    \<and> rc_arguments c = [(''columns'', JList [])] \<and> rc_filter c = Some ''id > 0''"
proof -
  have "(case render_check example_settings DqxNative
      (example_version DqxNative [(''function'', JStr ''is_unique''), (''arguments'', JDict [(''columns'', JList [JStr ''{{x}}''])])]
        [example_slot ''x''] [] (Some ''{{x}} > 0'')) [(''x'', ''id'')] example_request of
      Inl e \<Rightarrow> False
    | Inr (c, tbl) \<Rightarrow> tbl = False \<and> rc_arguments c = [(''columns'', JList [])] \<and> rc_filter c = Some ''id > 0'')" by code_simp
  from rendered_case [OF this] show ?thesis by blast
qed

definition example_check :: "render_error + rendered_check \<times> bool" where
  "example_check = render_check example_settings SqlMode (example_version SqlMode [(''predicate'', JStr ''{{x}} > 0'')] [example_slot ''x''] [] (Some ''{{x}} < 9''))
     [(''x'', ''id'')] example_request"

lemma example_check_rendered: "\<exists>c tbl. example_check = Inr (c, tbl)"
proof -
  have "(case example_check of Inl e \<Rightarrow> False | Inr p \<Rightarrow> True)" by code_simp
  then show ?thesis by (auto split: sum.splits)
qed

lemma rendered_provenance_witness:
  "\<exists>c tbl. example_check = Inr (c, tbl) \<and> dict_get (rc_user_metadata c) ''registry_rule_id'' = Some ''r''"
proof -
  obtain c tbl where c: "example_check = Inr (c, tbl)" using example_check_rendered by blast
  then show ?thesis using rendered_provenance [OF c [unfolded example_check_def]] by (auto simp: example_request_def)
qed

lemma rendered_sql_scanned_witness:
  "\<exists>c tbl sql. example_check = Inr (c, tbl) \<and> dict_get (rc_arguments c) (sql_argument (rc_function c)) = Some (JStr sql)
    \<and> is_sql_query_safe (strip_sql_line_comments sql)"
proof -
  obtain c tbl where c: "example_check = Inr (c, tbl)" using example_check_rendered by blast
  show ?thesis
    using rendered_sql_scanned [OF c [unfolded example_check_def]] c by (auto simp: binds_def example_version_def)
qed

end
