(* ===== verification/Materializer.thy ===== *)
theory Materializer
  imports Rule_Render
begin

section \<open>Materialization (\<open>backend/services/materializer.py\<close>, second part)\<close>

text \<open>
  The rows of \<open>dq_resolved_rules\<close> that the runner reads, and how the applications of registry rules to a
  monitored table are written to them. An operation that raises leaves the rows it has written: its
  result is the error or the value, with the rows. Rows are read and written in table order; the
  fingerprint column and the timestamps are left out.
\<close>

subsection \<open>State\<close>

datatype check_status = CheckDraft | CheckPending | CheckApproved | CheckRejected

text \<open>\<open>None\<close> as the check stands for an empty or unreadable text.\<close>

record resolved_row =
  rw_id :: string
  rw_table :: string
  rw_check :: "json option"
  rw_version :: nat
  rw_status :: check_status
  rw_source :: string
  rw_rule_id :: "string option"
  rw_registry_version :: "nat option"
  rw_applied_id :: "string option"
  rw_created_by :: "string option"

record applied_rule =
  ap_id :: string
  ap_binding :: string
  ap_rule_id :: string
  ap_pinned :: "int option"
  ap_severity_override :: "string option"
  ap_pass_threshold :: "int option"
  ap_mapping :: "mapping_group list"
  ap_tags :: json_dict
  ap_created_by :: "string option"

record studio =
  sd_registry :: registry_db
  sd_tables :: "(string \<times> string) list"
  sd_applied :: "applied_rule list"
  sd_rows :: "resolved_row list"

record mat_env =
  me_registry :: registry_env
  me_settings :: render_settings
  me_auto_upgrade :: bool

datatype mat_error = MissingBinding string | RenderFailed render_error | BadVersion

subsection \<open>Rendering an application\<close>

definition resolve_registry :: "mat_env \<Rightarrow> registry_db \<Rightarrow> applied_rule \<Rightarrow> (registry_rule \<times> nat \<times> rule_version) option" where
  "resolve_registry env reg ap = (case get_rule (me_registry env) reg (ap_rule_id ap) of
     None \<Rightarrow> None
   | Some r \<Rightarrow>
       if ap_id ap = [] then None
       else (let n = (case ap_pinned ap of Some p \<Rightarrow> if p = 0 then int (rr_version r) else p | None \<Rightarrow> int (rr_version r))
         in if n \<le> 0 then None
            else map_option (\<lambda>v. (r, nat n, v)) (get_version reg (ap_rule_id ap) (nat n))))"

definition is_alnum :: "char \<Rightarrow> bool" where
  "is_alnum c \<longleftrightarrow> word_char c \<and> c \<noteq> CHR ''_''"

definition slugify :: "string \<Rightarrow> string" where
  "slugify s = (let t = map (\<lambda>c. if is_alnum c then c else CHR ''_'') (py_lower (py_strip s));
     t = rev (dropWhile (\<lambda>c. c = CHR ''_'') (rev (dropWhile (\<lambda>c. c = CHR ''_'') t)))
   in if t = [] then ''check'' else t)"

definition synthetic_prefix :: string where
  "synthetic_prefix = ''__sql_check__/''"

definition resolve_table_fqn :: "string \<Rightarrow> bool \<Rightarrow> registry_rule \<Rightarrow> rule_version \<Rightarrow> string" where
  "resolve_table_fqn fqn tableless r v =
     (if \<not> tableless then fqn else synthetic_prefix @ slugify (str_or (get_rule_name (rv_user_metadata v)) (rr_id r)))"

definition row_id_of :: "string \<Rightarrow> nat \<Rightarrow> string" where
  "row_id_of aid i = aid @ ''-'' @ int_str (int i)"

definition effective_severity :: "applied_rule \<Rightarrow> rule_version \<Rightarrow> string" where
  "effective_severity ap v =
     str_or (ap_severity_override ap) (str_or (get_reserved_tag (rv_user_metadata v) ''severity'') ''Medium'')"

definition request_of :: "applied_rule \<Rightarrow> nat \<Rightarrow> rule_version \<Rightarrow> render_request" where
  "request_of ap n v = \<lparr>rq_severity = effective_severity ap v, rq_tags = ap_tags ap, rq_rule_id = ap_rule_id ap,
     rq_version = n, rq_applied_id = ap_id ap, rq_pass_threshold = ap_pass_threshold ap\<rparr>"

type_synonym rendered_row = "string \<times> string \<times> rendered_check"

text \<open>A group that raises \<open>ValueError\<close> or is unsafe is skipped; any other error is raised.\<close>

fun render_groups ::
    "mat_env \<Rightarrow> string \<Rightarrow> applied_rule \<Rightarrow> registry_rule \<Rightarrow> nat \<Rightarrow> rule_version \<Rightarrow> nat \<Rightarrow> mapping_group list
     \<Rightarrow> render_error + rendered_row list" where
  "render_groups env fqn ap r n v i [] = Inr []"
| "render_groups env fqn ap r n v i (g # gs) =
     (case render_check (me_settings env) (or_else (rv_mode v) (rr_mode r)) v g (request_of ap n v) of
        Inl e \<Rightarrow> if e \<in> {RenderValueError, RenderUnsafeSql} then render_groups env fqn ap r n v (Suc i) gs else Inl e
      | Inr (c, tableless) \<Rightarrow>
          sbind (render_groups env fqn ap r n v (Suc i) gs) (\<lambda>rest.
          Inr ((row_id_of (ap_id ap) i, resolve_table_fqn fqn tableless r v,
                if 1 < length (ap_mapping ap) then suffix_check_name_with_columns g (df_slots (rv_definition v)) c else c) # rest)))"

text \<open>\<open>None\<close> when the application cannot be resolved.\<close>

definition iter_rendered_checks :: "mat_env \<Rightarrow> registry_db \<Rightarrow> string \<Rightarrow> applied_rule \<Rightarrow> render_error + rendered_row list option" where
  "iter_rendered_checks env reg fqn ap = (case resolve_registry env reg ap of
     None \<Rightarrow> Inr None
   | Some (r, n, v) \<Rightarrow> sbind (render_groups env fqn ap r n v 0 (ap_mapping ap)) (\<lambda>rows. Inr (Some rows)))"

subsection \<open>Writing the rows of an application\<close>

definition decide_status :: "check_status \<Rightarrow> bool \<Rightarrow> bool \<Rightarrow> bool \<Rightarrow> bool \<Rightarrow> check_status" where
  "decide_status existing content_changed pinned auto_upgrade version_changed =
     (if \<not> content_changed then existing
      else if existing = CheckApproved then
        (if pinned \<or> \<not> version_changed then CheckPending else if auto_upgrade then CheckApproved else CheckPending)
      else if existing = CheckRejected then CheckDraft
      else existing)"

definition same_content :: "json option \<Rightarrow> rendered_check \<Rightarrow> bool" where
  "same_content stored c \<longleftrightarrow> map_option sort_json stored = Some (sort_json (JDict (check_json c)))"

definition new_row :: "rendered_row \<Rightarrow> nat \<Rightarrow> applied_rule \<Rightarrow> resolved_row" where
  "new_row rendered n ap = (case rendered of (rid, fqn, c) \<Rightarrow>
     \<lparr>rw_id = rid, rw_table = fqn, rw_check = Some (JDict (check_json c)), rw_version = n, rw_status = CheckDraft,
      rw_source = ''registry'', rw_rule_id = Some (ap_rule_id ap), rw_registry_version = Some n,
      rw_applied_id = Some (ap_id ap), rw_created_by = opt_str (ap_created_by ap)\<rparr>)"

definition updated_row :: "rendered_row \<Rightarrow> nat \<Rightarrow> applied_rule \<Rightarrow> check_status \<Rightarrow> resolved_row \<Rightarrow> resolved_row" where
  "updated_row rendered n ap st row = (case rendered of (rid, fqn, c) \<Rightarrow>
     row\<lparr>rw_table := fqn, rw_check := Some (JDict (check_json c)), rw_version := n, rw_status := st, rw_source := ''registry'',
      rw_rule_id := Some (ap_rule_id ap), rw_registry_version := Some n, rw_applied_id := Some (ap_id ap)\<rparr>)"

definition upsert_materialized_row ::
    "bool \<Rightarrow> applied_rule \<Rightarrow> rendered_row \<Rightarrow> nat \<Rightarrow> resolved_row list \<Rightarrow> resolved_row list" where
  "upsert_materialized_row auto_upgrade ap rendered n rows = (case rendered of (rid, fqn, c) \<Rightarrow>
     (case find (\<lambda>row. rw_id row = rid) rows of
        None \<Rightarrow> rows @ [new_row rendered n ap]
      | Some row \<Rightarrow>
          (let changed = (\<not> same_content (rw_check row) c);
               version_changed = (rw_registry_version row \<noteq> None \<and> rw_registry_version row \<noteq> Some n);
               st = decide_status (rw_status row) changed (ap_pinned ap \<noteq> None) auto_upgrade version_changed
           in map (\<lambda>row. if rw_id row = rid then updated_row rendered n ap st row else row) rows)))"

definition delete_ids :: "string list \<Rightarrow> resolved_row list \<Rightarrow> resolved_row list" where
  "delete_ids ids rows = filter (\<lambda>row. rw_id row \<notin> set ids) rows"

definition delete_stale_groups :: "string \<Rightarrow> string list \<Rightarrow> resolved_row list \<Rightarrow> resolved_row list" where
  "delete_stale_groups aid expected rows = (if aid = [] then rows
     else delete_ids (filter (\<lambda>i. i \<notin> set expected) (map rw_id (filter (\<lambda>row. rw_applied_id row = Some aid) rows))) rows)"

definition existing_group_ids :: "string \<Rightarrow> resolved_row list \<Rightarrow> string list" where
  "existing_group_ids aid rows = (if aid = [] then []
     else filter (\<lambda>i. i \<noteq> []) (map rw_id (filter (\<lambda>row. rw_applied_id row = Some aid) rows)))"

text \<open>The version is read back from the tags of the rendered check.\<close>

definition version_of_check :: "rendered_check \<Rightarrow> nat option" where
  "version_of_check c = map_option nat (Option.bind (dict_get (rc_user_metadata c) ''registry_version'') py_int_of_string)"

fun upsert_rows ::
    "bool \<Rightarrow> applied_rule \<Rightarrow> rendered_row list \<Rightarrow> resolved_row list \<Rightarrow> (mat_error + unit) \<times> resolved_row list" where
  "upsert_rows auto_upgrade ap [] rows = (Inr (), rows)"
| "upsert_rows auto_upgrade ap (x # xs) rows = (case version_of_check (snd (snd x)) of
     None \<Rightarrow> (Inl BadVersion, rows)
   | Some n \<Rightarrow> upsert_rows auto_upgrade ap xs (upsert_materialized_row auto_upgrade ap x n rows))"

definition materialize_applied_rule ::
    "mat_env \<Rightarrow> registry_db \<Rightarrow> string \<Rightarrow> applied_rule \<Rightarrow> resolved_row list \<Rightarrow> (mat_error + string list) \<times> resolved_row list" where
  "materialize_applied_rule env reg fqn ap rows = (case iter_rendered_checks env reg fqn ap of
     Inl e \<Rightarrow> (Inl (RenderFailed e), rows)
   | Inr None \<Rightarrow> (Inr [], rows)
   | Inr (Some rendered) \<Rightarrow>
       if rendered = [] \<and> ap_mapping ap \<noteq> [] then (Inr (existing_group_ids (ap_id ap) rows), rows)
       else (case upsert_rows (me_auto_upgrade env) ap rendered rows of
         (Inl e, rows) \<Rightarrow> (Inl e, rows)
       | (Inr _, rows) \<Rightarrow> (let ids = map fst rendered in (Inr ids, delete_stale_groups (ap_id ap) ids rows))))"

subsection \<open>A binding\<close>

text \<open>The applications of a binding, those without an id skipped.\<close>

definition applications :: "studio \<Rightarrow> string \<Rightarrow> applied_rule list" where
  "applications sd bid = filter (\<lambda>ap. ap_binding ap = bid \<and> ap_id ap \<noteq> []) (sd_applied sd)"

fun materialize_all ::
    "mat_env \<Rightarrow> registry_db \<Rightarrow> string \<Rightarrow> applied_rule list \<Rightarrow> resolved_row list \<Rightarrow> (mat_error + string list) \<times> resolved_row list" where
  "materialize_all env reg fqn [] rows = (Inr [], rows)"
| "materialize_all env reg fqn (ap # aps) rows = (case materialize_applied_rule env reg fqn ap rows of
     (Inl e, rows) \<Rightarrow> (Inl e, rows)
   | (Inr ids, rows) \<Rightarrow> (case materialize_all env reg fqn aps rows of
       (Inl e, rows) \<Rightarrow> (Inl e, rows)
     | (Inr ids', rows) \<Rightarrow> (Inr (ids @ ids'), rows)))"

definition orphan :: "applied_rule list \<Rightarrow> string \<Rightarrow> string list \<Rightarrow> resolved_row \<Rightarrow> bool" where
  "orphan applied fqn applied_ids row = (case rw_applied_id row of
     None \<Rightarrow> False
   | Some aid \<Rightarrow> aid \<notin> set applied_ids
       \<and> (rw_table row = fqn \<or> py_startswith (rw_table row) synthetic_prefix \<and> aid \<notin> set (map ap_id applied)))"

definition cleanup_orphans ::
    "applied_rule list \<Rightarrow> string \<Rightarrow> string list \<Rightarrow> string list \<Rightarrow> resolved_row list \<Rightarrow> resolved_row list" where
  "cleanup_orphans applied fqn applied_ids written rows =
     delete_ids (filter (\<lambda>i. i \<notin> set written) (map rw_id (filter (orphan applied fqn applied_ids) rows))) rows"

definition materialize_binding :: "mat_env \<Rightarrow> string \<Rightarrow> studio \<Rightarrow> (mat_error + string list) \<times> studio" where
  "materialize_binding env bid sd = (case dict_get (sd_tables sd) bid of
     None \<Rightarrow> (Inl (MissingBinding bid), sd)
   | Some fqn \<Rightarrow>
       (let aps = applications sd bid in
        case materialize_all env (sd_registry sd) fqn aps (sd_rows sd) of
          (Inl e, rows) \<Rightarrow> (Inl e, sd\<lparr>sd_rows := rows\<rparr>)
        | (Inr ids, rows) \<Rightarrow>
            (Inr (sort (remdups ids)),
             sd\<lparr>sd_rows := cleanup_orphans (sd_applied sd) fqn (map ap_id aps) ids rows\<rparr>)))"

text \<open>The dry run of a binding, of all its rules or of some.\<close>

fun render_all :: "mat_env \<Rightarrow> registry_db \<Rightarrow> string \<Rightarrow> applied_rule list \<Rightarrow> mat_error + rendered_check list" where
  "render_all env reg fqn [] = Inr []"
| "render_all env reg fqn (ap # aps) = (case iter_rendered_checks env reg fqn ap of
     Inl e \<Rightarrow> Inl (RenderFailed e)
   | Inr rendered \<Rightarrow> sbind (render_all env reg fqn aps) (\<lambda>rest.
       Inr ((case rendered of None \<Rightarrow> [] | Some rs \<Rightarrow> map (snd \<circ> snd) rs) @ rest)))"

definition render_binding_checks :: "mat_env \<Rightarrow> string \<Rightarrow> string list option \<Rightarrow> studio \<Rightarrow> mat_error + rendered_check list" where
  "render_binding_checks env bid rule_ids sd = (case dict_get (sd_tables sd) bid of
     None \<Rightarrow> Inl (MissingBinding bid)
   | Some fqn \<Rightarrow> render_all env (sd_registry sd) fqn (filter (\<lambda>ap. case rule_ids of
       None \<Rightarrow> True | Some [] \<Rightarrow> True | Some rids \<Rightarrow> ap_rule_id ap \<in> set rids) (applications sd bid)))"

text \<open>After a rule was published, every binding that follows it is materialized again.\<close>

fun materialize_bindings :: "mat_env \<Rightarrow> string list \<Rightarrow> studio \<Rightarrow> (mat_error + unit) \<times> studio" where
  "materialize_bindings env [] sd = (Inr (), sd)"
| "materialize_bindings env (bid # bids) sd = (case materialize_binding env bid sd of
     (Inr _, sd) \<Rightarrow> materialize_bindings env bids sd
   | (Inl (MissingBinding b), sd) \<Rightarrow> materialize_bindings env bids sd
   | (Inl e, sd) \<Rightarrow> (Inl e, sd))"

definition following_bindings :: "string \<Rightarrow> studio \<Rightarrow> string list" where
  "following_bindings rid sd = sort (remdups (filter (\<lambda>b. b \<noteq> [])
     (map ap_binding (filter (\<lambda>ap. ap_rule_id ap = rid \<and> ap_pinned ap = None) (sd_applied sd)))))"

definition rematerialize_for_rule :: "mat_env \<Rightarrow> string \<Rightarrow> studio \<Rightarrow> (mat_error + string list) \<times> studio" where
  "rematerialize_for_rule env rid sd = (let bids = following_bindings rid sd in
     case materialize_bindings env bids sd of (Inl e, sd) \<Rightarrow> (Inl e, sd) | (Inr _, sd) \<Rightarrow> (Inr bids, sd))"

subsection \<open>Nothing is approved by materializing\<close>

definition content :: "resolved_row \<Rightarrow> json option" where
  "content row = map_option sort_json (rw_check row)"

text \<open>Every approved row was approved before, with the same content unless \<open>auto\<close>.\<close>

definition approved_from :: "bool \<Rightarrow> resolved_row list \<Rightarrow> resolved_row list \<Rightarrow> bool" where
  "approved_from auto rows rows' \<longleftrightarrow> (\<forall>r' \<in> set rows'. rw_status r' = CheckApproved \<longrightarrow>
     (\<exists>r \<in> set rows. rw_id r = rw_id r' \<and> rw_status r = CheckApproved \<and> (content r = content r' \<or> auto)))"

lemma approved_from_subset: "set rows' \<subseteq> set rows \<Longrightarrow> approved_from auto rows rows'"
  by (auto simp: approved_from_def)

lemma approved_from_trans: "approved_from auto rows rows' \<Longrightarrow> approved_from auto rows' rows'' \<Longrightarrow> approved_from auto rows rows''"
  unfolding approved_from_def by metis

lemma delete_ids_subset: "set (delete_ids ids rows) \<subseteq> set rows"
  by (auto simp: delete_ids_def)

lemma approved_from_upsert:
  assumes "au \<and> ap_pinned ap = None \<Longrightarrow> auto"
  shows "approved_from auto rows (upsert_materialized_row au ap x n rows)"
proof -
  obtain rid fqn c where x: "x = (rid, fqn, c)" by (cases x) auto
  show ?thesis
  proof (cases "find (\<lambda>row. rw_id row = rid) rows")
    case None
    then show ?thesis by (auto simp: approved_from_def upsert_materialized_row_def x new_row_def)
  next
    case (Some row)
    then have row: "row \<in> set rows" "rw_id row = rid" using find_found by fastforce+
    have "rw_status row = CheckApproved \<and> (content row = Some (sort_json (JDict (check_json c))) \<or> auto)"
      if "decide_status (rw_status row) (\<not> same_content (rw_check row) c) (ap_pinned ap \<noteq> None) au changed = CheckApproved" for changed
      using that assms by (auto simp: decide_status_def same_content_def content_def split: if_splits)
    then show ?thesis
      using row Some by (auto simp: approved_from_def upsert_materialized_row_def x Let_def updated_row_def content_def)
  qed
qed

lemma approved_from_upserts:
  assumes "au \<and> ap_pinned ap = None \<Longrightarrow> auto"
  shows "approved_from auto rows (snd (upsert_rows au ap xs rows))"
proof (induction xs arbitrary: rows)
  case (Cons x xs)
  have "approved_from auto rows (upsert_materialized_row au ap x n rows)" for n
    using assms by (rule approved_from_upsert)
  then have "approved_from auto rows (snd (upsert_rows au ap xs (upsert_materialized_row au ap x n rows)))" for n
    using Cons approved_from_trans by blast
  then show ?case by (simp add: approved_from_subset split: option.split)
qed (simp add: approved_from_subset)

lemma approved_from_applied:
  assumes "me_auto_upgrade env \<and> ap_pinned ap = None \<Longrightarrow> auto"
  shows "approved_from auto rows (snd (materialize_applied_rule env reg fqn ap rows))"
proof -
  have "approved_from auto rows (delete_stale_groups aid ids rows')" if "approved_from auto rows rows'" for aid ids rows'
    using that approved_from_trans approved_from_subset [OF delete_ids_subset] by (auto simp: delete_stale_groups_def)
  moreover have "approved_from auto rows (snd (upsert_rows (me_auto_upgrade env) ap xs rows))" for xs
    using assms by (rule approved_from_upserts)
  ultimately show ?thesis
    using approved_from_subset [of rows rows]
    by (simp add: materialize_applied_rule_def Let_def split: sum.split option.split prod.split) (metis snd_conv)
qed

lemma approved_from_all:
  assumes "\<And>ap. ap \<in> set aps \<Longrightarrow> me_auto_upgrade env \<and> ap_pinned ap = None \<Longrightarrow> auto"
  shows "approved_from auto rows (snd (materialize_all env reg fqn aps rows))"
  using assms
proof (induction aps arbitrary: rows)
  case (Cons ap aps)
  obtain m rows1 where one: "materialize_applied_rule env reg fqn ap rows = (m, rows1)" by fastforce
  obtain m' rows2 where rest: "materialize_all env reg fqn aps rows1 = (m', rows2)" by fastforce
  have "approved_from auto rows rows1" using approved_from_applied [of env ap auto rows reg fqn] Cons.prems one by auto
  moreover have "approved_from auto rows1 rows2" using Cons.IH [of rows1] Cons.prems rest by auto
  ultimately have "approved_from auto rows rows2" by (rule approved_from_trans)
  then show ?case using one rest \<open>approved_from auto rows rows1\<close> by (simp split: sum.split)
qed (simp add: approved_from_subset)

text \<open>C13: Materializing a binding never approves anything: every row that is approved afterwards, also after an error, was
  approved before under its id, and with the same content, unless the administrator enabled automatic upgrades and the
  binding has an application that follows the latest version.\<close>
theorem materialize_never_approves:
  assumes "r' \<in> set (sd_rows (snd (materialize_binding env bid sd)))" "rw_status r' = CheckApproved"
  shows "\<exists>r \<in> set (sd_rows sd). rw_id r = rw_id r' \<and> rw_status r = CheckApproved
    \<and> (content r = content r' \<or> me_auto_upgrade env \<and> (\<exists>ap \<in> set (applications sd bid). ap_pinned ap = None))"
proof -
  let ?auto = "me_auto_upgrade env \<and> (\<exists>ap \<in> set (applications sd bid). ap_pinned ap = None)"
  have "approved_from ?auto (sd_rows sd) (sd_rows (snd (materialize_binding env bid sd)))"
  proof (cases "dict_get (sd_tables sd) bid")
    case (Some fqn)
    have "approved_from ?auto (sd_rows sd) (snd (materialize_all env (sd_registry sd) fqn (applications sd bid) (sd_rows sd)))"
      by (rule approved_from_all) blast
    then show ?thesis
      using Some approved_from_trans [OF _ approved_from_subset [OF delete_ids_subset]]
      by (auto simp: materialize_binding_def Let_def cleanup_orphans_def split: sum.split prod.split)
  qed (simp add: materialize_binding_def approved_from_subset)
  then show ?thesis using assms by (simp add: approved_from_def)
qed

subsection \<open>Examples\<close>

definition example_mat_env :: mat_env where
  "example_mat_env = \<lparr>me_registry = example_env, me_settings = example_settings, me_auto_upgrade = False\<rparr>"

definition example_application :: applied_rule where
  "example_application = \<lparr>ap_id = ''a'', ap_binding = ''b'', ap_rule_id = ''r'', ap_pinned = None, ap_severity_override = None,
     ap_pass_threshold = None, ap_mapping = [[]], ap_tags = [], ap_created_by = Some ''ann''\<rparr>"

definition example_studio :: studio where
  "example_studio = \<lparr>sd_registry = example_db, sd_tables = [(''b'', ''c.s.t'')], sd_applied = [example_application], sd_rows = []\<rparr>"

definition materialized_studio :: studio where
  "materialized_studio = snd (materialize_binding example_mat_env ''b'' example_studio)"

text \<open>The table's checks were approved by hand.\<close>

definition approved_studio :: studio where
  "approved_studio = materialized_studio\<lparr>sd_rows := map (\<lambda>row. row\<lparr>rw_status := CheckApproved\<rparr>) (sd_rows materialized_studio)\<rparr>"

lemma materialize_never_approves_witness:
  "\<exists>r \<in> set (sd_rows approved_studio). rw_id r = ''a-0'' \<and> rw_status r = CheckApproved"
proof -
  let ?rows = "sd_rows (snd (materialize_binding example_mat_env ''b'' approved_studio))"
  have "map (\<lambda>row. (rw_id row, rw_status row)) ?rows = [(''a-0'', CheckApproved)]" by code_simp
  then obtain r' where "r' \<in> set ?rows" "rw_id r' = ''a-0''" "rw_status r' = CheckApproved" by (cases ?rows) auto
  then show ?thesis using materialize_never_approves [of r' example_mat_env "''b''" approved_studio] by metis
qed

end
