(* ===== verification/Materializer_Laws.thy ===== *)
theory Materializer_Laws
  imports Materializer
begin

section \<open>Materializing again\<close>

text \<open>
  The ids of the rows of an application start with the id of the application, so applications write
  disjoint rows. From that: what the rows are after a binding was materialized, that doing it again
  changes nothing, and that the rows are what a dry run renders.
\<close>

subsection \<open>Row ids\<close>

definition dashless :: "string \<Rightarrow> bool" where
  "dashless s \<longleftrightarrow> CHR ''-'' \<notin> set s"

lemma row_id_owner: "dashless a \<Longrightarrow> takeWhile (\<lambda>c. c \<noteq> CHR ''-'') (row_id_of a i) = a"
  unfolding row_id_of_def dashless_def by (subst takeWhile_append2) auto

lemma row_id_inj: "row_id_of a i = row_id_of a j \<Longrightarrow> i = j"
  unfolding row_id_of_def using py_int_of_nat_str by (metis append_same_eq append.assoc append_eq_append_conv option.inject same_append_eq of_nat_eq_iff)

definition owned_by :: "string \<Rightarrow> string \<Rightarrow> bool" where
  "owned_by a rid \<longleftrightarrow> (\<exists>i. rid = row_id_of a i)"

lemma owned_by_unique: "owned_by a rid \<Longrightarrow> owned_by b rid \<Longrightarrow> dashless a \<Longrightarrow> dashless b \<Longrightarrow> a = b"
  unfolding owned_by_def using row_id_owner by metis

lemma suffix_keeps_tags [simp]: "rc_user_metadata (suffix_check_name_with_columns g slots c) = rc_user_metadata c"
  by (simp add: suffix_check_name_with_columns_def Let_def split: option.split)

lemma version_of_rendered: "render_check st mode v g (request_of ap n v) = Inr (c, b) \<Longrightarrow> version_of_check c = Some n"
  using render_tags [of st mode v g "request_of ap n v" c b]
  by (auto simp: version_of_check_def request_of_def split: option.splits)

lemma render_groups_ids:
  "render_groups env fqn ap r n v i gs = Inr rows \<Longrightarrow>
     (\<forall>x \<in> set rows. version_of_check (snd (snd x)) = Some n \<and> (\<exists>k \<ge> i. fst x = row_id_of (ap_id ap) k)) \<and> distinct (map fst rows)"
proof (induction gs arbitrary: i rows)
  case (Cons g gs)
  let ?m = "render_check (me_settings env) (or_else (rv_mode v) (rr_mode r)) v g (request_of ap n v)"
  show ?case
  proof (cases ?m)
    case (Inl e)
    then show ?thesis using Cons.IH [of "Suc i" rows] Cons.prems by (auto split: if_splits) (metis Suc_leD fst_conv)+
  next
    case (Inr cb)
    then obtain c b where c: "?m = Inr (c, b)" by (cases cb) auto
    then obtain rest where rest: "render_groups env fqn ap r n v (Suc i) gs = Inr rest"
      and rows: "rows = (row_id_of (ap_id ap) i, resolve_table_fqn fqn b r v,
        if 1 < length (ap_mapping ap) then suffix_check_name_with_columns g (df_slots (rv_definition v)) c else c) # rest"
      using Cons.prems by (auto simp: result_simps)
    have IH: "(\<forall>x \<in> set rest. version_of_check (snd (snd x)) = Some n \<and> (\<exists>k \<ge> Suc i. fst x = row_id_of (ap_id ap) k)) \<and> distinct (map fst rest)"
      by (rule Cons.IH [OF rest])
    have "row_id_of (ap_id ap) i \<notin> fst ` set rest"
      using IH row_id_inj by fastforce
    moreover have "version_of_check (snd (snd (hd rows))) = Some n"
      using version_of_rendered [OF c] by (simp add: rows version_of_check_def)
    ultimately show ?thesis using IH by (auto simp: rows) (metis Suc_leD fst_conv)
  qed
qed simp

lemma rendered_ids:
  assumes "iter_rendered_checks env reg fqn ap = Inr (Some xs)"
  shows "distinct (map fst xs)" "x \<in> set xs \<Longrightarrow> owned_by (ap_id ap) (fst x)" "x \<in> set xs \<Longrightarrow> \<exists>n. version_of_check (snd (snd x)) = Some n"
  using assms render_groups_ids
  by (fastforce simp: iter_rendered_checks_def result_simps owned_by_def split: option.splits)+

subsection \<open>Written rows\<close>

definition unique_rows :: "resolved_row list \<Rightarrow> bool" where
  "unique_rows rows \<longleftrightarrow> distinct (map rw_id rows)"

definition written :: "rendered_row \<Rightarrow> nat \<Rightarrow> applied_rule \<Rightarrow> resolved_row list \<Rightarrow> bool" where
  "written x n ap rows \<longleftrightarrow> (\<exists>row \<in> set rows. rw_id row = fst x \<and> updated_row x n ap (rw_status row) row = row)"

lemma updated_row_simps [simp]:
  "rw_id (updated_row x n ap st row) = rw_id row" "rw_applied_id (updated_row x n ap st row) = Some (ap_id ap)"
  "rw_status (updated_row x n ap st row) = st" "rw_check (updated_row x n ap st row) = Some (JDict (check_json (snd (snd x))))"
  "updated_row x n ap st' (updated_row x n ap st row) = updated_row x n ap st' row"
  by (cases x; simp add: updated_row_def)+

lemma new_row_simps [simp]:
  "rw_id (new_row x n ap) = fst x" "rw_applied_id (new_row x n ap) = Some (ap_id ap)"
  "updated_row x n ap (rw_status (new_row x n ap)) (new_row x n ap) = new_row x n ap"
  by (cases x; simp add: new_row_def updated_row_def)+

lemma upsert_cases:
  obtains "find (\<lambda>row. rw_id row = fst x) rows = None" "upsert_materialized_row au ap x n rows = rows @ [new_row x n ap]"
  | row st where "find (\<lambda>row. rw_id row = fst x) rows = Some row" "row \<in> set rows" "rw_id row = fst x"
    "upsert_materialized_row au ap x n rows = map (\<lambda>row. if rw_id row = fst x then updated_row x n ap st row else row) rows"
    "same_content (rw_check row) (snd (snd x)) \<longrightarrow> st = rw_status row"
proof (cases "find (\<lambda>row. rw_id row = fst x) rows")
  case None
  then show ?thesis using that(1) by (cases x) (simp add: upsert_materialized_row_def)
next
  case (Some row)
  let ?st = "decide_status (rw_status row) (\<not> same_content (rw_check row) (snd (snd x))) (ap_pinned ap \<noteq> None) au
    (rw_registry_version row \<noteq> None \<and> rw_registry_version row \<noteq> Some n)"
  have "upsert_materialized_row au ap x n rows = map (\<lambda>row. if rw_id row = fst x then updated_row x n ap ?st row else row) rows"
    using Some by (cases x) (simp add: upsert_materialized_row_def Let_def)
  moreover have "same_content (rw_check row) (snd (snd x)) \<longrightarrow> ?st = rw_status row" by (simp add: decide_status_def)
  ultimately show ?thesis using that(2) [OF Some] find_found [OF Some] by blast
qed

lemma upsert_unique: "unique_rows rows \<Longrightarrow> unique_rows (upsert_materialized_row au ap x n rows)"
  by (rule upsert_cases [of x rows au ap n]) (auto simp: unique_rows_def find_None_iff comp_def if_distrib cong: if_cong)

lemma upsert_written: "written x n ap (upsert_materialized_row au ap x n rows)"
proof (rule upsert_cases [of x rows au ap n])
  fix row st
  assume "row \<in> set rows" "rw_id row = fst x"
    and up: "upsert_materialized_row au ap x n rows = map (\<lambda>row. if rw_id row = fst x then updated_row x n ap st row else row) rows"
  then have "updated_row x n ap st row \<in> set (upsert_materialized_row au ap x n rows)" by force
  then show ?thesis
    using \<open>rw_id row = fst x\<close> unfolding written_def by (intro bexI [of _ "updated_row x n ap st row"]) simp_all
qed (auto simp: written_def)

lemma upsert_row_kept:
  "row \<in> set rows \<Longrightarrow> rw_id row \<noteq> fst x \<Longrightarrow> row \<in> set (upsert_materialized_row au ap x n rows)"
  by (rule upsert_cases [of x rows au ap n]) force+

lemma upsert_row_from:
  "row \<in> set (upsert_materialized_row au ap x n rows) \<Longrightarrow> row \<in> set rows \<or> rw_id row = fst x \<and> rw_applied_id row = Some (ap_id ap)"
  by (rule upsert_cases [of x rows au ap n]) (auto split: if_splits)

lemma row_of_row_id: "unique_rows rows \<Longrightarrow> row \<in> set rows \<Longrightarrow> row' \<in> set rows \<Longrightarrow> rw_id row = rw_id row' \<Longrightarrow> row = row'"
  by (auto simp: unique_rows_def distinct_map dest: inj_onD)

lemma upsert_again:
  assumes "unique_rows rows" "written x n ap rows"
  shows "upsert_materialized_row au ap x n rows = rows"
proof -
  obtain row where row: "row \<in> set rows" "rw_id row = fst x" "updated_row x n ap (rw_status row) row = row"
    using assms(2) by (auto simp: written_def)
  have "rw_check row = Some (JDict (check_json (snd (snd x))))" using arg_cong [OF row(3), of rw_check] by simp
  then have content: "same_content (rw_check row) (snd (snd x))" by (simp add: same_content_def)
  show ?thesis
  proof (rule upsert_cases [of x rows au ap n])
    assume "find (\<lambda>row. rw_id row = fst x) rows = None"
    then show ?thesis using row by (auto simp: find_None_iff)
  next
    fix row' st
    assume "row' \<in> set rows" "rw_id row' = fst x" "same_content (rw_check row') (snd (snd x)) \<longrightarrow> st = rw_status row'"
      and up: "upsert_materialized_row au ap x n rows = map (\<lambda>row. if rw_id row = fst x then updated_row x n ap st row else row) rows"
    then have "row' = row" "st = rw_status row" using row_of_row_id [OF assms(1)] row content by metis+
    then show ?thesis unfolding up using row row_of_row_id [OF assms(1)] by (intro map_idI) metis
  qed
qed

subsection \<open>Materialized applications\<close>

definition no_stale :: "string \<Rightarrow> string list \<Rightarrow> resolved_row list \<Rightarrow> bool" where
  "no_stale aid ids rows \<longleftrightarrow> (\<forall>row \<in> set rows. rw_applied_id row = Some aid \<longrightarrow> rw_id row \<in> set ids)"

definition materialized :: "mat_env \<Rightarrow> registry_db \<Rightarrow> string \<Rightarrow> resolved_row list \<Rightarrow> applied_rule \<Rightarrow> bool" where
  "materialized env reg fqn rows ap \<longleftrightarrow> (case iter_rendered_checks env reg fqn ap of
     Inl e \<Rightarrow> False
   | Inr None \<Rightarrow> True
   | Inr (Some xs) \<Rightarrow> xs = [] \<and> ap_mapping ap \<noteq> []
       \<or> (\<forall>x \<in> set xs. \<forall>n. version_of_check (snd (snd x)) = Some n \<longrightarrow> written x n ap rows)
         \<and> no_stale (ap_id ap) (map fst xs) rows)"

lemma written_kept:
  "written x n ap rows \<Longrightarrow> fst x \<noteq> fst y \<Longrightarrow> written x n ap (upsert_materialized_row au ap' y m rows)"
  unfolding written_def by (metis upsert_row_kept)

lemma upsert_rows_facts:
  assumes "\<And>x. x \<in> set xs \<Longrightarrow> \<exists>n. version_of_check (snd (snd x)) = Some n" "unique_rows rows" "distinct (map fst xs)"
  shows "\<exists>rows'. upsert_rows au ap xs rows = (Inr (), rows') \<and> unique_rows rows'
    \<and> (\<forall>x \<in> set xs. \<forall>n. version_of_check (snd (snd x)) = Some n \<longrightarrow> written x n ap rows')
    \<and> (\<forall>row \<in> set rows. rw_id row \<notin> fst ` set xs \<longrightarrow> row \<in> set rows')
    \<and> (\<forall>row \<in> set rows'. row \<in> set rows \<or> rw_id row \<in> fst ` set xs \<and> rw_applied_id row = Some (ap_id ap))"
  using assms
proof (induction xs arbitrary: rows)
  case (Cons x xs)
  obtain n where n: "version_of_check (snd (snd x)) = Some n" using Cons.prems(1) [of x] by (meson list.set_intros(1))
  let ?r = "upsert_materialized_row au ap x n rows"
  obtain rows' where rows': "upsert_rows au ap xs ?r = (Inr (), rows')" "unique_rows rows'"
    "\<forall>x \<in> set xs. \<forall>n. version_of_check (snd (snd x)) = Some n \<longrightarrow> written x n ap rows'"
    "\<forall>row \<in> set ?r. rw_id row \<notin> fst ` set xs \<longrightarrow> row \<in> set rows'"
    "\<forall>row \<in> set rows'. row \<in> set ?r \<or> rw_id row \<in> fst ` set xs \<and> rw_applied_id row = Some (ap_id ap)"
    using Cons.IH [of ?r] Cons.prems upsert_unique by auto
  have "written x n ap rows'"
    using upsert_written [of x n ap au rows] rows'(4) Cons.prems(3) by (auto simp: written_def)
  moreover have "row \<in> set rows'" if "row \<in> set rows" "rw_id row \<notin> fst ` set (x # xs)" for row
    using that rows'(4) upsert_row_kept [of row rows x au ap n] by simp
  moreover have "row \<in> set rows \<or> rw_id row \<in> fst ` set (x # xs) \<and> rw_applied_id row = Some (ap_id ap)" if "row \<in> set rows'" for row
    using that rows'(5) upsert_row_from [of row au ap x n rows] by auto
  ultimately show ?case using rows'(1-3) n by auto
qed simp

text \<open>One application: what it leaves, whatever it renders to.\<close>

definition deleted_ids :: "string \<Rightarrow> string list \<Rightarrow> resolved_row list \<Rightarrow> string list" where
  "deleted_ids aid expected rows = filter (\<lambda>i. i \<notin> set expected) (map rw_id (filter (\<lambda>row. rw_applied_id row = Some aid) rows))"

lemma delete_stale_set:
  assumes "unique_rows rows" "aid \<noteq> []"
  shows "set (delete_stale_groups aid ids rows) = {row \<in> set rows. rw_applied_id row = Some aid \<longrightarrow> rw_id row \<in> set ids}"
  using assms row_of_row_id [OF assms(1)] by (auto simp: delete_stale_groups_def delete_ids_def)

lemma delete_ids_unique: "unique_rows rows \<Longrightarrow> unique_rows (delete_ids ids rows)"
  by (simp add: unique_rows_def delete_ids_def distinct_map_filter)

lemma materialize_applied_facts:
  assumes "materialize_applied_rule env reg fqn ap rows = (Inr ids, rows')" "unique_rows rows" "ap_id ap \<noteq> []"
  shows "unique_rows rows'" "materialized env reg fqn rows' ap"
    and "row \<in> set rows \<Longrightarrow> \<not> owned_by (ap_id ap) (rw_id row) \<Longrightarrow> rw_applied_id row \<noteq> Some (ap_id ap) \<Longrightarrow> row \<in> set rows'"
    and "row \<in> set rows' \<Longrightarrow> row \<in> set rows \<or> owned_by (ap_id ap) (rw_id row) \<and> rw_applied_id row = Some (ap_id ap)"
    and "row \<in> set rows' \<Longrightarrow> rw_id row \<in> set ids \<Longrightarrow> rw_applied_id row = Some (ap_id ap)"
proof -
  have "unique_rows rows' \<and> materialized env reg fqn rows' ap
    \<and> (\<forall>row \<in> set rows. \<not> owned_by (ap_id ap) (rw_id row) \<and> rw_applied_id row \<noteq> Some (ap_id ap) \<longrightarrow> row \<in> set rows')
    \<and> (\<forall>row \<in> set rows'. (row \<in> set rows \<or> owned_by (ap_id ap) (rw_id row) \<and> rw_applied_id row = Some (ap_id ap))
        \<and> (rw_id row \<in> set ids \<longrightarrow> rw_applied_id row = Some (ap_id ap)))"
  proof (cases "iter_rendered_checks env reg fqn ap")
    case (Inl e)
    then show ?thesis using assms(1) by (simp add: materialize_applied_rule_def)
  next
    case (Inr rendered)
    show ?thesis
    proof (cases rendered)
      case None
      then show ?thesis using assms Inr by (auto simp: materialize_applied_rule_def materialized_def)
    next
      case (Some xs)
      show ?thesis
      proof (cases "xs = [] \<and> ap_mapping ap \<noteq> []")
        case True
        then show ?thesis
          using assms Inr Some
          by (auto simp: materialize_applied_rule_def materialized_def existing_group_ids_def)
            (metis row_of_row_id)
      next
        case False
        note it = Inr [unfolded Some]
        obtain rows1 where up: "upsert_rows (me_auto_upgrade env) ap xs rows = (Inr (), rows1)" "unique_rows rows1"
          "\<forall>x \<in> set xs. \<forall>n. version_of_check (snd (snd x)) = Some n \<longrightarrow> written x n ap rows1"
          "\<forall>row \<in> set rows. rw_id row \<notin> fst ` set xs \<longrightarrow> row \<in> set rows1"
          "\<forall>row \<in> set rows1. row \<in> set rows \<or> rw_id row \<in> fst ` set xs \<and> rw_applied_id row = Some (ap_id ap)"
          using upsert_rows_facts [OF rendered_ids(3) [OF it] assms(2) rendered_ids(1) [OF it], of "me_auto_upgrade env" ap] by blast
        have eq: "ids = map fst xs" "rows' = delete_stale_groups (ap_id ap) (map fst xs) rows1"
          using assms(1) it False up(1) by (auto simp: materialize_applied_rule_def Let_def)
        have members: "set rows' = {row \<in> set rows1. rw_applied_id row = Some (ap_id ap) \<longrightarrow> rw_id row \<in> fst ` set xs}"
          unfolding eq(2) using delete_stale_set [OF up(2) assms(3)] by simp
        have applied: "rw_applied_id row = Some (ap_id ap)" if mem: "row \<in> set rows1" "rw_id row \<in> fst ` set xs" for row
        proof -
          obtain x n where x: "x \<in> set xs" "rw_id row = fst x" "version_of_check (snd (snd x)) = Some n"
            using mem(2) rendered_ids(3) [OF it] by blast
          then obtain row' where "row' \<in> set rows1" "rw_id row' = fst x" "updated_row x n ap (rw_status row') row' = row'"
            using up(3) by (auto simp: written_def)
          then show ?thesis using row_of_row_id [OF up(2) mem(1)] x(2) by (metis updated_row_simps(2))
        qed
        have "written x n ap rows'" if "x \<in> set xs" "version_of_check (snd (snd x)) = Some n" for x n
          using up(3) that members unfolding written_def by fastforce
        then have "materialized env reg fqn rows' ap"
          using it members by (auto simp: materialized_def no_stale_def)
        moreover have "unique_rows rows'"
          unfolding eq(2) delete_stale_groups_def using up(2) delete_ids_unique by simp
        ultimately show ?thesis
          using members up(4,5) applied rendered_ids(2) [OF it] eq(1) by auto
      qed
    qed
  qed
  then show "unique_rows rows'" "materialized env reg fqn rows' ap"
    and "row \<in> set rows \<Longrightarrow> \<not> owned_by (ap_id ap) (rw_id row) \<Longrightarrow> rw_applied_id row \<noteq> Some (ap_id ap) \<Longrightarrow> row \<in> set rows'"
    and "row \<in> set rows' \<Longrightarrow> row \<in> set rows \<or> owned_by (ap_id ap) (rw_id row) \<and> rw_applied_id row = Some (ap_id ap)"
    and "row \<in> set rows' \<Longrightarrow> rw_id row \<in> set ids \<Longrightarrow> rw_applied_id row = Some (ap_id ap)"
    by blast+
qed

subsection \<open>A materialized binding\<close>

lemma materialized_kept:
  assumes "materialized env reg fqn rows ap"
    and "\<And>row. row \<in> set rows \<Longrightarrow> owned_by (ap_id ap) (rw_id row) \<Longrightarrow> rw_applied_id row = Some (ap_id ap) \<Longrightarrow> row \<in> set rows'"
    and "\<And>row. row \<in> set rows' \<Longrightarrow> rw_applied_id row = Some (ap_id ap) \<Longrightarrow> row \<in> set rows"
  shows "materialized env reg fqn rows' ap"
proof (cases "\<exists>xs. iter_rendered_checks env reg fqn ap = Inr (Some xs)")
  case True
  then obtain xs where it: "iter_rendered_checks env reg fqn ap = Inr (Some xs)" ..
  have "written x n ap rows'" if x: "x \<in> set xs" "written x n ap rows" for x n
  proof -
    obtain row where row: "row \<in> set rows" "rw_id row = fst x" "updated_row x n ap (rw_status row) row = row"
      using x(2) by (auto simp: written_def)
    then have "rw_applied_id row = Some (ap_id ap)" by (metis updated_row_simps(2))
    then show ?thesis using row assms(2) rendered_ids(2) [OF it x(1)] unfolding written_def by metis
  qed
  then show ?thesis using assms(1,3) it by (auto simp: materialized_def no_stale_def)
qed (use assms(1) in \<open>auto simp: materialized_def split: sum.splits option.splits\<close>)

definition well_named :: "applied_rule list \<Rightarrow> bool" where
  "well_named aps \<longleftrightarrow> distinct (map ap_id aps) \<and> list_all (\<lambda>ap. ap_id ap \<noteq> [] \<and> dashless (ap_id ap)) aps"

definition renders_nothing :: "mat_env \<Rightarrow> registry_db \<Rightarrow> string \<Rightarrow> applied_rule \<Rightarrow> bool" where
  "renders_nothing env reg fqn ap \<longleftrightarrow> (case iter_rendered_checks env reg fqn ap of
     Inr None \<Rightarrow> True | Inr (Some []) \<Rightarrow> ap_mapping ap \<noteq> [] | _ \<Rightarrow> False)"

lemma renders_nothing_step: "renders_nothing env reg fqn ap \<Longrightarrow> snd (materialize_applied_rule env reg fqn ap rows) = rows"
  by (auto simp: renders_nothing_def materialize_applied_rule_def split: sum.splits option.splits list.splits)

text \<open>The application has no say over the row.\<close>

definition spares :: "mat_env \<Rightarrow> registry_db \<Rightarrow> string \<Rightarrow> resolved_row \<Rightarrow> applied_rule \<Rightarrow> bool" where
  "spares env reg fqn row ap \<longleftrightarrow> renders_nothing env reg fqn ap
     \<or> \<not> owned_by (ap_id ap) (rw_id row) \<and> rw_applied_id row \<noteq> Some (ap_id ap)"

lemma materialize_all_facts:
  assumes "materialize_all env reg fqn aps rows = (Inr ids, rows')" "unique_rows rows" "well_named aps"
  shows "unique_rows rows' \<and> (\<forall>ap \<in> set aps. materialized env reg fqn rows' ap)
    \<and> (\<forall>row \<in> set rows. (\<forall>ap \<in> set aps. spares env reg fqn row ap) \<longrightarrow> row \<in> set rows')
    \<and> (\<forall>row \<in> set rows'. row \<in> set rows \<or> (\<exists>ap \<in> set aps. owned_by (ap_id ap) (rw_id row) \<and> rw_applied_id row = Some (ap_id ap)))
    \<and> (\<forall>row \<in> set rows'. rw_id row \<in> set ids \<longrightarrow> (\<exists>ap \<in> set aps. rw_applied_id row = Some (ap_id ap)))"
  using assms
proof (induction aps arbitrary: rows ids)
  case (Cons ap aps)
  obtain ids1 rows1 where one: "materialize_applied_rule env reg fqn ap rows = (Inr ids1, rows1)"
    using Cons.prems(1) by (cases "materialize_applied_rule env reg fqn ap rows"; cases "fst (materialize_applied_rule env reg fqn ap rows)") auto
  obtain ids2 where rest: "materialize_all env reg fqn aps rows1 = (Inr ids2, rows')" and ids: "ids = ids1 @ ids2"
    using Cons.prems(1) one by (auto split: prod.splits sum.splits)
  have names: "ap_id ap \<noteq> []" "dashless (ap_id ap)" "well_named aps"
    and others: "\<And>ap'. ap' \<in> set aps \<Longrightarrow> ap_id ap' \<noteq> ap_id ap \<and> dashless (ap_id ap')"
    using Cons.prems(3) by (auto simp: well_named_def list_all_iff) (metis imageI)
  note facts = materialize_applied_facts [OF one Cons.prems(2) names(1)]
  note IH = Cons.IH [OF rest facts(1) names(3)]
  have apart: "\<not> owned_by (ap_id ap') rid" if "owned_by (ap_id ap) rid" "ap' \<in> set aps" for ap' rid
    using that others owned_by_unique names(2) by blast
  have mat: "materialized env reg fqn rows' ap"
  proof (rule materialized_kept [OF facts(2)])
    fix row assume "row \<in> set rows1" "owned_by (ap_id ap) (rw_id row)" "rw_applied_id row = Some (ap_id ap)"
    moreover from this have "\<forall>q \<in> set aps. spares env reg fqn row q" using apart others by (force simp: spares_def)
    ultimately show "row \<in> set rows'" using IH by blast
  next
    fix row assume "row \<in> set rows'" "rw_applied_id row = Some (ap_id ap)"
    then show "row \<in> set rows1" using IH others by force
  qed
  have frame: "row \<in> set rows'"
    if "row \<in> set rows" "\<forall>q \<in> set (ap # aps). spares env reg fqn row q" for row
  proof -
    have "row \<in> set rows1"
      using that facts(3) [of row] renders_nothing_step [of env reg fqn ap rows] one by (auto simp: spares_def)
    then show ?thesis using that IH by simp
  qed
  have source: "row \<in> set rows \<or> (\<exists>q \<in> set (ap # aps). owned_by (ap_id q) (rw_id row) \<and> rw_applied_id row = Some (ap_id q))"
    if "row \<in> set rows'" for row
    using that facts(4) [of row] IH by auto
  have claimed: "\<exists>q \<in> set (ap # aps). rw_applied_id row = Some (ap_id q)" if "row \<in> set rows'" "rw_id row \<in> set ids" for row
    using that facts(5) [of row] IH unfolding ids by auto
  show ?case
  proof (intro conjI)
    show "unique_rows rows'" using IH by (rule conjunct1)
    show "\<forall>q \<in> set (ap # aps). materialized env reg fqn rows' q" using IH mat by simp
  qed (use frame source claimed in \<open>blast+\<close>)
qed simp

lemma upsert_rows_again:
  "unique_rows rows \<Longrightarrow> (\<And>x. x \<in> set xs \<Longrightarrow> \<exists>n. version_of_check (snd (snd x)) = Some n \<and> written x n ap rows)
    \<Longrightarrow> upsert_rows au ap xs rows = (Inr (), rows)"
proof (induction xs)
  case (Cons x xs)
  obtain n where "version_of_check (snd (snd x)) = Some n" "written x n ap rows"
    using Cons.prems(2) [of x] by (meson list.set_intros(1))
  then show ?case using Cons upsert_again [OF Cons.prems(1)] by simp
qed simp

lemma materialize_applied_again:
  assumes "materialized env reg fqn rows ap" "unique_rows rows"
  shows "\<exists>ids. materialize_applied_rule env reg fqn ap rows = (Inr ids, rows)"
proof (cases "iter_rendered_checks env reg fqn ap")
  case (Inr rendered)
  show ?thesis
  proof (cases rendered)
    case (Some xs)
    note it = Inr [unfolded Some]
    show ?thesis
    proof (cases "xs = [] \<and> ap_mapping ap \<noteq> []")
      case False
      then have facts: "\<forall>x \<in> set xs. \<forall>n. version_of_check (snd (snd x)) = Some n \<longrightarrow> written x n ap rows"
        "no_stale (ap_id ap) (map fst xs) rows"
        using assms(1) it by (auto simp: materialized_def)
      have "upsert_rows (me_auto_upgrade env) ap xs rows = (Inr (), rows)"
        using facts(1) rendered_ids(3) [OF it] by (intro upsert_rows_again assms(2)) blast
      moreover have "delete_stale_groups (ap_id ap) (map fst xs) rows = rows"
        using facts(2) by (auto simp: delete_stale_groups_def delete_ids_def no_stale_def intro!: filter_True)
      ultimately show ?thesis using it False by (auto simp: materialize_applied_rule_def Let_def)
    qed (use it in \<open>simp add: materialize_applied_rule_def\<close>)
  qed (use Inr in \<open>simp add: materialize_applied_rule_def\<close>)
qed (use assms(1) in \<open>simp add: materialized_def\<close>)

lemma materialize_all_again:
  "\<forall>ap \<in> set aps. materialized env reg fqn rows ap \<Longrightarrow> unique_rows rows \<Longrightarrow> \<exists>ids. materialize_all env reg fqn aps rows = (Inr ids, rows)"
proof (induction aps)
  case (Cons ap aps)
  obtain ids where "materialize_applied_rule env reg fqn ap rows = (Inr ids, rows)"
    using materialize_applied_again Cons.prems by fastforce
  then show ?case using Cons by auto
qed simp

lemma cleanup_set:
  assumes "unique_rows rows" "\<And>row. row \<in> set rows \<Longrightarrow> rw_id row \<in> set ids \<Longrightarrow> \<not> orphan applied fqn aids row"
  shows "set (cleanup_orphans applied fqn aids ids rows) = {row \<in> set rows. \<not> orphan applied fqn aids row}"
  using assms row_of_row_id [OF assms(1)] by (auto simp: cleanup_orphans_def delete_ids_def)

lemma materialize_binding_facts:
  assumes "materialize_binding env bid sd = (Inr ids, sd')" "unique_rows (sd_rows sd)" "well_named (applications sd bid)"
    and "dict_get (sd_tables sd) bid = Some fqn"
  shows "sd' = sd\<lparr>sd_rows := sd_rows sd'\<rparr>" "unique_rows (sd_rows sd')"
    "ap \<in> set (applications sd bid) \<Longrightarrow> materialized env (sd_registry sd) fqn (sd_rows sd') ap"
    "row \<in> set (sd_rows sd') \<Longrightarrow> \<not> orphan (sd_applied sd) fqn (map ap_id (applications sd bid)) row"
    "row \<in> set (sd_rows sd) \<Longrightarrow> \<forall>ap \<in> set (applications sd bid). spares env (sd_registry sd) fqn row ap
      \<Longrightarrow> \<not> orphan (sd_applied sd) fqn (map ap_id (applications sd bid)) row \<Longrightarrow> row \<in> set (sd_rows sd')"
proof -
  let ?aps = "applications sd bid" and ?orphan = "orphan (sd_applied sd) fqn (map ap_id (applications sd bid))"
  obtain ids1 rows1 where all: "materialize_all env (sd_registry sd) fqn ?aps (sd_rows sd) = (Inr ids1, rows1)"
    and sd': "sd' = sd\<lparr>sd_rows := cleanup_orphans (sd_applied sd) fqn (map ap_id ?aps) ids1 rows1\<rparr>"
    using assms(1,4) by (auto simp: materialize_binding_def Let_def split: prod.splits sum.splits)
  note facts = materialize_all_facts [OF all assms(2,3)]
  have "\<not> ?orphan row" if "row \<in> set rows1" "rw_id row \<in> set ids1" for row
    using facts that by (fastforce simp: orphan_def)
  then have rows': "set (sd_rows sd') = {row \<in> set rows1. \<not> ?orphan row}"
    unfolding sd' using cleanup_set [of rows1 ids1] facts by simp
  show "sd' = sd\<lparr>sd_rows := sd_rows sd'\<rparr>" by (simp add: sd')
  show "unique_rows (sd_rows sd')" using facts delete_ids_unique by (simp add: sd' cleanup_orphans_def)
  show "materialized env (sd_registry sd) fqn (sd_rows sd') ap" if "ap \<in> set ?aps"
  proof (rule materialized_kept)
    show "materialized env (sd_registry sd) fqn rows1 ap" using facts that by blast
    show "row \<in> set (sd_rows sd')" if "row \<in> set rows1" "rw_applied_id row = Some (ap_id ap)" for row
      using that \<open>ap \<in> set ?aps\<close> by (simp add: rows' orphan_def)
    show "row \<in> set rows1" if "row \<in> set (sd_rows sd')" for row using that by (simp add: rows')
  qed
  show "\<not> ?orphan row" if "row \<in> set (sd_rows sd')" using that by (simp add: rows')
  show "row \<in> set (sd_rows sd')" if "row \<in> set (sd_rows sd)" "\<not> ?orphan row"
    "\<forall>ap \<in> set ?aps. spares env (sd_registry sd) fqn row ap"
    using that facts by (simp add: rows')
qed

lemma binding_found:
  assumes "materialize_binding env bid sd = (Inr ids, sd')"
  obtains fqn where "dict_get (sd_tables sd) bid = Some fqn"
  using assms by (cases "dict_get (sd_tables sd) bid") (auto simp: materialize_binding_def)

text \<open>C12: Materializing a binding again changes nothing: after a success, the same call succeeds and leaves every row as it
  is, its status included.\<close>
theorem materialize_idempotent:
  assumes "materialize_binding env bid sd = (Inr ids, sd')" "unique_rows (sd_rows sd)" "well_named (applications sd bid)"
  shows "snd (materialize_binding env bid sd') = sd' \<and> (\<exists>ids'. fst (materialize_binding env bid sd') = Inr ids')"
proof -
  obtain fqn where fqn: "dict_get (sd_tables sd) bid = Some fqn" using binding_found [OF assms(1)] .
  note facts = materialize_binding_facts [OF assms fqn]
  have same: "sd_tables sd' = sd_tables sd" "sd_registry sd' = sd_registry sd" "sd_applied sd' = sd_applied sd"
    by (subst facts(1); simp)+
  then have aps: "applications sd' bid = applications sd bid" by (simp add: applications_def)
  obtain ids2 where again: "materialize_all env (sd_registry sd) fqn (applications sd bid) (sd_rows sd') = (Inr ids2, sd_rows sd')"
    using materialize_all_again [OF _ facts(2)] facts(3) by blast
  have "filter (orphan (sd_applied sd) fqn (map ap_id (applications sd bid))) (sd_rows sd') = []"
    using facts(4) by (simp add: filter_empty_conv)
  then have "cleanup_orphans (sd_applied sd) fqn (map ap_id (applications sd bid)) ids2 (sd_rows sd') = sd_rows sd'"
    by (simp add: cleanup_orphans_def delete_ids_def)
  then show ?thesis using again fqn by (simp add: materialize_binding_def aps same Let_def)
qed

lemma render_all_from:
  "render_all env reg fqn aps = Inr cs \<Longrightarrow> c \<in> set cs \<Longrightarrow>
     \<exists>ap \<in> set aps. \<exists>xs. iter_rendered_checks env reg fqn ap = Inr (Some xs) \<and> c \<in> snd ` snd ` set xs"
proof (induction aps arbitrary: cs)
  case (Cons ap aps)
  then obtain r rest where r: "iter_rendered_checks env reg fqn ap = Inr r" "render_all env reg fqn aps = Inr rest"
    "cs = (case r of None \<Rightarrow> [] | Some rs \<Rightarrow> map (snd \<circ> snd) rs) @ rest"
    by (auto simp: result_simps split: sum.splits)
  show ?case
  proof (cases "c \<in> set rest")
    case True
    then show ?thesis using Cons.IH [OF r(2)] by auto
  next
    case False
    then obtain rs where "r = Some rs" "c \<in> snd ` snd ` set rs" using Cons.prems(2) r(3) by (auto split: option.splits simp: image_comp)
    then show ?thesis using r(1) by auto
  qed
qed simp

text \<open>A dry run executes what was materialized: every check that rendering the binding without writing gives is, right
  after a successful materialization, the check of a row, stamped with the version it was rendered from.\<close>
theorem dry_run_is_materialized:
  assumes "materialize_binding env bid sd = (Inr ids, sd')" "unique_rows (sd_rows sd)" "well_named (applications sd bid)"
    and "render_binding_checks env bid None sd' = Inr cs" "c \<in> set cs"
  shows "\<exists>row \<in> set (sd_rows sd'). rw_check row = Some (JDict (check_json c)) \<and> rw_registry_version row = version_of_check c"
proof -
  obtain fqn where fqn: "dict_get (sd_tables sd) bid = Some fqn" using binding_found [OF assms(1)] .
  note facts = materialize_binding_facts [OF assms(1-3) fqn]
  have same: "sd_tables sd' = sd_tables sd" "sd_registry sd' = sd_registry sd" "sd_applied sd' = sd_applied sd"
    by (subst facts(1); simp)+
  have "render_all env (sd_registry sd) fqn (applications sd bid) = Inr cs"
    using assms(4) fqn by (simp add: render_binding_checks_def same applications_def)
  then obtain ap xs x where ap: "ap \<in> set (applications sd bid)" "iter_rendered_checks env (sd_registry sd) fqn ap = Inr (Some xs)"
    "x \<in> set xs" "c = snd (snd x)" using render_all_from assms(5) by blast
  obtain n where n: "version_of_check c = Some n" using rendered_ids(3) [OF ap(2,3)] ap(4) by auto
  have "written x n ap (sd_rows sd')" using facts(3) [OF ap(1)] ap(2-4) n by (auto simp: materialized_def)
  then obtain row where row: "row \<in> set (sd_rows sd')" "updated_row x n ap (rw_status row) row = row" by (auto simp: written_def)
  have "rw_check row = Some (JDict (check_json c))" using arg_cong [OF row(2), of rw_check] ap(4) by simp
  moreover have "rw_registry_version row = Some n"
    using arg_cong [OF row(2), of rw_registry_version] by (cases x) (simp add: updated_row_def)
  ultimately show ?thesis using row(1) n by auto
qed

text \<open>Materializing a binding spares what is not its own to rewrite: a row stays exactly as it is if it is not orphaned and
  every application of the binding either has nothing to do with it or renders nothing, because its rule or version cannot be
  found or because none of its mapping groups renders any more.\<close>
theorem materialize_spares_rows:
  assumes "materialize_binding env bid sd = (Inr ids, sd')" "unique_rows (sd_rows sd)" "well_named (applications sd bid)"
    and "dict_get (sd_tables sd) bid = Some fqn" "row \<in> set (sd_rows sd)"
    and "\<not> orphan (sd_applied sd) fqn (map ap_id (applications sd bid)) row"
    and "\<forall>ap \<in> set (applications sd bid). spares env (sd_registry sd) fqn row ap"
  shows "row \<in> set (sd_rows sd')"
  using materialize_binding_facts(5) [OF assms(1-4)] assms(5-7) by blast

subsection \<open>Examples\<close>

lemma example_materialized:
  "materialize_binding example_mat_env ''b'' example_studio = (Inr [''a-0''], materialized_studio)"
  "unique_rows (sd_rows example_studio)" "well_named (applications example_studio ''b'')"
proof -
  have "fst (materialize_binding example_mat_env ''b'' example_studio) = Inr [''a-0'']" by code_simp
  then show "materialize_binding example_mat_env ''b'' example_studio = (Inr [''a-0''], materialized_studio)"
    by (simp add: materialized_studio_def prod_eq_iff)
  show "unique_rows (sd_rows example_studio)" "well_named (applications example_studio ''b'')" by code_simp+
qed

lemma materialize_idempotent_witness:
  "snd (materialize_binding example_mat_env ''b'' materialized_studio) = materialized_studio \<and> length (sd_rows materialized_studio) = 1"
proof -
  have "length (sd_rows materialized_studio) = 1" by code_simp
  then show ?thesis using materialize_idempotent [OF example_materialized] by simp
qed

lemma dry_run_is_materialized_witness:
  "\<exists>c row. row \<in> set (sd_rows materialized_studio) \<and> rw_check row = Some (JDict (check_json c)) \<and> rc_function c = ''is_not_null''"
proof -
  have "(case render_binding_checks example_mat_env ''b'' None materialized_studio of Inl e \<Rightarrow> False
    | Inr cs \<Rightarrow> map rc_function cs = [''is_not_null''])" by code_simp
  then obtain c cs where c: "render_binding_checks example_mat_env ''b'' None materialized_studio = Inr (c # cs)" "rc_function c = ''is_not_null''"
    by (auto split: sum.splits)
  then show ?thesis using dry_run_is_materialized [OF example_materialized c(1), of c] by auto
qed

text \<open>A row of another table, and one of an application whose rule is gone.\<close>

definition foreign_row :: "string \<Rightarrow> string \<Rightarrow> resolved_row" where
  "foreign_row aid fqn = \<lparr>rw_id = row_id_of aid 0, rw_table = fqn, rw_check = None, rw_version = 1, rw_status = CheckApproved, rw_source = ''registry'',
     rw_rule_id = None, rw_registry_version = None, rw_applied_id = Some aid, rw_created_by = None\<rparr>"

definition crowded_studio :: studio where
  "crowded_studio = example_studio\<lparr>sd_applied := [example_application, example_application\<lparr>ap_id := ''z'', ap_rule_id := ''gone''\<rparr>],
     sd_rows := [foreign_row ''z'' ''c.s.t'']\<rparr>"

lemma materialize_spares_rows_witness:
  "foreign_row ''z'' ''c.s.t'' \<in> set (sd_rows (snd (materialize_binding example_mat_env ''b'' crowded_studio)))"
proof -
  have ok: "fst (materialize_binding example_mat_env ''b'' crowded_studio) = Inr [''a-0'']" by code_simp
  have names: "unique_rows (sd_rows crowded_studio)" "well_named (applications crowded_studio ''b'')"
    "dict_get (sd_tables crowded_studio) ''b'' = Some ''c.s.t''" by code_simp+
  have row: "foreign_row ''z'' ''c.s.t'' \<in> set (sd_rows crowded_studio)" by (simp add: crowded_studio_def)
  have kept: "\<not> orphan (sd_applied crowded_studio) ''c.s.t'' (map ap_id (applications crowded_studio ''b'')) (foreign_row ''z'' ''c.s.t'')" by code_simp
  have gone: "renders_nothing example_mat_env (sd_registry crowded_studio) ''c.s.t'' (example_application\<lparr>ap_id := ''z'', ap_rule_id := ''gone''\<rparr>)"
    by code_simp
  have a: "dashless ''a''" "dashless ''z''" by code_simp+
  have "owned_by ''z'' (rw_id (foreign_row ''z'' ''c.s.t''))" by (auto simp: foreign_row_def owned_by_def)
  then have "\<not> owned_by ''a'' (rw_id (foreign_row ''z'' ''c.s.t''))" using owned_by_unique [OF _ _ a] by blast
  then have "spares example_mat_env (sd_registry crowded_studio) ''c.s.t'' (foreign_row ''z'' ''c.s.t'') example_application"
    by (simp add: spares_def example_application_def foreign_row_def)
  moreover have "applications crowded_studio ''b'' = [example_application, example_application\<lparr>ap_id := ''z'', ap_rule_id := ''gone''\<rparr>]"
    by (simp add: applications_def crowded_studio_def example_application_def)
  ultimately have "\<forall>ap \<in> set (applications crowded_studio ''b''). spares example_mat_env (sd_registry crowded_studio) ''c.s.t'' (foreign_row ''z'' ''c.s.t'') ap"
    using gone by (simp add: spares_def)
  from materialize_spares_rows [OF _ names row kept this, of "[''a-0'']"] show ?thesis using ok by (metis prod.collapse)
qed

end
