(* ===== verification/Cron.thy ===== *)
theory Cron
  imports Py_Text
begin

section \<open>Cron schedules (\<open>backend/services/scheduler_service.py\<close>)\<close>

text \<open>
  When a scheduled table or table space runs next: the parser of five-field cron expressions and the
  search for the next wall clock minute that matches, both of \<open>SchedulerService\<close>. Python's date
  arithmetic is written out on years, months, days, hours and minutes; seconds are cut off before the
  search. What a time zone makes of an instant and of a wall clock time is a parameter, since the zone
  database is not part of the program. Years are not limited to 9999.
\<close>

subsection \<open>Wall clock times\<close>

record wall =
  wl_year :: int
  wl_month :: int
  wl_day :: int
  wl_hour :: int
  wl_minute :: int

definition leap :: "int \<Rightarrow> bool" where
  "leap y \<longleftrightarrow> y mod 4 = 0 \<and> (y mod 100 \<noteq> 0 \<or> y mod 400 = 0)"

definition days_in_month :: "int \<Rightarrow> int \<Rightarrow> int" where
  "days_in_month y m = (if m = 2 then (if leap y then 29 else 28) else if m \<in> {4, 6, 9, 11} then 30 else 31)"

text \<open>\<open>date.toordinal\<close>; the ordinal of a Sunday is a multiple of 7.\<close>

definition days_before_year :: "int \<Rightarrow> int" where
  "days_before_year y = (let y = y - 1 in y * 365 + y div 4 - y div 100 + y div 400)"

definition days_before_month :: "int \<Rightarrow> int \<Rightarrow> int" where
  "days_before_month y m = sum_list (map (days_in_month y) [1..m - 1])"

definition ordinal :: "wall \<Rightarrow> int" where
  "ordinal w = days_before_year (wl_year w) + days_before_month (wl_year w) (wl_month w) + wl_day w"

definition valid_wall :: "wall \<Rightarrow> bool" where
  "valid_wall w \<longleftrightarrow> 1 \<le> wl_year w \<and> 1 \<le> wl_month w \<and> wl_month w \<le> 12 \<and> 1 \<le> wl_day w
     \<and> wl_day w \<le> days_in_month (wl_year w) (wl_month w)
     \<and> 0 \<le> wl_hour w \<and> wl_hour w \<le> 23 \<and> 0 \<le> wl_minute w \<and> wl_minute w \<le> 59"

text \<open>The first minute of the next month, of the next day and of the next hour, and the next minute.\<close>

definition next_month :: "wall \<Rightarrow> wall" where
  "next_month w = \<lparr>wl_year = (if wl_month w = 12 then wl_year w + 1 else wl_year w),
     wl_month = (if wl_month w = 12 then 1 else wl_month w + 1), wl_day = 1, wl_hour = 0, wl_minute = 0\<rparr>"

definition next_day :: "wall \<Rightarrow> wall" where
  "next_day w = (if wl_day w < days_in_month (wl_year w) (wl_month w)
     then w\<lparr>wl_day := wl_day w + 1, wl_hour := 0, wl_minute := 0\<rparr> else next_month w)"

definition next_hour :: "wall \<Rightarrow> wall" where
  "next_hour w = (if wl_hour w < 23 then w\<lparr>wl_hour := wl_hour w + 1, wl_minute := 0\<rparr> else next_day w)"

definition next_minute :: "wall \<Rightarrow> wall" where
  "next_minute w = (if wl_minute w < 59 then w\<lparr>wl_minute := wl_minute w + 1\<rparr> else next_hour w)"

subsection \<open>The fields of an expression\<close>

definition cron_weekday_names :: "(string \<times> int) list" where
  "cron_weekday_names = [(''SUN'', 0), (''MON'', 1), (''TUE'', 2), (''WED'', 3), (''THU'', 4), (''FRI'', 5), (''SAT'', 6)]"

definition resolve_cron_token :: "string \<Rightarrow> (string \<times> int) list option \<Rightarrow> int option" where
  "resolve_cron_token token names = (let token = py_strip token in
     case names of
       None \<Rightarrow> py_int_of_string token
     | Some ns \<Rightarrow> (case dict_get ns (py_upper token) of Some n \<Rightarrow> Some n | None \<Rightarrow> py_int_of_string token))"

text \<open>The values of one part, \<open>None\<close> for a \<open>ValueError\<close>.\<close>

definition cron_part :: "int \<Rightarrow> int \<Rightarrow> (string \<times> int) list option \<Rightarrow> string \<Rightarrow> int list option" where
  "cron_part lo hi names part =
     (let (base, step_s) = py_partition CHR ''/'' part in
      Option.bind (if step_s = [] then Some 1 else py_int_of_string step_s) (\<lambda>step.
      if step \<le> 0 then None
      else Option.bind
        (if base = ''*'' then Some (lo, hi)
         else if CHR ''-'' \<in> set base then
           (let (start_s, end_s) = py_partition CHR ''-'' base in
            Option.bind (resolve_cron_token start_s names) (\<lambda>start.
            map_option (\<lambda>stop. (start, stop)) (resolve_cron_token end_s names)))
         else map_option (\<lambda>n. (n, n)) (resolve_cron_token base names)) (\<lambda>(start, stop).
      if lo \<le> start \<and> start \<le> hi \<and> lo \<le> stop \<and> stop \<le> hi \<and> start \<le> stop
      then Some (filter (\<lambda>v. (v - start) mod step = 0) [start..stop]) else None)))"

fun cron_parts :: "int \<Rightarrow> int \<Rightarrow> (string \<times> int) list option \<Rightarrow> string list \<Rightarrow> int list option" where
  "cron_parts lo hi names [] = Some []"
| "cron_parts lo hi names (p # ps) =
     (if py_strip p = [] then cron_parts lo hi names ps
      else Option.bind (cron_part lo hi names (py_strip p)) (\<lambda>vs. map_option (\<lambda>ws. vs @ ws) (cron_parts lo hi names ps)))"

definition parse_cron_field :: "string \<Rightarrow> int \<Rightarrow> int \<Rightarrow> (string \<times> int) list option \<Rightarrow> int list option" where
  "parse_cron_field raw lo hi names = (case cron_parts lo hi names (py_split CHR '','' (py_strip raw)) of
     Some (v # vs) \<Rightarrow> Some (v # vs) | _ \<Rightarrow> None)"

record cron_fields =
  cf_minutes :: "int list"
  cf_hours :: "int list"
  cf_doms :: "int list"
  cf_months :: "int list"
  cf_dows :: "int list"
  cf_dom_wild :: bool
  cf_dow_wild :: bool

definition parse_cron :: "string \<Rightarrow> cron_fields option" where
  "parse_cron expr = (case py_words expr of
     [minute_f, hour_f, dom_f, month_f, dow_f] \<Rightarrow>
       Option.bind (parse_cron_field minute_f 0 59 None) (\<lambda>minutes.
       Option.bind (parse_cron_field hour_f 0 23 None) (\<lambda>hours.
       Option.bind (parse_cron_field dom_f 1 31 None) (\<lambda>doms.
       Option.bind (parse_cron_field month_f 1 12 None) (\<lambda>months.
       Option.bind (parse_cron_field dow_f 0 7 (Some cron_weekday_names)) (\<lambda>dows.
       Some \<lparr>cf_minutes = minutes, cf_hours = hours, cf_doms = doms, cf_months = months,
         cf_dows = map (\<lambda>v. if v = 7 then 0 else v) dows,
         cf_dom_wild = (dom_f = ''*''), cf_dow_wild = (dow_f = ''*'')\<rparr>)))))
   | _ \<Rightarrow> None)"

subsection \<open>The search\<close>

definition day_ok :: "cron_fields \<Rightarrow> wall \<Rightarrow> bool" where
  "day_ok f w = (let dow = ordinal w mod 7 in
     if cf_dom_wild f \<and> cf_dow_wild f then True
     else if cf_dom_wild f then dow \<in> set (cf_dows f)
     else if cf_dow_wild f then wl_day w \<in> set (cf_doms f)
     else wl_day w \<in> set (cf_doms f) \<or> dow \<in> set (cf_dows f))"

text \<open>One turn of the loop: \<open>None\<close> when the candidate is the result.\<close>

definition cron_step :: "cron_fields \<Rightarrow> wall \<Rightarrow> wall option" where
  "cron_step f w =
     (if wl_month w \<notin> set (cf_months f) then Some (next_month w)
      else if \<not> day_ok f w then Some (next_day w)
      else if wl_hour w \<notin> set (cf_hours f) then Some (next_hour w)
      else if wl_minute w \<notin> set (cf_minutes f) then Some (next_minute w)
      else None)"

fun cron_search :: "nat \<Rightarrow> cron_fields \<Rightarrow> wall \<Rightarrow> wall option" where
  "cron_search 0 f w = None"
| "cron_search (Suc n) f w = (case cron_step f w of None \<Rightarrow> Some w | Some w' \<Rightarrow> cron_search n f w')"

definition cron_max_steps :: nat where
  "cron_max_steps = 100000"

text \<open>A zone tells the wall clock of an instant, seconds cut off, and the instant of a wall clock time.\<close>

record zone =
  zn_local :: "int \<Rightarrow> wall"
  zn_utc :: "wall \<Rightarrow> int"

record zone_database =
  zd_zone :: "string \<Rightarrow> zone option"
  zd_utc :: zone

datatype cron_error = BadExpression | NoOccurrence

definition resolve_zone :: "zone_database \<Rightarrow> string option \<Rightarrow> zone" where
  "resolve_zone db tz = (case tz of
     Some (c # s) \<Rightarrow> (case zd_zone db (c # s) of Some z \<Rightarrow> z | None \<Rightarrow> zd_utc db)
   | _ \<Rightarrow> zd_utc db)"

definition compute_next_cron_run :: "zone_database \<Rightarrow> string \<Rightarrow> int \<Rightarrow> string option \<Rightarrow> cron_error + int" where
  "compute_next_cron_run db expr after tz = (case parse_cron expr of
     None \<Rightarrow> Inl BadExpression
   | Some f \<Rightarrow> (let z = resolve_zone db tz in
       case cron_search cron_max_steps f (next_minute (zn_local z after)) of
         None \<Rightarrow> Inl NoOccurrence
       | Some w \<Rightarrow> Inr (zn_utc z w)))"

end
