(* ===== verification/Cron_Search.thy ===== *)
theory Cron_Search
  imports Cron "HOL-Library.Product_Lexorder"
begin

section \<open>The next run of a cron schedule\<close>

text \<open>
  Wall clock times in their lexicographic order, which is the order of the calendar. Each turn of the
  search skips only times that do not match, so what it returns is the least match; and a match is found
  within the step limit unless the expression names only days that no month has.
\<close>

subsection \<open>The order of wall clock times\<close>

definition wall_key :: "wall \<Rightarrow> int \<times> int \<times> int \<times> int \<times> int" where
  "wall_key w = (wl_year w, wl_month w, wl_day w, wl_hour w, wl_minute w)"

lemma wall_eqI: "wall_key v = wall_key w \<Longrightarrow> v = w" for v w :: wall
  by (simp add: wall_key_def)

lemma days_in_month_bounds: "28 \<le> days_in_month y m" "days_in_month y m \<le> 31"
  by (simp_all add: days_in_month_def)

definition same_month :: "wall \<Rightarrow> wall \<Rightarrow> bool" where
  "same_month v w \<longleftrightarrow> wl_year v = wl_year w \<and> wl_month v = wl_month w"

definition same_day :: "wall \<Rightarrow> wall \<Rightarrow> bool" where
  "same_day v w \<longleftrightarrow> same_month v w \<and> wl_day v = wl_day w"

definition same_hour :: "wall \<Rightarrow> wall \<Rightarrow> bool" where
  "same_hour v w \<longleftrightarrow> same_day v w \<and> wl_hour v = wl_hour w"

text \<open>Where a jump lands, and that all it jumps over lies in the same month, day, hour or minute.\<close>

lemma next_month_jump:
  assumes "valid_wall w"
  shows "valid_wall (next_month w)" "wall_key w < wall_key (next_month w)"
    "valid_wall v \<Longrightarrow> wall_key w \<le> wall_key v \<Longrightarrow> wall_key v < wall_key (next_month w) \<Longrightarrow> same_month v w"
  using assms days_in_month_bounds(1)
  by (auto simp: valid_wall_def next_month_def wall_key_def same_month_def intro: order.trans [OF _ days_in_month_bounds(1)] split: if_splits)

lemma next_day_jump:
  assumes "valid_wall w"
  shows "valid_wall (next_day w)" "wall_key w < wall_key (next_day w)"
    "valid_wall v \<Longrightarrow> wall_key w \<le> wall_key v \<Longrightarrow> wall_key v < wall_key (next_day w) \<Longrightarrow> same_day v w"
proof -
  have "valid_wall (next_day w) \<and> wall_key w < wall_key (next_day w)
    \<and> (valid_wall v \<and> wall_key w \<le> wall_key v \<and> wall_key v < wall_key (next_day w) \<longrightarrow> same_day v w)"
  proof (cases "wl_day w < days_in_month (wl_year w) (wl_month w)")
    case True
    then show ?thesis using assms
      by (auto simp: valid_wall_def next_day_def wall_key_def same_day_def same_month_def)
  next
    case False
    then have "next_day w = next_month w" "wl_day w = days_in_month (wl_year w) (wl_month w)"
      using assms by (simp_all add: next_day_def valid_wall_def)
    moreover have "wl_day v = wl_day w" if "valid_wall v" "same_month v w" "wall_key w \<le> wall_key v"
      using that calculation(2) by (auto simp: valid_wall_def same_month_def wall_key_def)
    ultimately show ?thesis using next_month_jump [OF assms] by (auto simp: same_day_def)
  qed
  then show "valid_wall (next_day w)" "wall_key w < wall_key (next_day w)"
    "valid_wall v \<Longrightarrow> wall_key w \<le> wall_key v \<Longrightarrow> wall_key v < wall_key (next_day w) \<Longrightarrow> same_day v w" by blast+
qed

lemma next_hour_jump:
  assumes "valid_wall w"
  shows "valid_wall (next_hour w)" "wall_key w < wall_key (next_hour w)"
    "valid_wall v \<Longrightarrow> wall_key w \<le> wall_key v \<Longrightarrow> wall_key v < wall_key (next_hour w) \<Longrightarrow> same_hour v w"
proof -
  have "valid_wall (next_hour w) \<and> wall_key w < wall_key (next_hour w)
    \<and> (valid_wall v \<and> wall_key w \<le> wall_key v \<and> wall_key v < wall_key (next_hour w) \<longrightarrow> same_hour v w)"
  proof (cases "wl_hour w < 23")
    case True
    then show ?thesis using assms
      by (auto simp: valid_wall_def next_hour_def wall_key_def same_hour_def same_day_def same_month_def)
  next
    case False
    then have "next_hour w = next_day w" "wl_hour w = 23" using assms by (simp_all add: next_hour_def valid_wall_def)
    moreover have "wl_hour v = wl_hour w" if "valid_wall v" "same_day v w" "wall_key w \<le> wall_key v"
      using that calculation(2) by (auto simp: valid_wall_def same_day_def same_month_def wall_key_def)
    ultimately show ?thesis using next_day_jump [OF assms] by (auto simp: same_hour_def)
  qed
  then show "valid_wall (next_hour w)" "wall_key w < wall_key (next_hour w)"
    "valid_wall v \<Longrightarrow> wall_key w \<le> wall_key v \<Longrightarrow> wall_key v < wall_key (next_hour w) \<Longrightarrow> same_hour v w" by blast+
qed

lemma next_minute_jump:
  assumes "valid_wall w"
  shows "valid_wall (next_minute w)" "wall_key w < wall_key (next_minute w)"
    "valid_wall v \<Longrightarrow> wall_key w \<le> wall_key v \<Longrightarrow> wall_key v < wall_key (next_minute w) \<Longrightarrow> v = w"
proof -
  have "valid_wall (next_minute w) \<and> wall_key w < wall_key (next_minute w)
    \<and> (valid_wall v \<and> wall_key w \<le> wall_key v \<and> wall_key v < wall_key (next_minute w) \<longrightarrow> v = w)"
  proof (cases "wl_minute w < 59")
    case True
    then show ?thesis using assms
      by (auto simp: valid_wall_def next_minute_def wall_key_def intro!: wall_eqI [unfolded wall_key_def])
  next
    case False
    then have "next_minute w = next_hour w" "wl_minute w = 59" using assms by (simp_all add: next_minute_def valid_wall_def)
    moreover have "v = w" if "valid_wall v" "same_hour v w" "wall_key w \<le> wall_key v"
      using that calculation(2)
      by (auto simp: valid_wall_def same_hour_def same_day_def same_month_def wall_key_def intro!: wall_eqI [unfolded wall_key_def])
    ultimately show ?thesis using next_hour_jump [OF assms] by auto
  qed
  then show "valid_wall (next_minute w)" "wall_key w < wall_key (next_minute w)"
    "valid_wall v \<Longrightarrow> wall_key w \<le> wall_key v \<Longrightarrow> wall_key v < wall_key (next_minute w) \<Longrightarrow> v = w" by blast+
qed

subsection \<open>The least match\<close>

definition cron_matches :: "cron_fields \<Rightarrow> wall \<Rightarrow> bool" where
  "cron_matches f w \<longleftrightarrow> wl_month w \<in> set (cf_months f) \<and> day_ok f w \<and> wl_hour w \<in> set (cf_hours f) \<and> wl_minute w \<in> set (cf_minutes f)"

lemma day_ok_same_day: "same_day v w \<Longrightarrow> day_ok f v = day_ok f w"
  by (simp add: day_ok_def same_day_def same_month_def ordinal_def)

lemma cron_step_None: "cron_step f w = None \<longleftrightarrow> cron_matches f w"
  by (simp add: cron_step_def cron_matches_def)

lemma cron_step_Some:
  assumes "cron_step f w = Some w'" "valid_wall w"
  shows "valid_wall w'" "wall_key w < wall_key w'"
    "valid_wall v \<Longrightarrow> wall_key w \<le> wall_key v \<Longrightarrow> wall_key v < wall_key w' \<Longrightarrow> \<not> cron_matches f v"
proof -
  have "valid_wall w' \<and> wall_key w < wall_key w'
    \<and> (valid_wall v \<and> wall_key w \<le> wall_key v \<and> wall_key v < wall_key w' \<longrightarrow> \<not> cron_matches f v)"
  proof (cases "wl_month w \<in> set (cf_months f)")
    case False
    then show ?thesis using assms(1) next_month_jump [OF assms(2)] by (auto simp: cron_step_def cron_matches_def same_month_def)
  next
    case month: True
    show ?thesis
    proof (cases "day_ok f w")
      case False
      then show ?thesis using month assms(1) next_day_jump [OF assms(2)] day_ok_same_day by (auto simp: cron_step_def cron_matches_def)
    next
      case day: True
      show ?thesis
      proof (cases "wl_hour w \<in> set (cf_hours f)")
        case False
        then show ?thesis using month day assms(1) next_hour_jump [OF assms(2)] by (auto simp: cron_step_def cron_matches_def same_hour_def)
      next
        case True
        then show ?thesis using month day assms(1) next_minute_jump [OF assms(2)] by (auto simp: cron_step_def cron_matches_def split: if_splits)
      qed
    qed
  qed
  then show "valid_wall w'" "wall_key w < wall_key w'"
    "valid_wall v \<Longrightarrow> wall_key w \<le> wall_key v \<Longrightarrow> wall_key v < wall_key w' \<Longrightarrow> \<not> cron_matches f v" by blast+
qed

lemma cron_search_least:
  "cron_search n f w = Some r \<Longrightarrow> valid_wall w \<Longrightarrow> valid_wall r \<and> cron_matches f r \<and> wall_key w \<le> wall_key r
     \<and> (\<forall>v. valid_wall v \<and> wall_key w \<le> wall_key v \<and> wall_key v < wall_key r \<longrightarrow> \<not> cron_matches f v)"
proof (induction n arbitrary: w)
  case (Suc n)
  show ?case
  proof (cases "cron_step f w")
    case None
    then have "r = w" using Suc.prems(1) by simp
    moreover have "cron_matches f w" using None cron_step_None by simp
    ultimately show ?thesis using Suc.prems(2) by (auto simp: not_less [symmetric])
  next
    case (Some w')
    note step = cron_step_Some [OF Some Suc.prems(2)]
    have "cron_search n f w' = Some r" using Suc.prems(1) Some by simp
    note IH = Suc.IH [OF this step(1)]
    have "\<not> cron_matches f v" if "valid_wall v" "wall_key w \<le> wall_key v" "wall_key v < wall_key r" for v
      using IH step(3) that by (cases "wall_key v < wall_key w'") auto
    then show ?thesis using IH step(2) by (meson less_le_not_le order_trans)
  qed
qed simp

text \<open>The next run of a schedule is the first minute strictly after the given one whose wall clock reading in the
  schedule's zone matches the expression: it matches, and no minute in between does.\<close>
theorem next_run_is_first_match:
  assumes "parse_cron expr = Some f" "valid_wall (zn_local (resolve_zone db tz) after)"
    and "compute_next_cron_run db expr after tz = Inr t"
  shows "\<exists>r. t = zn_utc (resolve_zone db tz) r \<and> valid_wall r \<and> cron_matches f r
    \<and> wall_key (zn_local (resolve_zone db tz) after) < wall_key r
    \<and> \<not> (\<exists>v. valid_wall v \<and> cron_matches f v \<and> wall_key (zn_local (resolve_zone db tz) after) < wall_key v \<and> wall_key v < wall_key r)"
proof -
  let ?z = "resolve_zone db tz"
  let ?w = "zn_local ?z after"
  obtain r where r: "cron_search cron_max_steps f (next_minute ?w) = Some r" "t = zn_utc ?z r"
    using assms(1,3) by (auto simp: compute_next_cron_run_def Let_def split: option.splits)
  note jump = next_minute_jump [OF assms(2)]
  note least = cron_search_least [OF r(1) jump(1)]
  have "wall_key (next_minute ?w) \<le> wall_key v" if "valid_wall v" "wall_key ?w < wall_key v" for v
  proof (rule leI, rule notI)
    assume "wall_key v < wall_key (next_minute ?w)"
    then have "v = ?w" using jump(3) [OF that(1)] that(2) by (simp add: less_imp_le)
    then show False using that(2) by simp
  qed
  then have "\<not> (\<exists>v. valid_wall v \<and> cron_matches f v \<and> wall_key ?w < wall_key v \<and> wall_key v < wall_key r)"
    using least by blast
  moreover have "wall_key ?w < wall_key r" using least jump(2) by (blast intro: less_le_trans)
  ultimately show ?thesis using least r(2) by blast
qed

subsection \<open>What the parser guarantees\<close>

lemma cron_part_range: "cron_part lo hi names p = Some vs \<Longrightarrow> set vs \<subseteq> {lo..hi}"
  by (auto simp: cron_part_def Let_def bind_eq_Some_conv split: prod.splits if_splits)

lemma cron_parts_range: "cron_parts lo hi names ps = Some vs \<Longrightarrow> set vs \<subseteq> {lo..hi}"
proof (induction ps arbitrary: vs)
  case (Cons p ps)
  show ?case
  proof (cases "py_strip p = []")
    case False
    then obtain a b where "cron_part lo hi names (py_strip p) = Some a" "cron_parts lo hi names ps = Some b" "vs = a @ b"
      using Cons.prems by (auto simp: bind_eq_Some_conv)
    then show ?thesis using Cons.IH cron_part_range by fastforce
  qed (use Cons in simp)
qed simp

lemma parse_cron_field_range:
  assumes "parse_cron_field raw lo hi names = Some vs"
  shows "set vs \<subseteq> {lo..hi}" "vs \<noteq> []"
  using assms cron_parts_range [of lo hi names] by (auto simp: parse_cron_field_def split: option.splits list.splits)

definition cron_in_range :: "cron_fields \<Rightarrow> bool" where
  "cron_in_range f \<longleftrightarrow> set (cf_minutes f) \<subseteq> {0..59} \<and> cf_minutes f \<noteq> [] \<and> set (cf_hours f) \<subseteq> {0..23} \<and> cf_hours f \<noteq> []
     \<and> set (cf_doms f) \<subseteq> {1..31} \<and> cf_doms f \<noteq> [] \<and> set (cf_months f) \<subseteq> {1..12} \<and> cf_months f \<noteq> []
     \<and> set (cf_dows f) \<subseteq> {0..6} \<and> cf_dows f \<noteq> []"

lemma sunday_range: "set dows \<subseteq> {0..7} \<Longrightarrow> set (map (\<lambda>v. if v = 7 then 0 else v) dows) \<subseteq> {0..6}" for dows :: "int list"
  by (auto simp: subset_iff)

lemma parse_cron_in_range:
  assumes "parse_cron expr = Some f" shows "cron_in_range f"
proof -
  obtain a b c d e where fields: "py_words expr = [a, b, c, d, e]"
    using assms by (auto simp: parse_cron_def split: list.splits)
  obtain ms hs ds mos ws where parsed: "parse_cron_field a 0 59 None = Some ms" "parse_cron_field b 0 23 None = Some hs"
    "parse_cron_field c 1 31 None = Some ds" "parse_cron_field d 1 12 None = Some mos"
    "parse_cron_field e 0 7 (Some cron_weekday_names) = Some ws"
    and f: "f = \<lparr>cf_minutes = ms, cf_hours = hs, cf_doms = ds, cf_months = mos,
         cf_dows = map (\<lambda>v. if v = 7 then 0 else v) ws, cf_dom_wild = (c = ''*''), cf_dow_wild = (e = ''*'')\<rparr>"
    using assms by (auto simp: parse_cron_def fields bind_eq_Some_conv)
  note ranges = parse_cron_field_range [OF parsed(1)] parse_cron_field_range [OF parsed(2)] parse_cron_field_range [OF parsed(3)]
      parse_cron_field_range [OF parsed(4)] sunday_range [OF parse_cron_field_range(1) [OF parsed(5)]]
  have "map (\<lambda>v. if v = 7 then 0 else v) ws \<noteq> []" using parse_cron_field_range(2) [OF parsed(5)] by simp
  then show ?thesis
    unfolding f cron_in_range_def cron_fields.select_convs by (intro conjI ranges)
qed

subsection \<open>How long the search takes\<close>

lemma cron_search_fuel: "cron_search n f w = Some r \<Longrightarrow> n \<le> k \<Longrightarrow> cron_search k f w = Some r"
proof (induction n arbitrary: w k)
  case (Suc n)
  then show ?case by (cases k) (auto split: option.splits)
qed simp

lemma found_with_more: "cron_search n f w = Some r \<Longrightarrow> n \<le> k \<Longrightarrow> cron_search k f w \<noteq> None"
  using cron_search_fuel [of n f w r k] by simp

lemma found_now: "cron_step f w = None \<Longrightarrow> 0 < k \<Longrightarrow> cron_search k f w \<noteq> None"
  by (cases k) simp_all

lemma found_after_turn:
  assumes "cron_step f w = Some w'" "cron_search n f w' = Some r" "n < k"
  shows "cron_search k f w \<noteq> None"
  by (rule found_with_more [of "Suc n" _ _ r]) (use assms in simp_all)

text \<open>The hour of a wall clock time, counting every month as 31 days.\<close>

definition hour_count :: "wall \<Rightarrow> int" where
  "hour_count w = ((wl_year w * 12 + wl_month w) * 31 + wl_day w) * 24 + wl_hour w"

lemma hour_count_mono:
  assumes "valid_wall v" "valid_wall w" "wall_key v < wall_key w" "wl_minute v = 0" "wl_minute w = 0"
  shows "hour_count v < hour_count w"
  using assms days_in_month_bounds(2) [of "wl_year v" "wl_month v"] days_in_month_bounds(2) [of "wl_year w" "wl_month w"]
  by (auto simp: valid_wall_def wall_key_def hour_count_def)

lemma hour_count_le:
  assumes "valid_wall v" "valid_wall w" "wall_key v \<le> wall_key w"
  shows "hour_count v \<le> hour_count w"
  using assms days_in_month_bounds(2) [of "wl_year v" "wl_month v"] days_in_month_bounds(2) [of "wl_year w" "wl_month w"]
  by (auto simp: valid_wall_def wall_key_def hour_count_def)

definition starts_hour :: "wall \<Rightarrow> bool" where
  "starts_hour w \<longleftrightarrow> wl_minute w = 0"

text \<open>A turn either adds a minute within the hour, or lands at the start of a later hour.\<close>

lemma cron_step_lands:
  assumes "cron_step f w = Some w'" "valid_wall w"
  shows "(wl_minute w < 59 \<and> w' = w\<lparr>wl_minute := wl_minute w + 1\<rparr> \<and> day_ok f w \<and> wl_month w \<in> set (cf_months f) \<and> wl_hour w \<in> set (cf_hours f))
    \<or> starts_hour w'"
  using assms by (auto simp: cron_step_def next_month_def next_day_def next_hour_def next_minute_def starts_hour_def split: if_splits)

lemma search_within_hour:
  assumes "valid_wall w" "day_ok f w" "wl_month w \<in> set (cf_months f)" "wl_hour w \<in> set (cf_hours f)"
    and "m \<in> set (cf_minutes f)" "wl_minute w \<le> m" "m \<le> 59"
  shows "cron_search (Suc (nat (m - wl_minute w))) f w \<noteq> None"
  using assms
proof (induction "nat (m - wl_minute w)" arbitrary: w)
  case 0
  then have "wl_minute w = m" by simp
  then show ?case using 0 by (simp add: cron_step_def)
next
  case (Suc k)
  let ?w = "w\<lparr>wl_minute := wl_minute w + 1\<rparr>"
  have less: "wl_minute w < m" and k: "k = nat (m - wl_minute ?w)" using Suc.hyps(2) by simp_all
  have "valid_wall ?w" using Suc.prems(1,7) less by (simp add: valid_wall_def)
  moreover have "day_ok f ?w" using day_ok_same_day [of ?w w f] Suc.prems(2) by (simp add: same_day_def same_month_def)
  ultimately have found: "cron_search (Suc k) f ?w \<noteq> None"
    using Suc.hyps(1) [OF k] Suc.prems(3-7) less k by simp
  show ?case
  proof (cases "wl_minute w \<in> set (cf_minutes f)")
    case True
    then show ?thesis using Suc.prems(2-4) by (simp add: cron_step_def)
  next
    case False
    then have turn: "cron_step f w = Some ?w" using Suc.prems(2-4,7) less by (simp add: cron_step_def next_minute_def)
    obtain r where "cron_search (Suc k) f ?w = Some r" using found by blast
    then show ?thesis by (rule found_after_turn [OF turn]) (use Suc.hyps(2) in simp)
  qed
qed

text \<open>From the start of an hour not after a match, one turn an hour and the minutes of one hour are enough.\<close>

lemma search_from_hour:
  assumes "cron_in_range f" "cron_matches f goal" "valid_wall goal"
    and "valid_wall w" "starts_hour w" "wall_key w \<le> wall_key goal"
  shows "cron_search (60 + nat (hour_count goal - hour_count w)) f w \<noteq> None"
  using assms(4-6)
proof (induction "nat (hour_count goal - hour_count w)" arbitrary: w rule: less_induct)
  case less
  show ?case
  proof (cases "cron_step f w")
    case None
    then show ?thesis by (rule found_now) simp
  next
    case (Some w')
    note step = cron_step_Some [OF Some less.prems(1)]
    have not_after: "wall_key w' \<le> wall_key goal" using step(3) [OF assms(3) less.prems(3)] assms(2) by (auto simp: not_less [symmetric])
    show ?thesis
    proof (cases "starts_hour w'")
      case True
      have "hour_count w < hour_count w'"
        using hour_count_mono [OF less.prems(1) step(1,2)] less.prems(2) True by (simp add: starts_hour_def)
      moreover have "hour_count w' \<le> hour_count goal" by (rule hour_count_le [OF step(1) assms(3) not_after])
      ultimately have closer: "nat (hour_count goal - hour_count w') < nat (hour_count goal - hour_count w)" by simp
      obtain r where "cron_search (60 + nat (hour_count goal - hour_count w')) f w' = Some r"
        using less.hyps [OF closer step(1) True not_after] by blast
      then show ?thesis by (rule found_after_turn [OF Some]) (use closer in simp)
    next
      case False
      then have ok: "day_ok f w" "wl_month w \<in> set (cf_months f)" "wl_hour w \<in> set (cf_hours f)"
        using cron_step_lands [OF Some less.prems(1)] by simp_all
      obtain m where m: "m \<in> set (cf_minutes f)" "0 \<le> m" "m \<le> 59"
        using assms(1) by (cases "cf_minutes f") (auto simp: cron_in_range_def)
      then obtain r where "cron_search (Suc (nat (m - wl_minute w))) f w = Some r"
        using search_within_hour [OF less.prems(1) ok, of m] less.prems(2) by (auto simp: starts_hour_def)
      then show ?thesis by (rule found_with_more) (use m less.prems(2) in \<open>simp add: starts_hour_def\<close>)
    qed
  qed
qed

lemma search_from_any:
  assumes "cron_in_range f" "cron_matches f goal" "valid_wall goal" "valid_wall w" "wall_key w \<le> wall_key goal"
  shows "cron_search (Suc (nat (59 - wl_minute w)) + (60 + nat (hour_count goal - hour_count w))) f w \<noteq> None"
  using assms(4,5)
proof (induction "nat (59 - wl_minute w)" arbitrary: w rule: less_induct)
  case less
  show ?case
  proof (cases "cron_step f w")
    case None
    then show ?thesis by (rule found_now) simp
  next
    case (Some w')
    note step = cron_step_Some [OF Some less.prems(1)]
    have not_after: "wall_key w' \<le> wall_key goal" using step(3) [OF assms(3) less.prems(2)] assms(2) by (auto simp: not_less [symmetric])
    have counts: "hour_count w \<le> hour_count w'" by (rule hour_count_le [OF less.prems(1) step(1) less_imp_le [OF step(2)]])
    show ?thesis
    proof (cases "starts_hour w'")
      case True
      obtain r where "cron_search (60 + nat (hour_count goal - hour_count w')) f w' = Some r"
        using search_from_hour [OF assms(1-3) step(1) True not_after] by blast
      then show ?thesis by (rule found_after_turn [OF Some]) (use counts in simp)
    next
      case False
      then have w': "wl_minute w < 59" "w' = w\<lparr>wl_minute := wl_minute w + 1\<rparr>"
        using cron_step_lands [OF Some less.prems(1)] by simp_all
      then have closer: "nat (59 - wl_minute w') < nat (59 - wl_minute w)" by simp
      obtain r where "cron_search (Suc (nat (59 - wl_minute w')) + (60 + nat (hour_count goal - hour_count w'))) f w' = Some r"
        using less.hyps [OF closer step(1) not_after] by blast
      then show ?thesis by (rule found_after_turn [OF Some]) (use w' counts in \<open>simp add: nat_mono add_less_le_mono\<close>)
    qed
  qed
qed

text \<open>A match exists within eight years unless the expression names only days that its months never have.\<close>

lemma leap_year_soon:
  fixes y :: int obtains k where "1 \<le> k" "k \<le> 8" "leap (y + k)"
proof -
  let ?k = "4 - y mod 4"
  have four: "(y + ?k) mod 4 = 0" "(y + ?k + 4) mod 4 = 0" "1 \<le> ?k" "?k \<le> 4" by presburger+
  show ?thesis
  proof (cases "leap (y + ?k)")
    case True
    then show ?thesis using that [of ?k] four by simp
  next
    case False
    then have "(y + ?k) mod 100 = 0" using four(1) by (simp add: leap_def)
    then have "(y + ?k + 4) mod 100 \<noteq> 0" by presburger
    then have "leap (y + (?k + 4))" using four(2) by (simp add: leap_def add.assoc)
    then show ?thesis using that [of "?k + 4"] four by simp
  qed
qed

definition impossible_days :: "cron_fields \<Rightarrow> bool" where
  "impossible_days f \<longleftrightarrow> \<not> cf_dom_wild f \<and> cf_dow_wild f
     \<and> \<not> (\<exists>m\<in>set (cf_months f). \<exists>d\<in>set (cf_doms f). d \<le> days_in_month 4 m)"

lemma days_in_leap_month: "leap y \<Longrightarrow> days_in_month y m = days_in_month 4 m"
  by (simp add: days_in_month_def leap_def)

lemma days_in_month_le: "days_in_month y m \<le> days_in_month 4 m"
  by (simp add: days_in_month_def leap_def)

lemma weekday_in_first_week:
  fixes b e :: int assumes "0 \<le> e" "e \<le> 6"
  obtains d where "1 \<le> d" "d \<le> 7" "(b + d) mod 7 = e"
proof -
  have "(b + (1 + (e - b - 1) mod 7)) mod 7 = e" using mod_add_right_eq [of "b + 1" "e - b - 1" 7] assms by (simp add: add.assoc)
  then show ?thesis by (rule that [rotated 2]) simp_all
qed

lemma match_within_eight_years:
  assumes "cron_in_range f" "\<not> impossible_days f" "valid_wall w"
  obtains goal where "valid_wall goal" "cron_matches f goal" "wall_key w \<le> wall_key goal" "hour_count goal - hour_count w \<le> 90000"
proof -
  obtain k where k: "1 \<le> k" "k \<le> 8" "leap (wl_year w + k)" using leap_year_soon .
  obtain h where h: "h \<in> set (cf_hours f)" "0 \<le> h" "h \<le> 23"
    using assms(1) by (cases "cf_hours f") (auto simp: cron_in_range_def)
  obtain mi where mi: "mi \<in> set (cf_minutes f)" "0 \<le> mi" "mi \<le> 59"
    using assms(1) by (cases "cf_minutes f") (auto simp: cron_in_range_def)
  define point where "point m d = \<lparr>wl_year = wl_year w + k, wl_month = m, wl_day = d, wl_hour = h, wl_minute = mi\<rparr>" for m d
  have months: "1 \<le> m \<and> m \<le> 12" if "m \<in> set (cf_months f)" for m using that assms(1) by (auto simp: cron_in_range_def)
  note found = that
  have goal: ?thesis if "m \<in> set (cf_months f)" "1 \<le> d" "d \<le> days_in_month 4 m" "day_ok f (point m d)" for m d
  proof (rule found)
    show "valid_wall (point m d)" using that(1-3) months k(1,3) h mi assms(3) by (simp add: point_def valid_wall_def days_in_leap_month)
    show "cron_matches f (point m d)" using that(1,4) h mi by (simp add: cron_matches_def point_def)
    show "wall_key w \<le> wall_key (point m d)" using k(1) by (simp add: wall_key_def point_def)
    show "hour_count (point m d) - hour_count w \<le> 90000"
      using k(2) months [OF that(1)] that(3) days_in_month_bounds(2) [of 4 m] h(3) assms(3)
      by (simp add: hour_count_def point_def valid_wall_def)
  qed
  obtain m where m: "m \<in> set (cf_months f)" using assms(1) by (cases "cf_months f") (auto simp: cron_in_range_def)
  show ?thesis
  proof (cases "cf_dow_wild f")
    case True
    show ?thesis
    proof (cases "cf_dom_wild f")
      case all: True
      show ?thesis by (rule goal [OF m, of 1]) (use all True days_in_month_bounds(1) [of 4 m] in \<open>simp_all add: day_ok_def\<close>)
    next
      case False
      then obtain m d where d: "m \<in> set (cf_months f)" "d \<in> set (cf_doms f)" "d \<le> days_in_month 4 m"
        using assms(2) True by (auto simp: impossible_days_def)
      moreover have "1 \<le> d" using d(2) assms(1) by (auto simp: cron_in_range_def)
      ultimately show ?thesis using goal [of m d] True False by (simp add: day_ok_def point_def)
    qed
  next
    case False
    obtain e where e: "e \<in> set (cf_dows f)" "0 \<le> e" "e \<le> 6" using assms(1) by (cases "cf_dows f") (auto simp: cron_in_range_def)
    obtain d where d: "1 \<le> d" "d \<le> 7" "(days_before_year (wl_year w + k) + days_before_month (wl_year w + k) m + d) mod 7 = e"
      using weekday_in_first_week [OF e(2,3)] .
    then have "ordinal (point m d) mod 7 = e" by (simp add: ordinal_def point_def)
    then have "day_ok f (point m d)" using e(1) False by (simp add: day_ok_def)
    then show ?thesis using goal [OF m d(1)] d(2) days_in_month_bounds(1) [of 4 m] by simp
  qed
qed

text \<open>C29: A well-formed expression always gets a next run, within the step limit, from any date and in any zone; the one
  exception is an expression that names only days of the month that none of its months ever has, for which the search gives up.\<close>
theorem next_run_exists:
  assumes "parse_cron expr = Some f" "valid_wall (zn_local (resolve_zone db tz) after)"
  shows "if impossible_days f then compute_next_cron_run db expr after tz = Inl NoOccurrence
    else \<exists>t. compute_next_cron_run db expr after tz = Inr t"
proof -
  let ?w = "next_minute (zn_local (resolve_zone db tz) after)"
  have valid: "valid_wall ?w" by (rule next_minute_jump(1) [OF assms(2)])
  have range: "cron_in_range f" by (rule parse_cron_in_range [OF assms(1)])
  have none: "cron_search cron_max_steps f ?w = None" if "impossible_days f"
  proof (rule ccontr)
    assume "cron_search cron_max_steps f ?w \<noteq> None"
    then obtain r where "cron_search cron_max_steps f ?w = Some r" by blast
    then have "cron_matches f r" "valid_wall r" using cron_search_least valid by blast+
    moreover from this(2) have "wl_day r \<le> days_in_month 4 (wl_month r)"
      using days_in_month_le order_trans by (fastforce simp: valid_wall_def)
    ultimately show False using that by (auto simp: impossible_days_def cron_matches_def day_ok_def)
  qed
  have some: "cron_search cron_max_steps f ?w \<noteq> None" if possible: "\<not> impossible_days f"
  proof -
    obtain goal where goal: "valid_wall goal" "cron_matches f goal" "wall_key ?w \<le> wall_key goal"
      "hour_count goal - hour_count ?w \<le> 90000"
      using match_within_eight_years [OF range possible valid] .
    obtain r where "cron_search (Suc (nat (59 - wl_minute ?w)) + (60 + nat (hour_count goal - hour_count ?w))) f ?w = Some r"
      using search_from_any [OF range goal(2,1) valid goal(3)] by blast
    moreover have "nat (59 - wl_minute ?w) \<le> 59" "nat (hour_count goal - hour_count ?w) \<le> 90000"
      using goal(4) valid by (simp_all add: valid_wall_def nat_le_iff)
    ultimately show ?thesis by (elim found_with_more) (simp add: cron_max_steps_def)
  qed
  show ?thesis
  proof (cases "impossible_days f")
    case True
    then show ?thesis using none assms(1) by (simp add: compute_next_cron_run_def Let_def)
  next
    case False
    then show ?thesis using some assms(1) by (auto simp: compute_next_cron_run_def Let_def)
  qed
qed

subsection \<open>A night with two one o'clocks\<close>

text \<open>
  New York in November 2026, in minutes since midnight UTC of the first: daylight saving time ends at 06:00 UTC, so
  the wall clock reads 01:00 to 01:59 twice, and a wall clock time without a \<open>fold\<close> means the first of the two.
\<close>

definition new_york :: zone where
  "new_york = \<lparr>
     zn_local = (\<lambda>i. let l = (if i < 360 then i - 240 else i - 300) in
       \<lparr>wl_year = 2026, wl_month = 11, wl_day = 1 + l div 1440, wl_hour = l div 60 mod 24, wl_minute = l mod 60\<rparr>),
     zn_utc = (\<lambda>w. let l = (wl_day w - 1) * 1440 + wl_hour w * 60 + wl_minute w in if l < 120 then l + 240 else l + 300)\<rparr>"

definition example_zones :: zone_database where
  "example_zones = \<lparr>zd_zone = (\<lambda>n. if n = ''America/New_York'' then Some new_york else None), zd_utc = new_york\<rparr>"

definition quarter_to :: cron_fields where
  "quarter_to = \<lparr>cf_minutes = [45], cf_hours = [0..23], cf_doms = [1..31], cf_months = [1..12], cf_dows = [0..6] @ [0],
     cf_dom_wild = True, cf_dow_wild = True\<rparr>"

lemma parse_quarter_to: "parse_cron ''45 * * * *'' = Some quarter_to"
  by code_simp

lemma quarter_to_search:
  "cron_search 20 quarter_to (next_minute (zn_local new_york 391)) = Some (zn_local new_york 345)"
  by code_simp

lemma new_york_valid: "valid_wall (zn_local (resolve_zone example_zones (Some ''America/New_York'')) 391)"
  by code_simp

lemma new_york_zone: "resolve_zone example_zones (Some ''America/New_York'') = new_york"
  by (simp add: resolve_zone_def example_zones_def)

lemma quarter_to_next: "compute_next_cron_run example_zones ''45 * * * *'' 391 (Some ''America/New_York'') = Inr 345"
proof -
  have "cron_search cron_max_steps quarter_to (next_minute (zn_local new_york 391)) = Some (zn_local new_york 345)"
    by (rule cron_search_fuel [OF quarter_to_search]) (simp add: cron_max_steps_def)
  moreover have "zn_utc new_york (zn_local new_york 345) = 345" by code_simp
  ultimately show ?thesis by (simp add: compute_next_cron_run_def parse_quarter_to new_york_zone)
qed

lemma next_run_is_first_match_witness:
  "\<exists>r. 345 = zn_utc new_york r \<and> valid_wall r \<and> cron_matches quarter_to r \<and> wall_key (zn_local new_york 391) < wall_key r"
  using next_run_is_first_match [OF parse_quarter_to new_york_valid quarter_to_next] by (auto simp: new_york_zone)

lemma next_run_exists_witness:
  "\<exists>t. compute_next_cron_run example_zones ''45 * * * *'' 391 (Some ''America/New_York'') = Inr t"
  using next_run_exists [OF parse_quarter_to new_york_valid] by (simp add: impossible_days_def quarter_to_def)

text \<open>Half past one at night has passed for the second time and a run every hour at a quarter to is asked for: the next
  run the scheduler computes is a quarter to two of the first pass, 46 minutes before the time it is computed at.\<close>
theorem next_run_in_the_past:
  "zn_local new_york 391 = zn_local new_york 331
   \<and> compute_next_cron_run example_zones ''45 * * * *'' 391 (Some ''America/New_York'') = Inr 345 \<and> 345 < (391::int)"
  using quarter_to_next by (simp add: new_york_def)

end
