(* ===== verification/Check_Manager.thy ===== *)
theory Check_Manager
  imports DQ_Rule SQL_Text Registry_Model Action_Base
begin

section \<open>Applying one rule (\<open>manager.py\<close>, \<open>executor.py\<close>)\<close>

text \<open>
  Data frames as far as the engine looks at them, and \<open>DQRuleManager\<close>: whether a rule is skipped, and
  the column of its results. A Spark column is the function that computes it from a row. What Spark
  makes of expressions (do they resolve, what is their value) and the check functions themselves,
  which a rule is given, are parameters. Column names are compared as written.
\<close>

subsection \<open>Data frames\<close>

text \<open>An entry of a result column (\<open>schema/dq_result_schema.py\<close>).\<close>

record result_item =
  ri_name :: string
  ri_message :: "string option"
  ri_columns :: "string list option"
  ri_filter :: "string option"
  ri_function :: string
  ri_run_time :: int
  ri_run_id :: string
  ri_user_metadata :: "(string \<times> string option) list"
  ri_rule_fingerprint :: string
  ri_rule_set_fingerprint :: "string option"
  ri_skipped :: "bool option"

datatype cell = Value json | Results "result_item list option" | Infos "cell list"

type_synonym row = "string \<Rightarrow> cell option"

record frame =
  fr_columns :: "string list"
  fr_rows :: "row list"

definition with_column :: "string \<Rightarrow> (row \<Rightarrow> cell) \<Rightarrow> frame \<Rightarrow> frame" where
  "with_column c f df = \<lparr>fr_columns = (if c \<in> set (fr_columns df) then fr_columns df else fr_columns df @ [c]),
     fr_rows = map (\<lambda>row. row(c \<mapsto> f row)) (fr_rows df)\<rparr>"

definition drop_columns :: "string list \<Rightarrow> frame \<Rightarrow> frame" where
  "drop_columns cs df = \<lparr>fr_columns = filter (\<lambda>c. c \<notin> set cs) (fr_columns df),
     fr_rows = map (\<lambda>row. row |` (- set cs)) (fr_rows df)\<rparr>"

definition where_rows :: "(row \<Rightarrow> bool) \<Rightarrow> frame \<Rightarrow> frame" where
  "where_rows p df = df\<lparr>fr_rows := filter p (fr_rows df)\<rparr>"

subsection \<open>Spark and the check functions\<close>

text \<open>Whether an expression resolves in a frame, its value as a filter (unknown is \<open>None\<close>) and as a text,
  and the text that a literal is cast to.\<close>

record spark =
  sk_resolves :: "frame \<Rightarrow> string \<Rightarrow> bool"
  sk_filter :: "string \<Rightarrow> row \<Rightarrow> bool option"
  sk_text :: "string \<Rightarrow> row \<Rightarrow> string option"
  sk_cast :: "json \<Rightarrow> string option"

datatype engine_error =
    UnsafeFilter string
  | CheckRaised string
  | ReservedColumns "string list"
  | RuntimeTooOld "string list" "nat \<times> nat"
  | NoRuntime
  | BadRuntime string
  | InvalidRules rule_error

text \<open>A rule object: Python tells equal rules apart by their identity.\<close>

type_synonym rule_object = "nat \<times> dq_rule"

text \<open>The metric of an aggregate check, and how its condition column is added.\<close>

record aggregate =
  ag_metric :: string
  ag_value :: "frame \<Rightarrow> engine_error + cell"
  ag_add_condition :: "frame \<Rightarrow> frame"

text \<open>What the check function of a rule returns: the condition (a message where the check fails), for a
  dataset rule the closure (applied to the frame and the input frame), the info column and the aggregate.\<close>

record check_code =
  cx_condition :: "rule_object \<Rightarrow> row \<Rightarrow> string option"
  cx_closure :: "rule_object \<Rightarrow> frame \<Rightarrow> frame \<Rightarrow> engine_error + frame"
  cx_info :: "rule_object \<Rightarrow> string option"
  cx_aggregate :: "rule_object \<Rightarrow> aggregate option"
  cx_row_preserving :: "check_function \<Rightarrow> bool"
  cx_original_columns :: "string \<Rightarrow> bool"
  cx_sql_expression :: "check_function \<Rightarrow> bool"
  cx_min_runtime :: "check_function \<Rightarrow> (nat \<times> nat) option"

record engine =
  en_errors :: string
  en_warnings :: string
  en_info :: string
  en_run_id :: string
  en_run_time :: int
  en_user_metadata :: json_dict
  en_suppress_skipped :: bool
  en_digest :: "json \<Rightarrow> string"
  en_spark :: spark
  en_code :: check_code
  en_rules :: rule_env

record manager =
  mg_check :: rule_object
  mg_df :: frame
  mg_input :: frame
  mg_fingerprint :: string
  mg_set_fingerprint :: "string option"

abbreviation mg_rule :: "manager \<Rightarrow> dq_rule" where
  "mg_rule m \<equiv> snd (mg_check m)"

subsection \<open>Names in messages\<close>

text \<open>\<open>repr\<close> of a string and of a list of strings.\<close>

definition repr_char :: "char \<Rightarrow> char \<Rightarrow> string" where
  "repr_char q c = (let n = of_char c :: nat; hex = (\<lambda>k. ''0123456789abcdef'' ! k) in
     if c = q \<or> c = backslash then [backslash, c]
     else if n = 9 then [backslash, CHR ''t''] else if n = 10 then [backslash, CHR ''n'']
     else if n = 13 then [backslash, CHR ''r'']
     else if n < 32 \<or> (127 \<le> n \<and> n \<le> 160) \<or> n = 173 then backslash # ''x'' @ [hex (n div 16), hex (n mod 16)]
     else [c])"

definition repr_str :: "string \<Rightarrow> string" where
  "repr_str s = (let q = (if quote_char \<in> set s \<and> double_quote \<notin> set s then double_quote else quote_char)
     in q # concat (map (repr_char q) s) @ [q])"

definition repr_list :: "string list \<Rightarrow> string" where
  "repr_list ss = ''['' @ py_join '', '' (map repr_str ss) @ '']''"

definition sanitize_for_logging :: "string \<Rightarrow> string" where
  "sanitize_for_logging s = py_replace_char (CHR 0x0A) [backslash, CHR ''n''] (py_replace_char (CHR 0x0D) [backslash, CHR ''r''] s)"

text \<open>\<open>normalize_column_expr\<close>: a name that has to be quoted is, an expression is left alone.\<close>

definition expression_structure :: "string \<Rightarrow> bool" where
  "expression_structure s = list_ex (\<lambda>c. c \<in> set ''()[]{},;*'' \<or> c = quote_char \<or> c = double_quote \<or> c = backtick) s"

definition operator_char :: "char \<Rightarrow> bool" where
  "operator_char c = (c \<in> set ''-+/%<>=!&|~^'')"

fun spaced_operator :: "string \<Rightarrow> bool" where
  "spaced_operator (c # d # s) =
     (operator_char c \<and> py_isspace d \<or> py_isspace c \<and> operator_char d \<or> spaced_operator (d # s))"
| "spaced_operator _ = False"

definition normalize_column_expr :: "string \<Rightarrow> string" where
  "normalize_column_expr s = (if expression_structure s \<or> spaced_operator s then s
     else py_join ''.'' (map (\<lambda>p. if simple_ident_re p then p else quote_column_name p) (py_split CHR ''.'' s)))"

definition is_simple_column_expression :: "string \<Rightarrow> bool" where
  "is_simple_column_expression s = list_all (\<lambda>c. \<not> py_isspace c \<and> c \<notin> set '',;{}()='') s"

definition display_column_name :: "string \<Rightarrow> string" where
  "display_column_name column = (let name = unquote_column_name column in
     if is_simple_column_expression name \<or> (py_startswith name [backtick] \<and> py_endswith name [backtick]) then name
     else quote_column_name name)"

subsection \<open>Is the rule skipped\<close>

definition filter_of :: "dq_rule \<Rightarrow> string option" where
  "filter_of r = (case effective_filter r of Inr f \<Rightarrow> f | Inl _ \<Rightarrow> None)"

text \<open>A filter that is given and not empty.\<close>

definition given :: "string option \<Rightarrow> string option" where
  "given f = (case f of Some (c # s) \<Rightarrow> Some (c # s) | _ \<Rightarrow> None)"

definition or_empty :: "'a list option \<Rightarrow> 'a list" where
  "or_empty x = (case x of None \<Rightarrow> [] | Some xs \<Rightarrow> xs)"

definition has_unsafe_filter :: "dq_rule \<Rightarrow> bool" where
  "has_unsafe_filter r = (case given (filter_of r) of None \<Rightarrow> False | Some f \<Rightarrow> \<not> is_sql_query_safe f)"

definition is_invalid_check_column :: "engine \<Rightarrow> manager \<Rightarrow> string \<Rightarrow> bool" where
  "is_invalid_check_column en m column = (\<not> sk_resolves (en_spark en) (mg_input m) (normalize_column_expr column))"

definition is_invalid_column :: "engine \<Rightarrow> manager \<Rightarrow> string \<Rightarrow> bool" where
  "is_invalid_column en m e = (\<not> sk_resolves (en_spark en) (mg_df m) e)"

definition invalid_columns :: "engine \<Rightarrow> manager \<Rightarrow> string list" where
  "invalid_columns en m = map display_column_name (filter (is_invalid_check_column en m)
     (case ru_column (mg_rule m) of Some c \<Rightarrow> [c] | None \<Rightarrow> or_empty (ru_columns (mg_rule m))))"

definition has_invalid_filter :: "engine \<Rightarrow> manager \<Rightarrow> bool" where
  "has_invalid_filter en m \<longleftrightarrow> has_unsafe_filter (mg_rule m)
     \<or> (case given (filter_of (mg_rule m)) of None \<Rightarrow> False | Some f \<Rightarrow> is_invalid_column en m f)"

definition has_invalid_custom_message :: "engine \<Rightarrow> manager \<Rightarrow> bool" where
  "has_invalid_custom_message en m = (case ru_message_expr (mg_rule m) of None \<Rightarrow> False | Some e \<Rightarrow> is_invalid_column en m e)"

definition invalid_sql_expression :: "engine \<Rightarrow> manager \<Rightarrow> string option" where
  "invalid_sql_expression en m = (let r = mg_rule m in
     if cx_sql_expression (en_code en) (ru_func r) then
       (case (case dict_get (ru_kwargs r) ''expression'' of Some v \<Rightarrow> Some v
              | None \<Rightarrow> (case ru_args r of v # _ \<Rightarrow> Some v | [] \<Rightarrow> None)) of
          Some (JStr e) \<Rightarrow> if is_invalid_column en m e then Some e else None
        | _ \<Rightarrow> None)
     else None)"

definition skip_message :: "engine \<Rightarrow> manager \<Rightarrow> string" where
  "skip_message en m = (let r = mg_rule m; quoted = (\<lambda>s. quote_char # s @ [quote_char]);
       flt = quoted (sanitize_for_logging (or_empty (filter_of r))) in
     py_join ''; ''
       ((if invalid_columns en m = [] then []
         else [''Check evaluation skipped due to invalid check columns: '' @ repr_list (invalid_columns en m)])
      @ (if has_unsafe_filter r then [''Check evaluation skipped due to unsafe check filter: '' @ flt]
         else if has_invalid_filter en m then [''Check evaluation skipped due to invalid check filter: '' @ flt] else [])
      @ (if has_invalid_custom_message en m
         then [''Check evaluation skipped due to invalid custom message expression: '' @ quoted (or_empty (ru_message_expr r))] else [])
      @ (case given (invalid_sql_expression en m) of None \<Rightarrow> []
         | Some e \<Rightarrow> [''Check evaluation skipped due to invalid sql expression: '' @ quoted e])))"

definition is_skipped :: "engine \<Rightarrow> manager \<Rightarrow> bool" where
  "is_skipped en m \<longleftrightarrow> invalid_columns en m \<noteq> [] \<or> has_invalid_filter en m \<or> has_invalid_custom_message en m
     \<or> given (invalid_sql_expression en m) \<noteq> None"

lemma py_join_Nil_iff: "[] \<notin> set ps \<Longrightarrow> py_join sep ps = [] \<longleftrightarrow> ps = []"
  by (induction sep ps rule: py_join.induct) auto

lemma skip_message_iff: "skip_message en m \<noteq> [] \<longleftrightarrow> is_skipped en m"
  unfolding skip_message_def Let_def is_skipped_def
  by (subst py_join_Nil_iff) (auto simp: has_invalid_filter_def split: option.splits)

definition dataset_aggregate :: "engine \<Rightarrow> manager \<Rightarrow> aggregate option" where
  "dataset_aggregate en m = (if ru_kind (mg_rule m) \<noteq> DatasetRule \<or> skip_message en m \<noteq> [] then None
     else cx_aggregate (en_code en) (mg_check m))"

subsection \<open>The column of results\<close>

type_synonym check_result = "(row \<Rightarrow> result_item option) \<times> frame \<times> string option"

definition metadata_of :: "engine \<Rightarrow> dq_rule \<Rightarrow> json_dict" where
  "metadata_of en r = (case ru_user_metadata r of None \<Rightarrow> en_user_metadata en | Some d \<Rightarrow> dict_update (en_user_metadata en) d)"

definition columns_as_strings :: "dq_rule \<Rightarrow> string list option" where
  "columns_as_strings r = (case ru_column r of Some c \<Rightarrow> Some [unquote_column_name c]
     | None \<Rightarrow> map_option (map unquote_column_name) (ru_columns r))"

definition message_of :: "engine \<Rightarrow> dq_rule \<Rightarrow> (row \<Rightarrow> string option) \<Rightarrow> bool \<Rightarrow> row \<Rightarrow> string option" where
  "message_of en r condition skipped row =
     (if skipped then condition row
      else (case ru_message_expr r of
        None \<Rightarrow> condition row
      | Some e \<Rightarrow> if condition row \<noteq> None then map_option (take 500) (sk_text (en_spark en) e row) else None))"

definition build_result :: "engine \<Rightarrow> manager \<Rightarrow> (row \<Rightarrow> string option) \<Rightarrow> bool \<Rightarrow> row \<Rightarrow> result_item" where
  "build_result en m condition skipped row = (let r = mg_rule m in
     \<lparr>ri_name = ru_name r, ri_message = message_of en r condition skipped row, ri_columns = columns_as_strings r,
      ri_filter = given (ru_filter r), ri_function = fn_name (ru_func r), ri_run_time = en_run_time en,
      ri_run_id = en_run_id en, ri_user_metadata = map (\<lambda>(k, v). (k, sk_cast (en_spark en) v)) (metadata_of en r),
      ri_rule_fingerprint = mg_fingerprint m, ri_rule_set_fingerprint = mg_set_fingerprint m,
      ri_skipped = (if skipped then Some True else None)\<rparr>)"

text \<open>\<open>safe_filter_expr\<close>: whether a row passes the filter, unknown included.\<close>

definition safe_filter_expr :: "engine \<Rightarrow> string option \<Rightarrow> engine_error + (row \<Rightarrow> bool option)" where
  "safe_filter_expr en flt = (case given flt of
     None \<Rightarrow> Inr (\<lambda>_. Some True)
   | Some f \<Rightarrow> if \<not> is_sql_query_safe f then Inl (UnsafeFilter f) else Inr (sk_filter (en_spark en) f))"

definition wrap_result :: "engine \<Rightarrow> manager \<Rightarrow> (row \<Rightarrow> string option) \<Rightarrow> frame \<Rightarrow> string option \<Rightarrow> engine_error + check_result" where
  "wrap_result en m condition df info = sbind (safe_filter_expr en (ru_filter (mg_rule m))) (\<lambda>flt.
     Inr (\<lambda>row. if flt row = Some True \<and> condition row \<noteq> None then Some (build_result en m condition False row) else None, df, info))"

text \<open>\<open>DQRuleExecutor.apply\<close> of the two kinds of rules.\<close>

definition apply_rule :: "engine \<Rightarrow> manager \<Rightarrow> frame \<Rightarrow> engine_error + (row \<Rightarrow> string option) \<times> frame \<times> string option" where
  "apply_rule en m df = (let x = en_code en; c = mg_check m in case ru_kind (mg_rule m) of
     RowRule \<Rightarrow> Inr (cx_condition x c, df, None)
   | DatasetRule \<Rightarrow> sbind (cx_closure x c df (mg_input m)) (\<lambda>df. Inr (cx_condition x c, df, cx_info x c)))"

definition process_rule :: "engine \<Rightarrow> manager \<Rightarrow> frame \<Rightarrow> bool \<Rightarrow> engine_error + check_result" where
  "process_rule en m df aggregate_added =
     (if skip_message en m \<noteq> [] then
        Inr (\<lambda>row. if en_suppress_skipped en then None
                   else Some (build_result en m (\<lambda>_. Some (skip_message en m)) True row), df, None)
      else (case (if aggregate_added then dataset_aggregate en m else None) of
        Some a \<Rightarrow> wrap_result en m (cx_condition (en_code en) (mg_check m)) (ag_add_condition a df) None
      | None \<Rightarrow> sbind (apply_rule en m df) (\<lambda>(condition, df, info). wrap_result en m condition df info)))"

end
