(* ===== verification/Check_Engine.thy ===== *)
theory Check_Engine
  imports Check_Manager
begin

section \<open>The engine (\<open>engine.py\<close>, \<open>reporting_columns.py\<close>, \<open>metrics_observer.py\<close>)\<close>

text \<open>
  \<open>DQEngineCore\<close>: applying a list of rules to a data frame, which adds the columns of errors, warnings
  and info, splitting the result, and the metrics of a run. Telemetry and logging are left out, and so
  is the cache of reference projections.
\<close>

subsection \<open>Before the rules\<close>

definition result_columns :: "engine \<Rightarrow> string list" where
  "result_columns en = [en_errors en, en_warnings en, en_info en]"

definition validate_collisions :: "engine \<Rightarrow> frame \<Rightarrow> engine_error + unit" where
  "validate_collisions en df = (let clashes = filter (\<lambda>c. c \<in> set (fr_columns df)) (result_columns en)
     in if clashes \<noteq> [] then Inl (ReservedColumns clashes) else Inr ())"

text \<open>What \<open>current_version().dbr_version\<close> yields: nothing outside Databricks, or a text that may be null.\<close>

datatype runtime = NoDatabricks | Runtime "string option"

text \<open>The leading \<open>major\<close> and \<open>minor\<close> of a version; without a minor it is \<open>sys.maxsize\<close>.\<close>

definition parse_version :: "string \<Rightarrow> (nat \<times> nat) option" where
  "parse_version s = (let t = dropWhile py_isspace s; major = takeWhile py_isdigit t; rest = dropWhile py_isdigit t;
       minor = takeWhile py_isdigit (drop 1 rest); value = (\<lambda>ds. nat_of_digits (map digit_val ds)) in
     if major = [] then None
     else Some (value major, if take 1 rest = ''.'' \<and> minor \<noteq> [] then value minor else 2 ^ 63 - 1))"

definition version_less :: "nat \<times> nat \<Rightarrow> nat \<times> nat \<Rightarrow> bool" where
  "version_less v w \<longleftrightarrow> fst v < fst w \<or> fst v = fst w \<and> snd v < snd w"

text \<open>The version each function that has a requirement requires, by its name.\<close>

definition required_versions :: "engine \<Rightarrow> rule_object list \<Rightarrow> (string \<times> nat \<times> nat) list" where
  "required_versions en checks = dict_update [] (List.map_filter (\<lambda>(_, r).
     map_option (Pair (fn_name (ru_func r))) (cx_min_runtime (en_code en) (ru_func r))) checks)"

definition validate_runtime :: "engine \<Rightarrow> runtime \<Rightarrow> rule_object list \<Rightarrow> engine_error + unit" where
  "validate_runtime en rt checks = (case required_versions en checks of
     [] \<Rightarrow> Inr ()
   | v # vs \<Rightarrow>
       (let required = fold (\<lambda>w best. if version_less best (snd w) then snd w else best) vs (snd v) in
        case rt of
          NoDatabricks \<Rightarrow> Inl NoRuntime
        | Runtime None \<Rightarrow> Inr ()
        | Runtime (Some s) \<Rightarrow>
            if py_strip s = [] then Inr ()
            else (case parse_version s of
              None \<Rightarrow> Inl (BadRuntime s)
            | Some current \<Rightarrow>
                if version_less current required then Inl (RuntimeTooOld (map fst (v # vs)) required) else Inr ())))"

subsection \<open>Fingerprints (\<open>rule.py\<close>, \<open>rule_fingerprint.py\<close>)\<close>

text \<open>The fingerprint of a rule that is built, so one without \<open>for_each_column\<close>.\<close>

definition rule_fingerprint_data :: "json_dict \<Rightarrow> json" where
  "rule_fingerprint_data check =
     (let inner = (case dict_get check ''check'' of Some (JDict d) \<Rightarrow> d | _ \<Rightarrow> []) in
      JDict [(''name'', dict_get_or check ''name'' JNull), (''criticality'', dict_get_or check ''criticality'' (JStr ''error'')),
        (''function'', dict_get_or inner ''function'' JNull), (''arguments'', dict_get_or inner ''arguments'' JNull),
        (''filter'', dict_get_or check ''filter'' JNull), (''for_each_column'', JNull)])"

definition rule_fingerprint :: "engine \<Rightarrow> dq_rule \<Rightarrow> engine_error + string" where
  "rule_fingerprint en r = (case rule_to_dict r of
     Inl e \<Rightarrow> Inl (InvalidRules e)
   | Inr d \<Rightarrow> Inr (en_digest en (sort_json (rule_fingerprint_data d))))"

definition compute_rule_set_fingerprint :: "engine \<Rightarrow> rule_object list \<Rightarrow> engine_error + string" where
  "compute_rule_set_fingerprint en checks = sbind (smapM (\<lambda>(_, r). rule_fingerprint en r) checks) (\<lambda>fps.
     Inr (en_digest en (JList (map JStr (sort fps)))))"

subsection \<open>Managers\<close>

definition keeps_input_rows :: "engine \<Rightarrow> rule_object \<Rightarrow> bool" where
  "keeps_input_rows en c \<longleftrightarrow> ru_kind (snd c) = RowRule \<or> cx_row_preserving (en_code en) (ru_func (snd c))"

text \<open>A rule that looks at the schema gets the columns of the input as its own.\<close>

definition preselect_original_columns :: "engine \<Rightarrow> frame \<Rightarrow> rule_object \<Rightarrow> engine_error + rule_object" where
  "preselect_original_columns en df c = (let r = snd c in
     if \<not> cx_original_columns (en_code en) (fn_name (ru_func r)) then Inr c
     else if truthy (dict_get_or (ru_kwargs r) ''columns'' JNull) then Inr c
     else if ru_args r \<noteq> [] \<and> ''columns'' \<in> set (param_names (ru_func r)) then Inr c
     else (let cols = filter (\<lambda>col. col \<notin> set (result_columns en)) (fr_columns df) in
       case validate_and_initialize (en_rules en) (r\<lparr>
           ru_kwargs := dict_set (ru_kwargs r) ''columns'' (JList (map JStr cols)),
           ru_columns := (if ru_columns r = None then Some cols else ru_columns r)\<rparr>) of
         Inl e \<Rightarrow> Inl (InvalidRules e)
       | Inr r' \<Rightarrow> Inr (fst c, r')))"

definition build_manager :: "engine \<Rightarrow> string \<Rightarrow> frame \<Rightarrow> rule_object \<Rightarrow> frame \<Rightarrow> frame \<Rightarrow> engine_error + manager" where
  "build_manager en set_fp original c df rows_df =
     sbind (preselect_original_columns en original c) (\<lambda>check.
     sbind (rule_fingerprint en (snd c)) (\<lambda>fp.
     Inr \<lparr>mg_check = check, mg_df = df, mg_input = rows_df, mg_fingerprint = fp, mg_set_fingerprint = Some set_fp\<rparr>))"

text \<open>The dataset rules up to the first rule that may change the rows read the input, by the identity of the rule.\<close>

definition input_managers ::
    "engine \<Rightarrow> string \<Rightarrow> frame \<Rightarrow> rule_object list \<Rightarrow> engine_error + (nat \<times> manager) list" where
  "input_managers en set_fp df checks =
     sbind (smapM (\<lambda>c. sbind (build_manager en set_fp df c df df) (\<lambda>m. Inr (fst c, m)))
       (filter (\<lambda>c. ru_kind (snd c) = DatasetRule) (takeWhile (keeps_input_rows en) checks))) (\<lambda>ms.
     Inr (filter (\<lambda>(_, m). skip_message en m = []) (dict_update [] ms)))"

fun add_metrics :: "(string \<times> cell) list \<Rightarrow> frame \<Rightarrow> frame" where
  "add_metrics [] df = df"
| "add_metrics ((c, v) # ms) df = add_metrics ms (with_column c (\<lambda>_. v) df)"

definition add_dataset_aggregates :: "frame \<Rightarrow> frame \<Rightarrow> aggregate list \<Rightarrow> engine_error + frame" where
  "add_dataset_aggregates df input_df aggregates =
     sbind (smapM (\<lambda>a. sbind (ag_value a input_df) (\<lambda>v. Inr (ag_metric a, v))) aggregates) (\<lambda>ms. Inr (add_metrics ms df))"

subsection \<open>The results\<close>

record run_state =
  rs_current :: frame
  rs_rows :: frame
  rs_conditions :: "(row \<Rightarrow> result_item option) list"
  rs_skipped :: "string list"
  rs_infos :: "string list"

definition manager_for ::
    "engine \<Rightarrow> string \<Rightarrow> frame \<Rightarrow> (nat \<times> manager) list \<Rightarrow> rule_object \<Rightarrow> run_state \<Rightarrow> engine_error + manager" where
  "manager_for en set_fp original managers c st = (case dict_get managers (fst c) of
     Some m \<Rightarrow> Inr m
   | None \<Rightarrow> build_manager en set_fp original c (rs_current st) (rs_rows st))"

definition run_check ::
    "engine \<Rightarrow> string \<Rightarrow> frame \<Rightarrow> (nat \<times> manager) list \<Rightarrow> rule_object \<Rightarrow> run_state \<Rightarrow> engine_error + run_state" where
  "run_check en set_fp original managers c st =
     sbind (manager_for en set_fp original managers c st) (\<lambda>m.
     sbind (process_rule en m (rs_current st) (dict_has managers (fst c))) (\<lambda>(condition, df, info).
     Inr \<lparr>rs_current = df, rs_rows = (if keeps_input_rows en c then rs_rows st else df),
       rs_conditions = rs_conditions st @ [condition],
       rs_skipped = (if is_skipped en m then rs_skipped st @ [mg_fingerprint m] else rs_skipped st),
       rs_infos = rs_infos st @ (case given info of None \<Rightarrow> [] | Some i \<Rightarrow> [i])\<rparr>))"

fun run_checks ::
    "engine \<Rightarrow> string \<Rightarrow> frame \<Rightarrow> (nat \<times> manager) list \<Rightarrow> rule_object list \<Rightarrow> run_state \<Rightarrow> engine_error + run_state" where
  "run_checks en set_fp original managers [] st = Inr st"
| "run_checks en set_fp original managers (c # cs) st =
     sbind (run_check en set_fp original managers c st) (run_checks en set_fp original managers cs)"

definition results_cell :: "(row \<Rightarrow> result_item option) list \<Rightarrow> row \<Rightarrow> cell" where
  "results_cell conditions row = (let items = List.map_filter (\<lambda>c. c row) conditions
     in Results (if items = [] then None else Some items))"

definition info_cells :: "cell option \<Rightarrow> cell list" where
  "info_cells c = (case c of Some (Infos cs) \<Rightarrow> cs | _ \<Rightarrow> [])"

definition merge_info_columns :: "string \<Rightarrow> frame \<Rightarrow> string list \<Rightarrow> frame" where
  "merge_info_columns dest df names = (let cols = filter (\<lambda>c. c \<in> set (fr_columns df)) names in
     if cols = [] \<and> dest \<notin> set (fr_columns df) then df
     else drop_columns cols (with_column dest (\<lambda>row. Infos ((if dest \<in> set (fr_columns df) then info_cells (row dest) else [])
       @ List.map_filter row cols)) df))"

definition create_results_array ::
    "engine \<Rightarrow> string \<Rightarrow> frame \<Rightarrow> (nat \<times> manager) list \<Rightarrow> rule_object list \<Rightarrow> string \<Rightarrow> frame
     \<Rightarrow> engine_error + frame \<times> string list" where
  "create_results_array en set_fp original managers checks dest df =
     (if checks = [] then Inr (with_column dest (\<lambda>_. Results None) df, [])
      else sbind (run_checks en set_fp original managers checks
          \<lparr>rs_current = df, rs_rows = df, rs_conditions = [], rs_skipped = [], rs_infos = []\<rparr>) (\<lambda>st.
        let res = with_column dest (results_cell (rs_conditions st)) (rs_current st);
            res = merge_info_columns (en_info en) res (rs_infos st);
            keep = set (fr_columns df) \<union> {dest, en_info en, en_errors en, en_warnings en}
        in Inr (drop_columns (filter (\<lambda>c. c \<notin> keep) (fr_columns res)) res, rs_skipped st)))"

definition append_empty_checks :: "engine \<Rightarrow> frame \<Rightarrow> frame" where
  "append_empty_checks en df = with_column (en_warnings en) (\<lambda>_. Results None) (with_column (en_errors en) (\<lambda>_. Results None) df)"

definition checks_of :: "rule_object list \<Rightarrow> string \<Rightarrow> rule_object list" where
  "checks_of checks criticality = filter (\<lambda>c. ru_criticality (snd c) = criticality) checks"

text \<open>The checked frame, and the fingerprints of the rules that were skipped.\<close>

definition apply_checks :: "engine \<Rightarrow> runtime \<Rightarrow> frame \<Rightarrow> rule_object list \<Rightarrow> engine_error + frame \<times> string list" where
  "apply_checks en rt df checks =
     sbind (validate_collisions en df) (\<lambda>_.
     if checks = [] then Inr (append_empty_checks en df, [])
     else sbind (validate_runtime en rt checks) (\<lambda>_.
       let warnings = checks_of checks ''warn''; errors = checks_of checks ''error'' in
       sbind (compute_rule_set_fingerprint en checks) (\<lambda>set_fp.
       sbind (input_managers en set_fp df (errors @ warnings)) (\<lambda>managers.
       let shared = List.map_filter (\<lambda>(_, m). dataset_aggregate en m) managers in
       sbind (add_dataset_aggregates df df shared) (\<lambda>res.
       sbind (create_results_array en set_fp df managers errors (en_errors en) res) (\<lambda>(res, skipped).
       sbind (create_results_array en set_fp df managers warnings (en_warnings en) res) (\<lambda>(res, skipped').
       Inr (if shared = [] then res else drop_columns (map ag_metric shared) res, skipped @ skipped'))))))))"

subsection \<open>Splitting\<close>

definition failed :: "string \<Rightarrow> row \<Rightarrow> bool" where
  "failed c row \<longleftrightarrow> row c \<noteq> None \<and> row c \<noteq> Some (Results None)"

definition get_invalid :: "engine \<Rightarrow> frame \<Rightarrow> frame" where
  "get_invalid en df = where_rows (\<lambda>row. failed (en_errors en) row \<or> failed (en_warnings en) row) df"

definition get_valid :: "engine \<Rightarrow> frame \<Rightarrow> frame" where
  "get_valid en df = drop_columns [en_errors en, en_warnings en] (where_rows (\<lambda>row. \<not> failed (en_errors en) row) df)"

definition apply_checks_and_split :: "engine \<Rightarrow> runtime \<Rightarrow> frame \<Rightarrow> rule_object list \<Rightarrow> engine_error + frame \<times> frame" where
  "apply_checks_and_split en rt df checks =
     sbind (apply_checks en rt df checks) (\<lambda>(res, _). Inr (get_valid en res, get_invalid en res))"

text \<open>Checks that are given as metadata become rules, each an object of its own.\<close>

definition apply_checks_by_metadata ::
    "engine \<Rightarrow> runtime \<Rightarrow> (string \<Rightarrow> check_function option) \<Rightarrow> frame \<Rightarrow> json list \<Rightarrow> engine_error + frame \<times> string list" where
  "apply_checks_by_metadata en rt resolve df checks = (case deserialize_checks (en_rules en) resolve checks of
     Inl e \<Rightarrow> Inl (InvalidRules e)
   | Inr rs \<Rightarrow> apply_checks en rt df (enumerate 0 rs))"

subsection \<open>Metrics\<close>

record run_metrics =
  rm_input :: nat
  rm_errors :: nat
  rm_warnings :: nat
  rm_valid :: nat

definition count_rows :: "(row \<Rightarrow> bool) \<Rightarrow> frame \<Rightarrow> nat" where
  "count_rows p df = length (filter p (fr_rows df))"

definition row_metrics :: "engine \<Rightarrow> frame \<Rightarrow> run_metrics" where
  "row_metrics en df = \<lparr>rm_input = length (fr_rows df), rm_errors = count_rows (failed (en_errors en)) df,
     rm_warnings = count_rows (failed (en_warnings en)) df,
     rm_valid = count_rows (\<lambda>row. \<not> failed (en_errors en) row \<and> \<not> failed (en_warnings en) row) df\<rparr>"

definition has_entry :: "string \<Rightarrow> string \<Rightarrow> row \<Rightarrow> bool" where
  "has_entry c fp row = (case row c of
     Some (Results (Some items)) \<Rightarrow> list_ex (\<lambda>i. ri_rule_fingerprint i = fp) items
   | _ \<Rightarrow> False)"

definition checked_count :: "engine \<Rightarrow> string list \<Rightarrow> dq_rule \<Rightarrow> string \<Rightarrow> frame \<Rightarrow> nat" where
  "checked_count en skipped r fp df =
     (if fp \<in> set skipped \<or> has_unsafe_filter r then 0
      else (case given (filter_of r) of
        None \<Rightarrow> length (fr_rows df)
      | Some f \<Rightarrow> count_rows (\<lambda>row. sk_filter (en_spark en) f row = Some True) df))"

record check_metric =
  cm_name :: string
  cm_fingerprint :: string
  cm_errors :: nat
  cm_warnings :: nat
  cm_checked :: nat
  cm_metadata :: "json_dict option"

definition check_metric_of :: "engine \<Rightarrow> string list \<Rightarrow> frame \<Rightarrow> rule_object \<Rightarrow> engine_error + check_metric" where
  "check_metric_of en skipped df c = (let r = snd c in sbind (rule_fingerprint en r) (\<lambda>fp.
     Inr \<lparr>cm_name = ru_name r, cm_fingerprint = fp, cm_errors = count_rows (has_entry (en_errors en) fp) df,
       cm_warnings = count_rows (has_entry (en_warnings en) fp) df, cm_checked = checked_count en skipped r fp df,
       cm_metadata = (case ru_user_metadata r of Some (e # m) \<Rightarrow> Some (e # m) | _ \<Rightarrow> None)\<rparr>))"

subsection \<open>An example\<close>

text \<open>Two persons, one without an age; a rule that wants an age, and one that wants at most one row.\<close>

definition example_function :: "string \<Rightarrow> string list \<Rightarrow> check_function" where
  "example_function name ps = \<lparr>fn_name = name,
     fn_params = map (\<lambda>p. \<lparr>par_name = p, par_annotation = Unchecked, par_kind = Regular, par_has_default = False\<rparr>) ps\<rparr>"

definition example_row_rule :: dq_rule where
  "example_row_rule = \<lparr>ru_kind = RowRule, ru_func = example_function ''is_not_null'' [''column''], ru_name = ''age_is_null'',
     ru_criticality = ''error'', ru_column = Some ''age'', ru_columns = None, ru_filter = None, ru_args = [], ru_kwargs = [],
     ru_user_metadata = None, ru_message_expr = None\<rparr>"

definition example_dataset_rule :: dq_rule where
  "example_dataset_rule = \<lparr>ru_kind = DatasetRule, ru_func = example_function ''at_most_one'' [], ru_name = ''rows'',
     ru_criticality = ''warn'', ru_column = None, ru_columns = None, ru_filter = None, ru_args = [], ru_kwargs = [],
     ru_user_metadata = None, ru_message_expr = None\<rparr>"

definition example_code :: check_code where
  "example_code = \<lparr>
     cx_condition = (\<lambda>c row. if ru_kind (snd c) = RowRule
        then (if row ''age'' = Some (Value JNull) then Some ''Column 'age' value is null'' else None)
        else (case row ''__metric'' of Some (Value (JInt n)) \<Rightarrow> if 1 < n then Some ''too many rows'' else None | _ \<Rightarrow> None)),
     cx_closure = (\<lambda>c df inp. Inr (with_column ''__metric'' (\<lambda>row. case row ''__metric'' of
        Some v \<Rightarrow> v | None \<Rightarrow> Value (JInt (int (length (fr_rows inp))))) df)),
     cx_info = (\<lambda>_. None), cx_aggregate = (\<lambda>_. None), cx_row_preserving = (\<lambda>_. True), cx_original_columns = (\<lambda>_. False),
     cx_sql_expression = (\<lambda>_. False), cx_min_runtime = (\<lambda>_. None)\<rparr>"

definition example_engine :: engine where
  "example_engine = \<lparr>en_errors = ''_errors'', en_warnings = ''_warnings'', en_info = ''_dq_info'', en_run_id = ''run'',
     en_run_time = 0, en_user_metadata = [], en_suppress_skipped = False, en_digest = (\<lambda>_. ''digest''),
     en_spark = \<lparr>sk_resolves = (\<lambda>df e. e \<in> set (fr_columns df)), sk_filter = (\<lambda>_ _. None), sk_text = (\<lambda>e _. Some e),
       sk_cast = (\<lambda>_. None)\<rparr>,
     en_code = example_code,
     en_rules = \<lparr>re_registry = (\<lambda>_. None), re_call = (\<lambda>f _ _. Some (fn_name f)), re_valid_expr = (\<lambda>_. True)\<rparr>\<rparr>"

definition example_frame :: frame where
  "example_frame = \<lparr>fr_columns = [''id'', ''age''],
     fr_rows = [[''id'' \<mapsto> Value (JInt 1), ''age'' \<mapsto> Value JNull], [''id'' \<mapsto> Value (JInt 2), ''age'' \<mapsto> Value (JInt 30)]]\<rparr>"

definition example_checks :: "rule_object list" where
  "example_checks = [(0, example_row_rule), (1, example_dataset_rule)]"

text \<open>The names of the entries of a row in a result column.\<close>

definition entry_names :: "string \<Rightarrow> row \<Rightarrow> string list option" where
  "entry_names c row = (case row c of Some (Results (Some es)) \<Rightarrow> Some (map ri_name es) | _ \<Rightarrow> None)"

lemma example_checks_run:
  "case apply_checks example_engine (Runtime None) example_frame example_checks of Inl _ \<Rightarrow> False
   | Inr (res, skipped) \<Rightarrow> skipped = [] \<and> fr_columns res = [''id'', ''age'', ''_errors'', ''_warnings'']
       \<and> map (entry_names ''_errors'') (fr_rows res) = [Some [''age_is_null''], None]
       \<and> map (entry_names ''_warnings'') (fr_rows res) = [Some [''rows''], Some [''rows'']]"
  by code_simp

end
