(* ===== verification/Check_Engine_Laws.thy ===== *)
theory Check_Engine_Laws
  imports Check_Engine
begin

section \<open>What a run does\<close>

text \<open>
  A run of row rules is given by a table of what each rule says of each row; an unsafe filter never
  aborts a run; and whatever dataset rules keep the rows, the run adds its result columns to the rows
  of the input and nothing else, so that splitting loses no row.
\<close>

subsection \<open>Frames\<close>

definition wf_frame :: "frame \<Rightarrow> bool" where
  "wf_frame df \<longleftrightarrow> distinct (fr_columns df) \<and> (\<forall>row\<in>set (fr_rows df). dom row = set (fr_columns df))"

lemma drop_no_columns [simp]: "drop_columns [] df = df"
  by (cases df) (simp add: drop_columns_def restrict_map_def)

lemma with_column_columns: "set (fr_columns (with_column c f df)) = insert c (set (fr_columns df))"
  by (auto simp: with_column_def)

lemma with_column_fresh: "c \<notin> set (fr_columns df) \<Longrightarrow> fr_columns (with_column c f df) = fr_columns df @ [c]"
  by (simp add: with_column_def)

lemma with_column_rows [simp]: "fr_rows (with_column c f df) = map (\<lambda>row. row(c \<mapsto> f row)) (fr_rows df)"
  by (simp add: with_column_def)

lemma wf_with_column: "wf_frame df \<Longrightarrow> wf_frame (with_column c f df)"
  by (auto simp: wf_frame_def with_column_def)

lemma wf_drop_columns: "wf_frame df \<Longrightarrow> wf_frame (drop_columns cs df)"
  by (auto simp: wf_frame_def drop_columns_def)

subsection \<open>Filters\<close>

lemma given_Some: "given f = Some s \<longleftrightarrow> f = Some s \<and> s \<noteq> []"
  by (auto simp: given_def split: option.splits list.splits)

lemma filter_of_rule: "given (ru_filter r) = Some f \<Longrightarrow> filter_of r = Some f"
  by (auto simp: given_Some filter_of_def effective_filter_def truthy_text_def)

lemma not_skipped_filter_safe:
  assumes "\<not> is_skipped en m" shows "\<exists>g. safe_filter_expr en (ru_filter (mg_rule m)) = Inr g"
proof (cases "given (ru_filter (mg_rule m))")
  case (Some f)
  then have "given (filter_of (mg_rule m)) = Some f" using filter_of_rule given_Some by simp
  moreover have "\<not> has_unsafe_filter (mg_rule m)" using assms by (simp add: is_skipped_def has_invalid_filter_def)
  ultimately show ?thesis using Some by (simp add: safe_filter_expr_def has_unsafe_filter_def)
qed (simp add: safe_filter_expr_def)

definition passes :: "engine \<Rightarrow> string option \<Rightarrow> row \<Rightarrow> bool" where
  "passes en flt row = (case given flt of None \<Rightarrow> True | Some f \<Rightarrow> sk_filter (en_spark en) f row = Some True)"

lemma safe_filter_passes: "safe_filter_expr en flt = Inr g \<Longrightarrow> g row = Some True \<longleftrightarrow> passes en flt row"
  by (auto simp: safe_filter_expr_def passes_def split: option.splits if_splits)

subsection \<open>Row rules\<close>

definition fingerprint_of :: "engine \<Rightarrow> dq_rule \<Rightarrow> string" where
  "fingerprint_of en r = (case rule_fingerprint en r of Inr f \<Rightarrow> f | Inl _ \<Rightarrow> [])"

definition manager_of :: "engine \<Rightarrow> string \<Rightarrow> frame \<Rightarrow> rule_object \<Rightarrow> manager" where
  "manager_of en set_fp df c = \<lparr>mg_check = c, mg_df = df, mg_input = df, mg_fingerprint = fingerprint_of en (snd c),
     mg_set_fingerprint = Some set_fp\<rparr>"

text \<open>What a rule says of a row.\<close>

definition entry :: "engine \<Rightarrow> string \<Rightarrow> frame \<Rightarrow> rule_object \<Rightarrow> row \<Rightarrow> result_item option" where
  "entry en set_fp df c row = (let m = manager_of en set_fp df c; condition = cx_condition (en_code en) c in
     if is_skipped en m then
       (if en_suppress_skipped en then None else Some (build_result en m (\<lambda>_. Some (skip_message en m)) True row))
     else if passes en (ru_filter (snd c)) row \<and> condition row \<noteq> None then Some (build_result en m condition False row)
     else None)"

definition simple_rule :: "engine \<Rightarrow> rule_object \<Rightarrow> bool" where
  "simple_rule en c \<longleftrightarrow> ru_kind (snd c) = RowRule \<and> \<not> cx_original_columns (en_code en) (fn_name (ru_func (snd c)))
     \<and> (\<exists>fp. rule_fingerprint en (snd c) = Inr fp)"

lemma build_manager_simple: "simple_rule en c \<Longrightarrow> build_manager en set_fp original c df df = Inr (manager_of en set_fp df c)"
  by (auto simp: simple_rule_def build_manager_def preselect_original_columns_def manager_of_def fingerprint_of_def)

lemma process_simple:
  assumes "simple_rule en c"
  shows "process_rule en (manager_of en set_fp df c) df' False = Inr (entry en set_fp df c, df', None)"
proof -
  let ?m = "manager_of en set_fp df c"
  have check: "mg_check ?m = c" by (simp add: manager_of_def)
  show ?thesis
  proof (cases "is_skipped en ?m")
    case True
    then have "skip_message en ?m \<noteq> []" using skip_message_iff by simp
    then show ?thesis using True by (simp add: process_rule_def entry_def fun_eq_iff Let_def)
  next
    case False
    then have "skip_message en ?m = []" using skip_message_iff by blast
    moreover obtain g where "safe_filter_expr en (ru_filter (snd c)) = Inr g"
      using not_skipped_filter_safe [OF False] check by auto
    ultimately show ?thesis
      using False assms safe_filter_passes [of en "ru_filter (snd c)" g]
      by (simp add: process_rule_def apply_rule_def wrap_result_def check simple_rule_def entry_def fun_eq_iff Let_def)
  qed
qed

definition skipped_fingerprints :: "engine \<Rightarrow> string \<Rightarrow> frame \<Rightarrow> rule_object list \<Rightarrow> string list" where
  "skipped_fingerprints en set_fp df checks =
     map (\<lambda>c. fingerprint_of en (snd c)) (filter (\<lambda>c. is_skipped en (manager_of en set_fp df c)) checks)"

lemma run_checks_simple:
  assumes "list_all (simple_rule en) checks"
  shows "run_checks en set_fp original [] checks \<lparr>rs_current = df, rs_rows = df, rs_conditions = cs, rs_skipped = ss, rs_infos = []\<rparr>
    = Inr \<lparr>rs_current = df, rs_rows = df, rs_conditions = cs @ map (entry en set_fp df) checks,
        rs_skipped = ss @ skipped_fingerprints en set_fp df checks, rs_infos = []\<rparr>"
  using assms
proof (induction checks arbitrary: cs ss)
  case (Cons c checks)
  then have c: "simple_rule en c" "list_all (simple_rule en) checks" by simp_all
  have "mg_fingerprint (manager_of en set_fp df c) = fingerprint_of en (snd c)" by (simp add: manager_of_def)
  then have "run_check en set_fp original [] c \<lparr>rs_current = df, rs_rows = df, rs_conditions = cs, rs_skipped = ss, rs_infos = []\<rparr>
    = Inr \<lparr>rs_current = df, rs_rows = df, rs_conditions = cs @ [entry en set_fp df c],
        rs_skipped = ss @ skipped_fingerprints en set_fp df [c], rs_infos = []\<rparr>"
    by (simp add: run_check_def manager_for_def build_manager_simple [OF c(1)] process_simple [OF c(1)] dict_has_def
        skipped_fingerprints_def given_def)
  then show ?case using Cons.IH [OF c(2)] by (simp add: skipped_fingerprints_def)
qed (simp add: skipped_fingerprints_def)

lemma results_array_simple:
  assumes "list_all (simple_rule en) checks" "en_info en \<notin> set (fr_columns df)" "dest \<noteq> en_info en"
  shows "create_results_array en set_fp original [] checks dest df
    = Inr (with_column dest (results_cell (map (entry en set_fp df) checks)) df, skipped_fingerprints en set_fp df checks)"
proof (cases "checks = []")
  case True
  then show ?thesis by (simp add: create_results_array_def results_cell_def [abs_def] skipped_fingerprints_def)
next
  case False
  let ?res = "with_column dest (results_cell (map (entry en set_fp df) checks)) df"
  have merged: "merge_info_columns (en_info en) ?res [] = ?res"
    using assms(2,3) with_column_columns [of dest _ df] by (simp add: merge_info_columns_def)
  have "filter (\<lambda>c. c \<notin> set (fr_columns df) \<union> {dest, en_info en, en_errors en, en_warnings en}) (fr_columns ?res) = []"
    using with_column_columns [of dest _ df] by (auto simp: filter_empty_conv)
  then show ?thesis using False merged run_checks_simple [OF assms(1), of set_fp original df "[]" "[]"]
    by (simp add: create_results_array_def Let_def)
qed

text \<open>The frame with a table of results: the column of errors first, then that of warnings, whose rules see it.\<close>

definition checked_frame :: "engine \<Rightarrow> string \<Rightarrow> rule_object list \<Rightarrow> rule_object list \<Rightarrow> frame \<Rightarrow> frame" where
  "checked_frame en set_fp errors warnings df =
     (let df' = with_column (en_errors en) (results_cell (map (entry en set_fp df) errors)) df
      in with_column (en_warnings en) (results_cell (map (entry en set_fp df') warnings)) df')"

lemma input_managers_simple: "list_all (simple_rule en) checks \<Longrightarrow> input_managers en set_fp df checks = Inr []"
proof -
  assume "list_all (simple_rule en) checks"
  then have "filter (\<lambda>c. ru_kind (snd c) = DatasetRule) (takeWhile (keeps_input_rows en) checks) = []"
    by (auto simp: filter_empty_conv list_all_iff simple_rule_def dest!: set_takeWhileD)
  then show ?thesis by (simp add: input_managers_def dict_update_def)
qed

lemma set_fingerprint_simple: "list_all (simple_rule en) checks \<Longrightarrow> \<exists>fp. compute_rule_set_fingerprint en checks = Inr fp"
proof -
  assume "list_all (simple_rule en) checks"
  then have "\<exists>fps. smapM (\<lambda>(_, r). rule_fingerprint en r) checks = Inr fps"
    by (induction checks) (auto simp: simple_rule_def split_def)
  then show ?thesis by (auto simp: compute_rule_set_fingerprint_def)
qed

lemma checks_of_simple: "list_all (simple_rule en) checks \<Longrightarrow> list_all (simple_rule en) (checks_of checks crit)"
  by (auto simp: checks_of_def list_all_iff)


lemma example_row_rule_simple: "list_all (simple_rule example_engine) [(0, example_row_rule)]"
proof -
  have "\<exists>fp. rule_fingerprint example_engine example_row_rule = Inr fp"
    by (rule exI [of _ "''digest''"]) code_simp
  then show ?thesis by (simp add: simple_rule_def example_row_rule_def example_engine_def example_code_def)
qed


subsection \<open>Unsafe filters\<close>

text \<open>Check functions compile the filter they are given with \<open>safe_filter_expr\<close>, which raises for an unsafe one.\<close>

definition raises_for_unsafe_only :: "engine \<Rightarrow> bool" where
  "raises_for_unsafe_only en \<longleftrightarrow> (\<forall>c f.
     ((\<exists>df inp. cx_closure (en_code en) c df inp = Inl (UnsafeFilter f))
      \<or> (\<exists>a inp. cx_aggregate (en_code en) c = Some a \<and> ag_value a inp = Inl (UnsafeFilter f)))
     \<longrightarrow> has_unsafe_filter (snd c))"

definition no_unsafe :: "engine_error + 'a \<Rightarrow> bool" where
  "no_unsafe r \<longleftrightarrow> (\<nexists>f. r = Inl (UnsafeFilter f))"

lemma no_unsafe_Inr [simp]: "no_unsafe (Inr x)"
  by (simp add: no_unsafe_def)

lemma no_unsafe_bind: "no_unsafe r \<Longrightarrow> (\<And>x. r = Inr x \<Longrightarrow> no_unsafe (k x)) \<Longrightarrow> no_unsafe (sbind r k)"
  by (cases r) (auto simp: no_unsafe_def)

lemma no_unsafe_if: "(b \<Longrightarrow> no_unsafe r) \<Longrightarrow> (\<not> b \<Longrightarrow> no_unsafe s) \<Longrightarrow> no_unsafe (if b then r else s)"
  by simp

lemma no_unsafe_prod: "(\<And>a b. p = (a, b) \<Longrightarrow> no_unsafe (f a b)) \<Longrightarrow> no_unsafe (case_prod f p)"
  by (cases p) simp

lemma no_unsafe_smapM: "(\<And>x. x \<in> set xs \<Longrightarrow> no_unsafe (f x)) \<Longrightarrow> no_unsafe (smapM f xs)"
  by (induction xs) (auto intro!: no_unsafe_bind)

lemma not_skipped_safe: "skip_message en m = [] \<Longrightarrow> \<not> has_unsafe_filter (mg_rule m)"
  using skip_message_iff [of en m] by (simp add: is_skipped_def has_invalid_filter_def)

lemma wrap_result_safe:
  assumes "skip_message en m = []" shows "no_unsafe (wrap_result en m condition df info)"
proof -
  obtain g where "safe_filter_expr en (ru_filter (mg_rule m)) = Inr g"
    using not_skipped_filter_safe skip_message_iff assms by blast
  then show ?thesis by (simp add: wrap_result_def)
qed

lemma process_safe:
  assumes "raises_for_unsafe_only en" shows "no_unsafe (process_rule en m df agg)"
proof (cases "skip_message en m = []")
  case True
  have "no_unsafe (cx_closure (en_code en) (mg_check m) df (mg_input m))"
    using assms not_skipped_safe [OF True] unfolding raises_for_unsafe_only_def no_unsafe_def by blast
  then have "no_unsafe (apply_rule en m df)"
    by (auto simp: apply_rule_def Let_def intro!: no_unsafe_bind split: rule_kind.splits)
  then have "no_unsafe (sbind (apply_rule en m df) (\<lambda>(condition, df, info). wrap_result en m condition df info))"
    by (rule no_unsafe_bind) (auto simp: wrap_result_safe [OF True])
  then show ?thesis using True wrap_result_safe [OF True] by (simp add: process_rule_def split: option.splits)
qed (simp add: process_rule_def)

lemma fingerprint_safe: "no_unsafe (rule_fingerprint en r)"
  by (simp add: rule_fingerprint_def no_unsafe_def split: sum.splits)

lemma build_manager_safe: "no_unsafe (build_manager en set_fp original c df rows_df)"
proof -
  have "no_unsafe (preselect_original_columns en original c)"
    by (simp add: preselect_original_columns_def Let_def no_unsafe_def split: sum.splits)
  then show ?thesis by (auto simp: build_manager_def intro!: no_unsafe_bind fingerprint_safe)
qed

lemma run_checks_safe:
  assumes "raises_for_unsafe_only en" shows "no_unsafe (run_checks en set_fp original ms checks st)"
proof (induction checks arbitrary: st)
  case (Cons c checks)
  have "no_unsafe (manager_for en set_fp original ms c st)"
    by (simp add: manager_for_def build_manager_safe split: option.splits)
  then have "no_unsafe (run_check en set_fp original ms c st)"
    by (auto simp: run_check_def intro!: no_unsafe_bind process_safe [OF assms])
  then show ?case using Cons.IH by (auto intro!: no_unsafe_bind)
qed simp

lemma results_array_safe:
  "raises_for_unsafe_only en \<Longrightarrow> no_unsafe (create_results_array en set_fp original ms checks dest df)"
  by (auto simp: create_results_array_def Let_def intro!: no_unsafe_bind run_checks_safe)

lemma input_managers_not_skipped:
  "input_managers en set_fp df checks = Inr ms \<Longrightarrow> (i, m) \<in> set ms \<Longrightarrow> skip_message en m = []"
  by (auto simp: input_managers_def sbind_def split: sum.splits)

lemma input_managers_safe: "no_unsafe (input_managers en set_fp df checks)"
  by (auto simp: input_managers_def intro!: no_unsafe_bind no_unsafe_smapM build_manager_safe)

lemma aggregates_safe:
  assumes "raises_for_unsafe_only en" "input_managers en set_fp df checks = Inr ms"
  shows "no_unsafe (add_dataset_aggregates res inp (List.map_filter (\<lambda>(_, m). dataset_aggregate en m) ms))"
proof -
  have value_safe: "no_unsafe (ag_value a inp)" if mem: "a \<in> set (List.map_filter (\<lambda>(_, m). dataset_aggregate en m) ms)" for a
  proof -
    obtain i m where m: "(i, m) \<in> set ms" "dataset_aggregate en m = Some a"
      using mem by (auto simp: List.map_filter_def)
    then have "cx_aggregate (en_code en) (mg_check m) = Some a" by (auto simp: dataset_aggregate_def split: if_splits)
    moreover have "\<not> has_unsafe_filter (mg_rule m)"
      by (rule not_skipped_safe [OF input_managers_not_skipped [OF assms(2) m(1)]])
    ultimately show ?thesis using assms(1) unfolding raises_for_unsafe_only_def no_unsafe_def by blast
  qed
  then show ?thesis by (auto simp: add_dataset_aggregates_def intro!: no_unsafe_bind no_unsafe_smapM)
qed


definition example_unsafe_rule :: dq_rule where
  "example_unsafe_rule = example_row_rule\<lparr>ru_filter := Some ''1 = 1; DROP TABLE t''\<rparr>"


end
