(* ===== verification/Check_Engine_Rows.thy ===== *)
theory Check_Engine_Rows
  imports Check_Engine_Laws "HOL-Library.Multiset"
begin

section \<open>Rows of the input\<close>

text \<open>
  What a run with dataset rules leaves of the input. A check function marked as row preserving only
  adds columns, of names of its own; then every row of the input comes back, in order and with its
  values, and besides the result columns nothing is added.
\<close>

subsection \<open>Row preserving code\<close>

definition adds_columns :: "frame \<Rightarrow> frame \<Rightarrow> bool" where
  "adds_columns df df' \<longleftrightarrow> list_all2 (\<subseteq>\<^sub>m) (fr_rows df) (fr_rows df') \<and> set (fr_columns df) \<subseteq> set (fr_columns df')"

lemma adds_columns_refl: "adds_columns df df"
  by (simp add: adds_columns_def list_all2_refl)

lemma adds_columns_trans: "adds_columns df df' \<Longrightarrow> adds_columns df' df'' \<Longrightarrow> adds_columns df df''"
  unfolding adds_columns_def by (auto elim: list_all2_trans [rotated] intro: map_le_trans)

text \<open>The code that a run on \<open>df\<close> calls: closures and aggregates only add columns, info columns and metric
  columns have names that neither the input nor the results use.\<close>

definition preserving_code :: "engine \<Rightarrow> frame \<Rightarrow> bool" where
  "preserving_code en df0 \<longleftrightarrow> (\<forall>c. keeps_input_rows en c \<longrightarrow>
      (\<forall>df inp df'. cx_closure (en_code en) c df inp = Inr df' \<longrightarrow> adds_columns df df')
    \<and> (\<forall>a. cx_aggregate (en_code en) c = Some a \<longrightarrow> ag_metric a \<notin> set (fr_columns df0) \<union> set (result_columns en)
        \<and> (\<forall>df. adds_columns df (ag_add_condition a df)))
    \<and> (\<forall>i. cx_info (en_code en) c = Some i \<longrightarrow> i \<notin> set (fr_columns df0) \<union> set (result_columns en)))"

text \<open>The rows of a frame, cut down to some columns.\<close>

definition input_part :: "string set \<Rightarrow> frame \<Rightarrow> row list" where
  "input_part cols df = map (\<lambda>row. row |` cols) (fr_rows df)"

definition carries :: "frame \<Rightarrow> frame \<Rightarrow> bool" where
  "carries df0 df \<longleftrightarrow> input_part (set (fr_columns df0)) df = fr_rows df0 \<and> set (fr_columns df0) \<subseteq> set (fr_columns df)"

lemma restrict_whole: "dom row \<subseteq> A \<Longrightarrow> row |` A = row"
proof (rule ext)
  fix x assume "dom row \<subseteq> A"
  then show "(row |` A) x = row x" by (cases "row x") (auto simp: restrict_map_def)
qed

lemma carries_refl: "wf_frame df \<Longrightarrow> carries df df"
  by (auto simp: carries_def input_part_def wf_frame_def restrict_whole intro: map_idI)

lemma carries_with_column: "carries df0 df \<Longrightarrow> c \<notin> set (fr_columns df0) \<Longrightarrow> carries df0 (with_column c f df)"
  by (auto simp: carries_def input_part_def with_column_columns comp_def)

lemma carries_drop: "carries df0 df \<Longrightarrow> set cs \<inter> set (fr_columns df0) = {} \<Longrightarrow> carries df0 (drop_columns cs df)"
proof -
  assume "carries df0 df" and disjoint: "set cs \<inter> set (fr_columns df0) = {}"
  moreover have "- set cs \<inter> set (fr_columns df0) = set (fr_columns df0)" using disjoint by blast
  ultimately show ?thesis by (auto simp: carries_def input_part_def drop_columns_def comp_def)
qed

lemma restrict_le: "m \<subseteq>\<^sub>m m' \<Longrightarrow> A \<subseteq> dom m \<Longrightarrow> m' |` A = m |` A"
  by (rule ext) (metis map_le_def restrict_in restrict_out subsetD)

lemma carries_adds:
  assumes "wf_frame df0" "carries df0 df" "adds_columns df df'"
  shows "carries df0 df'"
proof -
  let ?A = "set (fr_columns df0)"
  have dom: "?A \<subseteq> dom row" if "row \<in> set (fr_rows df)" for row
  proof -
    have "row |` ?A \<in> set (input_part ?A df)" using that by (simp add: input_part_def)
    then have "row |` ?A \<in> set (fr_rows df0)" using assms(2) by (simp add: carries_def)
    moreover have "\<forall>r\<in>set (fr_rows df0). dom r = ?A" using assms(1) by (simp add: wf_frame_def)
    ultimately have "dom (row |` ?A) = ?A" by (rule bspec [rotated])
    then show ?thesis unfolding dom_restrict by (rule equalityD2 [THEN order_trans]) (rule Int_lower1)
  qed
  have "input_part ?A df' = input_part ?A df"
    unfolding input_part_def
  proof (rule nth_equalityI)
    have rows: "list_all2 (\<subseteq>\<^sub>m) (fr_rows df) (fr_rows df')" using assms(3) by (simp add: adds_columns_def)
    then show len: "length (map (\<lambda>row. row |` ?A) (fr_rows df')) = length (map (\<lambda>row. row |` ?A) (fr_rows df))"
      by (simp add: list_all2_lengthD)
    fix i assume "i < length (map (\<lambda>row. row |` ?A) (fr_rows df'))"
    then have i: "i < length (fr_rows df)" "i < length (fr_rows df')" using len by simp_all
    have "fr_rows df ! i \<subseteq>\<^sub>m fr_rows df' ! i" using list_all2_nthD [OF rows i(1)] .
    moreover have "?A \<subseteq> dom (fr_rows df ! i)" using dom i(1) by simp
    ultimately have "(fr_rows df' ! i) |` ?A = (fr_rows df ! i) |` ?A"
      by (rule restrict_le)
    then show "map (\<lambda>row. row |` ?A) (fr_rows df') ! i = map (\<lambda>row. row |` ?A) (fr_rows df) ! i" using i by simp
  qed
  then show ?thesis using assms(2,3) by (auto simp: carries_def adds_columns_def)
qed

subsection \<open>One rule\<close>

lemma preselect_keeps: "preselect_original_columns en df c = Inr c' \<Longrightarrow> keeps_input_rows en c \<Longrightarrow> keeps_input_rows en c'"
  by (auto simp: preselect_original_columns_def Let_def keeps_input_rows_def validate_and_initialize_def sbind_def
      split: if_splits sum.splits prod.splits option.splits)

lemma build_manager_keeps:
  "build_manager en set_fp original c df rows_df = Inr m \<Longrightarrow> keeps_input_rows en c \<Longrightarrow> keeps_input_rows en (mg_check m)"
  by (auto simp: build_manager_def sbind_def split: sum.splits dest: preselect_keeps)

lemma process_adds:
  assumes "preserving_code en df0" "keeps_input_rows en (mg_check m)" "process_rule en m df agg = Inr (condition, df', info)"
  shows "(df' = df \<or> adds_columns df df')
    \<and> (\<forall>i. info = Some i \<longrightarrow> i \<notin> set (fr_columns df0) \<union> set (result_columns en))"
proof -
  note code = assms(1) [unfolded preserving_code_def, rule_format, OF assms(2)]
  have wrap: "df' = df'' \<and> info = info'" if "wrap_result en m cond df'' info' = Inr (condition, df', info)" for cond df'' info'
    using that by (auto simp: wrap_result_def sbind_def split: sum.splits)
  show ?thesis
  proof (cases "skip_message en m = []")
    case False
    then show ?thesis using assms(3) by (simp add: process_rule_def)
  next
    case True
    show ?thesis
    proof (cases "if agg then dataset_aggregate en m else None")
      case (Some a)
      then have "cx_aggregate (en_code en) (mg_check m) = Some a" by (auto simp: dataset_aggregate_def split: if_splits)
      then have "adds_columns df (ag_add_condition a df)" using code by blast
      moreover have "df' = ag_add_condition a df \<and> info = None"
        using assms(3) True Some wrap by (simp add: process_rule_def)
      ultimately show ?thesis by simp
    next
      case None
      then obtain cond df'' info' where applied: "apply_rule en m df = Inr (cond, df'', info')"
        and "wrap_result en m cond df'' info' = Inr (condition, df', info)"
        using assms(3) True by (auto simp: process_rule_def sbind_def split: sum.splits)
      then have "df' = df''" "info = info'" using wrap by blast+
      then show ?thesis
      proof (cases "ru_kind (mg_rule m)")
        case RowRule
        then show ?thesis using applied \<open>df' = df''\<close> \<open>info = info'\<close> by (simp add: apply_rule_def)
      next
        case DatasetRule
        then have "cx_closure (en_code en) (mg_check m) df (mg_input m) = Inr df''" "info' = cx_info (en_code en) (mg_check m)"
          using applied by (auto simp: apply_rule_def sbind_def Let_def split: sum.splits)
        moreover from this(1) have "adds_columns df df''" using code by blast
        ultimately show ?thesis using code \<open>df' = df''\<close> \<open>info = info'\<close> by simp
      qed
    qed
  qed
qed

subsection \<open>A list of rules\<close>

text \<open>A result column: no entries, or at least one.\<close>

definition has_results :: "string \<Rightarrow> frame \<Rightarrow> bool" where
  "has_results c df \<longleftrightarrow> c \<in> set (fr_columns df) \<and> (\<forall>row\<in>set (fr_rows df). \<exists>es. row c = Some (Results es) \<and> es \<noteq> Some [])"

lemma has_results_adds:
  assumes "has_results c df" "adds_columns df df'" shows "has_results c df'"
proof -
  have rows: "list_all2 (\<subseteq>\<^sub>m) (fr_rows df) (fr_rows df')" using assms(2) by (simp add: adds_columns_def)
  have "\<exists>es. row' c = Some (Results es) \<and> es \<noteq> Some []" if mem: "row' \<in> set (fr_rows df')" for row'
  proof -
    obtain row where "row \<in> set (fr_rows df)" "row \<subseteq>\<^sub>m row'"
      using rows mem by (metis in_set_conv_nth list_all2_conv_all_nth)
    moreover then obtain es where "row c = Some (Results es)" "es \<noteq> Some []" using assms(1) by (auto simp: has_results_def)
    ultimately show ?thesis by (metis domI map_le_def)
  qed
  then show ?thesis using assms by (auto simp: has_results_def adds_columns_def)
qed

lemma has_results_with: "has_results c df \<Longrightarrow> c \<noteq> d \<Longrightarrow> has_results c (with_column d f df)"
  by (auto simp: has_results_def with_column_columns)

lemma has_results_drop: "has_results c df \<Longrightarrow> c \<notin> set cs \<Longrightarrow> has_results c (drop_columns cs df)"
  by (auto simp: has_results_def drop_columns_def)

lemma has_results_new: "has_results c (with_column c (results_cell conditions) df)" "has_results c (with_column c (\<lambda>_. Results None) df)"
  by (auto simp: has_results_def with_column_columns results_cell_def Let_def)

definition foreign :: "engine \<Rightarrow> frame \<Rightarrow> string set" where
  "foreign en df0 = - (set (fr_columns df0) \<union> set (result_columns en))"

lemma run_checks_adds:
  assumes "preserving_code en df0" "list_all (keeps_input_rows en) checks"
    and "\<forall>m \<in> snd ` set ms. keeps_input_rows en (mg_check m)"
    and "run_checks en set_fp original ms checks st = Inr st'" "set (rs_infos st) \<subseteq> foreign en df0"
  shows "adds_columns (rs_current st) (rs_current st') \<and> set (rs_infos st') \<subseteq> foreign en df0"
  using assms(2,4,5)
proof (induction checks arbitrary: st)
  case Nil
  then show ?case by (simp add: adds_columns_refl)
next
  case (Cons c checks)
  then obtain m condition df info where m: "manager_for en set_fp original ms c st = Inr m"
    and ran: "process_rule en m (rs_current st) (dict_has ms (fst c)) = Inr (condition, df, info)"
    and rest: "run_checks en set_fp original ms checks \<lparr>rs_current = df, rs_rows = (if keeps_input_rows en c then rs_rows st else df),
       rs_conditions = rs_conditions st @ [condition],
       rs_skipped = (if is_skipped en m then rs_skipped st @ [mg_fingerprint m] else rs_skipped st),
       rs_infos = rs_infos st @ (case given info of None \<Rightarrow> [] | Some i \<Rightarrow> [i])\<rparr> = Inr st'" (is "run_checks _ _ _ _ _ ?st = _")
    by (auto simp: run_check_def sbind_def split: sum.splits)
  have "keeps_input_rows en (mg_check m)"
  proof (cases "dict_get ms (fst c)")
    case None
    then show ?thesis using m build_manager_keeps Cons.prems(1) by (simp add: manager_for_def)
  next
    case (Some m')
    then have "m \<in> snd ` set ms" using m by (force simp: manager_for_def dest: map_of_SomeD)
    then show ?thesis using assms(3) by blast
  qed
  note step = process_adds [OF assms(1) this ran]
  have "set (rs_infos ?st) \<subseteq> foreign en df0"
    using Cons.prems(3) step given_Some [of info] by (cases "given info") (auto simp: foreign_def)
  then have "adds_columns df (rs_current st')" "set (rs_infos st') \<subseteq> foreign en df0"
    using Cons.IH [OF _ rest] Cons.prems(1) by simp_all
  moreover have "adds_columns (rs_current st) df" using step adds_columns_refl by blast
  ultimately show ?case using adds_columns_trans by blast
qed

lemma merge_info_facts:
  assumes "set names \<subseteq> foreign en df0" "carries df0 df" "en_info en \<notin> set (fr_columns df0)"
  shows "carries df0 (merge_info_columns (en_info en) df names)"
    "has_results c df \<Longrightarrow> c \<in> set (result_columns en) \<Longrightarrow> c \<noteq> en_info en \<Longrightarrow> has_results c (merge_info_columns (en_info en) df names)"
proof -
  let ?cols = "filter (\<lambda>c. c \<in> set (fr_columns df)) names"
  have "set ?cols \<inter> set (fr_columns df0) = {}" using assms(1) by (auto simp: foreign_def)
  then show "carries df0 (merge_info_columns (en_info en) df names)"
    using assms(2,3) by (auto simp: merge_info_columns_def Let_def intro!: carries_drop carries_with_column)
  assume "has_results c df" "c \<in> set (result_columns en)" "c \<noteq> en_info en"
  moreover from this(2) have "c \<notin> set ?cols" using assms(1) by (auto simp: foreign_def)
  ultimately show "has_results c (merge_info_columns (en_info en) df names)"
    by (auto simp: merge_info_columns_def Let_def intro!: has_results_drop has_results_with)
qed

lemma columns_with_drop:
  "set (fr_columns (drop_columns cs df)) = set (fr_columns df) - set cs"
  by (auto simp: drop_columns_def)

lemma results_array_facts:
  assumes "preserving_code en df0" "wf_frame df0" "list_all (keeps_input_rows en) checks"
    and "\<forall>m \<in> snd ` set ms. keeps_input_rows en (mg_check m)" "carries df0 df"
    and "set (result_columns en) \<inter> set (fr_columns df0) = {}" "dest \<in> {en_errors en, en_warnings en}" "distinct (result_columns en)"
    and "create_results_array en set_fp original ms checks dest df = Inr (res, sk)"
  shows "carries df0 res \<and> set (fr_columns res) \<subseteq> set (fr_columns df) \<union> set (result_columns en) \<and> has_results dest res
    \<and> (\<forall>c\<in>{en_errors en, en_warnings en}. c \<noteq> dest \<longrightarrow> has_results c df \<longrightarrow> has_results c res)"
proof (cases "checks = []")
  case True
  have "dest \<notin> set (fr_columns df0)" using assms(6,7) by (auto simp: result_columns_def)
  then show ?thesis
    using True assms(5,7,9) carries_with_column has_results_new(2) has_results_with
    by (auto simp: create_results_array_def with_column_columns result_columns_def)
next
  case False
  obtain st where ran: "run_checks en set_fp original ms checks
      \<lparr>rs_current = df, rs_rows = df, rs_conditions = [], rs_skipped = [], rs_infos = []\<rparr> = Inr st" (is "run_checks _ _ _ _ _ ?st = _")
    using False assms(9) by (auto simp: create_results_array_def sbind_def split: sum.splits)
  define r1 where "r1 = with_column dest (results_cell (rs_conditions st)) (rs_current st)"
  define r2 where "r2 = merge_info_columns (en_info en) r1 (rs_infos st)"
  define keep where "keep = set (fr_columns df) \<union> {dest, en_info en, en_errors en, en_warnings en}"
  have res: "res = drop_columns (filter (\<lambda>c. c \<notin> keep) (fr_columns r2)) r2"
    using False assms(9) ran unfolding r1_def r2_def keep_def by (simp add: create_results_array_def Let_def)
  have grown: "adds_columns df (rs_current st)" "set (rs_infos st) \<subseteq> foreign en df0"
    using run_checks_adds [OF assms(1,3,4) ran] by simp_all
  have dest: "dest \<notin> set (fr_columns df0)" "en_info en \<notin> set (fr_columns df0)" "dest \<noteq> en_info en" "dest \<in> set (result_columns en)"
    using assms(6-8) by (auto simp: result_columns_def)
  have r1: "carries df0 r1" "has_results dest r1"
    unfolding r1_def using carries_with_column [OF carries_adds [OF assms(2,5) grown(1)] dest(1)] has_results_new(1) by simp_all
  note r2 = merge_info_facts [OF grown(2) r1(1) dest(2), folded r2_def]
  have out: "set (filter (\<lambda>c. c \<notin> keep) (fr_columns r2)) \<inter> (set (fr_columns df0) \<union> set (result_columns en)) = {}"
    using assms(5) by (auto simp: keep_def carries_def result_columns_def)
  have "carries df0 res" unfolding res by (rule carries_drop [OF r2(1)]) (use out in blast)
  moreover have "set (fr_columns res) \<subseteq> set (fr_columns df) \<union> set (result_columns en)"
    unfolding res columns_with_drop using assms(7) by (auto simp: keep_def result_columns_def)
  moreover have "has_results dest res" unfolding res
    by (rule has_results_drop [OF r2(2) [OF r1(2) dest(4,3)]]) (use out dest(4) in blast)
  moreover have "has_results c res" if c: "c \<in> {en_errors en, en_warnings en}" "c \<noteq> dest" "has_results c df" for c
  proof -
    have c': "c \<in> set (result_columns en)" "c \<noteq> en_info en" using c(1) assms(8) by (auto simp: result_columns_def)
    have "has_results c r1" unfolding r1_def by (rule has_results_with [OF has_results_adds [OF c(3) grown(1)] c(2)])
    from r2(2) [OF this c'] show ?thesis unfolding res by (rule has_results_drop) (use out c'(1) in blast)
  qed
  ultimately show ?thesis by blast
qed

lemma dict_update_values: "snd ` set (dict_update d e) \<subseteq> snd ` set d \<union> snd ` set e"
proof (induction e arbitrary: d)
  case (Cons x e)
  obtain k v where x: "x = (k, v)" by (cases x)
  have "snd ` set (dict_set d k v) \<subseteq> insert v (snd ` set d)" by (induction d) auto
  then show ?case using Cons.IH [of "dict_set d k v"] unfolding x dict_update_Cons list.set image_insert snd_conv by blast
qed simp

lemma smapM_range: "smapM f xs = Inr ys \<Longrightarrow> y \<in> set ys \<Longrightarrow> \<exists>x\<in>set xs. f x = Inr y"
  by (induction xs arbitrary: ys) (auto simp: sbind_def split: sum.splits)

lemma input_managers_keep:
  assumes "input_managers en set_fp df checks = Inr ms" "list_all (keeps_input_rows en) checks" "m \<in> snd ` set ms"
  shows "keeps_input_rows en (mg_check m)"
proof -
  obtain raw where raw: "smapM (\<lambda>c. sbind (build_manager en set_fp df c df df) (\<lambda>m. Inr (fst c, m)))
       (filter (\<lambda>c. ru_kind (snd c) = DatasetRule) (takeWhile (keeps_input_rows en) checks)) = Inr raw"
    "ms = filter (\<lambda>(_, m). skip_message en m = []) (dict_update [] raw)"
    using assms(1) by (auto simp: input_managers_def sbind_def split: sum.splits)
  have "m \<in> snd ` set (dict_update [] raw)" using assms(3) raw(2) by auto
  then obtain i where "(i, m) \<in> set raw" using dict_update_values [of "[]" raw] by auto
  then obtain c where c: "c \<in> set (takeWhile (keeps_input_rows en) checks)" "build_manager en set_fp df c df df = Inr m"
    using smapM_range [OF raw(1)] by (fastforce simp: sbind_def split: sum.splits)
  then show ?thesis using build_manager_keeps set_takeWhileD by metis
qed

lemma carries_metrics: "carries df0 df \<Longrightarrow> fst ` set ms \<inter> set (fr_columns df0) = {} \<Longrightarrow> carries df0 (add_metrics ms df)"
  by (induction ms df rule: add_metrics.induct) (auto intro!: carries_with_column)

lemma columns_metrics: "set (fr_columns (add_metrics ms df)) = set (fr_columns df) \<union> fst ` set ms"
  by (induction ms df rule: add_metrics.induct) (auto simp: with_column_columns)

lemma aggregates_facts:
  assumes "add_dataset_aggregates df0 df0 aggs = Inr res" "wf_frame df0" "ag_metric ` set aggs \<inter> set (fr_columns df0) = {}"
  shows "carries df0 res" "set (fr_columns res) = set (fr_columns df0) \<union> ag_metric ` set aggs"
proof -
  obtain ms where ms: "smapM (\<lambda>a. sbind (ag_value a df0) (\<lambda>v. Inr (ag_metric a, v))) aggs = Inr ms" "res = add_metrics ms df0"
    using assms(1) by (auto simp: add_dataset_aggregates_def sbind_def split: sum.splits)
  from ms(1) have names: "map fst ms = map ag_metric aggs"
    by (induction aggs arbitrary: ms) (auto simp: sbind_def split: sum.splits)
  then have "fst ` set ms = ag_metric ` set aggs" by (metis image_set)
  then show "carries df0 res" "set (fr_columns res) = set (fr_columns df0) \<union> ag_metric ` set aggs"
    using carries_metrics [OF carries_refl [OF assms(2)]] columns_metrics assms(3) ms(2) by simp_all
qed

lemma run_facts:
  assumes "preserving_code en df" "wf_frame df" "list_all (keeps_input_rows en) checks" "distinct (result_columns en)"
    and "apply_checks en rt df checks = Inr (res, skipped)"
  shows "carries df res \<and> set (fr_columns res) \<subseteq> set (fr_columns df) \<union> set (result_columns en)
    \<and> has_results (en_errors en) res \<and> has_results (en_warnings en) res
    \<and> set (result_columns en) \<inter> set (fr_columns df) = {}"
proof -
  have clear: "set (result_columns en) \<inter> set (fr_columns df) = {}"
    using assms(5) by (auto simp: apply_checks_def validate_collisions_def Let_def sbind_def filter_empty_conv split: if_splits)
  have names: "en_errors en \<notin> set (fr_columns df)" "en_warnings en \<notin> set (fr_columns df)" "en_errors en \<noteq> en_warnings en"
    using clear assms(4) by (auto simp: result_columns_def)
  show ?thesis
  proof (cases "checks = []")
    case True
    then have "res = append_empty_checks en df"
      using assms(5) by (auto simp: apply_checks_def sbind_def split: sum.splits)
    then show ?thesis
      using names carries_with_column [OF carries_with_column [OF carries_refl [OF assms(2)]]] clear
        has_results_with [OF has_results_new(2) names(3)] has_results_new(2)
      by (auto simp: append_empty_checks_def with_column_columns result_columns_def)
  next
    case False
    let ?errors = "checks_of checks ''error''" and ?warnings = "checks_of checks ''warn''"
    obtain set_fp ms r0 r1 r2 sk1 sk2 where ms: "input_managers en set_fp df (?errors @ ?warnings) = Inr ms"
      and r0: "add_dataset_aggregates df df (List.map_filter (\<lambda>(_, m). dataset_aggregate en m) ms) = Inr r0"
      and r1: "create_results_array en set_fp df ms ?errors (en_errors en) r0 = Inr (r1, sk1)"
      and r2: "create_results_array en set_fp df ms ?warnings (en_warnings en) r1 = Inr (r2, sk2)"
      and res: "res = drop_columns (map ag_metric (List.map_filter (\<lambda>(_, m). dataset_aggregate en m) ms)) r2"
      using False assms(5) by (auto simp: apply_checks_def sbind_def Let_def split: sum.splits if_splits)
    let ?aggs = "List.map_filter (\<lambda>(_, m). dataset_aggregate en m) ms"
    have keeps: "list_all (keeps_input_rows en) ?errors" "list_all (keeps_input_rows en) ?warnings"
      using assms(3) by (auto simp: checks_of_def list_all_iff)
    have managers: "\<forall>m \<in> snd ` set ms. keeps_input_rows en (mg_check m)"
      using input_managers_keep [OF ms] keeps by simp
    have metrics: "ag_metric a \<notin> set (fr_columns df) \<union> set (result_columns en)" if mem: "a \<in> set ?aggs" for a
    proof -
      obtain i m where "(i, m) \<in> set ms" "dataset_aggregate en m = Some a" using mem by (auto simp: List.map_filter_def)
      then have "keeps_input_rows en (mg_check m)" "cx_aggregate (en_code en) (mg_check m) = Some a"
        using managers by (force, auto simp: dataset_aggregate_def split: if_splits)
      then show ?thesis using assms(1) unfolding preserving_code_def by blast
    qed
    have r0_facts: "carries df r0" "set (fr_columns r0) = set (fr_columns df) \<union> ag_metric ` set ?aggs"
      using aggregates_facts [OF r0 assms(2)] metrics by (auto simp: disjoint_iff)
    have r1_facts: "carries df r1" "set (fr_columns r1) \<subseteq> set (fr_columns r0) \<union> set (result_columns en)" "has_results (en_errors en) r1"
      using results_array_facts [OF assms(1,2) keeps(1) managers r0_facts(1) clear _ assms(4) r1] by simp_all
    have r2_facts: "carries df r2" "set (fr_columns r2) \<subseteq> set (fr_columns r1) \<union> set (result_columns en)"
      "has_results (en_warnings en) r2" "has_results (en_errors en) r2"
      using results_array_facts [OF assms(1,2) keeps(2) managers r1_facts(1) clear _ assms(4) r2] r1_facts(3) names(3) by simp_all
    have free: "set (map ag_metric ?aggs) \<inter> (set (fr_columns df) \<union> set (result_columns en)) = {}" using metrics by auto
    have "carries df res" unfolding res by (rule carries_drop [OF r2_facts(1)]) (use free in blast)
    moreover have "set (fr_columns res) \<subseteq> set (fr_columns df) \<union> set (result_columns en)"
      unfolding res columns_with_drop using r0_facts(2) r1_facts(2) r2_facts(2) by auto
    moreover have "has_results (en_errors en) res" "has_results (en_warnings en) res"
      unfolding res using free by (auto intro!: has_results_drop r2_facts simp: result_columns_def)
    ultimately show ?thesis using clear by blast
  qed
qed

text \<open>Whatever row rules and row preserving dataset rules are applied, every row of the input comes back, in order and with
  the values it had.\<close>
theorem run_keeps_input:
  assumes "preserving_code en df" "wf_frame df" "list_all (keeps_input_rows en) checks" "distinct (result_columns en)"
    and "apply_checks en rt df checks = Inr (res, skipped)"
  shows "input_part (set (fr_columns df)) res = fr_rows df"
  using run_facts [OF assms] by (simp add: carries_def)



subsection \<open>The example\<close>

lemma example_preserving: "preserving_code example_engine df0"
proof -
  have le: "row \<subseteq>\<^sub>m row(''__metric'' \<mapsto> (case row ''__metric'' of None \<Rightarrow> v | Some w \<Rightarrow> w))" for row :: row and v
    by (auto simp: map_le_def)
  show ?thesis
    using le by (auto simp: preserving_code_def example_engine_def example_code_def adds_columns_def with_column_def list_all2_conv_all_nth)
qed

lemma example_hypotheses:
  "wf_frame example_frame" "list_all (keeps_input_rows example_engine) example_checks" "distinct (result_columns example_engine)"
  by (auto simp: wf_frame_def example_frame_def keeps_input_rows_def example_checks_def example_engine_def example_code_def result_columns_def)

lemma example_result: "\<exists>res skipped. apply_checks example_engine (Runtime None) example_frame example_checks = Inr (res, skipped)"
  using example_checks_run by (auto split: sum.splits prod.splits)

lemma run_keeps_input_witness:
  "\<exists>res skipped. apply_checks example_engine (Runtime None) example_frame example_checks = Inr (res, skipped)
    \<and> input_part {''id'', ''age''} res = fr_rows example_frame"
proof -
  obtain res skipped where run: "apply_checks example_engine (Runtime None) example_frame example_checks = Inr (res, skipped)"
    using example_result by blast
  have "set (fr_columns example_frame) = {''id'', ''age''}" by (simp add: example_frame_def)
  then show ?thesis using run run_keeps_input [OF example_preserving example_hypotheses run] by auto
qed



end
