(* ===== verification/Monitored_Table.thy ===== *)
theory Monitored_Table
  imports Materializer SQL_Text
begin

section \<open>Monitored tables (\<open>backend/services/monitored_table_service.py\<close>)\<close>

text \<open>
  The tables of the application's database, and the service that registers a table for monitoring and
  keeps the status of its review. A write that stamps \<open>now()\<close> takes the instant as an argument, in
  microseconds; \<open>uuid4\<close> is a function that numbers the identifiers, with the count of those drawn in
  the state. Rows are read in table order, which is the order of creation; an empty string is stored
  as \<open>NULL\<close>. The instants of the last profile and run, which other services write, and the listings
  for display are left out, and so are the permissions that a registration grants.
\<close>

subsection \<open>Tables\<close>

datatype table_status = TableDraft | TablePending | TableApproved | TableRejected
datatype schedule_kind = ProfilingOnly | DqOnly | ProfilingAndDq

record monitored_table =
  mt_id :: string
  mt_fqn :: string
  mt_owner :: "string option"
  mt_owner_display_name :: "string option"
  mt_status :: table_status
  mt_version :: nat
  mt_cron :: "string option"
  mt_tz :: "string option"
  mt_kind :: schedule_kind
  mt_sample_size :: "int option"
  mt_pending_rationale :: "string option"
  mt_last_decision_rationale :: "string option"
  mt_created_by :: "string option"
  mt_updated_by :: "string option"
  mt_updated_at :: int

text \<open>A row of \<open>dq_applied_rules\<close>: the fields the materializer reads, and two more.\<close>

record application = applied_rule +
  ap_row_filter :: "string option"
  ap_mapping_hash :: "string option"

text \<open>The key of a tombstone in \<open>dq_tag_auto_suppressions\<close>, and who recorded it.\<close>

type_synonym natural_key = "string \<times> string \<times> string"
type_synonym suppressions = "(natural_key, string option) dict"

text \<open>A row of \<open>dq_resolved_rules_history\<close>.\<close>

record catalog_history =
  ch_rule_id :: "string option"
  ch_table :: string
  ch_check :: "json option"
  ch_version :: nat
  ch_source :: string
  ch_action :: string
  ch_prev :: "check_status option"
  ch_new :: "check_status option"
  ch_by :: string

text \<open>A row of \<open>dq_monitored_table_versions\<close>: the references its \<open>state_json\<close> holds.\<close>

record rule_ref =
  rf_applied_id :: string
  rf_rule_id :: string
  rf_registry_version :: int
  rf_severity_override :: "string option"
  rf_pass_threshold :: "int option"
  rf_mapping :: "mapping_group list"
  rf_tags :: json_dict

record table_version =
  tv_binding :: string
  tv_version :: nat
  tv_refs :: "rule_ref list"
  tv_check_count :: nat
  tv_created_by :: "string option"
  tv_refrozen :: "int option"

record app_db =
  ad_registry :: registry_db
  ad_tables :: "monitored_table list"
  ad_applied :: "application list"
  ad_rows :: "resolved_row list"
  ad_history :: "catalog_history list"
  ad_suppressed :: suppressions
  ad_versions :: "table_version list"
  ad_drawn :: nat

text \<open>
  What the services are given: the materializer's environment, the settings, the new identifiers, the
  directory of display names, the order in which the database returns resolved rows, and whether the
  table of suppressions can be read and the catalog's audit row can be written.
\<close>

record app_env =
  ae_mat :: mat_env
  ae_default_auto_upgrade :: bool
  ae_new_id :: "nat \<Rightarrow> string"
  ae_display_name :: "string \<Rightarrow> string option"
  ae_order :: "resolved_row list \<Rightarrow> resolved_row list"
  ae_suppressions_ok :: bool
  ae_history_ok :: "catalog_history \<Rightarrow> bool"

abbreviation ae_registry :: "app_env \<Rightarrow> registry_env" where
  "ae_registry env \<equiv> me_registry (ae_mat env)"

datatype table_error =
    InvalidFqn string
  | DuplicateTable string string
  | TableMissing string
  | InvalidTableStatus string
  | EmptyOwner

definition draw_id :: "app_env \<Rightarrow> app_db \<Rightarrow> string \<times> app_db" where
  "draw_id env db = (ae_new_id env (ad_drawn db), db\<lparr>ad_drawn := Suc (ad_drawn db)\<rparr>)"

subsection \<open>Queries\<close>

definition get_binding :: "app_db \<Rightarrow> string \<Rightarrow> monitored_table option" where
  "get_binding db bid = find (\<lambda>t. mt_id t = bid) (ad_tables db)"

definition get_by_table_fqn :: "app_db \<Rightarrow> string \<Rightarrow> monitored_table option" where
  "get_by_table_fqn db fqn = find (\<lambda>t. mt_fqn t = fqn) (ad_tables db)"

definition applied_rule_ids :: "app_db \<Rightarrow> string \<Rightarrow> string list" where
  "applied_rule_ids db bid = filter (\<lambda>i. i \<noteq> []) (map ap_id (filter (\<lambda>ap. ap_binding ap = bid) (ad_applied db)))"

text \<open>The materialized checks of a binding, by the link of their application.\<close>

definition linked :: "app_db \<Rightarrow> string \<Rightarrow> resolved_row \<Rightarrow> bool" where
  "linked db bid row \<longleftrightarrow> (case rw_applied_id row of None \<Rightarrow> False | Some a \<Rightarrow> a \<in> set (applied_rule_ids db bid))"

definition list_materialized_rule_statuses :: "app_db \<Rightarrow> string \<Rightarrow> (string \<times> check_status) list" where
  "list_materialized_rule_statuses db bid =
     filter (\<lambda>(i, st). i \<noteq> []) (map (\<lambda>row. (rw_id row, rw_status row)) (filter (linked db bid) (ad_rows db)))"

definition update_table :: "string \<Rightarrow> (monitored_table \<Rightarrow> monitored_table) \<Rightarrow> app_db \<Rightarrow> app_db" where
  "update_table bid f db = db\<lparr>ad_tables := map (\<lambda>t. if mt_id t = bid then f t else t) (ad_tables db)\<rparr>"

subsection \<open>Registration\<close>

definition new_binding :: "app_env \<Rightarrow> string \<Rightarrow> string \<Rightarrow> string \<Rightarrow> string option \<Rightarrow> string option \<Rightarrow> int \<Rightarrow> monitored_table" where
  "new_binding env bid fqn user owner display now =
     (let owner = str_or owner user in
      \<lparr>mt_id = bid, mt_fqn = fqn, mt_owner = Some owner,
       mt_owner_display_name = (case display of Some d \<Rightarrow> Some d
         | None \<Rightarrow> if owner = [] then None else ae_display_name env owner),
       mt_status = TableDraft, mt_version = 0, mt_cron = None, mt_tz = None, mt_kind = DqOnly, mt_sample_size = None,
       mt_pending_rationale = None, mt_last_decision_rationale = None, mt_created_by = Some user,
       mt_updated_by = Some user, mt_updated_at = now\<rparr>)"

definition insert_table :: "monitored_table \<Rightarrow> app_db \<Rightarrow> app_db" where
  "insert_table t db = db\<lparr>ad_tables := ad_tables db @ [t\<lparr>mt_owner := opt_str (mt_owner t),
     mt_owner_display_name := opt_str (mt_owner_display_name t), mt_created_by := opt_str (mt_created_by t),
     mt_updated_by := opt_str (mt_updated_by t)\<rparr>]\<rparr>"

definition register ::
    "app_env \<Rightarrow> string \<Rightarrow> string \<Rightarrow> string option \<Rightarrow> string option \<Rightarrow> int \<Rightarrow> app_db \<Rightarrow> (table_error + monitored_table) \<times> app_db" where
  "register env fqn user owner display now db =
     (if \<not> validate_fqn fqn then (Inl (InvalidFqn fqn), db)
      else (case get_by_table_fqn db fqn of
        Some t \<Rightarrow> (Inl (DuplicateTable fqn (mt_id t)), db)
      | None \<Rightarrow> (let (bid, db) = draw_id env db; t = new_binding env bid fqn user owner display now
                in (Inr t, insert_table t db))))"

fun register_each :: "app_env \<Rightarrow> string list \<Rightarrow> string \<Rightarrow> string option \<Rightarrow> int \<Rightarrow> app_db \<Rightarrow> app_db" where
  "register_each env [] user owner now db = db"
| "register_each env (fqn # fqns) user owner now db = (let (bid, db) = draw_id env db in
     register_each env fqns user owner now (insert_table (new_binding env bid fqn user owner None now) db))"

text \<open>\<open>dict.fromkeys\<close> keeps the first of equal names. The result: registered, skipped, invalid.\<close>

definition fromkeys :: "'a list \<Rightarrow> 'a list" where
  "fromkeys xs = rev (remdups (rev xs))"

definition bulk_register ::
    "app_env \<Rightarrow> string list \<Rightarrow> string \<Rightarrow> string option \<Rightarrow> int \<Rightarrow> app_db \<Rightarrow> (string list \<times> string list \<times> string list) \<times> app_db" where
  "bulk_register env fqns user owner now db =
     (let deduped = fromkeys fqns; valid = filter validate_fqn deduped; invalid = filter (\<lambda>f. \<not> validate_fqn f) deduped;
          existing = map mt_fqn (filter (\<lambda>t. mt_fqn t \<in> set valid) (ad_tables db));
          to_register = filter (\<lambda>f. f \<notin> set existing) valid
      in ((to_register, filter (\<lambda>f. f \<in> set existing) valid, invalid), register_each env to_register user owner now db))"

subsection \<open>Review status\<close>

definition table_status_of :: "string \<Rightarrow> table_status option" where
  "table_status_of s = map_of [(''draft'', TableDraft), (''pending_approval'', TablePending),
     (''approved'', TableApproved), (''rejected'', TableRejected)] s"

text \<open>The rationale columns a submit, a decision or a withdrawal sets.\<close>

fun set_table_rationales :: "table_status \<Rightarrow> string option \<Rightarrow> monitored_table \<Rightarrow> monitored_table" where
  "set_table_rationales TablePending why t = t\<lparr>mt_pending_rationale := why\<rparr>"
| "set_table_rationales TableApproved why t = t\<lparr>mt_pending_rationale := None, mt_last_decision_rationale := why\<rparr>"
| "set_table_rationales TableRejected why t = t\<lparr>mt_pending_rationale := None, mt_last_decision_rationale := why\<rparr>"
| "set_table_rationales TableDraft why t = t\<lparr>mt_pending_rationale := None\<rparr>"

definition apply_status :: "table_status \<Rightarrow> string \<Rightarrow> string option \<Rightarrow> bool \<Rightarrow> monitored_table \<Rightarrow> monitored_table" where
  "apply_status st user why set_rationale t =
     (let t = t\<lparr>mt_status := st, mt_updated_by := Some user\<rparr>
      in if set_rationale then set_table_rationales st why t else t)"

text \<open>A write stamps the row; the object that is returned keeps the instant it was read with.\<close>

definition stamped :: "int \<Rightarrow> monitored_table \<Rightarrow> monitored_table" where
  "stamped now t = t\<lparr>mt_updated_at := now\<rparr>"

definition set_table_status ::
    "string \<Rightarrow> string \<Rightarrow> string \<Rightarrow> string option \<Rightarrow> bool \<Rightarrow> int \<Rightarrow> app_db \<Rightarrow> (table_error + monitored_table) \<times> app_db" where
  "set_table_status bid status user why set_rationale now db = (case table_status_of status of
     None \<Rightarrow> (Inl (InvalidTableStatus status), db)
   | Some st \<Rightarrow> (case get_binding db bid of
       None \<Rightarrow> (Inl (TableMissing bid), db)
     | Some t \<Rightarrow> (Inr (apply_status st user why set_rationale t),
                 update_table bid (stamped now \<circ> apply_status st user why set_rationale) db)))"

text \<open>\<open>rollup_status\<close>: the status a set of checks gives its binding.\<close>

definition rollup_of :: "check_status set \<Rightarrow> string" where
  "rollup_of sts = (if CheckPending \<in> sts then ''pending_approval'' else if CheckApproved \<in> sts then ''approved'' else ''draft'')"

definition rollup_status :: "string \<Rightarrow> string \<Rightarrow> int \<Rightarrow> app_db \<Rightarrow> (table_error + monitored_table option) \<times> app_db" where
  "rollup_status bid user now db = (case get_binding db bid of
     None \<Rightarrow> (Inr None, db)
   | Some t \<Rightarrow>
       (let sts = set (map snd (list_materialized_rule_statuses db bid)) in
        if sts = {} \<or> table_status_of (rollup_of sts) = Some (mt_status t) then (Inr (Some t), db)
        else (case set_table_status bid (rollup_of sts) user None False now db of
           (Inl e, db) \<Rightarrow> (Inl e, db) | (Inr t, db) \<Rightarrow> (Inr (Some t), db))))"

subsection \<open>Schedule, owner and deletion\<close>

definition max_schedule_sample_size :: int where
  "max_schedule_sample_size = 10000000"

definition normalize_schedule_sample_size :: "int option \<Rightarrow> int option" where
  "normalize_schedule_sample_size v = (case v of
     None \<Rightarrow> None | Some n \<Rightarrow> if n \<le> 0 then None else Some (min n max_schedule_sample_size))"

definition apply_schedule ::
    "string option \<Rightarrow> string option \<Rightarrow> schedule_kind \<Rightarrow> int option \<Rightarrow> string \<Rightarrow> monitored_table \<Rightarrow> monitored_table" where
  "apply_schedule cron tz kind sample user t =
     (let cron = opt_str cron in
      t\<lparr>mt_cron := cron, mt_tz := (if cron \<noteq> None then tz else None), mt_kind := kind,
        mt_sample_size := (if cron \<noteq> None then normalize_schedule_sample_size sample else None),
        mt_updated_by := Some user\<rparr>)"

text \<open>The text columns of the \<open>UPDATE\<close> go through \<open>_opt_str\<close>.\<close>

definition stored_edit :: "int \<Rightarrow> string \<Rightarrow> monitored_table \<Rightarrow> monitored_table" where
  "stored_edit now user t = stamped now (t\<lparr>mt_updated_by := opt_str (Some user)\<rparr>)"

definition update_schedule ::
    "string \<Rightarrow> string option \<Rightarrow> string option \<Rightarrow> schedule_kind \<Rightarrow> int option \<Rightarrow> string \<Rightarrow> int \<Rightarrow> app_db
     \<Rightarrow> (table_error + monitored_table) \<times> app_db" where
  "update_schedule bid cron tz kind sample user now db = (case get_binding db bid of
     None \<Rightarrow> (Inl (TableMissing bid), db)
   | Some t \<Rightarrow> (Inr (apply_schedule cron tz kind sample user t),
               update_table bid (stored_edit now user \<circ> apply_schedule cron (opt_str tz) kind sample user) db))"

definition apply_owner :: "string \<Rightarrow> string \<Rightarrow> monitored_table \<Rightarrow> monitored_table" where
  "apply_owner owner user t = t\<lparr>mt_owner := Some owner, mt_updated_by := Some user\<rparr>"

definition update_owner :: "string \<Rightarrow> string \<Rightarrow> string \<Rightarrow> int \<Rightarrow> app_db \<Rightarrow> (table_error + monitored_table) \<times> app_db" where
  "update_owner bid owner user now db =
     (let owner = py_strip owner
      in if owner = [] then (Inl EmptyOwner, db)
      else (case get_binding db bid of
        None \<Rightarrow> (Inl (TableMissing bid), db)
      | Some t \<Rightarrow> (Inr (apply_owner owner user t), update_table bid (stored_edit now user \<circ> apply_owner owner user) db)))"

text \<open>The materialized checks stay.\<close>

definition delete_table :: "string \<Rightarrow> app_db \<Rightarrow> (table_error + unit) \<times> app_db" where
  "delete_table bid db = (case get_binding db bid of
     None \<Rightarrow> (Inl (TableMissing bid), db)
   | Some t \<Rightarrow> (Inr (), db\<lparr>ad_applied := filter (\<lambda>ap. ap_binding ap \<noteq> bid) (ad_applied db),
                          ad_tables := filter (\<lambda>t. mt_id t \<noteq> bid) (ad_tables db)\<rparr>))"

subsection \<open>The materializer's view\<close>

definition studio_of :: "app_db \<Rightarrow> studio" where
  "studio_of db = \<lparr>sd_registry = ad_registry db, sd_tables = map (\<lambda>t. (mt_id t, mt_fqn t)) (ad_tables db),
     sd_applied = map applied_rule.truncate (ad_applied db), sd_rows = ad_rows db\<rparr>"

definition materialize_table :: "app_env \<Rightarrow> string \<Rightarrow> app_db \<Rightarrow> (mat_error + string list) \<times> app_db" where
  "materialize_table env bid db =
     (let (r, sd) = materialize_binding (ae_mat env) bid (studio_of db) in (r, db\<lparr>ad_rows := sd_rows sd\<rparr>))"

subsection \<open>Lookups by a key\<close>

lemma find_unique:
  assumes "distinct (map f xs)"
  shows "find (\<lambda>x. f x = k) xs = Some x \<longleftrightarrow> x \<in> set xs \<and> f x = k"
  using assms by (induction xs) auto

lemma find_none: "find (\<lambda>x. f x = k) xs = None \<longleftrightarrow> k \<notin> f ` set xs"
  by (auto simp: find_None_iff)

end
