(* ===== verification/Apply_Rules.thy ===== *)
theory Apply_Rules
  imports Monitored_Table "HOL-Library.Product_Lexorder"
begin

section \<open>Applied rules (\<open>backend/services/apply_rules_service.py\<close>)\<close>

text \<open>
  The service that links published registry rules to the columns of a monitored table: applying a
  rule, the batch save of the staged editor, the attachment by tags, removal with its tombstone, and
  the pin and severity of an application. An operation that raises returns the error, with the state
  it leaves. Applications are listed in the order of their creation.
\<close>

subsection \<open>Requests\<close>

datatype apply_error =
    BindingNotFound string
  | RuleNotInRegistry string
  | RuleNotPublished string rule_status
  | MappingIncomplete mapping_group
  | RowFilterTooLong
  | UnsafeRowFilter
  | ApplicationNotFound string

text \<open>\<open>DesiredAppliedRule\<close>\<close>

record desired_rule =
  ds_rule_id :: string
  ds_mapping :: "mapping_group list"
  ds_pinned :: "int option"
  ds_severity :: "string option"
  ds_row_filter :: "string option"
  ds_pass_threshold :: "int option"
  ds_tags :: json_dict

definition clean_row_filter :: "string option \<Rightarrow> string option" where
  "clean_row_filter raw = (case raw of None \<Rightarrow> None | Some s \<Rightarrow> if py_strip s = [] then None else Some (py_strip s))"

definition clamp_pass_threshold :: "int option \<Rightarrow> int option" where
  "clamp_pass_threshold raw = map_option (\<lambda>n. max 0 (min 100 n)) raw"

definition row_filter_max_len :: nat where
  "row_filter_max_len = 4000"

definition validate_row_filter :: "string option \<Rightarrow> apply_error + unit" where
  "validate_row_filter raw = (case clean_row_filter raw of
     None \<Rightarrow> Inr ()
   | Some f \<Rightarrow> if row_filter_max_len < length f then Inl RowFilterTooLong
       else if \<not> is_sql_query_safe (''SELECT * FROM _t WHERE ('' @ f @ '')'') then Inl UnsafeRowFilter
       else Inr ())"

text \<open>The groups, and the pairs of each, in sorted order.\<close>

definition normalized_mapping :: "mapping_group list \<Rightarrow> mapping_group list" where
  "normalized_mapping gs = sort (map sort gs)"

definition mapping_json :: "mapping_group list \<Rightarrow> json" where
  "mapping_json gs = JList (map (\<lambda>g. JList (map (\<lambda>(k, v). JList [JStr k, JStr v]) g)) gs)"

definition compute_mapping_hash :: "app_env \<Rightarrow> mapping_group list \<Rightarrow> string" where
  "compute_mapping_hash env gs = rg_digest (ae_registry env) (mapping_json (normalized_mapping gs))"

definition resolve_pinned_version :: "app_env \<Rightarrow> int option \<Rightarrow> nat \<Rightarrow> int option" where
  "resolve_pinned_version env pin current =
     (if pin \<noteq> None then pin else if ae_default_auto_upgrade env then None else Some (int current))"

definition validate_mapping_complete :: "mapping_group list \<Rightarrow> rule_slot list \<Rightarrow> apply_error + unit" where
  "validate_mapping_complete gs slots =
     (case find (\<lambda>g. fst ` set g \<noteq> sl_name ` set slots) gs of None \<Rightarrow> Inr () | Some g \<Rightarrow> Inl (MappingIncomplete g))"

definition require_binding :: "app_db \<Rightarrow> string \<Rightarrow> apply_error + unit" where
  "require_binding db bid = (if get_binding db bid = None then Inl (BindingNotFound bid) else Inr ())"

definition published_rule :: "app_env \<Rightarrow> app_db \<Rightarrow> string \<Rightarrow> mapping_group list \<Rightarrow> apply_error + registry_rule" where
  "published_rule env db rid gs = (case get_rule (ae_registry env) (ad_registry db) rid of
     None \<Rightarrow> Inl (RuleNotInRegistry rid)
   | Some r \<Rightarrow> if rr_status r \<noteq> Approved then Inl (RuleNotPublished rid (rr_status r))
       else sbind (validate_mapping_complete gs (df_slots (rr_definition r))) (\<lambda>_. Inr r))"

definition validate_applicable_rule :: "app_env \<Rightarrow> app_db \<Rightarrow> string \<Rightarrow> string \<Rightarrow> mapping_group list \<Rightarrow> apply_error + registry_rule" where
  "validate_applicable_rule env db bid rid gs = sbind (require_binding db bid) (\<lambda>_. published_rule env db rid gs)"

subsection \<open>Rows\<close>

text \<open>The row \<open>_insert\<close> writes, and the object a row is read as.\<close>

definition stored_application :: "application \<Rightarrow> application" where
  "stored_application ap = ap\<lparr>ap_severity_override := opt_str (ap_severity_override ap),
     ap_row_filter := opt_str (ap_row_filter ap), ap_mapping_hash := Some (or_else (ap_mapping_hash ap) []),
     ap_created_by := opt_str (ap_created_by ap)\<rparr>"

definition row_to_application :: "application \<Rightarrow> application" where
  "row_to_application ap = ap\<lparr>ap_row_filter := clean_row_filter (ap_row_filter ap),
     ap_pass_threshold := clamp_pass_threshold (ap_pass_threshold ap)\<rparr>"

definition natural_key_of :: "application \<Rightarrow> natural_key" where
  "natural_key_of ap = (ap_binding ap, ap_rule_id ap, or_else (ap_mapping_hash ap) [])"

definition get_by_natural_key :: "app_db \<Rightarrow> string \<Rightarrow> string \<Rightarrow> string \<Rightarrow> application option" where
  "get_by_natural_key db bid rid h = map_option row_to_application
     (find (\<lambda>ap. ap_binding ap = bid \<and> ap_rule_id ap = rid \<and> ap_mapping_hash ap = Some h) (ad_applied db))"

definition list_applied :: "app_db \<Rightarrow> string \<Rightarrow> application list" where
  "list_applied db bid = map row_to_application (filter (\<lambda>ap. ap_binding ap = bid) (ad_applied db))"

definition list_all_applied :: "app_db \<Rightarrow> application list" where
  "list_all_applied db = map row_to_application (rev (ad_applied db))"

definition list_bindings_for_rule :: "app_db \<Rightarrow> string \<Rightarrow> application list" where
  "list_bindings_for_rule db rid = map row_to_application (filter (\<lambda>ap. ap_rule_id ap = rid) (ad_applied db))"

definition count_applications_for_rule :: "app_db \<Rightarrow> string \<Rightarrow> nat" where
  "count_applications_for_rule db rid = length (filter (\<lambda>ap. ap_rule_id ap = rid) (ad_applied db))"

definition get_applied :: "app_db \<Rightarrow> string \<Rightarrow> application option" where
  "get_applied db aid = map_option row_to_application (find (\<lambda>ap. ap_id ap = aid) (ad_applied db))"

definition insert_application :: "application \<Rightarrow> app_db \<Rightarrow> app_db" where
  "insert_application ap db = db\<lparr>ad_applied := ad_applied db @ [stored_application ap]\<rparr>"

definition update_application :: "string \<Rightarrow> (application \<Rightarrow> application) \<Rightarrow> app_db \<Rightarrow> app_db" where
  "update_application aid f db = db\<lparr>ad_applied := map (\<lambda>ap. if ap_id ap = aid then f ap else ap) (ad_applied db)\<rparr>"

subsection \<open>Applying a rule\<close>

definition set_mutable_fields :: "desired_rule \<Rightarrow> json_dict option \<Rightarrow> application \<Rightarrow> application" where
  "set_mutable_fields d tags ap = ap\<lparr>ap_pinned := ds_pinned d, ap_severity_override := ds_severity d,
     ap_row_filter := clean_row_filter (ds_row_filter d), ap_pass_threshold := clamp_pass_threshold (ds_pass_threshold d),
     ap_tags := (case tags of None \<Rightarrow> ap_tags ap | Some t \<Rightarrow> t)\<rparr>"

definition update_mutable_fields :: "application \<Rightarrow> desired_rule \<Rightarrow> json_dict option \<Rightarrow> app_db \<Rightarrow> application \<times> app_db" where
  "update_mutable_fields existing d tags db =
     (let ap = set_mutable_fields d tags existing in
      (ap, update_application (ap_id existing) (\<lambda>row. row\<lparr>ap_pinned := ap_pinned ap,
         ap_severity_override := opt_str (ap_severity_override ap), ap_row_filter := opt_str (ap_row_filter ap),
         ap_pass_threshold := ap_pass_threshold ap, ap_tags := ap_tags ap\<rparr>) db))"

text \<open>The application \<open>build_applied_rule\<close> makes of a validated request.\<close>

definition application_of ::
    "app_env \<Rightarrow> string \<Rightarrow> string \<Rightarrow> registry_rule \<Rightarrow> desired_rule \<Rightarrow> json_dict option \<Rightarrow> string \<Rightarrow> application" where
  "application_of env aid bid r d tags user =
     \<lparr>ap_id = aid, ap_binding = bid, ap_rule_id = ds_rule_id d,
      ap_pinned = resolve_pinned_version env (ds_pinned d) (rr_version r), ap_severity_override = ds_severity d,
      ap_pass_threshold = clamp_pass_threshold (ds_pass_threshold d), ap_mapping = ds_mapping d,
      ap_tags = or_else tags [], ap_created_by = Some user, ap_row_filter = clean_row_filter (ds_row_filter d),
      ap_mapping_hash = Some (compute_mapping_hash env (ds_mapping d))\<rparr>"

definition build_applied_rule ::
    "app_env \<Rightarrow> string \<Rightarrow> desired_rule \<Rightarrow> json_dict option \<Rightarrow> string \<Rightarrow> app_db \<Rightarrow> (apply_error + application) \<times> app_db" where
  "build_applied_rule env bid d tags user db =
     (case sbind (validate_applicable_rule env db bid (ds_rule_id d) (ds_mapping d)) (\<lambda>r.
           sbind (validate_row_filter (ds_row_filter d)) (\<lambda>_. Inr r)) of
        Inl e \<Rightarrow> (Inl e, db)
      | Inr r \<Rightarrow> (let (aid, db) = draw_id env db in (Inr (application_of env aid bid r d tags user), db)))"

definition apply_registry_rule ::
    "app_env \<Rightarrow> string \<Rightarrow> desired_rule \<Rightarrow> json_dict option \<Rightarrow> string \<Rightarrow> app_db \<Rightarrow> (apply_error + application) \<times> app_db" where
  "apply_registry_rule env bid d tags user db =
     (case sbind (validate_applicable_rule env db bid (ds_rule_id d) (ds_mapping d)) (\<lambda>r.
           sbind (validate_row_filter (ds_row_filter d)) (\<lambda>_. Inr r)) of
        Inl e \<Rightarrow> (Inl e, db)
      | Inr r \<Rightarrow>
          (case get_by_natural_key db bid (ds_rule_id d) (compute_mapping_hash env (ds_mapping d)) of
             Some existing \<Rightarrow> (let (ap, db) = update_mutable_fields existing d tags db in (Inr ap, db))
           | None \<Rightarrow> (let (aid, db) = draw_id env db; ap = application_of env aid bid r d tags user
                     in (Inr ap, insert_application ap db))))"

subsection \<open>Suppression and attachment by tags\<close>

definition origin_tag_auto :: json_dict where
  "origin_tag_auto = [(''origin'', JStr ''tag_auto'')]"

definition is_tag_auto :: "application \<Rightarrow> bool" where
  "is_tag_auto ap \<longleftrightarrow> dict_get (ap_tags ap) ''origin'' = Some (JStr ''tag_auto'')"

definition is_suppressed :: "app_env \<Rightarrow> app_db \<Rightarrow> natural_key \<Rightarrow> bool" where
  "is_suppressed env db k = (if ae_suppressions_ok env then dict_has (ad_suppressed db) k else False)"

definition record_suppression :: "natural_key \<Rightarrow> string option \<Rightarrow> app_db \<Rightarrow> app_db" where
  "record_suppression k user db = db\<lparr>ad_suppressed := dict_set (ad_suppressed db) k user\<rparr>"

text \<open>The result of an attachment is \<open>None\<close> when the mapping is suppressed.\<close>

definition attach_auto_mapping ::
    "app_env \<Rightarrow> string \<Rightarrow> string \<Rightarrow> mapping_group list \<Rightarrow> string \<Rightarrow> app_db \<Rightarrow> (apply_error + application option) \<times> app_db" where
  "attach_auto_mapping env bid rid gs user db = (case validate_applicable_rule env db bid rid gs of
     Inl e \<Rightarrow> (Inl e, db)
   | Inr r \<Rightarrow>
       (let h = compute_mapping_hash env gs in
        if is_suppressed env db (bid, rid, h) then (Inr None, db)
        else (case get_by_natural_key db bid rid h of
           Some existing \<Rightarrow> (Inr (Some existing), db)
         | None \<Rightarrow>
             (let (aid, db) = draw_id env db;
                  ap = application_of env aid bid r \<lparr>ds_rule_id = rid, ds_mapping = gs, ds_pinned = None, ds_severity = None,
                    ds_row_filter = None, ds_pass_threshold = None, ds_tags = []\<rparr> (Some origin_tag_auto) user
              in (Inr (Some ap), insert_application ap db)))))"

subsection \<open>Removal, pin and severity\<close>

definition remove_applied :: "string \<Rightarrow> string option \<Rightarrow> app_db \<Rightarrow> (apply_error + unit) \<times> app_db" where
  "remove_applied aid user db = (case get_applied db aid of
     None \<Rightarrow> (Inl (ApplicationNotFound aid), db)
   | Some ap \<Rightarrow>
       (let db = db\<lparr>ad_rows := filter (\<lambda>row. rw_applied_id row \<noteq> Some aid) (ad_rows db),
                    ad_applied := filter (\<lambda>ap. ap_id ap \<noteq> aid) (ad_applied db)\<rparr>
        in (Inr (), if is_tag_auto ap \<and> or_else (ap_mapping_hash ap) [] \<noteq> []
                    then record_suppression (natural_key_of ap) user db else db)))"

definition set_pin :: "string \<Rightarrow> int option \<Rightarrow> app_db \<Rightarrow> (apply_error + application) \<times> app_db" where
  "set_pin aid pin db = (case get_applied db aid of
     None \<Rightarrow> (Inl (ApplicationNotFound aid), db)
   | Some ap \<Rightarrow> (Inr (ap\<lparr>ap_pinned := pin\<rparr>), update_application aid (\<lambda>row. row\<lparr>ap_pinned := pin\<rparr>) db))"

definition set_severity_override :: "string \<Rightarrow> string option \<Rightarrow> app_db \<Rightarrow> (apply_error + application) \<times> app_db" where
  "set_severity_override aid sev db = (case get_applied db aid of
     None \<Rightarrow> (Inl (ApplicationNotFound aid), db)
   | Some ap \<Rightarrow> (Inr (ap\<lparr>ap_severity_override := sev\<rparr>), update_application aid (\<lambda>row. row\<lparr>ap_severity_override := sev\<rparr>) db))"

definition rule_display_tags ::
    "app_env \<Rightarrow> app_db \<Rightarrow> string \<Rightarrow> string option \<times> string option \<times> string option \<times> string option" where
  "rule_display_tags env db rid = (case get_rule (ae_registry env) (ad_registry db) rid of
     None \<Rightarrow> (None, None, None, None)
   | Some r \<Rightarrow> (let md = rr_user_metadata r in
       (get_rule_name md, get_reserved_tag md ''dimension'', get_reserved_tag md ''severity'', rr_source r)))"

subsection \<open>The batch save\<close>

text \<open>Of two entries for a rule the last one stays, in the place of the first.\<close>

definition dedup_desired :: "desired_rule list \<Rightarrow> desired_rule list" where
  "dedup_desired ds = map snd (foldl (\<lambda>m d. dict_set m (ds_rule_id d) d) [] ds)"

fun validate_desired :: "app_env \<Rightarrow> app_db \<Rightarrow> desired_rule list \<Rightarrow> apply_error + (string \<times> string) list" where
  "validate_desired env db [] = Inr []"
| "validate_desired env db (d # ds) =
     sbind (published_rule env db (ds_rule_id d) (ds_mapping d)) (\<lambda>_.
     sbind (validate_row_filter (ds_row_filter d)) (\<lambda>_.
     sbind (validate_desired env db ds) (\<lambda>hashes.
     Inr ((ds_rule_id d, compute_mapping_hash env (ds_mapping d)) # hashes))))"

fun remove_undesired ::
    "(string \<times> string) list \<Rightarrow> string \<Rightarrow> application list \<Rightarrow> app_db \<Rightarrow> (apply_error + unit) \<times> app_db" where
  "remove_undesired hashes user [] db = (Inr (), db)"
| "remove_undesired hashes user (ap # aps) db =
     (if dict_get hashes (ap_rule_id ap) \<noteq> ap_mapping_hash ap
      then (case remove_applied (ap_id ap) (Some user) db of
        (Inl e, db) \<Rightarrow> (Inl e, db) | (Inr _, db) \<Rightarrow> remove_undesired hashes user aps db)
      else remove_undesired hashes user aps db)"

fun apply_each ::
    "app_env \<Rightarrow> string \<Rightarrow> desired_rule list \<Rightarrow> string \<Rightarrow> app_db \<Rightarrow> (apply_error + application list) \<times> app_db" where
  "apply_each env bid [] user db = (Inr [], db)"
| "apply_each env bid (d # ds) user db = (case apply_registry_rule env bid d (Some (ds_tags d)) user db of
     (Inl e, db) \<Rightarrow> (Inl e, db)
   | (Inr ap, db) \<Rightarrow> (case apply_each env bid ds user db of
       (Inl e, db) \<Rightarrow> (Inl e, db) | (Inr aps, db) \<Rightarrow> (Inr (ap # aps), db)))"

definition touch_binding :: "string \<Rightarrow> string \<Rightarrow> int \<Rightarrow> app_db \<Rightarrow> app_db" where
  "touch_binding bid user now db = update_table bid (stored_edit now user) db"

definition save_applied_rules ::
    "app_env \<Rightarrow> string \<Rightarrow> desired_rule list \<Rightarrow> string \<Rightarrow> int \<Rightarrow> app_db \<Rightarrow> (apply_error + application list) \<times> app_db" where
  "save_applied_rules env bid desired user now db =
     (let ds = dedup_desired desired in
      case sbind (require_binding db bid) (\<lambda>_. validate_desired env db ds) of
        Inl e \<Rightarrow> (Inl e, db)
      | Inr hashes \<Rightarrow> (case remove_undesired hashes user (list_applied db bid) db of
          (Inl e, db) \<Rightarrow> (Inl e, db)
        | (Inr _, db) \<Rightarrow> (case apply_each env bid ds user db of
            (Inl e, db) \<Rightarrow> (Inl e, db)
          | (Inr aps, db) \<Rightarrow> (Inr aps, touch_binding bid user now db))))"

end
