(* ===== verification/Apply_Rules_Laws.thy ===== *)
theory Apply_Rules_Laws
  imports Apply_Rules "HOL-Library.Multiset"
begin

section \<open>Laws of the apply service\<close>

text \<open>
  The invariant of \<open>dq_applied_rules\<close>: identifiers and natural keys are unique, every row is clean and
  carries the hash of its mapping. Every operation keeps it; the batch save is atomic and reconciles
  the binding to exactly the desired set; an attachment by tags only ever adds.
\<close>

subsection \<open>The invariant\<close>

definition clean_row :: "app_env \<Rightarrow> application \<Rightarrow> bool" where
  "clean_row env ap \<longleftrightarrow> row_to_application ap = ap
     \<and> ap_mapping_hash ap = Some (compute_mapping_hash env (ap_mapping ap))"

definition wf_applied :: "app_env \<Rightarrow> app_db \<Rightarrow> bool" where
  "wf_applied env db \<longleftrightarrow> distinct (map ap_id (ad_applied db)) \<and> distinct (map natural_key_of (ad_applied db))
     \<and> (\<forall>ap \<in> set (ad_applied db). clean_row env ap \<and> ap_id ap \<in> ae_new_id env ` {..<ad_drawn db})"

lemma py_strip_idem [simp]: "py_strip (py_strip s) = py_strip s"
proof -
  have l: "py_lstrip (py_lstrip t) = py_lstrip t" for t unfolding py_lstrip_def by simp
  have r: "py_rstrip (py_rstrip t) = py_rstrip t" for t unfolding py_rstrip_def by simp
  have keep: "py_lstrip (py_rstrip (py_lstrip s)) = py_rstrip (py_lstrip s)"
  proof (cases "py_rstrip (py_lstrip s)")
    case (Cons c t)
    obtain u where u: "py_lstrip s = py_rstrip (py_lstrip s) @ u"
      unfolding py_rstrip_def by (metis takeWhile_dropWhile_id rev_append rev_rev_ident)
    then have "hd (py_lstrip s) = c" using Cons by (metis append_Cons list.sel(1))
    moreover have "\<not> py_isspace (hd (py_lstrip s))"
      using u Cons unfolding py_lstrip_def by (metis append_is_Nil_conv hd_dropWhile list.distinct(1))
    ultimately show ?thesis using Cons by (simp add: py_lstrip_def)
  qed (simp add: py_lstrip_def)
  show ?thesis unfolding py_strip_def using keep l r by metis
qed

lemma clean_idem [simp]: "clean_row_filter (clean_row_filter f) = clean_row_filter f"
  by (auto simp: clean_row_filter_def split: option.splits)

lemma clamp_idem [simp]: "clamp_pass_threshold (clamp_pass_threshold n) = clamp_pass_threshold n"
  by (cases n) (auto simp: clamp_pass_threshold_def)

lemma opt_str_clean [simp]: "opt_str (clean_row_filter f) = clean_row_filter f"
  by (auto simp: clean_row_filter_def opt_str_def split: option.splits)

lemma row_to_application_simps [simp]:
  "ap_id (row_to_application ap) = ap_id ap" "ap_binding (row_to_application ap) = ap_binding ap"
  "ap_rule_id (row_to_application ap) = ap_rule_id ap" "ap_tags (row_to_application ap) = ap_tags ap"
  "ap_mapping_hash (row_to_application ap) = ap_mapping_hash ap" "ap_mapping (row_to_application ap) = ap_mapping ap"
  "ap_pinned (row_to_application ap) = ap_pinned ap"
  "natural_key_of (row_to_application ap) = natural_key_of ap"
  by (simp_all add: row_to_application_def natural_key_of_def)

lemma row_to_application_fixes:
  "row_to_application ap = ap \<longleftrightarrow> clean_row_filter (ap_row_filter ap) = ap_row_filter ap
     \<and> clamp_pass_threshold (ap_pass_threshold ap) = ap_pass_threshold ap"
  by (cases ap) (auto simp: row_to_application_def)

lemma stored_application_simps [simp]:
  "ap_id (stored_application ap) = ap_id ap" "ap_binding (stored_application ap) = ap_binding ap"
  "ap_rule_id (stored_application ap) = ap_rule_id ap" "ap_tags (stored_application ap) = ap_tags ap"
  "ap_mapping (stored_application ap) = ap_mapping ap" "ap_pinned (stored_application ap) = ap_pinned ap"
  "natural_key_of (stored_application ap) = natural_key_of ap"
  by (simp_all add: stored_application_def natural_key_of_def or_else_def split: option.split)

lemma application_of_simps [simp]:
  "ap_id (application_of env aid bid r d tags user) = aid"
  "ap_binding (application_of env aid bid r d tags user) = bid"
  "ap_rule_id (application_of env aid bid r d tags user) = ds_rule_id d"
  "ap_mapping (application_of env aid bid r d tags user) = ds_mapping d"
  "ap_tags (application_of env aid bid r d tags user) = or_else tags []"
  "natural_key_of (application_of env aid bid r d tags user) = (bid, ds_rule_id d, compute_mapping_hash env (ds_mapping d))"
  by (simp_all add: application_of_def natural_key_of_def or_else_def)

lemma clean_application_of: "clean_row env (stored_application (application_of env aid bid r d tags user))"
  by (simp add: clean_row_def row_to_application_fixes stored_application_def application_of_def or_else_def)

lemma wf_clean: "wf_applied env db \<Longrightarrow> ap \<in> set (ad_applied db) \<Longrightarrow> clean_row env ap"
  by (simp add: wf_applied_def)

lemma natural_key_hash:
  "clean_row env ap \<Longrightarrow> natural_key_of ap = (b, q, h) \<longleftrightarrow> ap_binding ap = b \<and> ap_rule_id ap = q \<and> ap_mapping_hash ap = Some h"
  by (auto simp: clean_row_def natural_key_of_def or_else_def)

lemma map_read: "(\<And>ap. x = Some ap \<Longrightarrow> row_to_application ap = ap) \<Longrightarrow> map_option row_to_application x = x"
  by (cases x) auto

lemma by_natural_key_find:
  assumes "wf_applied env db"
  shows "get_by_natural_key db b q h = find (\<lambda>ap. natural_key_of ap = (b, q, h)) (ad_applied db)"
proof -
  have same: "find (\<lambda>ap. ap_binding ap = b \<and> ap_rule_id ap = q \<and> ap_mapping_hash ap = Some h) (ad_applied db)
    = find (\<lambda>ap. natural_key_of ap = (b, q, h)) (ad_applied db)"
    using natural_key_hash [OF wf_clean [OF assms]] by (intro find_cong) auto
  show ?thesis unfolding get_by_natural_key_def same
  proof (rule map_read)
    fix ap assume "find (\<lambda>ap. natural_key_of ap = (b, q, h)) (ad_applied db) = Some ap"
    then have "ap \<in> set (ad_applied db)" by (auto simp: find_Some_iff)
    then show "row_to_application ap = ap" using wf_clean [OF assms] by (simp add: clean_row_def)
  qed
qed

lemma by_natural_key_None:
  assumes "wf_applied env db"
  shows "get_by_natural_key db b q h = None \<longleftrightarrow> (b, q, h) \<notin> natural_key_of ` set (ad_applied db)"
  by (simp only: by_natural_key_find [OF assms] find_none)

lemma by_natural_key_Some:
  assumes "wf_applied env db"
  shows "get_by_natural_key db b q h = Some ap \<longleftrightarrow> ap \<in> set (ad_applied db) \<and> natural_key_of ap = (b, q, h)"
proof -
  have "distinct (map natural_key_of (ad_applied db))" using assms by (simp add: wf_applied_def)
  then show ?thesis by (simp only: by_natural_key_find [OF assms] find_unique)
qed

lemma get_applied_iff:
  assumes "wf_applied env db"
  shows "get_applied db aid = Some ap \<longleftrightarrow> ap \<in> set (ad_applied db) \<and> ap_id ap = aid"
proof -
  have dist: "distinct (map ap_id (ad_applied db))" using assms by (simp add: wf_applied_def)
  have "get_applied db aid = find (\<lambda>ap. ap_id ap = aid) (ad_applied db)"
    unfolding get_applied_def
  proof (rule map_read)
    fix ap assume "find (\<lambda>ap. ap_id ap = aid) (ad_applied db) = Some ap"
    then have "ap \<in> set (ad_applied db)" by (auto simp: find_Some_iff)
    then show "row_to_application ap = ap" using wf_clean [OF assms] by (simp add: clean_row_def)
  qed
  then show ?thesis by (simp only: find_unique [OF dist])
qed

lemma list_applied_wf:
  assumes "wf_applied env db"
  shows "list_applied db bid = filter (\<lambda>ap. ap_binding ap = bid) (ad_applied db)"
proof -
  have "row_to_application ap = ap" if "ap \<in> set (ad_applied db)" for ap
    using wf_clean [OF assms that] by (simp add: clean_row_def)
  then show ?thesis unfolding list_applied_def by (intro map_idI) simp
qed

subsection \<open>Every operation keeps the invariant\<close>

lemma wf_cong:
  "wf_applied env db \<Longrightarrow> ad_applied db' = ad_applied db \<Longrightarrow> ad_drawn db \<le> ad_drawn db' \<Longrightarrow> wf_applied env db'"
  by (fastforce simp: wf_applied_def)

lemma wf_filter:
  assumes "wf_applied env db"
  shows "wf_applied env (db\<lparr>ad_applied := filter P (ad_applied db)\<rparr>)"
  using assms by (auto simp: wf_applied_def distinct_map inj_on_def)

lemma wf_insert:
  assumes "inj (ae_new_id env)" "wf_applied env db" "clean_row env (stored_application ap)"
    and "ap_id ap = ae_new_id env (ad_drawn db)" "natural_key_of ap \<notin> natural_key_of ` set (ad_applied db)"
  shows "wf_applied env (insert_application ap (db\<lparr>ad_drawn := Suc (ad_drawn db)\<rparr>))"
proof -
  have new: "ae_new_id env (ad_drawn db) \<noteq> ap_id row" if "row \<in> set (ad_applied db)" for row
    using assms(1,2) that by (auto simp: wf_applied_def inj_eq dest!: bspec)
  have old: "ap_id row \<in> ae_new_id env ` {..<Suc (ad_drawn db)}" if "row \<in> set (ad_applied db)" for row
    using assms(2) that by (auto simp: wf_applied_def lessThan_Suc)
  show ?thesis using assms new old unfolding wf_applied_def insert_application_def by (auto simp: image_iff)
qed

lemma wf_update:
  assumes "wf_applied env db"
    and "\<And>row. row \<in> set (ad_applied db) \<Longrightarrow> ap_id (f row) = ap_id row \<and> natural_key_of (f row) = natural_key_of row
      \<and> (clean_row env row \<longrightarrow> clean_row env (f row))"
  shows "wf_applied env (update_application aid f db)"
proof -
  let ?db = "update_application aid f db"
  have ids: "map ap_id (ad_applied ?db) = map ap_id (ad_applied db)"
    and keys: "map natural_key_of (ad_applied ?db) = map natural_key_of (ad_applied db)"
    and drawn: "ad_drawn ?db = ad_drawn db"
    using assms(2) by (auto simp: update_application_def)
  have each: "clean_row env ap \<and> ap_id ap \<in> ae_new_id env ` {..<ad_drawn db}"
    if "ap \<in> set (ad_applied (update_application aid f db))" for ap
  proof -
    from that obtain row where "row \<in> set (ad_applied db)" "ap = row \<or> ap = f row"
      by (auto simp: update_application_def split: if_splits)
    then show ?thesis using assms unfolding wf_applied_def by auto
  qed
  show ?thesis unfolding wf_applied_def ids keys drawn using assms(1) each by (simp add: wf_applied_def)
qed

lemma wf_mutable:
  assumes "wf_applied env db"
  shows "wf_applied env (snd (update_mutable_fields existing d tags db))"
  unfolding update_mutable_fields_def Let_def snd_conv
  by (rule wf_update [OF assms])
    (auto simp: natural_key_of_def clean_row_def row_to_application_fixes set_mutable_fields_def)

lemma wf_apply:
  assumes "inj (ae_new_id env)" "wf_applied env db"
  shows "wf_applied env (snd (apply_registry_rule env bid d tags user db))"
proof -
  have update: "wf_applied env db'" if "update_mutable_fields ap d tags db = (ap', db')" for ap ap' db'
    using wf_mutable [OF assms(2), of ap d tags] that by simp
  show ?thesis using assms update by_natural_key_None [OF assms(2)]
    by (auto simp: apply_registry_rule_def draw_id_def Let_def clean_application_of split: sum.split option.split prod.split
        intro!: wf_insert)
qed

lemma wf_attach:
  assumes "inj (ae_new_id env)" "wf_applied env db"
  shows "wf_applied env (snd (attach_auto_mapping env bid rid gs user db))"
  using assms by_natural_key_None [OF assms(2)]
  by (auto simp: attach_auto_mapping_def draw_id_def Let_def clean_application_of split: sum.split option.split
      intro!: wf_insert)

lemma wf_remove:
  assumes "wf_applied env db"
  shows "wf_applied env (snd (remove_applied aid user db))"
  using assms wf_filter [OF assms, of "\<lambda>ap. ap_id ap \<noteq> aid"]
  by (auto simp: remove_applied_def Let_def record_suppression_def elim: wf_cong split: option.split)

lemma wf_pin:
  assumes "wf_applied env db"
  shows "wf_applied env (snd (set_pin aid pin db))" "wf_applied env (snd (set_severity_override aid sev db))"
  using assms by (auto simp: set_pin_def set_severity_override_def natural_key_of_def clean_row_def row_to_application_fixes
      split: option.split intro!: wf_update)

lemma wf_remove_undesired:
  assumes "wf_applied env db"
  shows "wf_applied env (snd (remove_undesired hashes user aps db))"
  using assms
proof (induction aps arbitrary: db)
  case (Cons ap aps)
  obtain r db1 where step: "remove_applied (ap_id ap) (Some user) db = (r, db1)" by (cases "remove_applied (ap_id ap) (Some user) db")
  then have "wf_applied env db1" using wf_remove [OF Cons.prems, of "ap_id ap" "Some user"] by simp
  with Cons step show ?case by (simp split: sum.split)
qed simp

lemma wf_apply_each:
  assumes "inj (ae_new_id env)" "wf_applied env db"
  shows "wf_applied env (snd (apply_each env bid ds user db))"
  using assms(2)
proof (induction ds arbitrary: db)
  case (Cons d ds)
  obtain r db1 where step: "apply_registry_rule env bid d (Some (ds_tags d)) user db = (r, db1)" by (cases "apply_registry_rule env bid d (Some (ds_tags d)) user db")
  then have "wf_applied env db1" using wf_apply [OF assms(1) Cons.prems, of bid d "Some (ds_tags d)" user] by simp
  with Cons.IH [OF this] step show ?case by (auto split: sum.split prod.split)
qed simp

lemma wf_save:
  assumes "inj (ae_new_id env)" "wf_applied env db"
  shows "wf_applied env (snd (save_applied_rules env bid desired user now db))"
proof -
  have touch: "wf_applied env (touch_binding bid user now db)" if "wf_applied env db" for db
    using wf_cong [OF that] by (simp add: touch_binding_def update_table_def)
  have remove: "wf_applied env db2" if "remove_undesired h user l db = (r, db2)" for h l r db2
    using wf_remove_undesired [OF assms(2), of h user l] that by simp
  have app: "wf_applied env db3"
    if "remove_undesired h user l db = (q, db2)" "apply_each env bid ds user db2 = (r, db3)" for h l q ds r db2 db3
    using wf_apply_each [OF assms(1) remove [OF that(1)], of bid ds user] that(2) by simp
  show ?thesis using assms(2)
    by (auto simp: save_applied_rules_def Let_def split: sum.split prod.split intro: remove app touch)
qed

subsection \<open>The batch save\<close>

type_synonym application_fields =
  "string \<times> string option \<times> int option \<times> string option \<times> string option \<times> int option \<times> json_dict"

definition fields_of :: "application \<Rightarrow> application_fields" where
  "fields_of ap = (ap_rule_id ap, ap_mapping_hash ap, ap_pinned ap, ap_severity_override ap, ap_row_filter ap,
     ap_pass_threshold ap, ap_tags ap)"

definition desired_key :: "app_env \<Rightarrow> string \<Rightarrow> desired_rule \<Rightarrow> natural_key" where
  "desired_key env bid d = (bid, ds_rule_id d, compute_mapping_hash env (ds_mapping d))"

text \<open>What a desired entry asks for: only a new application takes the default pin.\<close>

definition desired_fields :: "app_env \<Rightarrow> app_db \<Rightarrow> string \<Rightarrow> desired_rule \<Rightarrow> application_fields" where
  "desired_fields env db bid d =
     (ds_rule_id d, Some (compute_mapping_hash env (ds_mapping d)),
      if desired_key env bid d \<in> natural_key_of ` set (ad_applied db) then ds_pinned d
      else (case get_rule (ae_registry env) (ad_registry db) (ds_rule_id d) of
        None \<Rightarrow> None | Some r \<Rightarrow> resolve_pinned_version env (ds_pinned d) (rr_version r)),
      opt_str (ds_severity d), clean_row_filter (ds_row_filter d), clamp_pass_threshold (ds_pass_threshold d), ds_tags d)"

definition applicable :: "app_env \<Rightarrow> app_db \<Rightarrow> desired_rule \<Rightarrow> bool" where
  "applicable env db d \<longleftrightarrow> (\<exists>r. published_rule env db (ds_rule_id d) (ds_mapping d) = Inr r)
     \<and> validate_row_filter (ds_row_filter d) = Inr ()"

lemma validate_desired_Inr:
  "validate_desired env db ds = Inr hashes \<longleftrightarrow> (\<forall>d \<in> set ds. applicable env db d)
     \<and> hashes = map (\<lambda>d. (ds_rule_id d, compute_mapping_hash env (ds_mapping d))) ds"
  by (induction ds arbitrary: hashes) (auto simp: applicable_def result_simps)

lemma applicable_cong: "ad_registry db' = ad_registry db \<Longrightarrow> applicable env db' d = applicable env db d"
  by (simp add: applicable_def published_rule_def)

lemma dedup_keys: "distinct (map ds_rule_id (dedup_desired ds))"
proof -
  let ?step = "\<lambda>m d. dict_set m (ds_rule_id d) d"
  have "dict_ok (foldl ?step m ds) \<and> (\<forall>(k, d) \<in> set (foldl ?step m ds). ds_rule_id d = k)"
    if "dict_ok m" "\<forall>(k, d) \<in> set m. ds_rule_id d = k" for m
    using that
  proof (induction ds arbitrary: m)
    case (Cons d ds)
    have "\<forall>(k, d) \<in> set (?step m d). ds_rule_id d = k"
      using Cons.prems(2) by (induction m) (auto split: if_splits)
    from Cons.IH [OF dict_ok_set [OF Cons.prems(1)] this] show ?case unfolding foldl_Cons .
  qed simp
  from this [of "[]"] have ok: "dict_ok (foldl ?step [] ds)" and keys: "\<forall>(k, d) \<in> set (foldl ?step [] ds). ds_rule_id d = k"
    by (simp_all add: dict_ok_def)
  have "map ds_rule_id (dedup_desired ds) = map fst (foldl ?step [] ds)"
    unfolding dedup_desired_def map_map by (rule map_cong) (use keys in auto)
  then show ?thesis using ok by (simp add: dict_ok_def)
qed

lemma remove_applied_found:
  assumes "wf_applied env db" "ap \<in> set (ad_applied db)"
  shows "\<exists>db'. remove_applied (ap_id ap) user db = (Inr (), db') \<and> ad_registry db' = ad_registry db \<and> ad_tables db' = ad_tables db
    \<and> ad_applied db' = filter (\<lambda>row. ap_id row \<noteq> ap_id ap) (ad_applied db)"
proof -
  have "get_applied db (ap_id ap) = Some ap" using get_applied_iff [OF assms(1)] assms(2) by simp
  then show ?thesis by (auto simp: remove_applied_def record_suppression_def Let_def)
qed

lemma remove_undesired_effect:
  assumes "wf_applied env db" "set aps \<subseteq> set (ad_applied db)" "distinct (map ap_id aps)"
  shows "\<exists>db'. remove_undesired hashes user aps db = (Inr (), db') \<and> ad_registry db' = ad_registry db \<and> ad_tables db' = ad_tables db
    \<and> ad_applied db' = filter (\<lambda>row. row \<in> set aps \<longrightarrow> dict_get hashes (ap_rule_id row) = ap_mapping_hash row) (ad_applied db)"
  using assms
proof (induction aps arbitrary: db)
  case (Cons ap aps)
  note ap = Cons.prems(2)
  show ?case
  proof (cases "dict_get hashes (ap_rule_id ap) = ap_mapping_hash ap")
    case True
    then show ?thesis using Cons by (fastforce intro!: filter_cong)
  next
    case False
    obtain db1 where step: "remove_applied (ap_id ap) (Some user) db = (Inr (), db1)" "ad_registry db1 = ad_registry db"
      "ad_tables db1 = ad_tables db" "ad_applied db1 = filter (\<lambda>row. ap_id row \<noteq> ap_id ap) (ad_applied db)"
      using remove_applied_found [OF Cons.prems(1), of ap "Some user"] ap by auto
    have wf: "wf_applied env db1" using wf_remove [OF Cons.prems(1), of "ap_id ap" "Some user"] step(1) by simp
    have same: "ap_id row = ap_id ap \<longleftrightarrow> row = ap" if "row \<in> set (ad_applied db)" for row
      using Cons.prems(1) ap that by (auto simp: wf_applied_def distinct_map dest: inj_onD)
    have "x \<in> set (ad_applied db1)" if "x \<in> set aps" for x
    proof -
      have "ap_id x \<noteq> ap_id ap" using Cons.prems(3) imageI [OF that, of ap_id] by auto
      then show ?thesis using ap that unfolding step(4) by auto
    qed
    then have "set aps \<subseteq> set (ad_applied db1)" by blast
    from Cons.IH [OF wf this] Cons.prems(3) obtain db' where
      rest: "remove_undesired hashes user aps db1 = (Inr (), db')" "ad_registry db' = ad_registry db1" "ad_tables db' = ad_tables db1"
        "ad_applied db' = filter (\<lambda>row. row \<in> set aps \<longrightarrow> dict_get hashes (ap_rule_id row) = ap_mapping_hash row) (ad_applied db1)"
      by auto
    have "ad_applied db' = filter (\<lambda>row. row \<in> set (ap # aps) \<longrightarrow> dict_get hashes (ap_rule_id row) = ap_mapping_hash row) (ad_applied db)"
      unfolding rest(4) step(4) filter_filter using same False by (intro filter_cong) auto
    then show ?thesis using False step rest by simp
  qed
qed simp

lemma apply_step:
  assumes "inj (ae_new_id env)" "wf_applied env db" "get_binding db bid \<noteq> None" "applicable env db d"
  shows "\<exists>ap db'. apply_registry_rule env bid d (Some (ds_tags d)) user db = (Inr ap, db')
    \<and> ad_registry db' = ad_registry db \<and> ad_tables db' = ad_tables db \<and> wf_applied env db'
    \<and> filter (\<lambda>row. natural_key_of row \<noteq> desired_key env bid d) (ad_applied db')
      = filter (\<lambda>row. natural_key_of row \<noteq> desired_key env bid d) (ad_applied db)
    \<and> (\<exists>row \<in> set (ad_applied db'). natural_key_of row = desired_key env bid d \<and> fields_of row = desired_fields env db bid d)"
proof -
  let ?k = "desired_key env bid d" and ?h = "compute_mapping_hash env (ds_mapping d)"
  obtain r where r: "published_rule env db (ds_rule_id d) (ds_mapping d) = Inr r" "validate_row_filter (ds_row_filter d) = Inr ()"
    using assms(4) by (auto simp: applicable_def)
  then have found: "get_rule (ae_registry env) (ad_registry db) (ds_rule_id d) = Some r"
    by (auto simp: published_rule_def result_simps split: option.splits if_splits)
  have valid: "sbind (validate_applicable_rule env db bid (ds_rule_id d) (ds_mapping d))
      (\<lambda>r. sbind (validate_row_filter (ds_row_filter d)) (\<lambda>_. Inr r)) = Inr r"
    using r assms(3) by (simp add: validate_applicable_rule_def require_binding_def)
  have wf: "wf_applied env (snd (apply_registry_rule env bid d (Some (ds_tags d)) user db))"
    by (rule wf_apply [OF assms(1,2)])
  show ?thesis
  proof (cases "get_by_natural_key db bid (ds_rule_id d) ?h")
    case None
    then have new: "?k \<notin> natural_key_of ` set (ad_applied db)"
      unfolding desired_key_def using by_natural_key_None [OF assms(2)] by blast
    let ?ap = "application_of env (ae_new_id env (ad_drawn db)) bid r d (Some (ds_tags d)) user"
    have "fields_of (stored_application ?ap) = desired_fields env db bid d"
      using new found by (simp add: fields_of_def desired_fields_def stored_application_def application_of_def or_else_def)
    moreover have "natural_key_of (stored_application ?ap) = ?k" by (simp add: desired_key_def)
    ultimately show ?thesis using valid None wf
      by (auto simp: apply_registry_rule_def draw_id_def Let_def insert_application_def)
  next
    case (Some old)
    then have old: "old \<in> set (ad_applied db)" "natural_key_of old = ?k"
      unfolding desired_key_def using by_natural_key_Some [OF assms(2)] by blast+
    let ?new = "\<lambda>row. row\<lparr>ap_pinned := ds_pinned d, ap_severity_override := opt_str (ds_severity d),
      ap_row_filter := clean_row_filter (ds_row_filter d), ap_pass_threshold := clamp_pass_threshold (ds_pass_threshold d),
      ap_tags := ds_tags d\<rparr>"
    have key: "natural_key_of (?new row) = natural_key_of row" for row by (simp add: natural_key_of_def)
    have same: "ap_id row = ap_id old \<longleftrightarrow> natural_key_of row = ?k" if "row \<in> set (ad_applied db)" for row
    proof -
      have "inj_on ap_id (set (ad_applied db))" "inj_on natural_key_of (set (ad_applied db))"
        using assms(2) by (simp_all add: wf_applied_def distinct_map)
      from inj_on_eq_iff [OF this(1) that old(1)] inj_on_eq_iff [OF this(2) that old(1)] show ?thesis
        unfolding old(2) by simp
    qed
    have applied: "ad_applied (update_application (ap_id old) ?new db) = map (\<lambda>row. if natural_key_of row = ?k then ?new row else row) (ad_applied db)"
      using same by (simp add: update_application_def)
    have "ap_rule_id old = ds_rule_id d" "ap_mapping_hash old = Some ?h"
      using natural_key_hash [OF wf_clean [OF assms(2) old(1)]] old(2) unfolding desired_key_def by blast+
    moreover have "?k \<in> natural_key_of ` set (ad_applied db)" unfolding old(2) [symmetric] by (rule imageI [OF old(1)])
    ultimately have fields: "fields_of (?new old) = desired_fields env db bid d"
      by (simp add: fields_of_def desired_fields_def)
    let ?db = "update_application (ap_id old) ?new db"
    have member: "?new old \<in> set (ad_applied ?db)" "natural_key_of (?new old) = ?k"
      unfolding key update_application_def using old by (auto intro!: image_eqI [where x = old])
    have others: "filter (\<lambda>row. natural_key_of row \<noteq> ?k) (map (\<lambda>row. if natural_key_of row = ?k then ?new row else row) rows)
      = filter (\<lambda>row. natural_key_of row \<noteq> ?k) rows" for rows
      by (induction rows) (auto simp: key)
    have step: "apply_registry_rule env bid d (Some (ds_tags d)) user db
      = (Inr (set_mutable_fields d (Some (ds_tags d)) old), ?db)"
      using valid Some by (simp add: apply_registry_rule_def update_mutable_fields_def set_mutable_fields_def Let_def)
    have frame: "ad_registry ?db = ad_registry db" "ad_tables ?db = ad_tables db" by (simp_all add: update_application_def)
    show ?thesis
      by (intro exI conjI, rule step, rule frame, rule frame)
        (use wf step in simp, use others applied in simp, rule bexI [OF _ member(1)], simp only: member(2) fields)
  qed
qed

lemma desired_fields_cong:
  assumes "ad_registry db' = ad_registry db"
    and "desired_key env bid d \<in> natural_key_of ` set (ad_applied db') \<longleftrightarrow> desired_key env bid d \<in> natural_key_of ` set (ad_applied db)"
  shows "desired_fields env db' bid d = desired_fields env db bid d"
  using assms by (simp add: desired_fields_def)

lemma same_members:
  "filter P xs = filter P ys \<Longrightarrow> P x \<Longrightarrow> x \<in> set xs \<longleftrightarrow> x \<in> set ys"
  by (metis filter_set mem_Collect_eq set_filter)

lemma apply_each_effect:
  assumes "inj (ae_new_id env)" "wf_applied env db" "get_binding db bid \<noteq> None" "\<forall>d \<in> set ds. applicable env db d"
    and "distinct (map ds_rule_id ds)"
  shows "\<exists>aps db'. apply_each env bid ds user db = (Inr aps, db')
    \<and> ad_registry db' = ad_registry db \<and> ad_tables db' = ad_tables db \<and> wf_applied env db'
    \<and> filter (\<lambda>row. natural_key_of row \<notin> desired_key env bid ` set ds) (ad_applied db')
      = filter (\<lambda>row. natural_key_of row \<notin> desired_key env bid ` set ds) (ad_applied db)
    \<and> (\<forall>d \<in> set ds. \<exists>row \<in> set (ad_applied db'). natural_key_of row = desired_key env bid d \<and> fields_of row = desired_fields env db bid d)"
  using assms(2-5)
proof (induction ds arbitrary: db)
  case (Cons d ds)
  let ?k = "desired_key env bid" and ?K = "desired_key env bid ` set ds"
  have "applicable env db d" using Cons.prems(3) by simp
  from apply_step [OF assms(1) Cons.prems(1,2) this] obtain ap db1 where
    step: "apply_registry_rule env bid d (Some (ds_tags d)) user db = (Inr ap, db1)"
    and frame: "ad_registry db1 = ad_registry db" "ad_tables db1 = ad_tables db" and wf1: "wf_applied env db1"
    and rest1: "filter (\<lambda>row. natural_key_of row \<noteq> ?k d) (ad_applied db1) = filter (\<lambda>row. natural_key_of row \<noteq> ?k d) (ad_applied db)"
    and row1: "\<exists>row \<in> set (ad_applied db1). natural_key_of row = ?k d \<and> fields_of row = desired_fields env db bid d" by blast
  have bind1: "get_binding db1 bid \<noteq> None" using Cons.prems(2) frame by (simp add: get_binding_def)
  have appl1: "\<forall>d \<in> set ds. applicable env db1 d" using Cons.prems(3) applicable_cong [OF frame(1)] by auto
  have dist: "distinct (map ds_rule_id ds)" using Cons.prems(4) by simp
  from Cons.IH [OF wf1 bind1 appl1 dist] obtain aps db2 where
    step2: "apply_each env bid ds user db1 = (Inr aps, db2)"
    and frame2: "ad_registry db2 = ad_registry db1" "ad_tables db2 = ad_tables db1" and wf2: "wf_applied env db2"
    and rest2: "filter (\<lambda>row. natural_key_of row \<notin> ?K) (ad_applied db2) = filter (\<lambda>row. natural_key_of row \<notin> ?K) (ad_applied db1)"
    and row2: "\<forall>d \<in> set ds. \<exists>row \<in> set (ad_applied db2). natural_key_of row = ?k d \<and> fields_of row = desired_fields env db1 bid d"
    by blast
  have other: "?k d \<noteq> ?k e" if "e \<in> set ds" for e
    using Cons.prems(4) imageI [OF that, of ds_rule_id] by (auto simp: desired_key_def)
  have outside: "?k d \<notin> ?K" using other by blast
  have split: "filter (\<lambda>row. natural_key_of row \<notin> insert (?k d) ?K) rows
      = filter (\<lambda>row. natural_key_of row \<noteq> ?k d) (filter (\<lambda>row. natural_key_of row \<notin> ?K) rows)"
    "filter (\<lambda>row. natural_key_of row \<notin> insert (?k d) ?K) rows
      = filter (\<lambda>row. natural_key_of row \<notin> ?K) (filter (\<lambda>row. natural_key_of row \<noteq> ?k d) rows)" for rows
    by (auto intro!: filter_cong)
  have rest: "filter (\<lambda>row. natural_key_of row \<notin> ?k ` set (d # ds)) (ad_applied db2)
      = filter (\<lambda>row. natural_key_of row \<notin> ?k ` set (d # ds)) (ad_applied db)"
    using split(1) [of "ad_applied db2"] split(1) [of "ad_applied db1"] split(2) [of "ad_applied db1"] split(2) [of "ad_applied db"]
      rest1 rest2 by simp
  have first: "\<exists>row \<in> set (ad_applied db2). natural_key_of row = ?k d \<and> fields_of row = desired_fields env db bid d"
    using row1 same_members [OF rest2] outside by metis
  have later: "\<exists>row \<in> set (ad_applied db2). natural_key_of row = ?k e \<and> fields_of row = desired_fields env db bid e"
    if e: "e \<in> set ds" for e
  proof -
    have "row \<in> set (ad_applied db1) \<longleftrightarrow> row \<in> set (ad_applied db)" if "natural_key_of row = ?k e" for row
      using same_members [OF rest1, of row] other [OF e] that by simp
    then have "?k e \<in> natural_key_of ` set (ad_applied db1) \<longleftrightarrow> ?k e \<in> natural_key_of ` set (ad_applied db)"
      by (fastforce simp: image_iff)
    from desired_fields_cong [OF frame(1) this] show ?thesis using bspec [OF row2 e] by simp
  qed
  have "\<forall>e \<in> set (d # ds). \<exists>row \<in> set (ad_applied db2). natural_key_of row = ?k e \<and> fields_of row = desired_fields env db bid e"
    using first later by simp
  then show ?case using step step2 frame frame2 wf2 rest by auto
qed simp

text \<open>A save either fails in its validation, or reconciles the binding.\<close>

lemma save_run:
  assumes "inj (ae_new_id env)" "wf_applied env db"
  shows "case sbind (require_binding db bid) (\<lambda>_. validate_desired env db (dedup_desired ds)) of
      Inl e \<Rightarrow> save_applied_rules env bid ds user now db = (Inl e, db)
    | Inr hashes \<Rightarrow> \<exists>aps db'. save_applied_rules env bid ds user now db = (Inr aps, db') \<and> ad_registry db' = ad_registry db
        \<and> wf_applied env db'
        \<and> filter (\<lambda>row. ap_binding row \<noteq> bid) (ad_applied db') = filter (\<lambda>row. ap_binding row \<noteq> bid) (ad_applied db)
        \<and> fields_of ` set (list_applied db' bid) = desired_fields env db bid ` set (dedup_desired ds)
        \<and> ad_tables db' = map (\<lambda>t. if mt_id t = bid then stored_edit now user t else t) (ad_tables db)"
proof (cases "sbind (require_binding db bid) (\<lambda>_. validate_desired env db (dedup_desired ds))")
  case (Inl e)
  then show ?thesis by (simp add: save_applied_rules_def Let_def)
next
  case (Inr hashes)
  let ?ds = "dedup_desired ds" and ?k = "desired_key env bid" and ?K = "desired_key env bid ` set (dedup_desired ds)"
  have bind: "get_binding db bid \<noteq> None" and appl: "\<forall>d \<in> set ?ds. applicable env db d"
    and hashes: "hashes = map (\<lambda>d. (ds_rule_id d, compute_mapping_hash env (ds_mapping d))) ?ds"
    using Inr by (auto simp: result_simps require_binding_def validate_desired_Inr split: if_splits)
  let ?want = "\<lambda>row. dict_get hashes (ap_rule_id row) = ap_mapping_hash row"
  have "distinct (map ap_id (list_applied db bid))" "set (list_applied db bid) \<subseteq> set (ad_applied db)"
    using assms(2) by (auto simp: list_applied_wf [OF assms(2)] wf_applied_def distinct_map inj_on_def)
  from remove_undesired_effect [OF assms(2) this(2,1), of hashes user] obtain db1 where
    remove: "remove_undesired hashes user (list_applied db bid) db = (Inr (), db1)"
    and frame1: "ad_registry db1 = ad_registry db" "ad_tables db1 = ad_tables db"
    and kept: "ad_applied db1 = filter (\<lambda>row. row \<in> set (list_applied db bid) \<longrightarrow> ?want row) (ad_applied db)" by blast
  have wf1: "wf_applied env db1" using wf_remove_undesired [OF assms(2), of hashes user "list_applied db bid"] remove by simp
  have "get_binding db1 bid \<noteq> None" "\<forall>d \<in> set ?ds. applicable env db1 d"
    using bind appl applicable_cong [OF frame1(1)] frame1(2) by (simp_all add: get_binding_def)
  from apply_each_effect [OF assms(1) wf1 this dedup_keys, of user] obtain aps db2 where
    app: "apply_each env bid ?ds user db1 = (Inr aps, db2)" and frame2: "ad_registry db2 = ad_registry db1" "ad_tables db2 = ad_tables db1"
    and wf2: "wf_applied env db2"
    and rest: "filter (\<lambda>row. natural_key_of row \<notin> ?K) (ad_applied db2) = filter (\<lambda>row. natural_key_of row \<notin> ?K) (ad_applied db1)"
    and rows: "\<forall>d \<in> set ?ds. \<exists>row \<in> set (ad_applied db2). natural_key_of row = ?k d \<and> fields_of row = desired_fields env db1 bid d"
    by blast
  have want: "?want row \<longleftrightarrow> natural_key_of row \<in> ?K" if "row \<in> set (ad_applied db)" "ap_binding row = bid" for row
  proof -
    have keys: "distinct (map fst hashes)" using dedup_keys [of ds] by (simp add: hashes comp_def)
    have "ap_mapping_hash row = Some (compute_mapping_hash env (ap_mapping row))" using wf_clean [OF assms(2) that(1)] by (simp add: clean_row_def)
    then have "?want row \<longleftrightarrow> (ap_rule_id row, compute_mapping_hash env (ap_mapping row)) \<in> set hashes"
      using map_of_eq_Some_iff [OF keys] by simp
    also have "\<dots> \<longleftrightarrow> natural_key_of row \<in> ?K"
      using that(2) wf_clean [OF assms(2) that(1)]
      by (auto simp: hashes desired_key_def natural_key_of_def clean_row_def or_else_def)
    finally show ?thesis .
  qed
  have kept': "ad_applied db1 = filter (\<lambda>row. ap_binding row = bid \<longrightarrow> natural_key_of row \<in> ?K) (ad_applied db)"
    unfolding kept using want by (intro filter_cong) (auto simp: list_applied_wf [OF assms(2)])
  have keyed: "ap_binding row = bid" if "natural_key_of row \<in> ?K" for row
    using that by (auto simp: desired_key_def natural_key_of_def)
  have others: "filter (\<lambda>row. ap_binding row \<noteq> bid) (ad_applied db2) = filter (\<lambda>row. ap_binding row \<noteq> bid) (ad_applied db)"
  proof -
    have sub: "filter (\<lambda>row. ap_binding row \<noteq> bid) xs = filter (\<lambda>row. ap_binding row \<noteq> bid) (filter (\<lambda>row. natural_key_of row \<notin> ?K) xs)" for xs
      using keyed by (auto intro!: filter_cong)
    have "filter (\<lambda>row. ap_binding row \<noteq> bid) (ad_applied db2) = filter (\<lambda>row. ap_binding row \<noteq> bid) (ad_applied db1)"
      using sub [of "ad_applied db2"] sub [of "ad_applied db1"] rest by simp
    also have "\<dots> = filter (\<lambda>row. ap_binding row \<noteq> bid) (ad_applied db)"
      unfolding kept' filter_filter by (intro filter_cong) auto
    finally show ?thesis .
  qed
  have fields: "desired_fields env db1 bid d = desired_fields env db bid d" if "d \<in> set ?ds" for d
  proof (rule desired_fields_cong [OF frame1(1)])
    have "natural_key_of row \<in> ?K" if "natural_key_of row = ?k d" for row using that \<open>d \<in> set ?ds\<close> by simp
    then show "?k d \<in> natural_key_of ` set (ad_applied db1) \<longleftrightarrow> ?k d \<in> natural_key_of ` set (ad_applied db)"
      unfolding kept' by (auto simp: image_iff)
  qed
  have keys2: "natural_key_of row \<in> ?K" if "row \<in> set (ad_applied db2)" "ap_binding row = bid" for row
    using that same_members [OF rest, of row] by (cases "natural_key_of row \<in> ?K") (auto simp: kept')
  have "fields_of ` set (list_applied db2 bid) = desired_fields env db bid ` set ?ds"
  proof
    have inj: "inj_on natural_key_of (set (ad_applied db2))" using wf2 by (simp add: wf_applied_def distinct_map)
    show "fields_of ` set (list_applied db2 bid) \<subseteq> desired_fields env db bid ` set ?ds"
    proof
      fix f assume "f \<in> fields_of ` set (list_applied db2 bid)"
      then obtain row where row: "row \<in> set (ad_applied db2)" "ap_binding row = bid" "f = fields_of row"
        by (auto simp: list_applied_wf [OF wf2])
      then obtain d where d: "d \<in> set ?ds" "natural_key_of row = ?k d" using keys2 by blast
      from bspec [OF rows d(1)] obtain row' where row': "row' \<in> set (ad_applied db2)" "natural_key_of row' = ?k d"
        "fields_of row' = desired_fields env db1 bid d" by blast
      have "row' = row" using inj_onD [OF inj _ row'(1) row(1)] row'(2) d(2) by simp
      then show "f \<in> desired_fields env db bid ` set ?ds" using row(3) row'(3) fields [OF d(1)] d(1) by simp
    qed
    show "desired_fields env db bid ` set ?ds \<subseteq> fields_of ` set (list_applied db2 bid)"
    proof
      fix f assume "f \<in> desired_fields env db bid ` set ?ds"
      then obtain d where d: "d \<in> set ?ds" "f = desired_fields env db bid d" by blast
      from bspec [OF rows d(1)] obtain row where row: "row \<in> set (ad_applied db2)" "natural_key_of row = ?k d"
        "fields_of row = desired_fields env db1 bid d" by blast
      then have "ap_binding row = bid" using keyed d(1) by blast
      then have "row \<in> set (list_applied db2 bid)" using row(1) by (simp add: list_applied_wf [OF wf2])
      moreover have "f = fields_of row" using d(2) row(3) fields [OF d(1)] by simp
      ultimately show "f \<in> fields_of ` set (list_applied db2 bid)" by blast
    qed
  qed
  moreover have "save_applied_rules env bid ds user now db = (Inr aps, touch_binding bid user now db2)"
    using Inr remove app by (simp add: save_applied_rules_def Let_def)
  moreover have "wf_applied env (touch_binding bid user now db2)"
    using wf_cong [OF wf2] by (simp add: touch_binding_def update_table_def)
  moreover have "list_applied (touch_binding bid user now db2) bid = list_applied db2 bid"
    "ad_applied (touch_binding bid user now db2) = ad_applied db2" "ad_registry (touch_binding bid user now db2) = ad_registry db2"
    "ad_tables (touch_binding bid user now db2) = map (\<lambda>t. if mt_id t = bid then stored_edit now user t else t) (ad_tables db2)"
    by (simp_all add: touch_binding_def update_table_def list_applied_def)
  ultimately show ?thesis using Inr others frame1 frame2 by simp
qed

subsection \<open>Examples\<close>

definition example_hash :: "json \<Rightarrow> string" where
  "example_hash j = (case j of JList gs \<Rightarrow> concat (map (\<lambda>g. case g of
       JList ps \<Rightarrow> concat (map (\<lambda>p. case p of JList [JStr k, JStr v] \<Rightarrow> k @ ''='' @ v @ '';'' | _ \<Rightarrow> []) ps) @ ''/''
     | _ \<Rightarrow> []) gs) | _ \<Rightarrow> ''f'')"

definition example_app_env :: app_env where
  "example_app_env = \<lparr>ae_mat = example_mat_env\<lparr>me_registry := example_env\<lparr>rg_digest := example_hash\<rparr>\<rparr>,
     ae_default_auto_upgrade = False, ae_new_id = (\<lambda>i. replicate (Suc i) CHR ''x''), ae_display_name = (\<lambda>_. None),
     ae_order = (\<lambda>rows. rows), ae_suppressions_ok = True, ae_history_ok = (\<lambda>_. True)\<rparr>"

definition example_tagged_input :: rule_input where
  "example_tagged_input = profiling_input \<lparr>df_body = [(''function'', JStr ''is_not_null''),
       (''arguments'', JDict [(''column'', JStr ''{{column}}'')])],
     df_slots = [example_slot ''column''], df_parameters = [], df_error_message = None, df_filter = None\<rparr>
     [(''slot_tags'', JDict [(''column'', JList [JStr ''pii''])])] ''ann''"

definition example_tagged_db :: registry_db where
  "example_tagged_db = fold (apply_op (ae_registry example_app_env))
     [OpCreate ''r'' example_tagged_input, OpSubmit ''r'' ''ann'' None, OpApprove ''r'' ''bob'' None] empty_registry"

definition example_app_db :: app_db where
  "example_app_db = \<lparr>ad_registry = example_tagged_db, ad_tables = [], ad_applied = [], ad_rows = [], ad_history = [],
     ad_suppressed = [], ad_versions = [], ad_drawn = 0\<rparr>"

text \<open>A table is registered: its binding is \<open>x\<close>.\<close>

definition example_bound_db :: app_db where
  "example_bound_db = snd (register example_app_env ''c.s.t'' ''ann'' None None 1 example_app_db)"

definition example_desired :: "string \<Rightarrow> string option \<Rightarrow> desired_rule" where
  "example_desired col sev = \<lparr>ds_rule_id = ''r'', ds_mapping = [[(''column'', col)]], ds_pinned = None, ds_severity = sev,
     ds_row_filter = Some '' k > 0 '', ds_pass_threshold = Some 120, ds_tags = []\<rparr>"

lemma example_ids: "inj (ae_new_id example_app_env)"
  by (auto simp: example_app_env_def inj_def dest: arg_cong [where f = length])

lemma example_bound_wf: "wf_applied example_app_env example_bound_db"
  by (simp add: wf_applied_def example_bound_db_def register_def insert_table_def draw_id_def example_app_db_def Let_def
      split: option.split)

text \<open>C14: A batch save reconciles its monitored table: the applications of the table are those the
  deduplicated desired set asks for, one for each entry, with its mapping, severity, cleaned filter,
  clamped threshold and tags; the default pin is chosen only where the mapping was not applied before.
  The applications of every other table stay.\<close>

theorem save_reconciles:
  assumes "inj (ae_new_id env)" "wf_applied env db" "save_applied_rules env bid ds user now db = (Inr aps, db')"
  shows "fields_of ` set (list_applied db' bid) = desired_fields env db bid ` set (dedup_desired ds)
    \<and> length (list_applied db' bid) = length (dedup_desired ds)
    \<and> filter (\<lambda>ap. ap_binding ap \<noteq> bid) (ad_applied db') = filter (\<lambda>ap. ap_binding ap \<noteq> bid) (ad_applied db)"
proof -
  from save_run [OF assms(1,2), of bid ds user now] assms(3) have wf: "wf_applied env db'"
    and same: "filter (\<lambda>ap. ap_binding ap \<noteq> bid) (ad_applied db') = filter (\<lambda>ap. ap_binding ap \<noteq> bid) (ad_applied db)"
    and fields: "fields_of ` set (list_applied db' bid) = desired_fields env db bid ` set (dedup_desired ds)"
    by (auto split: sum.splits)
  have keys: "inj_on natural_key_of (set (ad_applied db'))" and dist: "distinct (ad_applied db')"
    using wf by (auto simp: wf_applied_def distinct_map)
  have "inj_on fields_of (set (list_applied db' bid))"
    by (rule inj_onI, rule inj_onD [OF keys]) (auto simp: list_applied_wf [OF wf] fields_of_def natural_key_of_def)
  moreover have "inj_on (desired_fields env db bid) (set (dedup_desired ds))"
    using dedup_keys [of ds] by (auto simp: desired_fields_def distinct_map inj_on_def)
  moreover have "distinct (list_applied db' bid)" "distinct (dedup_desired ds)"
    using dist dedup_keys [of ds] by (auto simp: list_applied_wf [OF wf] distinct_map)
  ultimately have "length (list_applied db' bid) = length (dedup_desired ds)"
    using arg_cong [OF fields, of card] by (simp add: card_image distinct_card)
  then show ?thesis using fields same by blast
qed

lemma save_reconciles_witness:
  "fields_of ` set (list_applied (snd (save_applied_rules example_app_env ''x''
       [example_desired ''k'' None, example_desired ''l'' (Some ''Low'')] ''ann'' 2 example_bound_db)) ''x'')
     = {(''r'', Some ''column=l;/'', Some 1, Some ''Low'', Some ''k > 0'', Some 100, [])}"
proof -
  let ?ds = "[example_desired ''k'' None, example_desired ''l'' (Some ''Low'')]"
  let ?run = "save_applied_rules example_app_env ''x'' ?ds ''ann'' 2 example_bound_db"
  have "\<not> isl (fst ?run)" by code_simp
  then obtain aps db' where run: "?run = (Inr aps, db')" by (cases ?run; cases "fst ?run") auto
  have "map (desired_fields example_app_env example_bound_db ''x'') (dedup_desired ?ds)
      = [(''r'', Some ''column=l;/'', Some 1, Some ''Low'', Some ''k > 0'', Some 100, [])]" by code_simp
  then have "desired_fields example_app_env example_bound_db ''x'' ` set (dedup_desired ?ds)
      = {(''r'', Some ''column=l;/'', Some 1, Some ''Low'', Some ''k > 0'', Some 100, [])}" unfolding set_map [symmetric] by simp
  then show ?thesis using save_reconciles [OF example_ids example_bound_wf run] run by simp
qed

text \<open>C15: A batch save is all or nothing: it fails exactly when the table is not monitored or an entry is
  not applicable (its rule is missing or unpublished, a mapping group does not cover the slots, its
  filter is too long or unsafe), and then the state is unchanged; removals and upserts never fail.\<close>

theorem save_is_atomic:
  assumes "inj (ae_new_id env)" "wf_applied env db"
  shows "(isl (fst (save_applied_rules env bid ds user now db))
      \<longleftrightarrow> get_binding db bid = None \<or> (\<exists>d \<in> set (dedup_desired ds). \<not> applicable env db d))
    \<and> (isl (fst (save_applied_rules env bid ds user now db)) \<longrightarrow> snd (save_applied_rules env bid ds user now db) = db)"
proof -
  let ?v = "sbind (require_binding db bid) (\<lambda>_. validate_desired env db (dedup_desired ds))"
  have "isl ?v \<longleftrightarrow> get_binding db bid = None \<or> (\<exists>d \<in> set (dedup_desired ds). \<not> applicable env db d)"
    using validate_desired_Inr [of env db "dedup_desired ds"]
    by (cases "validate_desired env db (dedup_desired ds)") (auto simp: require_binding_def)
  then show ?thesis using save_run [OF assms, of bid ds user now] by (cases ?v) auto
qed

lemma save_is_atomic_witness:
  "snd (save_applied_rules example_app_env ''x'' [example_desired ''k'' None, (example_desired ''k'' None)\<lparr>ds_rule_id := ''gone''\<rparr>]
     ''ann'' 2 example_bound_db) = example_bound_db"
proof -
  let ?ds = "[example_desired ''k'' None, (example_desired ''k'' None)\<lparr>ds_rule_id := ''gone''\<rparr>]"
  have "isl (fst (save_applied_rules example_app_env ''x'' ?ds ''ann'' 2 example_bound_db))" by code_simp
  then show ?thesis using save_is_atomic [OF example_ids example_bound_wf, of "''x''" ?ds "''ann''" 2] by metis
qed

text \<open>The hash of a mapping ignores the order in which its groups, and the slots within a group, were
  listed, and nothing else: unless the digests of the two normalized texts collide, two mappings have
  the same hash exactly when they are the same multiset of groups.\<close>

theorem mapping_hash_canonical:
  assumes "inj_on (rg_digest (ae_registry env)) {mapping_json (normalized_mapping gs), mapping_json (normalized_mapping gs')}"
  shows "compute_mapping_hash env gs = compute_mapping_hash env gs'
    \<longleftrightarrow> image_mset mset (mset gs) = image_mset mset (mset gs')"
proof -
  have sort_eq: "sort xs = sort ys \<longleftrightarrow> mset xs = mset ys" for xs ys :: "'a::linorder list"
    by (metis mset_sort properties_for_sort sorted_sort)
  have "inj mapping_json"
  proof (rule injI)
    fix gs gs' assume eq: "mapping_json gs = mapping_json gs'"
    let ?pair = "\<lambda>(k, v). JList [JStr k, JStr v]"
    have inj1: "inj ?pair" by (auto simp: inj_def)
    have inj2: "inj (\<lambda>g. JList (map ?pair g))" using inj_mapI [OF inj1] by (auto simp: inj_def)
    show "gs = gs'" using eq inj_mapI [OF inj2] by (simp add: mapping_json_def inj_eq)
  qed
  then have "compute_mapping_hash env gs = compute_mapping_hash env gs' \<longleftrightarrow> normalized_mapping gs = normalized_mapping gs'"
    unfolding compute_mapping_hash_def using inj_on_eq_iff [OF assms] inj_eq by (metis insertCI)
  also have "\<dots> \<longleftrightarrow> image_mset sort (mset gs) = image_mset sort (mset gs')"
    by (simp add: normalized_mapping_def sort_eq)
  also have "\<dots> \<longleftrightarrow> image_mset mset (mset gs) = image_mset mset (mset gs')"
  proof
    assume "image_mset sort (mset gs) = image_mset sort (mset gs')"
    then have "image_mset mset (image_mset sort (mset gs)) = image_mset mset (image_mset sort (mset gs'))" by simp
    then show "image_mset mset (mset gs) = image_mset mset (mset gs')" by (simp add: multiset.map_comp comp_def)
  next
    assume "image_mset mset (mset gs) = image_mset mset (mset gs')"
    then have "image_mset sorted_list_of_multiset (image_mset mset (mset gs))
        = image_mset sorted_list_of_multiset (image_mset mset (mset gs'))" by simp
    then show "image_mset sort (mset gs) = image_mset sort (mset gs')"
      by (simp add: multiset.map_comp comp_def sorted_list_of_multiset_mset)
  qed
  finally show ?thesis .
qed

lemma mapping_hash_canonical_witness:
  "compute_mapping_hash example_app_env [[(''a'', ''k''), (''b'', ''l'')], [(''a'', ''m'')]]
     = compute_mapping_hash example_app_env [[(''a'', ''m'')], [(''b'', ''l''), (''a'', ''k'')]]"
proof -
  let ?gs = "[[(''a'', ''k''), (''b'', ''l'')], [(''a'', ''m'')]]" and ?gs' = "[[(''a'', ''m'')], [(''b'', ''l''), (''a'', ''k'')]]"
  have same: "normalized_mapping ?gs = normalized_mapping ?gs'" by code_simp
  have "inj_on (rg_digest (ae_registry example_app_env)) {mapping_json (normalized_mapping ?gs), mapping_json (normalized_mapping ?gs')}"
    unfolding same by simp
  from mapping_hash_canonical [OF this] show ?thesis by (simp add: add_mset_commute)
qed

subsection \<open>Attachments\<close>

definition suppressed :: "app_db \<Rightarrow> natural_key set" where
  "suppressed db = set (map fst (ad_suppressed db))"

text \<open>An attachment leaves the rows there are, and never adds a suppressed mapping.\<close>

lemma attach_cases:
  obtains (same) "snd (attach_auto_mapping env bid rid gs user db) = db"
  | (added) ap where "snd (attach_auto_mapping env bid rid gs user db) = insert_application ap (db\<lparr>ad_drawn := Suc (ad_drawn db)\<rparr>)"
      "fst (attach_auto_mapping env bid rid gs user db) = Inr (Some ap)" "is_tag_auto (stored_application ap)" "ap_binding ap = bid"
      "natural_key_of ap = (bid, rid, compute_mapping_hash env gs)"
      "get_by_natural_key db bid rid (compute_mapping_hash env gs) = None"
      "ae_suppressions_ok env \<Longrightarrow> natural_key_of ap \<notin> suppressed db"
proof (cases "validate_applicable_rule env db bid rid gs")
  case (Inl e)
  then show thesis by (intro same) (simp add: attach_auto_mapping_def)
next
  case (Inr r)
  let ?h = "compute_mapping_hash env gs"
  let ?ap = "application_of env (ae_new_id env (ad_drawn db)) bid r \<lparr>ds_rule_id = rid, ds_mapping = gs, ds_pinned = None,
    ds_severity = None, ds_row_filter = None, ds_pass_threshold = None, ds_tags = []\<rparr> (Some origin_tag_auto) user"
  show thesis
  proof (cases "is_suppressed env db (bid, rid, ?h) \<or> get_by_natural_key db bid rid ?h \<noteq> None")
    case True
    then show thesis using Inr by (intro same) (auto simp: attach_auto_mapping_def Let_def)
  next
    case False
    then show thesis using Inr
      by (intro added [of ?ap])
        (simp_all add: attach_auto_mapping_def Let_def draw_id_def is_tag_auto_def origin_tag_auto_def or_else_def
          is_suppressed_def dict_has_def suppressed_def split: if_splits)
  qed
qed

lemma attach_adds:
  assumes "wf_applied env db"
  shows "\<exists>new. ad_applied (snd (attach_auto_mapping env bid rid gs user db)) = ad_applied db @ new
    \<and> (\<forall>ap \<in> set new. is_tag_auto ap \<and> natural_key_of ap = (bid, rid, compute_mapping_hash env gs)
        \<and> natural_key_of ap \<notin> natural_key_of ` set (ad_applied db)
        \<and> (ae_suppressions_ok env \<longrightarrow> natural_key_of ap \<notin> suppressed db))"
proof (cases rule: attach_cases [of env bid rid gs user db])
  case (added ap)
  then have "natural_key_of ap \<notin> natural_key_of ` set (ad_applied db)"
    using by_natural_key_None [OF assms, of bid rid "compute_mapping_hash env gs"] by metis
  with added show ?thesis by (intro exI [where x = "[stored_application ap]"]) (simp add: insert_application_def)
qed simp

lemma attach_frame:
  "ad_registry (snd (attach_auto_mapping env bid rid gs user db)) = ad_registry db"
  "ad_tables (snd (attach_auto_mapping env bid rid gs user db)) = ad_tables db"
  "ad_suppressed (snd (attach_auto_mapping env bid rid gs user db)) = ad_suppressed db"
  "ad_rows (snd (attach_auto_mapping env bid rid gs user db)) = ad_rows db"
  by (auto simp: attach_auto_mapping_def Let_def draw_id_def insert_application_def split: sum.split option.split)

lemma remove_suppresses:
  "suppressed db \<subseteq> suppressed (snd (remove_applied aid user db))"
  by (auto simp: remove_applied_def Let_def record_suppression_def suppressed_def dict_keys_set simp del: set_map split: option.split)

end
