(* ===== verification/Tag_Reconcile.thy ===== *)
theory Tag_Reconcile
  imports Apply_Rules_Laws Py_Text
begin

section \<open>Apply on tag (\<open>backend/services/tag_mapping_service.py\<close>, \<open>tag_reconcile_service.py\<close>)\<close>

text \<open>
  The pure resolver that finds the columns a tagged rule can be mapped to, and the reconcile service
  that attaches the mappings it finds. The columns of a table are a parameter, \<open>None\<close> where reading
  them raises. Lists that the database orders by \<open>updated_at\<close> are cut at 2000 rows, as their query is.
\<close>

subsection \<open>The resolver\<close>

definition type_family :: "(string \<times> string) list" where
  "type_family = map (\<lambda>t. (t, ''numeric'')) [''TINYINT'', ''SMALLINT'', ''INT'', ''INTEGER'', ''BIGINT'', ''LONG'',
       ''FLOAT'', ''DOUBLE'', ''DECIMAL'']
     @ map (\<lambda>t. (t, ''text'')) [''STRING'', ''VARCHAR'', ''CHAR'']
     @ map (\<lambda>t. (t, ''temporal'')) [''DATE'', ''TIMESTAMP'', ''TIMESTAMP_NTZ''] @ [(''BOOLEAN'', ''boolean'')]"

definition family_for_type :: "string \<Rightarrow> string" where
  "family_for_type type_name =
     (let head = py_strip (hd (py_split CHR ''<'' (hd (py_split CHR ''('' (py_upper type_name)))))
      in dict_get_or type_family head ''any'')"

definition parse_tag :: "string \<Rightarrow> string \<times> string option" where
  "parse_tag tag = (if CHR ''='' \<in> set tag
     then (takeWhile (\<lambda>c. c \<noteq> CHR ''='') tag, Some (tl (dropWhile (\<lambda>c. c \<noteq> CHR ''='') tag))) else (tag, None))"

record column_info =
  ci_name :: string
  ci_type :: string
  ci_tags :: "string list"

definition tag_matches :: "string \<Rightarrow> string \<Rightarrow> bool" where
  "tag_matches want have_tag = (case (parse_tag want, parse_tag have_tag) of
     ((wk, wv), (hk, hv)) \<Rightarrow> hk = wk \<and> (wv = None \<or> wv = hv))"

definition column_matches :: "column_info \<Rightarrow> rule_slot \<Rightarrow> string list \<Rightarrow> bool" where
  "column_matches c slot tags =
     (if sl_family slot \<noteq> ''any'' \<and> family_for_type (ci_type c) \<noteq> sl_family slot then False
      else list_ex (\<lambda>want. list_ex (tag_matches want) (ci_tags c)) tags)"

text \<open>The columns each slot can take, or \<open>None\<close> when some slot can take none.\<close>

fun slot_candidates :: "(string \<times> string list) list \<Rightarrow> column_info list \<Rightarrow> rule_slot list \<Rightarrow> string list list option" where
  "slot_candidates slot_tags cols [] = Some []"
| "slot_candidates slot_tags cols (s # ss) =
     (let tags = dict_get_or slot_tags (sl_name s) []; found = map ci_name (filter (\<lambda>c. column_matches c s tags) cols)
      in if tags = [] \<or> found = [] then None else map_option (\<lambda>rest. found # rest) (slot_candidates slot_tags cols ss))"

definition group_of :: "rule_slot list \<Rightarrow> string list \<Rightarrow> mapping_group" where
  "group_of slots cols = foldl (\<lambda>g (s, c). dict_set g (sl_name s) c) [] (zip slots cols)"

definition resolve_tags ::
    "rule_slot list \<Rightarrow> (string \<times> string list) list \<Rightarrow> column_info list \<Rightarrow> bool \<Rightarrow> mapping_group list" where
  "resolve_tags slots slot_tags columns single =
     (if slots = [] then []
      else (let ordered = sort_key sl_position slots; cols = sort_key ci_name columns in
        case slot_candidates slot_tags cols ordered of
          None \<Rightarrow> []
        | Some per_slot \<Rightarrow> (let groups = map (group_of ordered) (filter distinct (product_lists per_slot))
                          in if single then take 1 groups else groups)))"

subsection \<open>The tags of a rule\<close>

definition text_of :: "json \<Rightarrow> string option" where
  "text_of j = (case j of JStr s \<Rightarrow> Some s | _ \<Rightarrow> None)"

definition get_slot_tags :: "json_dict \<Rightarrow> (string \<times> string list) list" where
  "get_slot_tags md = (case dict_get md ''slot_tags'' of
     Some (JDict raw) \<Rightarrow> concat (map (\<lambda>(name, v). case v of
       JList tags \<Rightarrow> [(name, filter (\<lambda>t. t \<noteq> []) (List.map_filter text_of tags))] | _ \<Rightarrow> []) raw)
   | _ \<Rightarrow> [])"

definition tag_mapped :: "registry_rule \<Rightarrow> (string \<times> string list) list option" where
  "tag_mapped r = (if rr_status r \<noteq> Approved \<or> get_slot_tags (rr_user_metadata r) = [] then None
     else Some (get_slot_tags (rr_user_metadata r)))"

definition list_limit :: nat where
  "list_limit = 2000"

definition list_approved_rules :: "app_env \<Rightarrow> app_db \<Rightarrow> registry_rule list" where
  "list_approved_rules env db = map row_to_rule (take list_limit
     (rg_order (ae_registry env) (filter (\<lambda>r. rr_status r = Approved) (db_rules (ad_registry db)))))"

definition tag_mapped_rules :: "app_env \<Rightarrow> app_db \<Rightarrow> (registry_rule \<times> (string \<times> string list) list) list" where
  "tag_mapped_rules env db =
     concat (map (\<lambda>r. case tag_mapped r of None \<Rightarrow> [] | Some tags \<Rightarrow> [(r, tags)]) (list_approved_rules env db))"

definition list_monitored_tables :: "app_db \<Rightarrow> monitored_table list" where
  "list_monitored_tables db = take list_limit (sort_key (\<lambda>t. - mt_updated_at t) (ad_tables db))"

subsection \<open>Reconciling\<close>

type_synonym column_reader = "string \<Rightarrow> column_info list option"

definition read_columns_safe :: "column_reader \<Rightarrow> string \<Rightarrow> column_info list" where
  "read_columns_safe cols fqn = (case cols fqn of None \<Rightarrow> [] | Some cs \<Rightarrow> cs)"

fun attach_groups ::
    "app_env \<Rightarrow> string \<Rightarrow> string \<Rightarrow> mapping_group list \<Rightarrow> string \<Rightarrow> app_db \<Rightarrow> (apply_error + nat) \<times> app_db" where
  "attach_groups env bid rid [] user db = (Inr 0, db)"
| "attach_groups env bid rid (g # gs) user db = (case attach_auto_mapping env bid rid [g] user db of
     (Inl e, db) \<Rightarrow> (Inl e, db)
   | (Inr _, db) \<Rightarrow> (case attach_groups env bid rid gs user db of
       (Inl e, db) \<Rightarrow> (Inl e, db) | (Inr n, db) \<Rightarrow> (Inr (Suc n), db)))"

text \<open>A unit of a rule and a table that raises counts nothing; what it attached stays.\<close>

definition attach_group_matches ::
    "app_env \<Rightarrow> registry_rule \<Rightarrow> (string \<times> string list) list \<Rightarrow> column_info list \<Rightarrow> string \<Rightarrow> string \<Rightarrow> app_db \<Rightarrow> nat \<times> app_db" where
  "attach_group_matches env r tags cols bid user db =
     (case attach_groups env bid (rr_id r) (resolve_tags (df_slots (rr_definition r)) tags cols False) user db of
        (Inl e, db) \<Rightarrow> (0, db) | (Inr n, db) \<Rightarrow> (n, db))"

fun attach_units ::
    "app_env \<Rightarrow> (string \<times> registry_rule \<times> (string \<times> string list) list \<times> column_info list) list \<Rightarrow> string \<Rightarrow> app_db \<Rightarrow> nat \<times> app_db" where
  "attach_units env [] user db = (0, db)"
| "attach_units env ((bid, r, tags, cols) # us) user db =
     (let (n, db) = attach_group_matches env r tags cols bid user db; (m, db) = attach_units env us user db in (n + m, db))"

definition reconcile_rule :: "app_env \<Rightarrow> bool \<Rightarrow> column_reader \<Rightarrow> string \<Rightarrow> string \<Rightarrow> app_db \<Rightarrow> nat \<times> app_db" where
  "reconcile_rule env enabled cols rid user db =
     (if \<not> enabled then (0, db)
      else (case get_rule (ae_registry env) (ad_registry db) rid of
        None \<Rightarrow> (0, db)
      | Some r \<Rightarrow> (case tag_mapped r of
          None \<Rightarrow> (0, db)
        | Some tags \<Rightarrow> attach_units env
            (map (\<lambda>t. (mt_id t, r, tags, read_columns_safe cols (mt_fqn t))) (list_monitored_tables db)) user db)))"

definition reconcile_table :: "app_env \<Rightarrow> bool \<Rightarrow> column_reader \<Rightarrow> string \<Rightarrow> string \<Rightarrow> string \<Rightarrow> app_db \<Rightarrow> nat \<times> app_db" where
  "reconcile_table env enabled cols bid fqn user db =
     (if \<not> enabled then (0, db)
      else attach_units env (map (\<lambda>(r, tags). (bid, r, tags, read_columns_safe cols fqn)) (tag_mapped_rules env db)) user db)"

definition sweep :: "app_env \<Rightarrow> bool \<Rightarrow> column_reader \<Rightarrow> string \<Rightarrow> app_db \<Rightarrow> nat \<times> app_db" where
  "sweep env enabled cols user db =
     (if \<not> enabled then (0, db)
      else attach_units env (concat (map (\<lambda>t. map (\<lambda>(r, tags). (mt_id t, r, tags, read_columns_safe cols (mt_fqn t)))
        (tag_mapped_rules env db)) (list_monitored_tables db))) user db)"

subsection \<open>The resolver finds every mapping\<close>

definition candidates :: "(string \<times> string list) list \<Rightarrow> column_info list \<Rightarrow> rule_slot \<Rightarrow> string list" where
  "candidates slot_tags cols s = map ci_name (filter (\<lambda>c. column_matches c s (dict_get_or slot_tags (sl_name s) [])) cols)"

lemma column_matches_tags: "column_matches c s tags \<Longrightarrow> tags \<noteq> []"
  by (auto simp: column_matches_def split: if_splits)

lemma candidates_tags: "candidates slot_tags cols s \<noteq> [] \<Longrightarrow> dict_get_or slot_tags (sl_name s) [] \<noteq> []"
  by (auto simp: candidates_def filter_empty_conv dest: column_matches_tags)

lemma slot_candidates_eq:
  "slot_candidates slot_tags cols ss
     = (if list_all (\<lambda>s. candidates slot_tags cols s \<noteq> []) ss then Some (map (candidates slot_tags cols) ss) else None)"
proof (induction ss)
  case (Cons s ss)
  have unfold: "slot_candidates slot_tags cols (s # ss)
      = (if dict_get_or slot_tags (sl_name s) [] = [] \<or> candidates slot_tags cols s = [] then None
         else map_option (\<lambda>rest. candidates slot_tags cols s # rest) (slot_candidates slot_tags cols ss))"
    by (simp add: candidates_def Let_def)
  show ?case unfolding unfold Cons.IH using candidates_tags [of slot_tags cols s] by auto
qed simp

lemma group_of_zip:
  assumes "distinct (map sl_name slots)" "length cols = length slots"
  shows "group_of slots cols = zip (map sl_name slots) cols"
proof -
  have "foldl (\<lambda>g (s, c). dict_set g (sl_name s) c) g (zip slots cols) = g @ zip (map sl_name slots) cols"
    if "fst ` set g \<inter> sl_name ` set slots = {}" for g
    using that assms
  proof (induction slots cols arbitrary: g rule: list_induct2')
    case (4 s ss c cs)
    have new: "dict_set g (sl_name s) c = g @ [(sl_name s, c)]" using "4.prems"(1) by (induction g) auto
    have "fst ` set (g @ [(sl_name s, c)]) \<inter> sl_name ` set ss = {}" using "4.prems" by auto
    from "4.IH" [OF this] "4.prems" show ?case by (simp add: new)
  qed simp_all
  from this [of "[]"] show ?thesis by (simp add: group_of_def)
qed

lemma resolve_tags_eq:
  assumes "slots \<noteq> []"
  shows "set (resolve_tags slots slot_tags columns False)
    = group_of (sort_key sl_position slots) ` {xs. distinct xs
        \<and> list_all2 (\<lambda>x s. x \<in> set (candidates slot_tags columns s)) xs (sort_key sl_position slots)}"
proof -
  let ?o = "sort_key sl_position slots" and ?c = "sort_key ci_name columns"
  have same: "set (candidates slot_tags ?c s) = set (candidates slot_tags columns s)" for s
    by (auto simp: candidates_def)
  have none: "\<not> list_all2 (\<lambda>x s. x \<in> set (candidates slot_tags columns s)) xs ?o"
    if bad: "\<not> list_all (\<lambda>s. candidates slot_tags ?c s \<noteq> []) ?o" for xs
  proof
    assume "list_all2 (\<lambda>x s. x \<in> set (candidates slot_tags columns s)) xs ?o"
    then have "\<exists>x. x \<in> set (candidates slot_tags columns s)" if "s \<in> set ?o" for s
      using that by (metis in_set_conv_nth list_all2_conv_all_nth)
    moreover obtain s where "s \<in> set ?o" "candidates slot_tags ?c s = []" using bad by (auto simp: list_all_iff)
    ultimately show False using same [of s] by (metis empty_iff list.set(1))
  qed
  show ?thesis
  proof (cases "list_all (\<lambda>s. candidates slot_tags ?c s \<noteq> []) ?o")
    case True
    then show ?thesis using assms same
      by (auto simp: resolve_tags_def slot_candidates_eq Let_def product_lists_set list_all2_map2)
  next
    case False
    then show ?thesis using assms none [OF False] by (simp add: resolve_tags_def slot_candidates_eq)
  qed
qed

text \<open>C16: The resolver is sound and complete: for slots with distinct names, its groups are exactly the
  assignments that give every slot, in the order of position, a column that matches its family and
  carries one of its tags, with no column in two slots.\<close>

theorem resolve_exact:
  assumes "distinct (map sl_name slots)" "slots \<noteq> []"
  shows "g \<in> set (resolve_tags slots slot_tags columns False) \<longleftrightarrow>
    map fst g = map sl_name (sort_key sl_position slots) \<and> distinct (map snd g)
    \<and> (\<forall>s \<in> set slots. \<exists>c \<in> set columns. (sl_name s, ci_name c) \<in> set g \<and> column_matches c s (dict_get_or slot_tags (sl_name s) []))"
    (is "_ \<longleftrightarrow> ?right g")
proof -
  let ?o = "sort_key sl_position slots"
  let ?fits = "\<lambda>xs. list_all2 (\<lambda>x s. x \<in> set (candidates slot_tags columns s)) xs ?o"
  have names: "distinct (map sl_name ?o)"
    using assms(1) by (metis distinct_map distinct_sort set_sort)
  have zipped: "group_of ?o xs = zip (map sl_name ?o) xs" if "length xs = length ?o" for xs
    by (rule group_of_zip [OF names that])
  have fits: "?fits (map snd g) \<longleftrightarrow> (\<forall>s \<in> set slots. \<exists>c \<in> set columns. (sl_name s, ci_name c) \<in> set g
      \<and> column_matches c s (dict_get_or slot_tags (sl_name s) []))" if g: "map fst g = map sl_name ?o"
  proof -
    have len: "length g = length ?o" using arg_cong [OF g, of length] by simp
    have nth: "g ! i = (sl_name (?o ! i), snd (g ! i))" if "i < length ?o" for i
      using that len arg_cong [OF g, of "\<lambda>xs. xs ! i"] by (simp add: prod_eq_iff)
    have pair: "(sl_name (?o ! i), x) \<in> set g \<longleftrightarrow> x = snd (g ! i)" if i: "i < length ?o" for i x
    proof
      assume "(sl_name (?o ! i), x) \<in> set g"
      then obtain j where j: "j < length ?o" "g ! j = (sl_name (?o ! i), x)" by (auto simp: in_set_conv_nth len)
      then have "sl_name (?o ! j) = sl_name (?o ! i)" using nth [of j] by simp
      then have "j = i" using nth_eq_iff_index_eq [OF names, of j i] i j(1) by simp
      then show "x = snd (g ! i)" using j(2) by simp
    next
      assume "x = snd (g ! i)"
      then show "(sl_name (?o ! i), x) \<in> set g" using nth [OF i] nth_mem [of i g] i len by metis
    qed
    have "?fits (map snd g) \<longleftrightarrow> (\<forall>i < length ?o. snd (g ! i) \<in> set (candidates slot_tags columns (?o ! i)))"
      by (simp add: list_all2_conv_all_nth len)
    also have "\<dots> \<longleftrightarrow> (\<forall>i < length ?o. \<exists>c \<in> set columns. (sl_name (?o ! i), ci_name c) \<in> set g
        \<and> column_matches c (?o ! i) (dict_get_or slot_tags (sl_name (?o ! i)) []))"
      using pair by (intro all_cong) (auto simp: candidates_def image_iff)
    also have "\<dots> \<longleftrightarrow> (\<forall>s \<in> set ?o. \<exists>c \<in> set columns. (sl_name s, ci_name c) \<in> set g
        \<and> column_matches c s (dict_get_or slot_tags (sl_name s) []))"
      by (simp only: all_set_conv_all_nth)
    finally show ?thesis by simp
  qed
  show ?thesis
  proof
    assume "g \<in> set (resolve_tags slots slot_tags columns False)"
    then obtain xs where xs: "distinct xs" "?fits xs" "g = group_of ?o xs" unfolding resolve_tags_eq [OF assms(2)] by blast
    have len: "length xs = length ?o" using xs(2) by (rule list_all2_lengthD)
    then have g: "map fst g = map sl_name ?o" "map snd g = xs" using xs(3) zipped by simp_all
    then show "?right g" using xs(1,2) fits [OF g(1)] by simp
  next
    assume right: "?right g"
    then have g: "map fst g = map sl_name ?o" by blast
    have "length (map snd g) = length ?o" using arg_cong [OF g, of length] by simp
    then have "g = group_of ?o (map snd g)" using zipped [of "map snd g"] zip_map_fst_snd [of g] g by simp
    moreover have "?fits (map snd g)" "distinct (map snd g)" using right fits [OF g] by blast+
    ultimately show "g \<in> set (resolve_tags slots slot_tags columns False)" unfolding resolve_tags_eq [OF assms(2)] by blast
  qed
qed

lemma resolve_exact_witness:
  "[(''a'', ''k''), (''b'', ''l'')] \<in> set (resolve_tags [example_slot ''a'', example_slot ''b''] [(''a'', [''pii'']), (''b'', [''pii=x''])]
     [\<lparr>ci_name = ''l'', ci_type = ''INT'', ci_tags = [''pii=x'']\<rparr>, \<lparr>ci_name = ''k'', ci_type = ''STRING'', ci_tags = [''pii'']\<rparr>] False)"
proof -
  have "distinct (map sl_name [example_slot ''a'', example_slot ''b''])" "[example_slot ''a'', example_slot ''b''] \<noteq> []"
    by (simp_all add: example_slot_def)
  from resolve_exact [OF this] show ?thesis
    by (simp add: example_slot_def column_matches_def tag_matches_def parse_tag_def dict_get_or_def)
qed

subsection \<open>A sweep settles\<close>

text \<open>\<open>settled_from db db'\<close>: the same rules, tables and tombstones, with at least the applications.\<close>

definition settled_from :: "app_env \<Rightarrow> app_db \<Rightarrow> app_db \<Rightarrow> bool" where
  "settled_from env db db' \<longleftrightarrow> wf_applied env db' \<and> ad_registry db' = ad_registry db \<and> ad_tables db' = ad_tables db
     \<and> ad_suppressed db' = ad_suppressed db \<and> natural_key_of ` set (ad_applied db) \<subseteq> natural_key_of ` set (ad_applied db')"

lemma settled_from_refl: "wf_applied env db \<Longrightarrow> settled_from env db db"
  by (simp add: settled_from_def)

lemma settled_from_trans: "settled_from env db db' \<Longrightarrow> settled_from env db' db'' \<Longrightarrow> settled_from env db db''"
  by (auto simp: settled_from_def)

lemma attach_later:
  assumes "inj (ae_new_id env)" "wf_applied env db"
  shows "settled_from env db (snd (attach_auto_mapping env bid rid gs user db))"
proof -
  obtain new where "ad_applied (snd (attach_auto_mapping env bid rid gs user db)) = ad_applied db @ new"
    using attach_adds [OF assms(2), of bid rid gs user] by blast
  then show ?thesis using wf_attach [OF assms, of bid rid gs user] by (simp add: settled_from_def attach_frame image_Un)
qed

text \<open>An attachment repeated later does nothing, and gives an error exactly when it gave one.\<close>

lemma attach_again:
  assumes "inj (ae_new_id env)" "wf_applied env db" "settled_from env (snd (attach_auto_mapping env bid rid gs user db)) db'"
  shows "snd (attach_auto_mapping env bid rid gs user' db') = db'
    \<and> isl (fst (attach_auto_mapping env bid rid gs user' db')) = isl (fst (attach_auto_mapping env bid rid gs user db))"
proof -
  let ?h = "compute_mapping_hash env gs" and ?db = "snd (attach_auto_mapping env bid rid gs user db)"
  have same: "ad_registry db' = ad_registry db" "ad_tables db' = ad_tables db" "ad_suppressed db' = ad_suppressed db"
    and wf: "wf_applied env db'" and keys: "natural_key_of ` set (ad_applied ?db) \<subseteq> natural_key_of ` set (ad_applied db')"
    using assms(3) by (simp_all add: settled_from_def attach_frame)
  have valid: "validate_applicable_rule env db' bid rid gs = validate_applicable_rule env db bid rid gs"
    using same by (simp add: validate_applicable_rule_def require_binding_def published_rule_def get_binding_def)
  have sup: "is_suppressed env db' k = is_suppressed env db k" for k using same by (simp add: is_suppressed_def)
  show ?thesis
  proof (cases "validate_applicable_rule env db bid rid gs")
    case (Inl e)
    then show ?thesis using valid by (simp add: attach_auto_mapping_def)
  next
    case (Inr r)
    show ?thesis
    proof (cases "is_suppressed env db (bid, rid, ?h)")
      case True
      then show ?thesis using Inr valid sup by (simp add: attach_auto_mapping_def Let_def)
    next
      case False
      have "(bid, rid, ?h) \<in> natural_key_of ` set (ad_applied ?db)"
      proof (cases "get_by_natural_key db bid rid ?h")
        case None
        then show ?thesis using Inr False
          by (simp add: attach_auto_mapping_def Let_def draw_id_def insert_application_def)
      next
        case (Some old)
        then have "?db = db" using Inr False by (simp add: attach_auto_mapping_def Let_def)
        then show ?thesis using Some by_natural_key_None [OF assms(2), of bid rid ?h] by (metis option.distinct(1))
      qed
      then have "(bid, rid, ?h) \<in> natural_key_of ` set (ad_applied db')" using keys by blast
      then obtain old where old: "get_by_natural_key db' bid rid ?h = Some old"
        using by_natural_key_None [OF wf, of bid rid ?h] by (cases "get_by_natural_key db' bid rid ?h") blast+
      have "\<not> isl (fst (attach_auto_mapping env bid rid gs user db))" using Inr
        by (auto simp: attach_auto_mapping_def Let_def split: option.split prod.split)
      then show ?thesis using Inr valid sup False old by (simp add: attach_auto_mapping_def Let_def)
    qed
  qed
qed

lemma groups_settle:
  assumes "inj (ae_new_id env)" "wf_applied env db"
  shows "settled_from env db (snd (attach_groups env bid rid gs user db))
    \<and> (\<forall>db'. settled_from env (snd (attach_groups env bid rid gs user db)) db' \<longrightarrow>
        snd (attach_groups env bid rid gs user' db') = db'
        \<and> smap_err (\<lambda>_. ()) (fst (attach_groups env bid rid gs user' db')) = smap_err (\<lambda>_. ()) (fst (attach_groups env bid rid gs user db)))"
  using assms(2)
proof (induction gs arbitrary: db)
  case Nil
  then show ?case by (simp add: settled_from_refl)
next
  case (Cons g gs)
  obtain r db1 where one: "attach_auto_mapping env bid rid [g] user db = (r, db1)" by (cases "attach_auto_mapping env bid rid [g] user db")
  have l1: "settled_from env db db1" using attach_later [OF assms(1) Cons.prems, of bid rid "[g]" user] one by simp
  then have wf1: "wf_applied env db1" by (simp add: settled_from_def)
  obtain q db2 where rest: "attach_groups env bid rid gs user db1 = (q, db2)" by (cases "attach_groups env bid rid gs user db1")
  note ih = Cons.IH [OF wf1, unfolded rest snd_conv fst_conv]
  have again: "snd (attach_auto_mapping env bid rid [g] user' db') = db' \<and> isl (fst (attach_auto_mapping env bid rid [g] user' db')) = isl r"
    if "settled_from env db1 db'" for db'
    using attach_again [OF assms(1) Cons.prems, of bid rid "[g]" user db' user'] one that by simp
  show ?case
  proof (cases r)
    case (Inl e)
    have "snd (attach_groups env bid rid (g # gs) user' db') = db'
        \<and> smap_err (\<lambda>_. ()) (fst (attach_groups env bid rid (g # gs) user' db')) = Inl ()" if l: "settled_from env db1 db'" for db'
    proof -
      obtain e' where "attach_auto_mapping env bid rid [g] user' db' = (Inl e', db')"
        using again [OF l] Inl by (cases "attach_auto_mapping env bid rid [g] user' db'"; cases "fst (attach_auto_mapping env bid rid [g] user' db')") auto
      then show ?thesis by simp
    qed
    moreover have "attach_groups env bid rid (g # gs) user db = (Inl e, db1)" using Inl one by simp
    ultimately show ?thesis using l1 by (simp del: attach_groups.simps)
  next
    case (Inr a)
    have l2: "settled_from env db1 db2" using ih by blast
    have "snd (attach_groups env bid rid (g # gs) user' db') = db'
        \<and> smap_err (\<lambda>_. ()) (fst (attach_groups env bid rid (g # gs) user' db')) = map_sum id Suc (smap_err (\<lambda>_. ()) q)"
      if l: "settled_from env db2 db'" for db'
    proof -
      have "settled_from env db1 db'" using settled_from_trans [OF l2 l] .
      then obtain b where b: "attach_auto_mapping env bid rid [g] user' db' = (Inr b, db')"
        using again [of db'] Inr by (cases "attach_auto_mapping env bid rid [g] user' db'"; cases "fst (attach_auto_mapping env bid rid [g] user' db')") auto
      obtain q' where q': "attach_groups env bid rid gs user' db' = (q', db')" "smap_err (\<lambda>_. ()) q' = smap_err (\<lambda>_. ()) q"
        using ih l by (cases "attach_groups env bid rid gs user' db'") auto
      then show ?thesis using b by (cases q; cases q') auto
    qed
    moreover have "attach_groups env bid rid (g # gs) user db = (map_sum id Suc q, db2)" using Inr one rest by (cases q) simp_all
    moreover have "smap_err (\<lambda>_. ()) (map_sum id Suc q) = map_sum id Suc (smap_err (\<lambda>_. ()) q)"
      by (cases q) simp_all
    ultimately show ?thesis using settled_from_trans [OF l1 l2] by (simp del: attach_groups.simps)
  qed
qed

lemma matches_settle:
  assumes "inj (ae_new_id env)" "wf_applied env db"
  shows "settled_from env db (snd (attach_group_matches env r tags cols bid user db))
    \<and> (\<forall>db'. settled_from env (snd (attach_group_matches env r tags cols bid user db)) db' \<longrightarrow>
        attach_group_matches env r tags cols bid user' db' = (fst (attach_group_matches env r tags cols bid user db), db'))"
proof -
  let ?gs = "resolve_tags (df_slots (rr_definition r)) tags cols False"
  have "snd (attach_group_matches env r tags cols bid user db) = snd (attach_groups env bid (rr_id r) ?gs user db)" for user db
    by (auto simp: attach_group_matches_def split: sum.split prod.split)
  moreover have "fst (attach_group_matches env r tags cols bid user db)
      = (case smap_err (\<lambda>_. ()) (fst (attach_groups env bid (rr_id r) ?gs user db)) of Inl _ \<Rightarrow> 0 | Inr n \<Rightarrow> n)" for user db
    by (auto simp: attach_group_matches_def split: sum.split prod.split)
  ultimately show ?thesis using groups_settle [OF assms, of bid "rr_id r" ?gs user user'] by (simp add: prod_eq_iff)
qed

lemma units_settle:
  assumes "inj (ae_new_id env)" "wf_applied env db"
  shows "settled_from env db (snd (attach_units env us user db))
    \<and> (\<forall>db'. settled_from env (snd (attach_units env us user db)) db' \<longrightarrow>
        attach_units env us user' db' = (fst (attach_units env us user db), db'))"
  using assms(2)
proof (induction us arbitrary: db)
  case Nil
  then show ?case by (simp add: settled_from_refl)
next
  case (Cons u us)
  obtain bid r tags cols where u: "u = (bid, r, tags, cols)" by (cases u)
  obtain n db1 where one: "attach_group_matches env r tags cols bid user db = (n, db1)" by (cases "attach_group_matches env r tags cols bid user db")
  obtain m db2 where rest: "attach_units env us user db1 = (m, db2)" by (cases "attach_units env us user db1")
  note settled = matches_settle [OF assms(1) Cons.prems, of r tags cols bid user user', unfolded one snd_conv fst_conv]
  have "wf_applied env db1" using settled by (simp add: settled_from_def)
  note ih = Cons.IH [OF this, unfolded rest snd_conv fst_conv]
  have "attach_units env (u # us) user' db' = (n + m, db')" if "settled_from env db2 db'" for db'
  proof -
    have "settled_from env db1 db'" using settled_from_trans ih that by blast
    then have "attach_group_matches env r tags cols bid user' db' = (n, db')" using settled by blast
    moreover have "attach_units env us user' db' = (m, db')" using ih that by blast
    ultimately show ?thesis by (simp add: u)
  qed
  moreover have "settled_from env db db2" using settled ih settled_from_trans by blast
  ultimately show ?case using one rest by (simp add: u)
qed

lemma sweep_later:
  assumes "inj (ae_new_id env)" "wf_applied env db"
  shows "settled_from env db (snd (sweep env enabled cols user db))"
    "settled_from env db (snd (reconcile_table env enabled cols bid fqn user db))"
    "settled_from env db (snd (reconcile_rule env enabled cols rid user db))"
  using units_settle [OF assms] settled_from_refl [OF assms(2)]
  by (auto simp: sweep_def reconcile_table_def reconcile_rule_def split: option.split)

text \<open>C17: A sweep settles: run again on the tables, tags and columns as they are, whoever runs it, a sweep
  changes nothing, so hand-made and earlier applications keep their pins and severities. The count it
  returns is the same again, though it attached nothing.\<close>

theorem sweep_idempotent:
  assumes "inj (ae_new_id env)" "wf_applied env db"
  shows "sweep env enabled cols user' (snd (sweep env enabled cols user db)) = sweep env enabled cols user db"
proof (cases enabled)
  case True
  let ?units = "\<lambda>db. concat (map (\<lambda>t. map (\<lambda>(r, tags). (mt_id t, r, tags, read_columns_safe cols (mt_fqn t)))
    (tag_mapped_rules env db)) (list_monitored_tables db))"
  let ?db = "snd (sweep env enabled cols user db)"
  have later: "settled_from env db ?db" by (rule sweep_later [OF assms])
  then have "?units ?db = ?units db"
    by (simp add: settled_from_def tag_mapped_rules_def list_approved_rules_def list_monitored_tables_def)
  moreover have "settled_from env ?db ?db" using later by (intro settled_from_refl) (simp add: settled_from_def)
  ultimately show ?thesis using units_settle [OF assms, of "?units db" user user'] True
    by (simp add: sweep_def prod_eq_iff)
qed (simp add: sweep_def)

text \<open>A second sweep counts the mapping it finds again.\<close>

definition example_columns :: column_reader where
  "example_columns fqn = Some [\<lparr>ci_name = ''k'', ci_type = ''STRING'', ci_tags = [''pii'']\<rparr>]"

lemma sweep_idempotent_witness:
  "sweep example_app_env True example_columns ''eve'' (snd (sweep example_app_env True example_columns ''ann'' example_bound_db))
     = sweep example_app_env True example_columns ''ann'' example_bound_db
   \<and> fst (sweep example_app_env True example_columns ''ann'' example_bound_db) = 1"
  using sweep_idempotent [OF example_ids example_bound_wf] by (rule conjI) code_simp

end
