(* ===== verification/Rules_Catalog.thy ===== *)
theory Rules_Catalog
  imports Monitored_Table DQ_Rule
begin

section \<open>The rules catalog (\<open>backend/services/rules_catalog_service.py\<close>)\<close>

text \<open>
  The service over \<open>dq_resolved_rules\<close>, the checks the runner reads: authoring, duplicates, the review
  transitions and their audit trail. An operation that raises leaves what it has written. The order of
  the rows a query returns is a parameter; the text of a number and of canonical JSON are parameters
  too. The fingerprint column and the timestamps are left out.
\<close>

subsection \<open>Checks\<close>

record catalog_env =
  ce_dumps :: "json \<Rightarrow> string"
  ce_number :: "json \<Rightarrow> string"

datatype catalog_error =
    InvalidSource string
  | InvalidTable string
  | UnsafeCheck
  | AllDuplicates
  | MalformedCheck
  | CheckNotFound string
  | NoCheckGiven
  | InvalidStatus string
  | IllegalTransition check_status check_status
  | DuplicateLive string check_status
  | VersionConflict nat nat
  | StatusLost

definition dict_of_json :: "json \<Rightarrow> json_dict option" where
  "dict_of_json j = (case j of JDict d \<Rightarrow> Some d | _ \<Rightarrow> None)"

text \<open>A numeric top-level weight becomes a label.\<close>

definition text_labels :: "json option \<Rightarrow> json_dict" where
  "text_labels md = (case md of Some (JDict d) \<Rightarrow> filter (\<lambda>(k, v). case v of JStr _ \<Rightarrow> True | _ \<Rightarrow> False) d | _ \<Rightarrow> [])"

definition is_number :: "json \<Rightarrow> bool" where
  "is_number v = (case v of JInt _ \<Rightarrow> True | JFloat _ \<Rightarrow> True | JBool _ \<Rightarrow> True | _ \<Rightarrow> False)"

definition normalize_weight :: "catalog_env \<Rightarrow> json_dict \<Rightarrow> json_dict" where
  "normalize_weight ce raw = (case dict_get raw ''weight'' of
     None \<Rightarrow> raw
   | Some w \<Rightarrow>
       (let check = dict_pop raw ''weight'' in
        if \<not> is_number w then check
        else (let md = text_labels (dict_get check ''user_metadata'');
                  md = (if dict_has md ''weight'' then md else dict_set md ''weight'' (JStr (ce_number ce w)))
              in dict_set check ''user_metadata'' (JDict md))))"

definition or_empty_dict :: "json option \<Rightarrow> json" where
  "or_empty_dict j = (case j of None \<Rightarrow> JDict [] | Some v \<Rightarrow> if truthy v then v else JDict [])"

text \<open>Only a text is scanned; a query that is not a text makes the scan raise.\<close>

definition validate_sql_check :: "json_dict \<Rightarrow> catalog_error + unit" where
  "validate_sql_check check = (case or_empty_dict (dict_get check ''check'') of
     JDict inner \<Rightarrow>
       if dict_get inner ''function'' \<noteq> Some (JStr ''sql_query'') then Inr ()
       else (case or_empty_dict (dict_get inner ''arguments'') of
         JDict args \<Rightarrow>
           (let query = dict_get_or args ''query'' (JStr []) in
            if \<not> truthy query then Inr ()
            else (case query of JStr q \<Rightarrow> if is_sql_query_safe q then Inr () else Inl UnsafeCheck | _ \<Rightarrow> Inl MalformedCheck))
       | _ \<Rightarrow> Inl MalformedCheck)
   | _ \<Rightarrow> Inl MalformedCheck)"

fun validate_sql_checks :: "json_dict list \<Rightarrow> catalog_error + unit" where
  "validate_sql_checks [] = Inr ()"
| "validate_sql_checks (c # cs) = sbind (validate_sql_check c) (\<lambda>_. validate_sql_checks cs)"

definition identity_args :: "string list" where
  "identity_args = [''column'', ''columns'', ''col_name'', ''expression'', ''msg'', ''query'', ''allowed'', ''forbidden'',
     ''limit'', ''min_limit'', ''max_limit'', ''regex'', ''date_format'', ''timestamp_format'']"

definition check_signature :: "catalog_env \<Rightarrow> json_dict \<Rightarrow> catalog_error + string" where
  "check_signature ce check = (case dict_get_or check ''check'' (JDict check) of
     JDict inner \<Rightarrow> (case dict_get_or inner ''arguments'' (JDict []) of
       JDict args \<Rightarrow> Inr (py_lower (ce_dumps ce (sort_json (JDict
         [(''function'', dict_get_or inner ''function'' (JStr [])),
          (''arguments'', JDict (filter (\<lambda>(k, v). k \<in> set identity_args) args))]))))
     | _ \<Rightarrow> Inl MalformedCheck)
   | _ \<Rightarrow> Inl MalformedCheck)"

subsection \<open>Rows\<close>

fun check_status_value :: "check_status \<Rightarrow> string" where
  "check_status_value CheckDraft = ''draft''"
| "check_status_value CheckPending = ''pending_approval''"
| "check_status_value CheckApproved = ''approved''"
| "check_status_value CheckRejected = ''rejected''"

definition check_status_of :: "string \<Rightarrow> check_status option" where
  "check_status_of s = map_of [(''draft'', CheckDraft), (''pending_approval'', CheckPending),
     (''approved'', CheckApproved), (''rejected'', CheckRejected)] s"

fun check_transitions :: "check_status \<Rightarrow> check_status list" where
  "check_transitions CheckDraft = [CheckPending]"
| "check_transitions CheckPending = [CheckApproved, CheckRejected, CheckDraft]"
| "check_transitions CheckApproved = [CheckDraft]"
| "check_transitions CheckRejected = [CheckDraft]"

definition rule_sources :: "string list" where
  "rule_sources = [''ui'', ''sql'', ''profiler'', ''import'', ''ai'', ''registry'']"

text \<open>\<open>_row_to_entry\<close>: a row without a readable object has no check.\<close>

definition entry_check :: "resolved_row \<Rightarrow> json_dict option" where
  "entry_check row = Option.bind (rw_check row) dict_of_json"

definition entry_version :: "resolved_row \<Rightarrow> nat" where
  "entry_version row = (if rw_version row = 0 then 1 else rw_version row)"

definition entry_source :: "resolved_row \<Rightarrow> string" where
  "entry_source row = (if rw_source row = [] then ''ui'' else rw_source row)"

definition row_by_id :: "app_db \<Rightarrow> string \<Rightarrow> resolved_row option" where
  "row_by_id db i = find (\<lambda>row. rw_id row = i) (ad_rows db)"

definition rows_for_table :: "app_env \<Rightarrow> app_db \<Rightarrow> string \<Rightarrow> check_status option \<Rightarrow> resolved_row list" where
  "rows_for_table env db fqn st =
     ae_order env (filter (\<lambda>row. rw_table row = fqn \<and> (case st of None \<Rightarrow> True | Some s \<Rightarrow> rw_status row = s)) (ad_rows db))"

definition list_catalog :: "app_env \<Rightarrow> app_db \<Rightarrow> check_status option \<Rightarrow> resolved_row list" where
  "list_catalog env db st =
     take 2000 (ae_order env (filter (\<lambda>row. case st of None \<Rightarrow> True | Some s \<Rightarrow> rw_status row = s) (ad_rows db)))"

definition entry_checks :: "resolved_row list \<Rightarrow> json_dict list" where
  "entry_checks rows = List.map_filter entry_check rows"

definition get_approved_checks_for_table :: "app_env \<Rightarrow> app_db \<Rightarrow> string \<Rightarrow> json_dict list" where
  "get_approved_checks_for_table env db fqn = entry_checks (rows_for_table env db fqn (Some CheckApproved))"

text \<open>\<open>get\<close>: the checks of a table merged, with the highest version and the rest of the first row.\<close>

definition get_merged :: "app_env \<Rightarrow> app_db \<Rightarrow> string \<Rightarrow> (json_dict list \<times> nat \<times> resolved_row) option" where
  "get_merged env db fqn =
     (let rows = rows_for_table env db fqn (Some CheckApproved);
          rows = (if rows = [] then rows_for_table env db fqn None else rows)
      in case rows of [] \<Rightarrow> None | row # _ \<Rightarrow> Some (entry_checks rows, Max (set (map entry_version rows)), row))"

definition record_catalog_history :: "app_env \<Rightarrow> catalog_history \<Rightarrow> app_db \<Rightarrow> app_db" where
  "record_catalog_history env h db = (if ae_history_ok env h then db\<lparr>ad_history := ad_history db @ [h]\<rparr> else db)"

subsection \<open>Duplicates\<close>

text \<open>The signatures of the checks that count as existing.\<close>

definition existing_signatures :: "catalog_env \<Rightarrow> app_env \<Rightarrow> app_db \<Rightarrow> string \<Rightarrow> string list \<Rightarrow> catalog_error + string list" where
  "existing_signatures ce env db fqn excluded =
     smapM (check_signature ce) (entry_checks (filter (\<lambda>row. \<not> (rw_id row \<noteq> [] \<and> rw_id row \<in> set excluded) \<and> rw_status row \<noteq> CheckRejected)
       (rows_for_table env db fqn None)))"

definition find_duplicates ::
    "catalog_env \<Rightarrow> app_env \<Rightarrow> app_db \<Rightarrow> string \<Rightarrow> json_dict list \<Rightarrow> string list \<Rightarrow> catalog_error + json_dict list" where
  "find_duplicates ce env db fqn checks excluded =
     sbind (existing_signatures ce env db fqn excluded) (\<lambda>existing.
     sbind (smapM (check_signature ce) checks) (\<lambda>sigs.
     Inr (map fst (filter (\<lambda>(c, sig). sig \<in> set existing) (zip checks sigs)))))"

definition live :: "resolved_row \<Rightarrow> bool" where
  "live row \<longleftrightarrow> rw_status row \<in> {CheckPending, CheckApproved}"

definition check_body :: "resolved_row \<Rightarrow> json" where
  "check_body row = sort_json (case entry_check row of None \<Rightarrow> JDict [] | Some c \<Rightarrow> dict_get_or c ''check'' (JDict []))"

definition check_no_duplicate_live :: "app_env \<Rightarrow> app_db \<Rightarrow> resolved_row \<Rightarrow> catalog_error + unit" where
  "check_no_duplicate_live env db row =
     (case find (\<lambda>sib. rw_id sib \<noteq> rw_id row \<and> live sib \<and> check_body sib = check_body row) (rows_for_table env db (rw_table row) None) of
        None \<Rightarrow> Inr () | Some sib \<Rightarrow> Inl (DuplicateLive (rw_id sib) (rw_status sib)))"

subsection \<open>Authoring\<close>

definition authored_row :: "string \<Rightarrow> string \<Rightarrow> json_dict \<Rightarrow> string \<Rightarrow> string \<Rightarrow> resolved_row" where
  "authored_row i fqn check source user = \<lparr>rw_id = i, rw_table = fqn, rw_check = Some (JDict check), rw_version = 1,
     rw_status = CheckDraft, rw_source = source, rw_rule_id = None, rw_registry_version = None, rw_applied_id = None,
     rw_created_by = Some user\<rparr>"

fun save_each :: "app_env \<Rightarrow> string \<Rightarrow> json_dict list \<Rightarrow> string \<Rightarrow> string \<Rightarrow> app_db \<Rightarrow> resolved_row list \<times> app_db" where
  "save_each env fqn [] source user db = ([], db)"
| "save_each env fqn (c # cs) source user db =
     (let (i, db) = draw_id env db;
          row = authored_row i fqn c source user;
          db = record_catalog_history env \<lparr>ch_rule_id = Some i, ch_table = fqn, ch_check = Some (JDict c), ch_version = 1,
            ch_source = source, ch_action = ''save'', ch_prev = None, ch_new = Some CheckDraft, ch_by = user\<rparr>
            (db\<lparr>ad_rows := ad_rows db @ [row]\<rparr>);
          (rows, db) = save_each env fqn cs source user db
      in (row # rows, db))"

definition save_checks ::
    "catalog_env \<Rightarrow> app_env \<Rightarrow> string \<Rightarrow> json_dict list \<Rightarrow> string \<Rightarrow> string \<Rightarrow> app_db
     \<Rightarrow> (catalog_error + resolved_row list) \<times> app_db" where
  "save_checks ce env fqn checks user source db =
     (if source \<notin> set rule_sources then (Inl (InvalidSource source), db)
      else if \<not> validate_fqn fqn then (Inl (InvalidTable fqn), db)
      else (let checks = map (normalize_weight ce) checks in
        case sbind (validate_sql_checks checks) (\<lambda>_.
             sbind (find_duplicates ce env db fqn checks []) (\<lambda>dups.
             sbind (smapM (check_signature ce) dups) (\<lambda>dup_sigs.
             sbind (smapM (check_signature ce) checks) (\<lambda>sigs.
             Inr (map fst (filter (\<lambda>(c, sig). sig \<notin> set dup_sigs) (zip checks sigs))))))) of
          Inl e \<Rightarrow> (Inl e, db)
        | Inr [] \<Rightarrow> (Inl AllDuplicates, db)
        | Inr fresh \<Rightarrow> (let (rows, db) = save_each env fqn fresh source user db in (Inr rows, db))))"

definition update_rows :: "(resolved_row \<Rightarrow> bool) \<Rightarrow> (resolved_row \<Rightarrow> resolved_row) \<Rightarrow> app_db \<Rightarrow> app_db" where
  "update_rows P f db = db\<lparr>ad_rows := map (\<lambda>row. if P row then f row else row) (ad_rows db)\<rparr>"

definition update_check ::
    "catalog_env \<Rightarrow> app_env \<Rightarrow> string \<Rightarrow> json_dict list \<Rightarrow> string \<Rightarrow> app_db \<Rightarrow> (catalog_error + resolved_row) \<times> app_db" where
  "update_check ce env i checks user db =
     (let checks = map (normalize_weight ce) checks in
      case validate_sql_checks checks of
        Inl e \<Rightarrow> (Inl e, db)
      | Inr _ \<Rightarrow> (case row_by_id db i of
          None \<Rightarrow> (Inl (CheckNotFound i), db)
        | Some row \<Rightarrow> (case checks of
            [] \<Rightarrow> (Inl NoCheckGiven, db)
          | c # _ \<Rightarrow>
              (let db = record_catalog_history env \<lparr>ch_rule_id = (if i = [] then None else Some i), ch_table = rw_table row,
                     ch_check = Some (JDict c), ch_version = entry_version row + 1, ch_source = entry_source row,
                     ch_action = ''update'', ch_prev = Some (rw_status row), ch_new = Some CheckDraft, ch_by = user\<rparr>
                     (update_rows (\<lambda>row. rw_id row = i)
                       (\<lambda>row. row\<lparr>rw_check := Some (JDict c), rw_version := rw_version row + 1, rw_status := CheckDraft\<rparr>) db)
               in (Inr (or_else (row_by_id db i) row), db)))))"

definition delete_check :: "app_env \<Rightarrow> string \<Rightarrow> string \<Rightarrow> app_db \<Rightarrow> app_db" where
  "delete_check env i user db =
     (let row = row_by_id db i;
          db = db\<lparr>ad_rows := filter (\<lambda>row. rw_id row \<noteq> i) (ad_rows db)\<rparr>
      in record_catalog_history env \<lparr>ch_rule_id = (if i = [] then None else Some i),
           ch_table = (case row of None \<Rightarrow> ''unknown'' | Some r \<Rightarrow> rw_table r),
           ch_check = map_option JDict (Option.bind row entry_check),
           ch_version = (case row of None \<Rightarrow> 0 | Some r \<Rightarrow> entry_version r),
           ch_source = (case row of None \<Rightarrow> ''ui'' | Some r \<Rightarrow> entry_source r), ch_action = ''delete'',
           ch_prev = map_option rw_status row, ch_new = None, ch_by = user\<rparr> db)"

definition delete_by_table :: "app_env \<Rightarrow> string \<Rightarrow> string \<Rightarrow> app_db \<Rightarrow> app_db" where
  "delete_by_table env fqn user db =
     record_catalog_history env \<lparr>ch_rule_id = None, ch_table = fqn, ch_check = None, ch_version = 0, ch_source = ''ui'',
       ch_action = ''delete_all'', ch_prev = None, ch_new = None, ch_by = user\<rparr>
     (db\<lparr>ad_rows := filter (\<lambda>row. rw_table row \<noteq> fqn) (ad_rows db)\<rparr>)"

subsection \<open>Review\<close>

definition set_check_status ::
    "app_env \<Rightarrow> string \<Rightarrow> string \<Rightarrow> string \<Rightarrow> nat option \<Rightarrow> app_db \<Rightarrow> (catalog_error + resolved_row) \<times> app_db" where
  "set_check_status env i status user expected db = (case check_status_of status of
     None \<Rightarrow> (Inl (InvalidStatus status), db)
   | Some st \<Rightarrow> (case row_by_id db i of
       None \<Rightarrow> (Inl (CheckNotFound i), db)
     | Some row \<Rightarrow>
         (if st \<notin> set (check_transitions (rw_status row)) then (Inl (IllegalTransition (rw_status row) st), db)
          else (case (if st = CheckPending then check_no_duplicate_live env db row else Inr ()) of
            Inl e \<Rightarrow> (Inl e, db)
          | Inr _ \<Rightarrow>
              (if expected \<noteq> None \<and> expected \<noteq> Some (entry_version row)
               then (Inl (VersionConflict (the expected) (entry_version row)), db)
               else (let db = update_rows (\<lambda>r. rw_id r = i \<and> rw_version r = entry_version row) (\<lambda>r. r\<lparr>rw_status := st\<rparr>) db;
                         db = record_catalog_history env \<lparr>ch_rule_id = (if i = [] then None else Some i), ch_table = rw_table row,
                           ch_check = map_option JDict (entry_check row), ch_version = entry_version row, ch_source = entry_source row,
                           ch_action = ''status:'' @ status, ch_prev = Some (rw_status row), ch_new = Some st, ch_by = user\<rparr> db
                     in (case row_by_id db i of
                       None \<Rightarrow> (Inl (CheckNotFound i), db)
                     | Some r \<Rightarrow> if rw_status r \<noteq> st then (Inl StatusLost, db) else (Inr r, db))))))))"

text \<open>Rows that fail are passed over.\<close>

fun set_status_each :: "app_env \<Rightarrow> resolved_row list \<Rightarrow> string \<Rightarrow> string \<Rightarrow> app_db \<Rightarrow> resolved_row list \<times> app_db" where
  "set_status_each env [] status user db = ([], db)"
| "set_status_each env (row # rows) status user db =
     (if check_status_of status \<in> Some ` set (check_transitions (rw_status row)) \<and> rw_id row \<noteq> []
      then (let (r, db) = set_check_status env (rw_id row) status user None db; (rest, db) = set_status_each env rows status user db
            in (case r of Inl e \<Rightarrow> rest | Inr u \<Rightarrow> u # rest, db))
      else set_status_each env rows status user db)"

definition set_status_by_table :: "app_env \<Rightarrow> string \<Rightarrow> string \<Rightarrow> string \<Rightarrow> app_db \<Rightarrow> resolved_row list \<times> app_db" where
  "set_status_by_table env fqn status user db = set_status_each env (rows_for_table env db fqn None) status user db"

end
