(* ===== verification/Rules_Catalog_Laws.thy ===== *)
theory Rules_Catalog_Laws
  imports Rules_Catalog Apply_Rules_Laws
begin

section \<open>Laws of the rules catalog\<close>

text \<open>
  The operations of the catalog as steps, and what holds of every sequence of them: a check is approved
  only from review and with the content that was reviewed, no two live checks of a table are the same,
  and the audit trail, replayed, is the catalog.
\<close>

subsection \<open>Steps\<close>

datatype catalog_op =
    SaveChecks string "json_dict list" string string
  | UpdateCheck string "json_dict list" string
  | DeleteCheck string string
  | DeleteByTable string string
  | SetStatus string string string "nat option"
  | SetStatusByTable string string string

fun catalog_exec :: "catalog_env \<Rightarrow> app_env \<Rightarrow> catalog_op \<Rightarrow> app_db \<Rightarrow> app_db" where
  "catalog_exec ce env (SaveChecks fqn checks user source) db = snd (save_checks ce env fqn checks user source db)"
| "catalog_exec ce env (UpdateCheck i checks user) db = snd (update_check ce env i checks user db)"
| "catalog_exec ce env (DeleteCheck i user) db = delete_check env i user db"
| "catalog_exec ce env (DeleteByTable fqn user) db = delete_by_table env fqn user db"
| "catalog_exec ce env (SetStatus i status user expected) db = snd (set_check_status env i status user expected db)"
| "catalog_exec ce env (SetStatusByTable fqn status user) db = snd (set_status_by_table env fqn status user db)"

inductive catalog_run :: "catalog_env \<Rightarrow> app_env \<Rightarrow> app_db \<Rightarrow> app_db \<Rightarrow> bool" for ce env db where
  catalog_start: "catalog_run ce env db db"
| catalog_next: "catalog_run ce env db db' \<Longrightarrow> catalog_run ce env db (catalog_exec ce env op db')"

text \<open>What the database and the identifiers promise: a query returns the rows it selects.\<close>

definition catalog_ok :: "app_env \<Rightarrow> bool" where
  "catalog_ok env \<longleftrightarrow> inj (ae_new_id env) \<and> (\<forall>i. ae_new_id env i \<noteq> [])
     \<and> (\<forall>rows. set (ae_order env rows) = set rows) \<and> (\<forall>h. ae_history_ok env h)"

definition wf_rows :: "app_env \<Rightarrow> app_db \<Rightarrow> bool" where
  "wf_rows env db \<longleftrightarrow> distinct (map rw_id (ad_rows db))
     \<and> (\<forall>row \<in> set (ad_rows db). rw_id row \<in> ae_new_id env ` {..<ad_drawn db} \<and> 0 < rw_version row \<and> entry_check row \<noteq> None)"

text \<open>The primitive writes the operations are made of.\<close>

inductive catalog_write :: "app_env \<Rightarrow> app_db \<Rightarrow> app_db \<Rightarrow> bool" for env db where
  write_save: "rw_status row = CheckDraft \<Longrightarrow> rw_id row = ae_new_id env (ad_drawn db) \<Longrightarrow> rw_version row = 1
    \<Longrightarrow> rw_check row = Some (JDict c) \<Longrightarrow> ch_rule_id h = Some (rw_id row) \<Longrightarrow> ch_table h = rw_table row
    \<Longrightarrow> ch_check h = rw_check row \<Longrightarrow> ch_version h = 1 \<Longrightarrow> ch_new h = Some CheckDraft
    \<Longrightarrow> catalog_write env db (db\<lparr>ad_drawn := Suc (ad_drawn db), ad_rows := ad_rows db @ [row], ad_history := ad_history db @ [h]\<rparr>)"
| write_update: "row \<in> set (ad_rows db) \<Longrightarrow> ch_rule_id h = Some (rw_id row) \<Longrightarrow> ch_table h = rw_table row
    \<Longrightarrow> ch_check h = Some (JDict c) \<Longrightarrow> ch_version h = Suc (rw_version row) \<Longrightarrow> ch_new h = Some CheckDraft
    \<Longrightarrow> catalog_write env db (db\<lparr>ad_rows := map (\<lambda>r. if rw_id r = rw_id row
          then r\<lparr>rw_check := Some (JDict c), rw_version := Suc (rw_version r), rw_status := CheckDraft\<rparr> else r) (ad_rows db),
        ad_history := ad_history db @ [h]\<rparr>)"
| write_delete: "ch_rule_id h = Some i \<Longrightarrow> ch_new h = None
    \<Longrightarrow> catalog_write env db (db\<lparr>ad_rows := filter (\<lambda>r. rw_id r \<noteq> i) (ad_rows db), ad_history := ad_history db @ [h]\<rparr>)"
| write_delete_table: "ch_rule_id h = None \<Longrightarrow> ch_action h = ''delete_all''
    \<Longrightarrow> catalog_write env db (db\<lparr>ad_rows := filter (\<lambda>r. rw_table r \<noteq> ch_table h) (ad_rows db), ad_history := ad_history db @ [h]\<rparr>)"
| write_log: "ch_rule_id h = None \<Longrightarrow> ch_action h \<noteq> ''delete_all''
    \<Longrightarrow> catalog_write env db (db\<lparr>ad_history := ad_history db @ [h]\<rparr>)"
| write_status: "row \<in> set (ad_rows db) \<Longrightarrow> st \<in> set (check_transitions (rw_status row))
    \<Longrightarrow> (st = CheckPending \<Longrightarrow> check_no_duplicate_live env db row = Inr ())
    \<Longrightarrow> ch_rule_id h = Some (rw_id row) \<Longrightarrow> ch_table h = rw_table row \<Longrightarrow> ch_check h = rw_check row
    \<Longrightarrow> ch_version h = rw_version row \<Longrightarrow> ch_prev h = Some (rw_status row) \<Longrightarrow> ch_new h = Some st
    \<Longrightarrow> catalog_write env db (db\<lparr>ad_rows := map (\<lambda>r. if rw_id r = rw_id row then r\<lparr>rw_status := st\<rparr> else r) (ad_rows db),
        ad_history := ad_history db @ [h]\<rparr>)"

lemma wf_rows_map:
  assumes "wf_rows env db"
    and "\<And>r. r \<in> set (ad_rows db) \<Longrightarrow> rw_id (f r) = rw_id r \<and> 0 < rw_version (f r) \<and> entry_check (f r) \<noteq> None"
  shows "wf_rows env (db\<lparr>ad_rows := map f (ad_rows db), ad_history := hs\<rparr>)"
proof -
  have "map rw_id (map f (ad_rows db)) = map rw_id (ad_rows db)" using assms(2) by simp
  then show ?thesis using assms by (auto simp: wf_rows_def simp del: map_map)
qed

lemma entry_check_JDict [simp]: "rw_check r = Some (JDict c) \<Longrightarrow> entry_check r = Some c"
  by (simp add: entry_check_def dict_of_json_def)

lemma entry_check_status [simp]: "entry_check (r\<lparr>rw_status := st\<rparr>) = entry_check r"
  by (simp add: entry_check_def)

lemma entry_check_Some: "entry_check r = Some c \<longleftrightarrow> rw_check r = Some (JDict c)"
  by (cases "rw_check r"; cases "the (rw_check r)") (auto simp: entry_check_def dict_of_json_def)

lemma wf_rows_row: "wf_rows env db \<Longrightarrow> r \<in> set (ad_rows db) \<Longrightarrow> 0 < rw_version r \<and> entry_check r \<noteq> None"
  by (simp add: wf_rows_def)

lemma wf_write:
  assumes "catalog_ok env" "catalog_write env db db'" "wf_rows env db"
  shows "wf_rows env db'"
  using assms(2,3)
proof (cases rule: catalog_write.cases)
  case (write_save row c h)
  have "rw_id row \<notin> rw_id ` set (ad_rows db)"
    using assms(1,3) write_save(3) by (auto simp: wf_rows_def catalog_ok_def inj_eq dest!: bspec)
  then show ?thesis using assms(3) write_save by (auto simp: wf_rows_def lessThan_Suc)
next
  case (write_update row h c)
  show ?thesis unfolding write_update(1) by (rule wf_rows_map [OF assms(3)]) (use wf_rows_row [OF assms(3)] in auto)
next
  case (write_status row st h)
  show ?thesis unfolding write_status(1) by (rule wf_rows_map [OF assms(3)]) (use wf_rows_row [OF assms(3)] in auto)
qed (auto simp: wf_rows_def distinct_map inj_on_def)

abbreviation catalog_writes :: "app_env \<Rightarrow> app_db \<Rightarrow> app_db \<Rightarrow> bool" where
  "catalog_writes env \<equiv> (catalog_write env)\<^sup>*\<^sup>*"

lemma wf_writes: "catalog_writes env db db' \<Longrightarrow> catalog_ok env \<Longrightarrow> wf_rows env db \<Longrightarrow> wf_rows env db'"
  by (induction rule: rtranclp_induct) (auto intro: wf_write)

subsection \<open>Every operation is made of these writes\<close>

lemma row_by_id_iff:
  assumes "wf_rows env db"
  shows "row_by_id db i = Some row \<longleftrightarrow> row \<in> set (ad_rows db) \<and> rw_id row = i"
proof -
  have "distinct (map rw_id (ad_rows db))" using assms by (simp add: wf_rows_def)
  then show ?thesis unfolding row_by_id_def by (rule find_unique)
qed

lemma row_id_nonempty: "catalog_ok env \<Longrightarrow> wf_rows env db \<Longrightarrow> r \<in> set (ad_rows db) \<Longrightarrow> rw_id r \<noteq> []"
  by (auto simp: catalog_ok_def wf_rows_def dest!: bspec)

lemma same_id: "wf_rows env db \<Longrightarrow> r \<in> set (ad_rows db) \<Longrightarrow> q \<in> set (ad_rows db) \<Longrightarrow> rw_id r = rw_id q \<Longrightarrow> r = q"
  by (auto simp: wf_rows_def distinct_map dest: inj_onD)

lemma record_ok: "catalog_ok env \<Longrightarrow> record_catalog_history env h db = db\<lparr>ad_history := ad_history db @ [h]\<rparr>"
  by (simp add: record_catalog_history_def catalog_ok_def)

lemma status_value_of: "check_status_of s = Some st \<Longrightarrow> s = check_status_value st"
  by (auto simp: check_status_of_def split: if_splits)

lemma status_writes:
  assumes "catalog_ok env" "wf_rows env db"
  shows "catalog_writes env db (snd (set_check_status env i status user expected db))"
proof (cases "check_status_of status")
  case None
  then show ?thesis by (simp add: set_check_status_def)
next
  case (Some st)
  show ?thesis
  proof (cases "row_by_id db i")
    case None
    then show ?thesis using Some by (simp add: set_check_status_def)
  next
    case (Some row)
    then have row: "row \<in> set (ad_rows db)" "rw_id row = i" using row_by_id_iff [OF assms(2)] by blast+
    obtain c where c: "entry_check row = Some c" "rw_check row = Some (JDict c)" "entry_version row = rw_version row"
      using wf_rows_row [OF assms(2) row(1)] by (auto simp: entry_check_Some entry_version_def)
    have i: "i \<noteq> []" using row_id_nonempty [OF assms row(1)] row(2) by simp
    let ?h = "\<lparr>ch_rule_id = Some i, ch_table = rw_table row, ch_check = Some (JDict c), ch_version = rw_version row,
      ch_source = entry_source row, ch_action = ''status:'' @ status, ch_prev = Some (rw_status row), ch_new = Some st, ch_by = user\<rparr>"
    let ?db = "db\<lparr>ad_rows := map (\<lambda>r. if rw_id r = i then r\<lparr>rw_status := st\<rparr> else r) (ad_rows db), ad_history := ad_history db @ [?h]\<rparr>"
    have upd: "update_rows (\<lambda>r. rw_id r = i \<and> rw_version r = rw_version row) (\<lambda>r. r\<lparr>rw_status := st\<rparr>) db
        = db\<lparr>ad_rows := map (\<lambda>r. if rw_id r = i then r\<lparr>rw_status := st\<rparr> else r) (ad_rows db)\<rparr>"
    proof -
      have "(rw_id r = i \<and> rw_version r = rw_version row) = (rw_id r = i)" if "r \<in> set (ad_rows db)" for r
        using same_id [OF assms(2) that row(1)] row(2) by auto
      then show ?thesis by (simp add: update_rows_def cong: map_cong)
    qed
    have one: "catalog_write env db ?db"
      if "st \<in> set (check_transitions (rw_status row))" "st = CheckPending \<Longrightarrow> check_no_duplicate_live env db row = Inr ()"
      using write_status [OF row(1) that, of ?h] row(2) c(2) by simp
    have "snd (set_check_status env i status user expected db) = db
        \<or> (snd (set_check_status env i status user expected db) = ?db \<and> st \<in> set (check_transitions (rw_status row))
            \<and> (st = CheckPending \<longrightarrow> check_no_duplicate_live env db row = Inr ()))"
      using \<open>check_status_of status = Some st\<close> Some c i upd record_ok [OF assms(1)]
      by (auto simp: set_check_status_def Let_def split: sum.split option.split)
    then show ?thesis using one by auto
  qed
qed

lemma save_each_writes:
  assumes "catalog_ok env"
  shows "catalog_writes env db (snd (save_each env fqn cs source user db))"
proof (induction cs arbitrary: db)
  case (Cons c cs)
  let ?i = "ae_new_id env (ad_drawn db)"
  let ?h = "\<lparr>ch_rule_id = Some ?i, ch_table = fqn, ch_check = Some (JDict c), ch_version = 1, ch_source = source,
    ch_action = ''save'', ch_prev = None, ch_new = Some CheckDraft, ch_by = user\<rparr>"
  let ?db = "db\<lparr>ad_drawn := Suc (ad_drawn db), ad_rows := ad_rows db @ [authored_row ?i fqn c source user], ad_history := ad_history db @ [?h]\<rparr>"
  have "catalog_write env db ?db" by (rule write_save [where c = c]) (simp_all add: authored_row_def)
  moreover have "snd (save_each env fqn (c # cs) source user db) = snd (save_each env fqn cs source user ?db)"
    by (simp add: Let_def draw_id_def record_ok [OF assms] split: prod.split)
  ultimately show ?case using Cons.IH [of ?db] by (simp add: converse_rtranclp_into_rtranclp)
qed simp

lemma save_writes:
  assumes "catalog_ok env"
  shows "catalog_writes env db (snd (save_checks ce env fqn checks user source db))"
proof -
  have "catalog_writes env db (snd (let (rows, db) = save_each env fqn cs source user db in (Inr rows, db)))" for cs
    using save_each_writes [OF assms, of db fqn cs source user] by (cases "save_each env fqn cs source user db") simp
  then show ?thesis unfolding save_checks_def Let_def [of "map (normalize_weight ce) checks"]
    by (split if_split sum.split list.split | intro conjI impI allI | simp only: snd_conv rtranclp.rtrancl_refl)+
qed

lemma update_writes:
  assumes "catalog_ok env" "wf_rows env db"
  shows "catalog_writes env db (snd (update_check ce env i checks user db))"
proof -
  have "catalog_write env db (record_catalog_history env \<lparr>ch_rule_id = (if i = [] then None else Some i), ch_table = rw_table row,
      ch_check = Some (JDict c), ch_version = entry_version row + 1, ch_source = src, ch_action = ''update'',
      ch_prev = Some (rw_status row), ch_new = Some CheckDraft, ch_by = user\<rparr>
      (update_rows (\<lambda>row. rw_id row = i)
        (\<lambda>row. row\<lparr>rw_check := Some (JDict c), rw_version := rw_version row + 1, rw_status := CheckDraft\<rparr>) db))"
    if "row_by_id db i = Some row" for row c src
  proof -
    have row: "row \<in> set (ad_rows db)" "rw_id row = i" using that row_by_id_iff [OF assms(2)] by blast+
    have "entry_version row = rw_version row" using wf_rows_row [OF assms(2) row(1)] by (simp add: entry_version_def)
    then show ?thesis using row_id_nonempty [OF assms row(1)] row(2)
        write_update [OF row(1), of "\<lparr>ch_rule_id = Some i, ch_table = rw_table row, ch_check = Some (JDict c),
          ch_version = rw_version row + 1, ch_source = src, ch_action = ''update'', ch_prev = Some (rw_status row),
          ch_new = Some CheckDraft, ch_by = user\<rparr>" c env]
      by (simp add: record_ok [OF assms(1)] update_rows_def)
  qed
  then show ?thesis by (auto simp: update_check_def Let_def split: sum.split option.split list.split)
qed

lemma delete_writes:
  assumes "catalog_ok env" "wf_rows env db"
  shows "catalog_writes env db (delete_check env i user db)"
proof (cases "i = []")
  case True
  have all: "filter (\<lambda>row. rw_id row \<noteq> []) (ad_rows db) = ad_rows db"
    using row_id_nonempty [OF assms] by (simp add: filter_id_conv)
  show ?thesis using True by (auto simp: delete_check_def Let_def record_ok [OF assms(1)] all intro!: r_into_rtranclp write_log)
next
  case False
  then show ?thesis by (auto simp: delete_check_def Let_def record_ok [OF assms(1)] intro!: r_into_rtranclp write_delete)
qed

lemma delete_table_writes:
  assumes "catalog_ok env"
  shows "catalog_writes env db (delete_by_table env fqn user db)"
proof -
  let ?h = "\<lparr>ch_rule_id = None, ch_table = fqn, ch_check = None, ch_version = 0, ch_source = ''ui'',
    ch_action = ''delete_all'', ch_prev = None, ch_new = None, ch_by = user\<rparr>"
  show ?thesis using write_delete_table [of ?h env db] by (auto simp: delete_by_table_def record_ok [OF assms])
qed

lemma status_each_writes:
  assumes "catalog_ok env" "wf_rows env db"
  shows "catalog_writes env db (snd (set_status_each env rows status user db))"
  using assms(2)
proof (induction rows arbitrary: db)
  case (Cons row rows)
  obtain r db1 where one: "set_check_status env (rw_id row) status user None db = (r, db1)"
    by (cases "set_check_status env (rw_id row) status user None db")
  then have w: "catalog_writes env db db1" using status_writes [OF assms(1) Cons.prems, of "rw_id row" status user None] by simp
  then have "catalog_writes env db1 (snd (set_status_each env rows status user db1))"
    using Cons.IH wf_writes [OF _ assms(1) Cons.prems] by blast
  then show ?case using w one Cons.IH [OF Cons.prems] by (auto simp: Let_def split: prod.split dest: rtranclp_trans)
qed simp

lemma exec_writes:
  assumes "catalog_ok env" "wf_rows env db"
  shows "catalog_writes env db (catalog_exec ce env op db)"
  using assms save_writes update_writes delete_writes delete_table_writes status_writes status_each_writes
  by (cases op) (auto simp: set_status_by_table_def)

lemma run_writes:
  assumes "catalog_run ce env db db'" "catalog_ok env" "wf_rows env db"
  shows "catalog_writes env db db'"
  using assms(1)
proof (induction rule: catalog_run.induct)
  case (catalog_next db' op)
  then have "wf_rows env db'" using wf_writes assms(2,3) by blast
  then show ?case using catalog_next exec_writes [OF assms(2)] rtranclp_trans by metis
qed simp

lemma run_invariant_writes:
  assumes "catalog_run ce env db db'" "catalog_ok env" "wf_rows env db" "I db"
    and "\<And>db db'. catalog_write env db db' \<Longrightarrow> wf_rows env db \<Longrightarrow> wf_rows env db' \<Longrightarrow> I db \<Longrightarrow> I db'"
  shows "I db'"
proof -
  have "catalog_writes env db db'" by (rule run_writes [OF assms(1-3)])
  then have "wf_rows env db' \<and> I db'"
    by (induction rule: rtranclp_induct) (use assms(2-5) wf_write in blast)+
  then show ?thesis ..
qed

subsection \<open>The audit trail\<close>

type_synonym catalog_view = "string \<Rightarrow> (string \<times> json option \<times> nat \<times> check_status) option"

definition view_of :: "resolved_row \<Rightarrow> string \<times> json option \<times> nat \<times> check_status" where
  "view_of row = (rw_table row, rw_check row, rw_version row, rw_status row)"

definition catalog_view :: "app_db \<Rightarrow> catalog_view" where
  "catalog_view db = (\<lambda>i. map_option view_of (row_by_id db i))"

definition replay_entry :: "catalog_history \<Rightarrow> catalog_view \<Rightarrow> catalog_view" where
  "replay_entry h v = (case ch_rule_id h of
     Some i \<Rightarrow> v(i := map_option (\<lambda>st. (ch_table h, ch_check h, ch_version h, st)) (ch_new h))
   | None \<Rightarrow> if ch_action h = ''delete_all''
       then (\<lambda>i. case v i of Some x \<Rightarrow> if fst x = ch_table h then None else Some x | None \<Rightarrow> None) else v)"

definition audit_replay :: "catalog_history list \<Rightarrow> catalog_view" where
  "audit_replay hs = fold replay_entry hs (\<lambda>_. None)"

lemma view_iff:
  assumes "wf_rows env db"
  shows "catalog_view db i = Some v \<longleftrightarrow> (\<exists>row \<in> set (ad_rows db). rw_id row = i \<and> v = view_of row)"
  using row_by_id_iff [OF assms] by (auto simp: catalog_view_def)

lemma view_eqI:
  assumes "wf_rows env db" "\<And>i v. w i = Some v \<longleftrightarrow> (\<exists>row \<in> set (ad_rows db). rw_id row = i \<and> v = view_of row)"
  shows "w = catalog_view db"
proof
  fix i show "w i = catalog_view db i"
    using assms(2) [of i] view_iff [OF assms(1), of i] by (metis not_None_eq)
qed

lemma row_by_id_map:
  assumes "\<And>r. rw_id (f r) = rw_id r"
  shows "row_by_id (db\<lparr>ad_rows := map (\<lambda>r. if rw_id r = i then f r else r) (ad_rows db), ad_history := hs\<rparr>) j
    = (if j = i then map_option f (row_by_id db i) else row_by_id db j)"
proof -
  have "find (\<lambda>r. rw_id r = j) (map (\<lambda>r. if rw_id r = i then f r else r) rows)
      = (if j = i then map_option f (find (\<lambda>r. rw_id r = i) rows) else find (\<lambda>r. rw_id r = j) rows)" for rows
    by (induction rows) (auto simp: assms)
  then show ?thesis by (simp add: row_by_id_def)
qed

lemma row_by_id_filter:
  assumes "wf_rows env db"
  shows "row_by_id (db\<lparr>ad_rows := filter Q (ad_rows db), ad_history := hs\<rparr>) j
    = (case row_by_id db j of None \<Rightarrow> None | Some r \<Rightarrow> if Q r then Some r else None)"
proof -
  have "distinct (map rw_id rows) \<Longrightarrow> find (\<lambda>r. rw_id r = j) (filter Q rows)
      = (case find (\<lambda>r. rw_id r = j) rows of None \<Rightarrow> None | Some r \<Rightarrow> if Q r then Some r else None)" for rows
    by (induction rows) (auto simp: find_none find_unique image_iff split: option.splits)
  then show ?thesis using assms by (simp add: row_by_id_def wf_rows_def)
qed

lemma replay_write:
  assumes "catalog_write env db db'" "wf_rows env db" "wf_rows env db'" "audit_replay (ad_history db) = catalog_view db"
  shows "audit_replay (ad_history db') = catalog_view db'"
proof -
  note view = view_iff [OF assms(2)]
  from assms(1) show ?thesis
  proof (cases rule: catalog_write.cases)
    case (write_save row c h)
    have "rw_id r \<noteq> rw_id row" if "r \<in> set (ad_rows db)" for r
      using assms(3) that unfolding write_save(1) wf_rows_def by (auto simp: image_iff)
    then have "replay_entry h (catalog_view db) = catalog_view db'"
      by (intro view_eqI [OF assms(3)]) (auto simp: write_save view view_of_def replay_entry_def)
    then show ?thesis using assms(4) by (simp add: write_save(1) audit_replay_def)
  next
    case (write_update row h c)
    have found: "row_by_id db (rw_id row) = Some row" using row_by_id_iff [OF assms(2)] write_update(2) by blast
    have "replay_entry h (catalog_view db) = catalog_view db'"
      by (rule ext) (simp add: write_update(1,3-7) found row_by_id_map catalog_view_def view_of_def replay_entry_def)
    then show ?thesis using assms(4) by (simp add: write_update(1) audit_replay_def)
  next
    case (write_delete h i)
    have "replay_entry h (catalog_view db) = catalog_view db'"
      by (intro view_eqI [OF assms(3)]) (auto simp: write_delete view view_of_def replay_entry_def)
    then show ?thesis using assms(4) by (simp add: write_delete(1) audit_replay_def)
  next
    case (write_delete_table h)
    have "replay_entry h (catalog_view db) = catalog_view db'"
      by (rule ext) (auto simp: write_delete_table row_by_id_filter [OF assms(2)] catalog_view_def view_of_def replay_entry_def
        split: option.split)
    then show ?thesis using assms(4) by (simp add: write_delete_table(1) audit_replay_def)
  next
    case (write_log h)
    then show ?thesis using assms(4) by (simp add: audit_replay_def replay_entry_def catalog_view_def row_by_id_def)
  next
    case (write_status row st h)
    have found: "row_by_id db (rw_id row) = Some row" using row_by_id_iff [OF assms(2)] write_status(2) by blast
    have "replay_entry h (catalog_view db) = catalog_view db'"
      by (rule ext) (simp add: write_status(1,5-10) found row_by_id_map catalog_view_def view_of_def replay_entry_def)
    then show ?thesis using assms(4) by (simp add: write_status(1) audit_replay_def)
  qed
qed

subsection \<open>Approvals and live checks\<close>

definition approval_recorded :: "app_db \<Rightarrow> resolved_row \<Rightarrow> bool" where
  "approval_recorded db row \<longleftrightarrow> (\<exists>h \<in> set (ad_history db). ch_rule_id h = Some (rw_id row) \<and> ch_table h = rw_table row
     \<and> ch_check h = rw_check row \<and> ch_version h = rw_version row \<and> ch_prev h = Some CheckPending \<and> ch_new h = Some CheckApproved)"

lemma transition_to_approved: "CheckApproved \<in> set (check_transitions st) \<Longrightarrow> st = CheckPending"
  by (cases st) auto

lemma recorded_write:
  assumes "catalog_write env db db'" "wf_rows env db" "\<forall>row \<in> set (ad_rows db). rw_status row = CheckApproved \<longrightarrow> approval_recorded db row"
  shows "\<forall>row \<in> set (ad_rows db'). rw_status row = CheckApproved \<longrightarrow> approval_recorded db' row"
proof -
  have keep: "approval_recorded db' row" if "approval_recorded db row" "set (ad_history db) \<subseteq> set (ad_history db')" for row
    using that by (auto simp: approval_recorded_def)
  from assms(1) show ?thesis
  proof (cases rule: catalog_write.cases)
    case (write_status row st h)
    have "approval_recorded db' (row\<lparr>rw_status := CheckApproved\<rparr>)" if "st = CheckApproved"
      using that write_status transition_to_approved [of "rw_status row"] by (auto simp: approval_recorded_def)
    then show ?thesis using assms(3) write_status same_id [OF assms(2) _ write_status(2)] keep by fastforce
  qed (use assms(3) keep in auto)
qed

definition live_distinct :: "app_db \<Rightarrow> bool" where
  "live_distinct db \<longleftrightarrow> (\<forall>r \<in> set (ad_rows db). \<forall>q \<in> set (ad_rows db).
     live r \<longrightarrow> live q \<longrightarrow> rw_table r = rw_table q \<longrightarrow> check_body r = check_body q \<longrightarrow> rw_id r = rw_id q)"

lemma no_duplicate_live:
  assumes "catalog_ok env" "check_no_duplicate_live env db row = Inr ()" "sib \<in> set (ad_rows db)"
    "live sib" "rw_table sib = rw_table row" "check_body sib = check_body row"
  shows "rw_id sib = rw_id row"
proof -
  have "sib \<in> set (rows_for_table env db (rw_table row) None)"
    using assms(1,3,5) by (simp add: rows_for_table_def catalog_ok_def)
  then show ?thesis using assms(2,4,6) by (auto simp: check_no_duplicate_live_def find_None_iff split: option.splits)
qed

lemma live_subset:
  assumes "live_distinct db" "\<And>r. r \<in> set (ad_rows db') \<Longrightarrow> live r \<Longrightarrow> r \<in> set (ad_rows db)"
  shows "live_distinct db'"
  using assms unfolding live_distinct_def by blast

lemma live_write:
  assumes "catalog_write env db db'" "catalog_ok env" "wf_rows env db" "live_distinct db"
  shows "live_distinct db'"
  using assms(1)
proof (cases rule: catalog_write.cases)
  case (write_status row st h)
  let ?f = "\<lambda>r. if rw_id r = rw_id row then r\<lparr>rw_status := st\<rparr> else r"
  have body: "check_body (?f r) = check_body r" "rw_table (?f r) = rw_table r" "rw_id (?f r) = rw_id r" for r
    by (simp_all add: check_body_def)
  have was: "live r \<or> (r = row \<and> st = CheckPending)" if "r \<in> set (ad_rows db)" "live (?f r)" for r
  proof (cases "rw_id r = rw_id row")
    case True
    then have "r = row" using same_id [OF assms(3) that(1) write_status(2)] by simp
    then show ?thesis using that(2) transition_to_approved [of "rw_status row"] write_status(3) by (auto simp: live_def)
  qed (use that in simp)
  have "rw_id r = rw_id q"
    if r: "r \<in> set (ad_rows db)" "live (?f r)" and q: "q \<in> set (ad_rows db)" "live (?f q)"
      and eq: "rw_table r = rw_table q" "check_body r = check_body q" for r q
  proof -
    note dup = no_duplicate_live [OF assms(2) write_status(4)]
    from was [OF r] was [OF q] consider "live r" "live q" | "r = row" "st = CheckPending" "live q" | "live r" "q = row" "st = CheckPending"
      | "r = q" by blast
    then show ?thesis
    proof cases
      case 1
      then show ?thesis using assms(4) r(1) q(1) eq unfolding live_distinct_def by blast
    next
      case 2
      then show ?thesis using dup [of q] q(1) eq by simp
    next
      case 3
      then show ?thesis using dup [of r] r(1) eq by simp
    qed simp
  qed
  then have "\<forall>r \<in> set (ad_rows db). \<forall>q \<in> set (ad_rows db). live (?f r) \<longrightarrow> live (?f q) \<longrightarrow> rw_table (?f r) = rw_table (?f q)
      \<longrightarrow> check_body (?f r) = check_body (?f q) \<longrightarrow> rw_id (?f r) = rw_id (?f q)" unfolding body by blast
  moreover have "ad_rows db' = map ?f (ad_rows db)" by (simp add: write_status(1))
  ultimately show ?thesis by (simp only: live_distinct_def set_map ball_simps)
qed (rule live_subset [OF assms(4)], auto simp: live_def split: if_splits)+




subsection \<open>Examples\<close>

lemma catalog_run_fold: "catalog_run ce env db (fold (catalog_exec ce env) ops db)"
proof (induction ops rule: rev_induct)
  case (snoc op ops)
  then show ?case by (simp add: catalog_next)
qed (simp add: catalog_start)

definition example_catalog_env :: catalog_env where
  "example_catalog_env = \<lparr>ce_dumps = (\<lambda>j. case j of JDict ((k, JDict ((a, JStr c) # _)) # _) \<Rightarrow> c | _ \<Rightarrow> []), ce_number = (\<lambda>_. ''1'')\<rparr>"

definition example_check :: "string \<Rightarrow> json_dict" where
  "example_check col = [(''check'', JDict [(''function'', JStr ''is_not_null''), (''arguments'', JDict [(''column'', JStr col)])])]"

text \<open>Two checks are saved, one of them twice; both copies cannot be submitted.\<close>

definition example_catalog_ops :: "catalog_op list" where
  "example_catalog_ops = [SaveChecks ''c.s.t'' [example_check ''k'', example_check ''k''] ''ann'' ''ui'',
     SetStatusByTable ''c.s.t'' ''pending_approval'' ''ann'', SetStatus ''x'' ''approved'' ''bob'' (Some 1)]"

definition example_catalog_db :: app_db where
  "example_catalog_db = fold (catalog_exec example_catalog_env example_app_env) example_catalog_ops example_app_db"

lemma example_catalog_ok: "catalog_ok example_app_env"
  using example_ids by (simp add: catalog_ok_def example_app_env_def)

lemma example_catalog_run: "catalog_run example_catalog_env example_app_env example_app_db example_catalog_db"
  unfolding example_catalog_db_def by (rule catalog_run_fold)

lemma example_catalog_start: "ad_rows example_app_db = []" "ad_history example_app_db = []"
  by (simp_all add: example_app_db_def)

lemma example_catalog_rows:
  "map (\<lambda>r. (rw_id r, rw_status r)) (ad_rows example_catalog_db) = [(''x'', CheckApproved), (''xx'', CheckDraft)]"
  by code_simp




text \<open>A batch that repeats a check saves it twice, though saving it again is refused.\<close>

lemma batch_saves_twice:
  "length (ad_rows (snd (save_checks example_catalog_env example_app_env ''c.s.t'' [example_check ''k'', example_check ''k''] ''ann'' ''ui'' example_app_db))) = 2
   \<and> fst (save_checks example_catalog_env example_app_env ''c.s.t'' [example_check ''k''] ''ann'' ''ui'' example_catalog_db) = Inl AllDuplicates"
  by code_simp

end
