(* ===== verification/Access_Roles.thy ===== *)
theory Access_Roles
  imports Registry_Service "HOL-Library.Product_Lexorder"
begin

section \<open>Roles (\<open>common/authorization.py\<close>, \<open>services/role_service.py\<close>)\<close>

text \<open>
  A user has the highest role that a mapping gives to one of the groups they belong to. The mappings are
  read through a cache of the process, which its own writes drop and which expires after two minutes.
  Instants are seconds of the monotonic clock; the clock of the database stamps the rows.
\<close>

subsection \<open>Roles and their permissions\<close>

datatype user_role = RoleAdmin | RoleApprover | RoleAuthor | RoleViewer

definition role_values :: "(string, user_role) dict" where
  "role_values = [(''admin'', RoleAdmin), (''rule_approver'', RoleApprover), (''rule_author'', RoleAuthor), (''viewer'', RoleViewer)]"

definition role_priority :: "user_role list" where
  "role_priority = [RoleViewer, RoleAuthor, RoleApprover, RoleAdmin]"

fun role_permissions :: "user_role \<Rightarrow> string list" where
  "role_permissions RoleAdmin = [''view_rules'', ''create_rules'', ''edit_rules'', ''generate_rules'', ''submit_rules'',
     ''approve_rules'', ''export_rules'', ''configure_storage'', ''manage_roles'', ''run_rules'']"
| "role_permissions RoleApprover = [''view_rules'', ''approve_rules'', ''export_rules'', ''configure_storage'']"
| "role_permissions RoleAuthor = [''view_rules'', ''create_rules'', ''edit_rules'', ''generate_rules'', ''submit_rules'', ''run_rules'']"
| "role_permissions RoleViewer = [''view_rules'']"

definition can_run_roles :: "user_role list" where
  "can_run_roles = [RoleAdmin, RoleAuthor]"

subsection \<open>State\<close>

record role_mapping =
  rl_role :: string
  rl_group :: string
  rl_created_by :: "string option"
  rl_created_at :: int
  rl_updated_by :: "string option"
  rl_updated_at :: int

record role_event =
  rh_role :: string
  rh_group :: string
  rh_action :: string
  rh_by :: "string option"
  rh_at :: int

record role_db =
  ro_mappings :: "role_mapping list"
  ro_history :: "role_event list"
  ro_cache :: "role_mapping list option"
  ro_cache_expires :: int

text \<open>Whether the audit row of a change is written; a failure is only logged.\<close>

type_synonym role_env = "role_event \<Rightarrow> bool"

definition mappings_cache_ttl :: int where
  "mappings_cache_ttl = 120"

subsection \<open>Operations\<close>

definition ordered_mappings :: "role_db \<Rightarrow> role_mapping list" where
  "ordered_mappings db = sort_key (\<lambda>m. (rl_role m, rl_group m))
     (map (\<lambda>m. m\<lparr>rl_created_by := opt_str (rl_created_by m), rl_updated_by := opt_str (rl_updated_by m)\<rparr>) (ro_mappings db))"

definition list_mappings :: "bool \<Rightarrow> int \<Rightarrow> role_db \<Rightarrow> role_mapping list \<times> role_db" where
  "list_mappings use_cache now db = (case ro_cache db of
     Some ms \<Rightarrow> if use_cache \<and> now < ro_cache_expires db then (ms, db)
       else (ordered_mappings db, db\<lparr>ro_cache := Some (ordered_mappings db), ro_cache_expires := now + mappings_cache_ttl\<rparr>)
   | None \<Rightarrow> (ordered_mappings db, db\<lparr>ro_cache := Some (ordered_mappings db), ro_cache_expires := now + mappings_cache_ttl\<rparr>))"

definition invalidate_mappings_cache :: "role_db \<Rightarrow> role_db" where
  "invalidate_mappings_cache db = db\<lparr>ro_cache := None, ro_cache_expires := 0\<rparr>"

definition get_mappings_for_role :: "string \<Rightarrow> role_db \<Rightarrow> role_mapping list" where
  "get_mappings_for_role role db = filter (\<lambda>m. rl_role m = role) (ordered_mappings db)"

definition record_role_history :: "role_env \<Rightarrow> string \<Rightarrow> string \<Rightarrow> string \<Rightarrow> string option \<Rightarrow> int \<Rightarrow> role_db \<Rightarrow> role_db" where
  "record_role_history ok role group_name action user clock db =
     (let h = \<lparr>rh_role = role, rh_group = group_name, rh_action = action, rh_by = opt_str user, rh_at = clock\<rparr>
      in if ok h then db\<lparr>ro_history := ro_history db @ [h]\<rparr> else db)"

definition upsert_mapping :: "string \<Rightarrow> string \<Rightarrow> string \<Rightarrow> int \<Rightarrow> role_mapping list \<Rightarrow> role_mapping list" where
  "upsert_mapping role group_name user clock ms =
     (if list_ex (\<lambda>m. rl_role m = role \<and> rl_group m = group_name) ms
      then map (\<lambda>m. if rl_role m = role \<and> rl_group m = group_name
             then m\<lparr>rl_updated_by := Some user, rl_updated_at := clock\<rparr> else m) ms
      else ms @ [\<lparr>rl_role = role, rl_group = group_name, rl_created_by = Some user, rl_created_at = clock,
             rl_updated_by = Some user, rl_updated_at = clock\<rparr>])"

text \<open>\<open>None\<close> is the error of a role that does not exist.\<close>

definition create_mapping :: "role_env \<Rightarrow> string \<Rightarrow> string \<Rightarrow> string \<Rightarrow> int \<Rightarrow> role_db \<Rightarrow> role_mapping option \<times> role_db" where
  "create_mapping ok role group_name user clock db =
     (if \<not> dict_has role_values role then (None, db)
      else (Some \<lparr>rl_role = role, rl_group = group_name, rl_created_by = Some user, rl_created_at = clock,
              rl_updated_by = Some user, rl_updated_at = clock\<rparr>,
            invalidate_mappings_cache (record_role_history ok role group_name ''create'' (Some user) clock
              (db\<lparr>ro_mappings := upsert_mapping role group_name user clock (ro_mappings db)\<rparr>))))"

definition delete_mapping :: "role_env \<Rightarrow> string \<Rightarrow> string \<Rightarrow> string option \<Rightarrow> int \<Rightarrow> role_db \<Rightarrow> role_db" where
  "delete_mapping ok role group_name user clock db =
     invalidate_mappings_cache (record_role_history ok role group_name ''delete'' user clock
       (db\<lparr>ro_mappings := filter (\<lambda>m. \<not> (rl_role m = role \<and> rl_group m = group_name)) (ro_mappings db)\<rparr>))"

definition list_role_history :: "string option \<Rightarrow> string option \<Rightarrow> int \<Rightarrow> role_db \<Rightarrow> role_event list" where
  "list_role_history role group_name limit db = take (nat (max 1 (min limit 1000))) (sort_key (\<lambda>h. - rh_at h)
     (filter (\<lambda>h. (case role of None \<Rightarrow> True | Some r \<Rightarrow> rh_role h = r) \<and> (case group_name of None \<Rightarrow> True | Some g \<Rightarrow> rh_group h = g))
       (ro_history db)))"

definition matched_roles :: "role_mapping list \<Rightarrow> string list \<Rightarrow> user_role set" where
  "matched_roles ms groups = set (List.map_filter (\<lambda>m. if rl_group m \<in> set groups then dict_get role_values (rl_role m) else None) ms)"

definition highest_role :: "user_role set \<Rightarrow> user_role" where
  "highest_role matched = (case find (\<lambda>r. r \<in> matched) (rev role_priority) of None \<Rightarrow> RoleViewer | Some r \<Rightarrow> r)"

definition resolve_role :: "string list \<Rightarrow> string option \<Rightarrow> int \<Rightarrow> role_db \<Rightarrow> user_role \<times> role_db" where
  "resolve_role groups admin_group now db =
     (if or_else admin_group [] \<noteq> [] \<and> the admin_group \<in> set groups then (RoleAdmin, db)
      else (let (ms, db) = list_mappings True now db in
            if ms = [] then (RoleViewer, db) else (highest_role (matched_roles ms groups), db)))"

subsection \<open>The role of a request (\<open>dependencies.py\<close>)\<close>

text \<open>The user record the workspace returns, or \<open>None\<close> when it cannot be fetched.\<close>

record scim_user =
  su_groups :: "string option list"
  su_display_name :: "string option"
  su_user_name :: "string option"

definition role_principals :: "scim_user \<Rightarrow> string \<Rightarrow> string list" where
  "role_principals u email =
     fold (\<lambda>ident ps. case ident of None \<Rightarrow> ps | Some s \<Rightarrow> if s \<noteq> [] \<and> s \<notin> set ps then ps @ [s] else ps)
       [su_display_name u, su_user_name u, Some email]
       (filter (\<lambda>g. g \<noteq> []) (List.map_filter (\<lambda>g. g) (su_groups u)))"

definition get_user_role :: "string option \<Rightarrow> scim_user option \<Rightarrow> string \<Rightarrow> int \<Rightarrow> role_db \<Rightarrow> user_role \<times> role_db" where
  "get_user_role admin_group user email now db = (case user of
     None \<Rightarrow> (RoleViewer, db)
   | Some u \<Rightarrow> resolve_role (role_principals u email) admin_group now db)"

subsection \<open>How stale a role may be\<close>

text \<open>
  The operations of one process on the service, each at an instant, and the writes of other processes,
  which do not reach its cache.
\<close>

datatype role_op =
    CreateMapping string string string int
  | DeleteMapping string string "string option" int
  | ListMappings bool
  | ResolveRole "string list" "string option"
  | ElsewhereMappings "role_mapping list"

fun role_exec :: "role_env \<Rightarrow> int \<times> role_op \<Rightarrow> role_db \<Rightarrow> role_db" where
  "role_exec ok (now, CreateMapping role g user clock) db = snd (create_mapping ok role g user clock db)"
| "role_exec ok (now, DeleteMapping role g user clock) db = delete_mapping ok role g user clock db"
| "role_exec ok (now, ListMappings use) db = snd (list_mappings use now db)"
| "role_exec ok (now, ResolveRole groups admin) db = snd (resolve_role groups admin now db)"
| "role_exec ok (now, ElsewhereMappings ms) db = db\<lparr>ro_mappings := ms\<rparr>"

fun written_elsewhere :: "int \<times> role_op \<Rightarrow> bool" where
  "written_elsewhere (now, ElsewhereMappings ms) = True"
| "written_elsewhere _ = False"

text \<open>The role the mappings themselves give.\<close>

definition role_of_mappings :: "role_mapping list \<Rightarrow> string list \<Rightarrow> string option \<Rightarrow> user_role" where
  "role_of_mappings ms groups admin_group =
     (if or_else admin_group [] \<noteq> [] \<and> the admin_group \<in> set groups then RoleAdmin
      else highest_role (matched_roles ms groups))"

lemma matched_ordered: "matched_roles (ordered_mappings db) groups = matched_roles (ro_mappings db) groups"
  unfolding matched_roles_def ordered_mappings_def
  by (force simp: List.map_filter_def)

lemma matched_cache_Nil: "ordered_mappings db = [] \<Longrightarrow> highest_role (matched_roles (ro_mappings db) groups) = RoleViewer"
  unfolding matched_ordered [symmetric] by (simp add: matched_roles_def List.map_filter_def highest_role_def role_priority_def)

text \<open>What the cache holds: the mappings as some earlier state had them, read at an instant before it expires.\<close>

fun may_keep_cache :: "int \<times> role_op \<Rightarrow> bool" where
  "may_keep_cache (now, CreateMapping role g user clock) = (\<not> dict_has role_values role)"
| "may_keep_cache (now, DeleteMapping role g user clock) = False"
| "may_keep_cache _ = True"

definition cached_at :: "role_env \<Rightarrow> role_db \<Rightarrow> (int \<times> role_op) list \<Rightarrow> role_mapping list \<Rightarrow> int \<Rightarrow> bool" where
  "cached_at ok db ops ms expires \<longleftrightarrow> (\<exists>before after t. ops = before @ after \<and> expires = t + mappings_cache_ttl
     \<and> ms = ordered_mappings (fold (role_exec ok) before db) \<and> (\<forall>o' \<in> set after. t \<le> fst o' \<and> may_keep_cache o')
     \<and> t \<in> fst ` set after)"

lemma cached_at_snoc:
  assumes "cached_at ok db ops ms expires" "sorted (map fst (ops @ [x]))" "may_keep_cache x"
  shows "cached_at ok db (ops @ [x]) ms expires"
proof -
  obtain before after t where c: "ops = before @ after" "expires = t + mappings_cache_ttl"
    "ms = ordered_mappings (fold (role_exec ok) before db)" "\<forall>o' \<in> set after. t \<le> fst o' \<and> may_keep_cache o'" "t \<in> fst ` set after"
    using assms(1) by (auto simp: cached_at_def)
  moreover have "t \<le> fst x" using assms(2) c(1,5) by (auto simp: sorted_append)
  ultimately show ?thesis unfolding cached_at_def
    using assms(3) by (intro exI [of _ before] exI [of _ "after @ [x]"] exI [of _ t]) auto
qed

lemma cached_at_read:
  assumes "may_keep_cache (t, x)"
  shows "cached_at ok db (ops @ [(t, x)]) (ordered_mappings (fold (role_exec ok) ops db)) (t + mappings_cache_ttl)"
  unfolding cached_at_def using assms by (intro exI [of _ ops] exI [of _ "[(t, x)]"] exI [of _ t]) auto

lemma list_mappings_cache:
  "ro_cache (snd (list_mappings use now db)) = Some ms \<Longrightarrow> (ro_cache db = Some ms \<and> ro_cache_expires (snd (list_mappings use now db)) = ro_cache_expires db)
     \<or> (ms = ordered_mappings db \<and> ro_cache_expires (snd (list_mappings use now db)) = now + mappings_cache_ttl)"
  by (auto simp: list_mappings_def split: option.splits if_splits)

lemma list_mappings_read:
  "(\<exists>ms. ro_cache db = Some ms \<and> now < ro_cache_expires db \<and> fst (list_mappings True now db) = ms)
     \<or> fst (list_mappings True now db) = ordered_mappings db"
  by (cases "ro_cache db") (auto simp: list_mappings_def)

lemma cache_invariant:
  "ro_cache db = None \<Longrightarrow> sorted (map fst ops) \<Longrightarrow> ro_cache (fold (role_exec ok) ops db) = Some ms
   \<Longrightarrow> cached_at ok db ops ms (ro_cache_expires (fold (role_exec ok) ops db))"
proof (induction ops arbitrary: ms rule: rev_induct)
  case (snoc x ops)
  let ?db = "fold (role_exec ok) ops db"
  obtain t y where x: "x = (t, y)" by (cases x)
  have old: "cached_at ok db (ops @ [x]) ms (ro_cache_expires ?db)" if "ro_cache ?db = Some ms" "may_keep_cache x"
    using cached_at_snoc [OF _ snoc.prems(2) that(2)] snoc.IH [OF snoc.prems(1) _ that(1)] snoc.prems(2) by (simp add: sorted_append)
  show ?case
  proof (cases y)
    case (CreateMapping r g u c)
    then show ?thesis using snoc.prems(3) old by (auto simp: x create_mapping_def invalidate_mappings_cache_def split: if_splits)
  next
    case (DeleteMapping r g u c)
    then show ?thesis using snoc.prems(3) by (simp add: x delete_mapping_def invalidate_mappings_cache_def)
  next
    case (ListMappings use)
    have "ro_cache (snd (list_mappings use t ?db)) = Some ms" using snoc.prems(3) by (simp add: x ListMappings)
    then show ?thesis using list_mappings_cache [of use t ?db ms] old cached_at_read [of t y ok db ops] by (auto simp: x ListMappings)
  next
    case (ResolveRole groups admin)
    have same: "snd (resolve_role groups admin t ?db) = ?db \<or> snd (resolve_role groups admin t ?db) = snd (list_mappings True t ?db)"
      by (simp add: resolve_role_def case_prod_beta Let_def)
    have "ro_cache (snd (resolve_role groups admin t ?db)) = Some ms" using snoc.prems(3) by (simp add: x ResolveRole)
    then show ?thesis using same list_mappings_cache [of True t ?db ms] old cached_at_read [of t y ok db ops]
      by (auto simp: x ResolveRole)
  next
    case (ElsewhereMappings ms')
    then show ?thesis using snoc.prems(3) old by (simp add: x)
  qed
qed simp

lemma mappings_kept:
  "(\<And>o'. o' \<in> set ops \<Longrightarrow> may_keep_cache o' \<and> \<not> written_elsewhere o') \<Longrightarrow> ro_mappings (fold (role_exec ok) ops db) = ro_mappings db"
proof (induction ops arbitrary: db)
  case (Cons x ops)
  obtain t y where x: "x = (t, y)" by (cases x)
  have keep: "may_keep_cache x \<and> \<not> written_elsewhere x" using Cons.prems [of x] by simp
  have "ro_mappings (role_exec ok x db) = ro_mappings db"
    using keep
    by (cases y) (auto simp: x create_mapping_def list_mappings_def resolve_role_def case_prod_beta Let_def split: option.split)
  then show ?case using Cons.IH [of "role_exec ok x db"] Cons.prems by simp
qed simp

lemma resolve_from_list:
  "fst (resolve_role groups admin now db) = (if or_else admin [] \<noteq> [] \<and> the admin \<in> set groups then RoleAdmin
     else highest_role (matched_roles (fst (list_mappings True now db)) groups))"
  by (auto simp: resolve_role_def case_prod_beta Let_def matched_roles_def List.map_filter_def highest_role_def role_priority_def)


definition example_roles :: role_db where
  "example_roles = \<lparr>ro_mappings = [], ro_history = [], ro_cache = None, ro_cache_expires = 0\<rparr>"

definition example_role_ops :: "(int \<times> role_op) list" where
  "example_role_ops = [(0, CreateMapping ''rule_author'' ''data'' ''ann'' 5), (10, ResolveRole [''data''] None),
     (20, ElsewhereMappings [])]"


text \<open>A display name counts like a group: who is called as the administrators' group is one.\<close>

lemma display_name_is_admin:
  "get_user_role (Some ''dqx-admins'') (Some \<lparr>su_groups = [], su_display_name = Some ''dqx-admins'', su_user_name = Some ''eve''\<rparr>)
     ''eve'' 0 example_roles = (RoleAdmin, example_roles)"
  by code_simp

end
