(* ===== verification/Table_Versions.thy ===== *)
theory Table_Versions
  imports Rules_Catalog Apply_Rules
begin

section \<open>Frozen versions (\<open>backend/services/monitored_table_versions.py\<close>)\<close>

text \<open>
  Approving a monitored table freezes its rule set: a snapshot refers to the applied rules and the
  registry version each was rendered at, and the checks are rendered again on demand. The display
  fields of a snapshot and its row identifier are left out.
\<close>

subsection \<open>The approved rule set\<close>

datatype version_error = NoSuchBinding string | NoSnapshot string nat | MalformedMetadata | BadNumber | RenderRaised mat_error

text \<open>\<open>int(raw_version)\<close>: \<open>None\<close> where it raises \<open>TypeError\<close> or \<open>ValueError\<close>, which are passed over.\<close>

definition json_int :: "json \<Rightarrow> version_error + int option" where
  "json_int v = (case v of JStr s \<Rightarrow> Inr (py_int_of_string s) | JInt n \<Rightarrow> Inr (Some n) | JBool b \<Rightarrow> Inr (Some (if b then 1 else 0))
     | JFloat (Fin x) \<Rightarrow> Inr (Some (trunc_rat x)) | JFloat NaN \<Rightarrow> Inr None | JFloat _ \<Rightarrow> Inl BadNumber | _ \<Rightarrow> Inr None)"

text \<open>The resolved version of each approved application, the first of each, and the number of its checks.\<close>

fun scan_approved ::
    "string list \<Rightarrow> json_dict list \<Rightarrow> (string \<times> int) list \<times> nat \<Rightarrow> version_error + (string \<times> int) list \<times> nat" where
  "scan_approved ids [] acc = Inr acc"
| "scan_approved ids (c # cs) (resolved, n) = (case or_empty_dict (dict_get c ''user_metadata'') of
     JDict md \<Rightarrow> (case dict_get md ''applied_rule_id'' of
       Some (JStr a) \<Rightarrow>
         (if a \<notin> set ids then scan_approved ids cs (resolved, n)
          else (case dict_get_or md ''registry_version'' JNull of
            JNull \<Rightarrow> scan_approved ids cs (resolved, Suc n)
          | raw \<Rightarrow>
              (if dict_has resolved a then scan_approved ids cs (resolved, Suc n)
               else sbind (json_int raw) (\<lambda>v. case v of
                 None \<Rightarrow> scan_approved ids cs (resolved, Suc n)
               | Some k \<Rightarrow> scan_approved ids cs (dict_set resolved a k, Suc n)))))
     | _ \<Rightarrow> scan_approved ids cs (resolved, n))
   | _ \<Rightarrow> Inl MalformedMetadata)"

definition ref_of :: "application \<Rightarrow> int \<Rightarrow> rule_ref" where
  "ref_of ap v = \<lparr>rf_applied_id = ap_id ap, rf_rule_id = ap_rule_id ap, rf_registry_version = v,
     rf_severity_override = ap_severity_override ap, rf_pass_threshold = ap_pass_threshold ap, rf_mapping = ap_mapping ap,
     rf_tags = ap_tags ap\<rparr>"

definition build_state :: "application list \<Rightarrow> (string \<times> int) list \<Rightarrow> rule_ref list" where
  "build_state aps resolved = List.map_filter (\<lambda>ap. map_option (ref_of ap) (dict_get resolved (ap_id ap))) aps"

definition current_approved_snapshot :: "app_env \<Rightarrow> app_db \<Rightarrow> monitored_table \<Rightarrow> version_error + rule_ref list \<times> nat" where
  "current_approved_snapshot env db t =
     (let aps = list_applied db (mt_id t); ids = filter (\<lambda>i. i \<noteq> []) (map ap_id aps)
      in sbind (scan_approved ids (get_approved_checks_for_table env db (mt_fqn t)) ([], 0)) (\<lambda>(resolved, n).
         Inr (build_state aps resolved, n)))"

subsection \<open>Freezing\<close>

definition snapshot_of :: "app_db \<Rightarrow> string \<Rightarrow> nat \<Rightarrow> table_version option" where
  "snapshot_of db bid v = find (\<lambda>tv. tv_binding tv = bid \<and> tv_version tv = v) (ad_versions db)"

definition freeze_new_version :: "app_env \<Rightarrow> string \<Rightarrow> string \<Rightarrow> app_db \<Rightarrow> (version_error + nat) \<times> app_db" where
  "freeze_new_version env bid user db = (case get_binding db bid of
     None \<Rightarrow> (Inl (NoSuchBinding bid), db)
   | Some t \<Rightarrow> (case current_approved_snapshot env db t of
       Inl e \<Rightarrow> (Inl e, db)
     | Inr (refs, n) \<Rightarrow>
         (let v = mt_version t + 1; db = update_table bid (\<lambda>t. t\<lparr>mt_version := v\<rparr>) db
          in (Inr v, db\<lparr>ad_versions := ad_versions db @ [\<lparr>tv_binding = bid, tv_version = v, tv_refs = refs, tv_check_count = n,
               tv_created_by = Some user, tv_refrozen = None\<rparr>]\<rparr>))))"

definition has_nonempty_snapshot :: "app_db \<Rightarrow> string \<Rightarrow> nat \<Rightarrow> bool" where
  "has_nonempty_snapshot db bid v = (case snapshot_of db bid v of None \<Rightarrow> False | Some tv \<Rightarrow> tv_refs tv \<noteq> [])"

definition refreeze_current :: "app_env \<Rightarrow> string \<Rightarrow> int \<Rightarrow> app_db \<Rightarrow> (version_error + unit) \<times> app_db" where
  "refreeze_current env bid now db = (case get_binding db bid of
     None \<Rightarrow> (Inl (NoSuchBinding bid), db)
   | Some t \<Rightarrow>
       (if mt_version t = 0 then (Inr (), db)
        else (case current_approved_snapshot env db t of
          Inl e \<Rightarrow> (Inl e, db)
        | Inr (refs, n) \<Rightarrow>
            (if refs = [] \<and> has_nonempty_snapshot db bid (mt_version t) then (Inr (), db)
             else (Inr (), db\<lparr>ad_versions := map (\<lambda>tv. if tv_binding tv = bid \<and> tv_version tv = mt_version t
               then tv\<lparr>tv_refs := refs, tv_check_count := n, tv_refrozen := Some now\<rparr> else tv) (ad_versions db)\<rparr>)))))"

text \<open>\<open>refreeze_for_quality_rule\<close>, called after the status of one check changed.\<close>

definition resolve_applied_rule_id :: "app_db \<Rightarrow> string \<Rightarrow> string option" where
  "resolve_applied_rule_id db i = (case row_by_id db i of None \<Rightarrow> None | Some row \<Rightarrow> opt_str (rw_applied_id row))"

definition resolve_binding_id :: "app_db \<Rightarrow> string \<Rightarrow> string option" where
  "resolve_binding_id db aid = (case find (\<lambda>ap. ap_id ap = aid) (ad_applied db) of
     None \<Rightarrow> None | Some ap \<Rightarrow> opt_str (Some (ap_binding ap)))"

definition refreeze_for_quality_rule :: "app_env \<Rightarrow> string \<Rightarrow> int \<Rightarrow> app_db \<Rightarrow> (version_error + string option) \<times> app_db" where
  "refreeze_for_quality_rule env i now db =
     (case Option.bind (resolve_applied_rule_id db i) (resolve_binding_id db) of
        None \<Rightarrow> (Inr None, db)
      | Some bid \<Rightarrow> (case refreeze_current env bid now db of (Inl e, db) \<Rightarrow> (Inl e, db) | (Inr _, db) \<Rightarrow> (Inr (Some bid), db)))"

subsection \<open>Reading a version\<close>

definition list_versions :: "app_db \<Rightarrow> string \<Rightarrow> table_version list" where
  "list_versions db bid = rev (sort_key tv_version (filter (\<lambda>tv. tv_binding tv = bid) (ad_versions db)))"

definition applied_of_ref :: "string \<Rightarrow> rule_ref \<Rightarrow> applied_rule" where
  "applied_of_ref bid rf = \<lparr>ap_id = rf_applied_id rf, ap_binding = bid, ap_rule_id = rf_rule_id rf,
     ap_pinned = Some (rf_registry_version rf), ap_severity_override = rf_severity_override rf,
     ap_pass_threshold = rf_pass_threshold rf, ap_mapping = rf_mapping rf, ap_tags = rf_tags rf, ap_created_by = None\<rparr>"

definition render_applied_checks ::
    "app_env \<Rightarrow> registry_db \<Rightarrow> string \<Rightarrow> applied_rule list \<Rightarrow> mat_error + rendered_check list" where
  "render_applied_checks env reg fqn aps = render_all (ae_mat env) reg fqn (filter (\<lambda>ap. ap_id ap \<noteq> []) aps)"

definition get_checks :: "app_env \<Rightarrow> app_db \<Rightarrow> string \<Rightarrow> nat \<Rightarrow> version_error + rendered_check list" where
  "get_checks env db bid v = (case snapshot_of db bid v of
     None \<Rightarrow> Inl (NoSnapshot bid v)
   | Some tv \<Rightarrow>
       (if tv_refs tv = [] then Inr []
        else (case get_binding db bid of
          None \<Rightarrow> Inr []
        | Some t \<Rightarrow> if mt_fqn t = [] then Inr []
            else smap_err RenderRaised (render_applied_checks env (ad_registry db) (mt_fqn t) (map (applied_of_ref bid) (tv_refs tv))))))"

text \<open>The counts of pinned versions: applied rules and checks.\<close>

definition snapshot_counts_many :: "app_db \<Rightarrow> (string \<times> nat) list \<Rightarrow> ((string \<times> nat) \<times> nat \<times> nat) list" where
  "snapshot_counts_many db pins = map (\<lambda>tv. ((tv_binding tv, tv_version tv), length (tv_refs tv), tv_check_count tv))
     (filter (\<lambda>tv. (tv_binding tv, tv_version tv) \<in> set pins) (ad_versions db))"

end
