(* ===== verification/Table_Review.thy ===== *)
theory Table_Review
  imports Table_Versions Py_Text
begin

section \<open>The review of a monitored table (\<open>routes/v1/monitored_tables.py\<close>, \<open>draft_run_gate_service.py\<close>)\<close>

text \<open>
  The routes that submit, approve, reject and withdraw a monitored table, which compose the services:
  the gate of the draft run, the materializer, the transitions of the checks, the status of the table
  and the frozen version. A request takes one instant. What a route does before it raises stays; the
  permission predicate of the caller and the rows of \<open>dq_validation_runs\<close> are parameters.
\<close>

subsection \<open>The draft-run gate\<close>

text \<open>A run: its table, status, type and instant; \<open>NULL\<close> is \<open>None\<close>.\<close>

record validation_run =
  vr_table :: string
  vr_status :: "string option"
  vr_type :: "string option"
  vr_created_at :: int

definition qualifying_run :: "string list \<Rightarrow> int option \<Rightarrow> validation_run \<Rightarrow> bool" where
  "qualifying_run fqns since run \<longleftrightarrow> vr_table run \<in> set fqns
     \<and> (case vr_status run of None \<Rightarrow> False | Some s \<Rightarrow> py_upper s \<noteq> ''RUNNING'')
     \<and> or_else (vr_type run) ''dryrun'' \<noteq> ''preview''
     \<and> (case since of None \<Rightarrow> True | Some s \<Rightarrow> s \<le> vr_created_at run)"

definition concrete_fqns :: "string list \<Rightarrow> string list" where
  "concrete_fqns fqns = filter (\<lambda>f. f \<noteq> [] \<and> \<not> py_startswith f synthetic_prefix) (fromkeys fqns)"

definition has_any_run :: "validation_run list \<Rightarrow> string list \<Rightarrow> int option \<Rightarrow> bool" where
  "has_any_run runs fqns since =
     (let concrete = concrete_fqns fqns in concrete \<noteq> [] \<and> list_ex (qualifying_run concrete since) runs)"

datatype review_error =
    NoSuchTable string
  | NotPendingReview table_status
  | DraftRunRequired
  | DraftRunStale
  | MaterializationFailed mat_error
  | TableFailed table_error
  | FreezeFailed version_error

definition enforce_draft_run :: "bool \<Rightarrow> validation_run list \<Rightarrow> string list \<Rightarrow> int option \<Rightarrow> review_error + unit" where
  "enforce_draft_run enabled runs fqns last_change =
     (if \<not> enabled then Inr ()
      else (let concrete = concrete_fqns fqns in
        if concrete = [] then Inr ()
        else if has_any_run runs concrete last_change then Inr ()
        else if last_change \<noteq> None \<and> has_any_run runs concrete None then Inl DraftRunStale
        else Inl DraftRunRequired))"

subsection \<open>Approvals mode (\<open>common/approvals.py\<close>)\<close>

datatype approval_mode = ApprovalsEnabled | AutoBypass | ApprovalsDisabled

definition normalize_approvals_mode :: "string option \<Rightarrow> approval_mode" where
  "normalize_approvals_mode raw = (case raw of None \<Rightarrow> ApprovalsEnabled
   | Some s \<Rightarrow> dict_get_or [(''enabled'', ApprovalsEnabled), (''auto_bypass'', AutoBypass), (''disabled'', ApprovalsDisabled)]
       (py_lower (py_strip s)) ApprovalsEnabled)"

definition should_auto_approve :: "approval_mode \<Rightarrow> bool \<Rightarrow> bool" where
  "should_auto_approve mode can = (case mode of ApprovalsDisabled \<Rightarrow> True | AutoBypass \<Rightarrow> can | ApprovalsEnabled \<Rightarrow> False)"

definition auto_approver_suffix :: string where
  "auto_approver_suffix = '' (auto)''"

definition mark_auto_approver :: "string \<Rightarrow> string" where
  "mark_auto_approver user = (if py_endswith user auto_approver_suffix then user else user @ auto_approver_suffix)"

record review_env =
  rv_app :: app_env
  rv_require_draft_run :: bool
  rv_approvals_mode :: "string option"

subsection \<open>The transitions\<close>

text \<open>A check that fails is passed over. The list is read once, before the first transition.\<close>

fun transition_each ::
    "app_env \<Rightarrow> (string \<times> check_status) list \<Rightarrow> check_status \<Rightarrow> check_status \<Rightarrow> string \<Rightarrow> app_db \<Rightarrow> nat \<times> app_db" where
  "transition_each env [] from_st to_st user db = (0, db)"
| "transition_each env ((i, st) # xs) from_st to_st user db =
     (if st \<noteq> from_st then transition_each env xs from_st to_st user db
      else (case set_check_status env i (check_status_value to_st) user None db of
        (Inl e, db) \<Rightarrow> transition_each env xs from_st to_st user db
      | (Inr _, db) \<Rightarrow> (let (n, db) = transition_each env xs from_st to_st user db in (Suc n, db))))"

definition transition_binding_checks ::
    "app_env \<Rightarrow> string \<Rightarrow> check_status \<Rightarrow> check_status \<Rightarrow> string \<Rightarrow> app_db \<Rightarrow> nat \<times> app_db" where
  "transition_binding_checks env bid from_st to_st user db =
     transition_each env (list_materialized_rule_statuses db bid) from_st to_st user db"

definition rollup_binding_status :: "app_db \<Rightarrow> string \<Rightarrow> string" where
  "rollup_binding_status db bid = rollup_of (set (map snd (list_materialized_rule_statuses db bid)))"

text \<open>The response: the table, the number of checks moved and the new version.\<close>

type_synonym review_result = "monitored_table \<times> nat \<times> nat option"

definition approve_binding_checks ::
    "app_env \<Rightarrow> string \<Rightarrow> string \<Rightarrow> string option \<Rightarrow> int \<Rightarrow> app_db \<Rightarrow> (review_error + review_result) \<times> app_db" where
  "approve_binding_checks env bid approver why now db =
     (let (n, db) = transition_binding_checks env bid CheckPending CheckApproved approver db in
      case set_table_status bid (rollup_binding_status db bid) approver why True now db of
        (Inl e, db) \<Rightarrow> (Inl (TableFailed e), db)
      | (Inr t, db) \<Rightarrow> (case freeze_new_version env bid approver db of
          (Inl e, db) \<Rightarrow> (Inl (FreezeFailed e), db)
        | (Inr v, db) \<Rightarrow> (Inr (t, n, Some v), db)))"

definition submit_table ::
    "review_env \<Rightarrow> validation_run list \<Rightarrow> bool \<Rightarrow> string \<Rightarrow> string \<Rightarrow> string option \<Rightarrow> int \<Rightarrow> app_db
     \<Rightarrow> (review_error + review_result) \<times> app_db" where
  "submit_table rv runs can bid user why now db =
     (let env = rv_app rv in
      case get_binding db bid of
        None \<Rightarrow> (Inl (NoSuchTable bid), db)
      | Some t \<Rightarrow> (case enforce_draft_run (rv_require_draft_run rv) runs [mt_fqn t] (Some (mt_updated_at t)) of
          Inl e \<Rightarrow> (Inl e, db)
        | Inr _ \<Rightarrow> (case materialize_table env bid db of
            (Inl e, db) \<Rightarrow> (Inl (MaterializationFailed e), db)
          | (Inr _, db) \<Rightarrow>
              (let (_, db) = transition_binding_checks env bid CheckRejected CheckDraft user db;
                   (n, db) = transition_binding_checks env bid CheckDraft CheckPending user db
               in case set_table_status bid (rollup_binding_status db bid) user why True now db of
                    (Inl e, db) \<Rightarrow> (Inl (TableFailed e), db)
                  | (Inr t, db) \<Rightarrow>
                      if should_auto_approve (normalize_approvals_mode (rv_approvals_mode rv)) can
                      then approve_binding_checks env bid (mark_auto_approver user) why now db
                      else (Inr (t, n, None), db)))))"

definition require_pending :: "app_db \<Rightarrow> string \<Rightarrow> review_error + monitored_table" where
  "require_pending db bid = (case get_binding db bid of
     None \<Rightarrow> Inl (NoSuchTable bid)
   | Some t \<Rightarrow> if mt_status t \<noteq> TablePending then Inl (NotPendingReview (mt_status t)) else Inr t)"

definition approve_table ::
    "app_env \<Rightarrow> string \<Rightarrow> string \<Rightarrow> string option \<Rightarrow> int \<Rightarrow> app_db \<Rightarrow> (review_error + review_result) \<times> app_db" where
  "approve_table env bid user why now db = (case require_pending db bid of
     Inl e \<Rightarrow> (Inl e, db) | Inr _ \<Rightarrow> approve_binding_checks env bid user why now db)"

definition close_review ::
    "app_env \<Rightarrow> check_status \<Rightarrow> string \<Rightarrow> string \<Rightarrow> string \<Rightarrow> string option \<Rightarrow> int \<Rightarrow> app_db
     \<Rightarrow> (review_error + review_result) \<times> app_db" where
  "close_review env to_st status bid user why now db = (case require_pending db bid of
     Inl e \<Rightarrow> (Inl e, db)
   | Inr _ \<Rightarrow>
       (let (n, db) = transition_binding_checks env bid CheckPending to_st user db in
        case set_table_status bid status user why True now db of
          (Inl e, db) \<Rightarrow> (Inl (TableFailed e), db) | (Inr t, db) \<Rightarrow> (Inr (t, n, None), db)))"

definition reject_table ::
    "app_env \<Rightarrow> string \<Rightarrow> string \<Rightarrow> string option \<Rightarrow> int \<Rightarrow> app_db \<Rightarrow> (review_error + review_result) \<times> app_db" where
  "reject_table env bid user why now db = close_review env CheckRejected ''rejected'' bid user why now db"

definition revert_table ::
    "app_env \<Rightarrow> string \<Rightarrow> string \<Rightarrow> int \<Rightarrow> app_db \<Rightarrow> (review_error + review_result) \<times> app_db" where
  "revert_table env bid user now db = close_review env CheckDraft ''draft'' bid user None now db"

end
