(* ===== verification/Table_Runs.thy ===== *)
theory Table_Runs
  imports Table_Review
begin

section \<open>Runs of a monitored table (\<open>binding_run_service.py\<close>, \<open>run_sets.py\<close>)\<close>

text \<open>
  A run resolves the checks of a table, stamps its provenance on them, submits a job and files the run
  under a run set. The job service, the views it reads through and the failures of a single write are
  parameters; the row a run leaves in \<open>dq_validation_runs\<close> is state. A failed write of that row is only
  logged. The counts the runner adds later are left out.
\<close>

subsection \<open>State\<close>

datatype run_source = RunApproved | RunDraft
datatype run_trigger = RunManual | RunScheduled

record run_row = validation_run +
  vr_run_id :: string
  vr_user :: string

record run_set =
  rs_id :: string
  rs_product :: "string option"
  rs_product_version :: "int option"
  rs_source :: run_source
  rs_trigger :: run_trigger
  rs_created_by :: "string option"
  rs_created_at :: int

record run_member =
  rm_set :: string
  rm_run :: string
  rm_binding :: string
  rm_version :: "int option"

record run_db =
  rb_app :: app_db
  rb_runs :: "run_row list"
  rb_sets :: "run_set list"
  rb_members :: "run_member list"
  rb_views :: "string list"

text \<open>The configuration of a job.\<close>

record run_config =
  cf_checks :: "json_dict list"
  cf_sample :: int
  cf_table :: string
  cf_is_sql :: bool
  cf_run_type :: string
  cf_custom_metrics :: "string list"

text \<open>
  The settings; the view service, which yields the name of a new view of a table or of a query, or
  fails; the job service, which yields the id of the job, or fails; whether the row of a run and the
  row of a member are written.
\<close>

record run_env =
  re_app :: app_env
  re_draft_limit :: "int option"
  re_custom_metrics :: "string list"
  re_table_view :: "string \<Rightarrow> string option"
  re_query_view :: "string \<Rightarrow> string option"
  re_submit :: "string \<Rightarrow> run_config \<Rightarrow> string \<Rightarrow> string \<Rightarrow> int option"
  re_placeholder_ok :: "string \<Rightarrow> bool"
  re_member_ok :: "string \<Rightarrow> bool"

datatype run_error =
    BindingNotFound string
  | MissingSnapshot string int
  | NeverApproved string
  | ChecksFailed version_error
  | RenderFailed mat_error
  | NoChecksResolved string
  | MissingSqlQuery string
  | MalformedRunCheck
  | ViewFailed
  | SubmitFailed
  | MemberFailed

definition draw_run_id :: "run_env \<Rightarrow> run_db \<Rightarrow> string \<times> run_db" where
  "draw_run_id re rb = (let (i, db) = draw_id (re_app re) (rb_app rb) in (i, rb\<lparr>rb_app := db\<rparr>))"

subsection \<open>Run sets\<close>

definition create_run_set ::
    "run_env \<Rightarrow> string option \<Rightarrow> int option \<Rightarrow> run_source \<Rightarrow> run_trigger \<Rightarrow> string option \<Rightarrow> int \<Rightarrow> run_db \<Rightarrow> string \<times> run_db" where
  "create_run_set re product version source trigger user now rb =
     (let (i, rb) = draw_run_id re rb in
      (i, rb\<lparr>rb_sets := rb_sets rb @ [\<lparr>rs_id = i, rs_product = opt_str product, rs_product_version = version,
         rs_source = source, rs_trigger = trigger, rs_created_by = opt_str user, rs_created_at = now\<rparr>]\<rparr>))"

definition add_run_member :: "run_env \<Rightarrow> string \<Rightarrow> string \<Rightarrow> string \<Rightarrow> int option \<Rightarrow> run_db \<Rightarrow> (run_error + unit) \<times> run_db" where
  "add_run_member re set_id run bid version rb =
     (if re_member_ok re run
      then (Inr (), rb\<lparr>rb_members := rb_members rb @ [\<lparr>rm_set = set_id, rm_run = run, rm_binding = bid, rm_version = version\<rparr>]\<rparr>)
      else (Inl MemberFailed, rb))"

definition delete_empty_set :: "string \<Rightarrow> run_db \<Rightarrow> run_db" where
  "delete_empty_set set_id rb = rb\<lparr>rb_sets := filter (\<lambda>s. rs_id s \<noteq> set_id) (rb_sets rb)\<rparr>"

text \<open>Running beats failed beats canceled beats success; a missing status counts for nothing.\<close>

definition aggregate_status :: "string option list \<Rightarrow> string" where
  "aggregate_status statuses =
     (let upper = set (map py_upper (filter (\<lambda>s. s \<noteq> []) (List.map_filter (\<lambda>s. s) statuses))) in
      if ''RUNNING'' \<in> upper then ''running''
      else if ''FAILED'' \<in> upper then ''failed''
      else if ''CANCELED'' \<in> upper then ''canceled''
      else ''success'')"

text \<open>The row of a run: a finished one before the placeholder, and of several the latest.\<close>

definition run_rank :: "run_row \<Rightarrow> int \<times> int" where
  "run_rank row = (if vr_status row = Some ''RUNNING'' then 1 else 0, - vr_created_at row)"

definition latest_run_row :: "run_db \<Rightarrow> string \<Rightarrow> run_row option" where
  "latest_run_row rb run = (case sort_key run_rank (filter (\<lambda>row. vr_run_id row = run) (rb_runs rb)) of
     [] \<Rightarrow> None | row # _ \<Rightarrow> Some row)"

definition members_of_set :: "run_db \<Rightarrow> string \<Rightarrow> run_member list" where
  "members_of_set rb set_id = filter (\<lambda>m. rm_set m = set_id) (rb_members rb)"

definition member_statuses :: "run_db \<Rightarrow> string \<Rightarrow> string option list" where
  "member_statuses rb set_id =
     map (\<lambda>m. Option.bind (latest_run_row rb (rm_run m)) vr_status) (members_of_set rb set_id)"

text \<open>\<open>get\<close>: a run set with its status and, for each member, the table and the status of its run.\<close>

definition get_run_set ::
    "run_db \<Rightarrow> string \<Rightarrow> (run_set \<times> string \<times> (run_member \<times> string option \<times> string option) list) option" where
  "get_run_set rb set_id = map_option (\<lambda>s. (s, aggregate_status (member_statuses rb set_id),
     map (\<lambda>m. (m, map_option vr_table (latest_run_row rb (rm_run m)), Option.bind (latest_run_row rb (rm_run m)) vr_status))
       (members_of_set rb set_id)))
     (find (\<lambda>s. rs_id s = set_id) (rb_sets rb))"

definition list_sets_for_product :: "run_db \<Rightarrow> string \<Rightarrow> nat \<Rightarrow> (run_set \<times> nat \<times> string) list" where
  "list_sets_for_product rb product limit =
     map (\<lambda>s. (s, length (members_of_set rb (rs_id s)), aggregate_status (member_statuses rb (rs_id s))))
       (take limit (sort_key (\<lambda>s. - rs_created_at s) (filter (\<lambda>s. rs_product s = Some product) (rb_sets rb))))"

definition run_set_ids_by_run_id :: "run_db \<Rightarrow> string list \<Rightarrow> (string, string) dict" where
  "run_set_ids_by_run_id rb runs = fold (\<lambda>m d. dict_set d (rm_run m) (rm_set m))
     (filter (\<lambda>m. rm_run m \<in> set runs \<and> rm_run m \<noteq> [] \<and> rm_set m \<noteq> []) (rb_members rb)) []"

subsection \<open>The checks of a run\<close>

definition run_mode_text :: "run_source \<Rightarrow> string" where
  "run_mode_text source = (case source of RunDraft \<Rightarrow> ''draft'' | RunApproved \<Rightarrow> ''published'')"

definition stamp_run_provenance :: "json_dict list \<Rightarrow> string \<Rightarrow> int option \<Rightarrow> json_dict list" where
  "stamp_run_provenance checks mode version =
     (let tags = (''run_mode'', JStr mode) # (case version of None \<Rightarrow> [] | Some v \<Rightarrow> [(''binding_version'', JStr (int_str v))])
      in map (\<lambda>c. dict_set c ''user_metadata''
           (JDict (dict_update (case dict_get c ''user_metadata'' of Some (JDict d) \<Rightarrow> d | _ \<Rightarrow> []) tags))) checks)"

text \<open>The query of the first \<open>sql_query\<close> check.\<close>

fun extract_sql_query :: "json_dict list \<Rightarrow> run_error + json option" where
  "extract_sql_query [] = Inr None"
| "extract_sql_query (c # cs) = (case or_empty_dict (dict_get c ''check'') of
     JDict inner \<Rightarrow>
       (if dict_get inner ''function'' \<noteq> Some (JStr ''sql_query'') then extract_sql_query cs
        else (case dict_get_or inner ''arguments'' (JDict []) of
          JDict args \<Rightarrow> Inr (dict_get args ''query'') | _ \<Rightarrow> Inl MalformedRunCheck))
   | _ \<Rightarrow> Inl MalformedRunCheck)"

definition filter_by_registry_rules :: "string list option \<Rightarrow> json_dict list \<Rightarrow> json_dict list" where
  "filter_by_registry_rules rule_ids checks =
     (if rule_ids = None \<or> rule_ids = Some [] then checks
      else filter (\<lambda>c. case dict_get c ''user_metadata'' of
        Some (JDict md) \<Rightarrow> (case dict_get md ''registry_rule_id'' of Some (JStr r) \<Rightarrow> r \<in> set (the rule_ids) | _ \<Rightarrow> False)
      | _ \<Rightarrow> False) checks)"

definition resolve_checks ::
    "run_env \<Rightarrow> app_db \<Rightarrow> string \<Rightarrow> nat \<Rightarrow> run_source \<Rightarrow> int option \<Rightarrow> string list option
     \<Rightarrow> run_error + json_dict list \<times> int option" where
  "resolve_checks re db bid current source version rule_ids = (case source of
     RunDraft \<Rightarrow> (case render_binding_checks (ae_mat (re_app re)) bid rule_ids (studio_of db) of
       Inl e \<Rightarrow> Inl (RenderFailed e) | Inr cs \<Rightarrow> Inr (map check_json cs, None))
   | RunApproved \<Rightarrow>
       (let pinned = or_else version (int current) in
        if version = None \<and> current = 0 then Inl (NeverApproved bid)
        else if pinned < 0 then Inl (MissingSnapshot bid pinned)
        else (case get_checks (re_app re) db bid (nat pinned) of
          Inl (NoSnapshot b v) \<Rightarrow> Inl (MissingSnapshot bid pinned)
        | Inl e \<Rightarrow> Inl (ChecksFailed e)
        | Inr cs \<Rightarrow> Inr (filter_by_registry_rules rule_ids (map check_json cs), Some pinned))))"

subsection \<open>Running a table\<close>

definition run_type_text :: "run_trigger \<Rightarrow> string" where
  "run_type_text trigger = (case trigger of RunScheduled \<Rightarrow> ''scheduled'' | RunManual \<Rightarrow> ''dryrun'')"

definition resolved_sample :: "run_env \<Rightarrow> run_source \<Rightarrow> int option \<Rightarrow> int" where
  "resolved_sample re source sample = (case sample of Some n \<Rightarrow> n
   | None \<Rightarrow> (case source of RunApproved \<Rightarrow> 0 | RunDraft \<Rightarrow> or_else (re_draft_limit re) 0))"

text \<open>The view of the table, or of the query of a cross-table check.\<close>

definition run_view :: "run_env \<Rightarrow> string \<Rightarrow> json_dict list \<Rightarrow> run_error + string \<times> bool" where
  "run_view re fqn checks =
     (if py_startswith fqn synthetic_prefix
      then sbind (extract_sql_query checks) (\<lambda>query. case query of
        None \<Rightarrow> Inl (MissingSqlQuery fqn)
      | Some q \<Rightarrow> if \<not> truthy q then Inl (MissingSqlQuery fqn)
          else (case q of JStr s \<Rightarrow> (case re_query_view re s of None \<Rightarrow> Inl ViewFailed | Some v \<Rightarrow> Inr (v, True))
                | _ \<Rightarrow> Inl ViewFailed))
      else (case re_table_view re fqn of None \<Rightarrow> Inl ViewFailed | Some v \<Rightarrow> Inr (v, False)))"

definition record_dryrun_started ::
    "run_env \<Rightarrow> string \<Rightarrow> string \<Rightarrow> string \<Rightarrow> string \<Rightarrow> int \<Rightarrow> run_db \<Rightarrow> run_db" where
  "record_dryrun_started re run user fqn run_type now rb =
     (if re_placeholder_ok re run
      then rb\<lparr>rb_runs := rb_runs rb @ [\<lparr>vr_table = fqn, vr_status = Some ''RUNNING'', vr_type = Some run_type,
        vr_created_at = now, vr_run_id = run, vr_user = user\<rparr>]\<rparr>
      else rb)"

record run_request =
  rn_source :: run_source
  rn_version :: "int option"
  rn_user :: string
  rn_trigger :: run_trigger
  rn_set :: "string option"
  rn_rules :: "string list option"
  rn_sample :: "int option"

record run_result =
  rn_run_set :: string
  rn_run :: string
  rn_job :: int
  rn_view :: string

definition submit_run :: "run_env \<Rightarrow> run_request \<Rightarrow> string \<Rightarrow> json_dict list \<Rightarrow> string \<Rightarrow> string \<times> bool \<Rightarrow> int option" where
  "submit_run re rq fqn checks run view = re_submit re (fst view)
     \<lparr>cf_checks = checks, cf_sample = resolved_sample re (rn_source rq) (rn_sample rq), cf_table = fqn, cf_is_sql = snd view,
      cf_run_type = run_type_text (rn_trigger rq), cf_custom_metrics = re_custom_metrics re\<rparr> run (rn_user rq)"

text \<open>The run set a submitted run joins, or one of its own, which goes again when the run cannot join it.\<close>

definition join_run_set ::
    "run_env \<Rightarrow> run_request \<Rightarrow> string \<Rightarrow> string \<Rightarrow> int option \<Rightarrow> int \<Rightarrow> run_db \<Rightarrow> (run_error + string) \<times> run_db" where
  "join_run_set re rq run bid version now rb =
     (let (set_id, rb) = (if rn_set rq = None \<or> rn_set rq = Some []
            then create_run_set re None None (rn_source rq) (rn_trigger rq) (Some (rn_user rq)) now rb
            else (the (rn_set rq), rb))
      in case add_run_member re set_id run bid version rb of
        (Inr _, rb) \<Rightarrow> (Inr set_id, rb)
      | (Inl e, rb) \<Rightarrow> (Inl e, if rn_set rq = None then delete_empty_set set_id rb else rb))"

definition run_binding :: "run_env \<Rightarrow> string \<Rightarrow> run_request \<Rightarrow> int \<Rightarrow> run_db \<Rightarrow> (run_error + run_result) \<times> run_db" where
  "run_binding re bid rq now rb = (case get_binding (rb_app rb) bid of
     None \<Rightarrow> (Inl (BindingNotFound bid), rb)
   | Some t \<Rightarrow> (case resolve_checks re (rb_app rb) bid (mt_version t) (rn_source rq) (rn_version rq) (rn_rules rq) of
       Inl e \<Rightarrow> (Inl e, rb)
     | Inr (checks, version) \<Rightarrow>
         if checks = [] then (Inl (NoChecksResolved bid), rb)
         else (let checks = stamp_run_provenance checks (run_mode_text (rn_source rq)) version;
                   (run, rb) = draw_run_id re rb
           in case run_view re (mt_fqn t) checks of
             Inl e \<Rightarrow> (Inl e, rb)
           | Inr view \<Rightarrow>
               (let rb = rb\<lparr>rb_views := fst view # rb_views rb\<rparr> in
                case submit_run re rq (mt_fqn t) checks run view of
                  None \<Rightarrow> (Inl SubmitFailed, rb\<lparr>rb_views := remove1 (fst view) (rb_views rb)\<rparr>)
                | Some job \<Rightarrow>
                    (let rb = record_dryrun_started re run (rn_user rq) (mt_fqn t) (run_type_text (rn_trigger rq)) now rb
                     in case join_run_set re rq run bid version now rb of
                       (Inl e, rb) \<Rightarrow> (Inl e, rb)
                     | (Inr set_id, rb) \<Rightarrow> (Inr \<lparr>rn_run_set = set_id, rn_run = run, rn_job = job, rn_view = fst view\<rparr>, rb))))))"

end
