(* ===== verification/Data_Products.thy ===== *)
theory Data_Products
  imports Table_Runs Tag_Reconcile
begin

section \<open>Table spaces (\<open>backend/services/data_product_service.py\<close>)\<close>

text \<open>
  A table space (data product) groups monitored tables and is reviewed like one: any edit of its
  definition or its members takes it back to draft, and only an approval bumps its version. Its members
  may be pinned to a frozen version of their table. The directory that finds the owner is a parameter.
  Scores, counters and the grants of a new space are left out. The unique key of the members is kept by
  the service; two concurrent additions are not modelled.
\<close>

subsection \<open>State\<close>

record data_product =
  dp_id :: string
  dp_name :: string
  dp_description :: "string option"
  dp_owner :: "string option"
  dp_owner_display_name :: "string option"
  dp_cron :: "string option"
  dp_tz :: "string option"
  dp_kind :: schedule_kind
  dp_sample_size :: "int option"
  dp_status :: table_status
  dp_version :: nat
  dp_pending_rationale :: "string option"
  dp_last_decision_rationale :: "string option"
  dp_created_by :: "string option"
  dp_updated_by :: "string option"
  dp_updated_at :: int

record product_member =
  pm_id :: string
  pm_product :: string
  pm_binding :: string
  pm_pinned :: "int option"

record product_db = run_db +
  pd_products :: "data_product list"
  pd_members :: "product_member list"

text \<open>A principal of the workspace: its identity, its display name, and whether it is a group.\<close>

record principal =
  pr_identity :: string
  pr_display :: "string option"
  pr_group :: bool

record product_env =
  pe_run :: run_env
  pe_lookup :: "string \<Rightarrow> principal option"

abbreviation pe_app :: "product_env \<Rightarrow> app_env" where
  "pe_app pe \<equiv> re_app (pe_run pe)"

datatype product_error =
    ProductNotFound string
  | EmptyProductName
  | DuplicateProductName string
  | MemberNotFound string
  | MemberBindingMissing string
  | BindingNotApproved string table_status nat
  | InvalidProductTransition table_status
  | NoRunnableMembers

definition canonicalize_owner :: "product_env \<Rightarrow> string option \<Rightarrow> string option \<times> string option" where
  "canonicalize_owner pe owner =
     (if py_strip (or_else owner []) = [] then (owner, None)
      else (case pe_lookup pe (py_strip (or_else owner [])) of
        None \<Rightarrow> (Some (py_strip (or_else owner [])), None)
      | Some p \<Rightarrow> (Some (pr_identity p), if pr_group p then None else pr_display p)))"

subsection \<open>Queries\<close>

definition fetch_product :: "product_db \<Rightarrow> string \<Rightarrow> data_product option" where
  "fetch_product pd pid = find (\<lambda>p. dp_id p = pid) (pd_products pd)"

definition fetch_members :: "product_db \<Rightarrow> string \<Rightarrow> product_member list" where
  "fetch_members pd pid = filter (\<lambda>m. pm_product m = pid) (pd_members pd)"

definition find_member :: "product_db \<Rightarrow> string \<Rightarrow> string \<Rightarrow> product_member option" where
  "find_member pd pid bid = find (\<lambda>m. pm_product m = pid \<and> pm_binding m = bid) (pd_members pd)"

definition update_product :: "string \<Rightarrow> (data_product \<Rightarrow> data_product) \<Rightarrow> product_db \<Rightarrow> product_db" where
  "update_product pid f pd = pd\<lparr>pd_products := map (\<lambda>p. if dp_id p = pid then f p else p) (pd_products pd)\<rparr>"

definition product_name_taken :: "product_db \<Rightarrow> string \<Rightarrow> string option \<Rightarrow> bool" where
  "product_name_taken pd name excluded = list_ex (\<lambda>p. dp_name p = name \<and> Some (dp_id p) \<noteq> excluded) (pd_products pd)"

definition display_status :: "data_product \<Rightarrow> string" where
  "display_status p = (case dp_status p of
     TableApproved \<Rightarrow> ''approved'' | TablePending \<Rightarrow> ''pending_approval'' | TableRejected \<Rightarrow> ''rejected''
   | TableDraft \<Rightarrow> if 0 < dp_version p then ''modified'' else ''draft'')"

definition is_runnable :: "table_status \<Rightarrow> nat \<Rightarrow> bool" where
  "is_runnable st v \<longleftrightarrow> st = TableApproved \<and> 0 < v"

definition draw_product_id :: "product_env \<Rightarrow> product_db \<Rightarrow> string \<times> product_db" where
  "draw_product_id pe pd = (let (i, db) = draw_id (pe_app pe) (rb_app pd) in (i, pd\<lparr>rb_app := db\<rparr>))"

subsection \<open>Creating, editing and deleting\<close>

text \<open>Optional texts are stored through \<open>_opt_str\<close> by \<open>create\<close>, verbatim by \<open>update\<close>.\<close>

definition create_product ::
    "product_env \<Rightarrow> string \<Rightarrow> string option \<Rightarrow> string option \<Rightarrow> string \<Rightarrow> string option \<Rightarrow> int \<Rightarrow> product_db
     \<Rightarrow> (product_error + data_product) \<times> product_db" where
  "create_product pe name description owner user display now pd =
     (if py_strip name = [] then (Inl EmptyProductName, pd)
      else if product_name_taken pd name None then (Inl (DuplicateProductName name), pd)
      else (let resolved = str_or owner user;
                (resolved, display) = (case display of Some d \<Rightarrow> (resolved, Some d)
                  | None \<Rightarrow> (let (canonical, d) = canonicalize_owner pe (Some resolved) in (str_or canonical resolved, d)));
                (pid, pd) = draw_product_id pe pd;
                p = \<lparr>dp_id = pid, dp_name = name, dp_description = description, dp_owner = Some resolved,
                  dp_owner_display_name = display, dp_cron = None, dp_tz = None, dp_kind = DqOnly, dp_sample_size = None,
                  dp_status = TableDraft, dp_version = 0, dp_pending_rationale = None, dp_last_decision_rationale = None,
                  dp_created_by = Some user, dp_updated_by = Some user, dp_updated_at = now\<rparr>
            in (Inr p, pd\<lparr>pd_products := pd_products pd @ [p\<lparr>dp_description := opt_str description, dp_owner := opt_str (Some resolved),
                 dp_owner_display_name := opt_str display, dp_created_by := opt_str (Some user), dp_updated_by := opt_str (Some user)\<rparr>]\<rparr>)))"

text \<open>The fields a caller supplied: \<open>None\<close> is an absent key, \<open>Some None\<close> an explicit null.\<close>

record product_patch =
  pp_name :: "string option option"
  pp_description :: "string option option"
  pp_owner :: "string option option"
  pp_owner_display_name :: "string option option"
  pp_cron :: "string option option"
  pp_tz :: "string option option"
  pp_kind :: "schedule_kind option option"
  pp_sample_size :: "int option option"

definition touches_definition :: "product_patch \<Rightarrow> bool" where
  "touches_definition u \<longleftrightarrow> pp_name u \<noteq> None \<or> pp_description u \<noteq> None \<or> pp_owner u \<noteq> None \<or> pp_owner_display_name u \<noteq> None"

definition schedule_only :: "product_patch \<Rightarrow> bool" where
  "schedule_only u \<longleftrightarrow> \<not> touches_definition u
     \<and> (pp_cron u \<noteq> None \<or> pp_tz u \<noteq> None \<or> pp_kind u \<noteq> None \<or> pp_sample_size u \<noteq> None)"

definition patched_sample_size :: "product_patch \<Rightarrow> int option option" where
  "patched_sample_size u =
     (if pp_sample_size u \<noteq> None \<or> pp_cron u = Some None
      then Some (if pp_cron u = Some None then None else normalize_schedule_sample_size (or_else (pp_sample_size u) None))
      else None)"

definition resolve_patch_owner :: "product_env \<Rightarrow> product_patch \<Rightarrow> product_patch" where
  "resolve_patch_owner pe u = (case (pp_owner u, pp_owner_display_name u) of
     (Some owner, None) \<Rightarrow> (let (canonical, display) = canonicalize_owner pe owner in
       u\<lparr>pp_owner := Some (if opt_str canonical = None then owner else canonical), pp_owner_display_name := Some display\<rparr>)
   | _ \<Rightarrow> u)"

definition patch_product :: "product_patch \<Rightarrow> string \<Rightarrow> int \<Rightarrow> data_product \<Rightarrow> data_product" where
  "patch_product u user now p =
     p\<lparr>dp_name := or_else (or_else (pp_name u) None) (dp_name p),
       dp_description := or_else (pp_description u) (dp_description p),
       dp_owner := or_else (pp_owner u) (dp_owner p),
       dp_owner_display_name := or_else (pp_owner_display_name u) (dp_owner_display_name p),
       dp_cron := or_else (pp_cron u) (dp_cron p),
       dp_tz := or_else (pp_tz u) (dp_tz p),
       dp_kind := or_else (or_else (pp_kind u) None) (dp_kind p),
       dp_sample_size := or_else (patched_sample_size u) (dp_sample_size p),
       dp_status := (if schedule_only u then dp_status p else TableDraft),
       dp_updated_by := Some user, dp_updated_at := now\<rparr>"

definition update_data_product ::
    "product_env \<Rightarrow> string \<Rightarrow> product_patch \<Rightarrow> string \<Rightarrow> int \<Rightarrow> product_db \<Rightarrow> (product_error + data_product) \<times> product_db" where
  "update_data_product pe pid u user now pd = (case fetch_product pd pid of
     None \<Rightarrow> (Inl (ProductNotFound pid), pd)
   | Some p \<Rightarrow>
       (let name_ok = (case pp_name u of None \<Rightarrow> Inr ()
          | Some name \<Rightarrow> if py_strip (or_else name []) = [] then Inl EmptyProductName
              else if name \<noteq> Some (dp_name p) \<and> product_name_taken pd (or_else name []) (Some pid)
              then Inl (DuplicateProductName (or_else name [])) else Inr ());
            u = resolve_patch_owner pe u
        in case name_ok of
          Inl e \<Rightarrow> (Inl e, pd)
        | Inr _ \<Rightarrow> (Inr (patch_product u user now p), update_product pid (patch_product u user now) pd)))"

definition delete_product :: "string \<Rightarrow> product_db \<Rightarrow> (product_error + unit) \<times> product_db" where
  "delete_product pid pd = (case fetch_product pd pid of
     None \<Rightarrow> (Inl (ProductNotFound pid), pd)
   | Some p \<Rightarrow> (Inr (), pd\<lparr>pd_members := filter (\<lambda>m. pm_product m \<noteq> pid) (pd_members pd),
                          pd_products := filter (\<lambda>p. dp_id p \<noteq> pid) (pd_products pd)\<rparr>))"

subsection \<open>Members\<close>

definition flip_to_draft :: "string \<Rightarrow> string \<Rightarrow> int \<Rightarrow> product_db \<Rightarrow> product_db" where
  "flip_to_draft pid user now pd =
     update_product pid (\<lambda>p. p\<lparr>dp_status := TableDraft, dp_updated_by := Some user, dp_updated_at := now\<rparr>) pd"

definition require_approved_binding :: "app_db \<Rightarrow> string \<Rightarrow> product_error + monitored_table" where
  "require_approved_binding db bid = (case get_binding db bid of
     None \<Rightarrow> Inl (MemberBindingMissing bid)
   | Some t \<Rightarrow> if is_runnable (mt_status t) (mt_version t) then Inr t
       else Inl (BindingNotApproved (mt_fqn t) (mt_status t) (mt_version t)))"

definition add_product_member ::
    "product_env \<Rightarrow> string \<Rightarrow> string \<Rightarrow> int option \<Rightarrow> string \<Rightarrow> int \<Rightarrow> product_db
     \<Rightarrow> (product_error + product_member) \<times> product_db" where
  "add_product_member pe pid bid pinned user now pd = (case fetch_product pd pid of
     None \<Rightarrow> (Inl (ProductNotFound pid), pd)
   | Some p \<Rightarrow> (case find_member pd pid bid of
       Some m \<Rightarrow>
         (let pd = pd\<lparr>pd_members := map (\<lambda>q. if pm_id q = pm_id m then q\<lparr>pm_pinned := pinned\<rparr> else q) (pd_members pd)\<rparr>
          in (Inr (m\<lparr>pm_pinned := pinned\<rparr>), flip_to_draft pid user now pd))
     | None \<Rightarrow> (case require_approved_binding (rb_app pd) bid of
         Inl e \<Rightarrow> (Inl e, pd)
       | Inr t \<Rightarrow>
           (let (mid, pd) = draw_product_id pe pd;
                m = \<lparr>pm_id = mid, pm_product = pid, pm_binding = bid,
                     pm_pinned = resolve_pinned_version (pe_app pe) pinned (mt_version t)\<rparr>
            in (Inr m, flip_to_draft pid user now (pd\<lparr>pd_members := pd_members pd @ [m]\<rparr>))))))"

definition remove_product_member :: "string \<Rightarrow> string \<Rightarrow> string \<Rightarrow> int \<Rightarrow> product_db \<Rightarrow> (product_error + unit) \<times> product_db" where
  "remove_product_member pid mid user now pd = (case fetch_product pd pid of
     None \<Rightarrow> (Inl (ProductNotFound pid), pd)
   | Some p \<Rightarrow>
       if \<not> list_ex (\<lambda>m. pm_id m = mid \<and> pm_product m = pid) (pd_members pd) then (Inl (MemberNotFound mid), pd)
       else (Inr (), flip_to_draft pid user now (pd\<lparr>pd_members := filter (\<lambda>m. pm_id m \<noteq> mid) (pd_members pd)\<rparr>)))"

subsection \<open>Review\<close>

text \<open>A review step reads the space, requires a status, and writes what it decides.\<close>

definition review_product ::
    "(table_status \<Rightarrow> bool) \<Rightarrow> (data_product \<Rightarrow> data_product) \<Rightarrow> string \<Rightarrow> product_db
     \<Rightarrow> (product_error + data_product) \<times> product_db" where
  "review_product allowed f pid pd = (case fetch_product pd pid of
     None \<Rightarrow> (Inl (ProductNotFound pid), pd)
   | Some p \<Rightarrow> if \<not> allowed (dp_status p) then (Inl (InvalidProductTransition (dp_status p)), pd)
       else (Inr (f p), update_product pid f pd))"

definition submit_product :: "string \<Rightarrow> string \<Rightarrow> string option \<Rightarrow> int \<Rightarrow> product_db \<Rightarrow> (product_error + data_product) \<times> product_db" where
  "submit_product pid user why now = review_product (\<lambda>st. st \<noteq> TableApproved)
     (\<lambda>p. p\<lparr>dp_status := TablePending, dp_pending_rationale := why, dp_updated_by := Some user, dp_updated_at := now\<rparr>) pid"

definition approve_product :: "string \<Rightarrow> string \<Rightarrow> string option \<Rightarrow> int \<Rightarrow> product_db \<Rightarrow> (product_error + data_product) \<times> product_db" where
  "approve_product pid user why now = review_product (\<lambda>st. st = TablePending)
     (\<lambda>p. p\<lparr>dp_status := TableApproved, dp_version := dp_version p + 1, dp_pending_rationale := None,
        dp_last_decision_rationale := why, dp_updated_by := Some user, dp_updated_at := now\<rparr>) pid"

definition reject_product :: "string \<Rightarrow> string \<Rightarrow> string option \<Rightarrow> int \<Rightarrow> product_db \<Rightarrow> (product_error + data_product) \<times> product_db" where
  "reject_product pid user why now = review_product (\<lambda>st. st = TablePending)
     (\<lambda>p. p\<lparr>dp_status := TableRejected, dp_pending_rationale := None, dp_last_decision_rationale := why,
        dp_updated_by := Some user, dp_updated_at := now\<rparr>) pid"

definition revert_product :: "string \<Rightarrow> string \<Rightarrow> int \<Rightarrow> product_db \<Rightarrow> (product_error + data_product) \<times> product_db" where
  "revert_product pid user now = review_product (\<lambda>st. st = TablePending)
     (\<lambda>p. p\<lparr>dp_status := TableDraft, dp_pending_rationale := None, dp_updated_by := Some user, dp_updated_at := now\<rparr>) pid"

text \<open>The route that submits a space: the draft-run gate, the submission, and the auto-approving modes.\<close>

definition table_summary_map :: "product_db \<Rightarrow> string \<Rightarrow> monitored_table option" where
  "table_summary_map pd bid = find (\<lambda>t. mt_id t = bid) (list_monitored_tables (rb_app pd))"

definition member_details :: "product_db \<Rightarrow> string \<Rightarrow> (product_member \<times> monitored_table) list" where
  "member_details pd pid =
     List.map_filter (\<lambda>m. map_option (\<lambda>t. (m, t)) (table_summary_map pd (pm_binding m))) (fetch_members pd pid)"

datatype product_route_error = ProductFailed product_error | ProductGate review_error

definition submit_product_route ::
    "review_env \<Rightarrow> bool \<Rightarrow> string \<Rightarrow> string \<Rightarrow> string option \<Rightarrow> int \<Rightarrow> product_db
     \<Rightarrow> (product_route_error + data_product) \<times> product_db" where
  "submit_product_route rv can pid user why now pd = (case fetch_product pd pid of
     None \<Rightarrow> (Inl (ProductFailed (ProductNotFound pid)), pd)
   | Some p \<Rightarrow> (case enforce_draft_run (rv_require_draft_run rv) (map validation_run.truncate (rb_runs pd))
           (map (mt_fqn \<circ> snd) (member_details pd pid)) (Some (dp_updated_at p)) of
       Inl e \<Rightarrow> (Inl (ProductGate e), pd)
     | Inr _ \<Rightarrow> (case submit_product pid user why now pd of
         (Inl e, pd) \<Rightarrow> (Inl (ProductFailed e), pd)
       | (Inr p, pd) \<Rightarrow>
           (if should_auto_approve (normalize_approvals_mode (rv_approvals_mode rv)) can
            then (case approve_product pid (mark_auto_approver user) why now pd of
              (Inl e, pd) \<Rightarrow> (Inl (ProductFailed e), pd) | (Inr p, pd) \<Rightarrow> (Inr p, pd))
            else (Inr p, pd)))))"

subsection \<open>Running a table space\<close>

text \<open>The version a member runs at, or why it is skipped.\<close>

datatype skip_reason = BindingGone string | NeverApprovedTable string | RunFailed string run_error

definition plan_member :: "product_db \<Rightarrow> run_source \<Rightarrow> product_member \<Rightarrow> skip_reason + int option" where
  "plan_member pd source m = (case table_summary_map pd (pm_binding m) of
     None \<Rightarrow> Inl (BindingGone (pm_binding m))
   | Some t \<Rightarrow> (case source of
       RunDraft \<Rightarrow> Inr None
     | RunApproved \<Rightarrow> if pm_pinned m \<noteq> None then Inr (pm_pinned m)
         else if 0 < mt_version t then Inr None else Inl (NeverApprovedTable (mt_fqn t))))"

record member_run =
  mr_binding :: string
  mr_table :: string
  mr_run :: string
  mr_job :: int
  mr_view :: string
  mr_version :: "int option"

definition product_request :: "run_source \<Rightarrow> string \<Rightarrow> run_trigger \<Rightarrow> int option \<Rightarrow> string \<Rightarrow> int option \<Rightarrow> run_request" where
  "product_request source user trigger sample set_id version = \<lparr>rn_source = source, rn_version = version, rn_user = user,
     rn_trigger = trigger, rn_set = Some set_id, rn_rules = None, rn_sample = sample\<rparr>"

text \<open>The members that run, one after the other; a failure is skipped. What a submitted run records.\<close>

fun run_members ::
    "run_env \<Rightarrow> (int option \<Rightarrow> run_request) \<Rightarrow> int \<Rightarrow> (product_member \<times> string \<times> int option) list \<Rightarrow> run_db
     \<Rightarrow> (member_run list \<times> skip_reason list) \<times> run_db" where
  "run_members re request now [] rb = (([], []), rb)"
| "run_members re request now ((m, fqn, version) # ms) rb =
     (case run_binding re (pm_binding m) (request version) now rb of
        (Inl e, rb) \<Rightarrow> (let ((sent, skipped), rb) = run_members re request now ms rb in ((sent, RunFailed fqn e # skipped), rb))
      | (Inr r, rb) \<Rightarrow>
          (let ((sent, skipped), rb) = run_members re request now ms rb in
           ((\<lparr>mr_binding = pm_binding m, mr_table = fqn, mr_run = rn_run r, mr_job = rn_job r, mr_view = rn_view r,
              mr_version = (case rn_source (request version) of RunApproved \<Rightarrow> version | RunDraft \<Rightarrow> None)\<rparr> # sent, skipped), rb)))"

definition planned_members :: "product_db \<Rightarrow> run_source \<Rightarrow> string \<Rightarrow> (product_member \<times> string \<times> int option) list" where
  "planned_members pd source pid = List.map_filter (\<lambda>m. case plan_member pd source m of
     Inl _ \<Rightarrow> None
   | Inr v \<Rightarrow> Some (m, (case table_summary_map pd (pm_binding m) of None \<Rightarrow> [] | Some t \<Rightarrow> mt_fqn t), v)) (fetch_members pd pid)"

definition skipped_members :: "product_db \<Rightarrow> run_source \<Rightarrow> string \<Rightarrow> skip_reason list" where
  "skipped_members pd source pid =
     List.map_filter (\<lambda>m. case plan_member pd source m of Inl s \<Rightarrow> Some s | Inr _ \<Rightarrow> None) (fetch_members pd pid)"

definition put_runs :: "product_db \<Rightarrow> run_db \<Rightarrow> product_db" where
  "put_runs pd rb = run_db.extend rb (product_db.fields (pd_products pd) (pd_members pd))"

definition run_product ::
    "product_env \<Rightarrow> string \<Rightarrow> run_source \<Rightarrow> string \<Rightarrow> run_trigger \<Rightarrow> int option \<Rightarrow> int \<Rightarrow> product_db
     \<Rightarrow> (product_error + string \<times> member_run list \<times> skip_reason list) \<times> product_db" where
  "run_product pe pid source user trigger sample now pd = (case fetch_product pd pid of
     None \<Rightarrow> (Inl (ProductNotFound pid), pd)
   | Some p \<Rightarrow>
       (let todo = planned_members pd source pid; skipped = skipped_members pd source pid in
        if todo = [] then (Inl NoRunnableMembers, pd)
        else (let (set_id, rb) = create_run_set (pe_run pe) (Some pid) (Some (int (dp_version p))) source trigger (Some user) now
                    (run_db.truncate pd);
                  ((sent, failed), rb) = run_members (pe_run pe) (product_request source user trigger sample set_id) now todo rb;
                  rb = (if sent = [] then delete_empty_set set_id rb else rb)
              in (Inr (set_id, sent, skipped @ failed), put_runs pd rb))))"

text \<open>The tables a profiling run of a space covers.\<close>

definition member_table_fqns :: "product_db \<Rightarrow> string \<Rightarrow> string list" where
  "member_table_fqns pd pid =
     fromkeys (filter (\<lambda>f. f \<noteq> [] \<and> \<not> py_startswith f synthetic_prefix) (map (mt_fqn \<circ> snd) (member_details pd pid)))"

end
