(* ===== verification/Permissions.thy ===== *)
theory Permissions
  imports Access_Roles Data_Products
begin

section \<open>Permissions on objects (\<open>common/permissions.py\<close>, \<open>services/permissions_service.py\<close>)\<close>

text \<open>
  A grant gives a principal privileges on a rule, a table or a table space; a grant on a space that
  cascades also counts on its tables. Roles that approve pass without grants. The identifiers of the rows
  of grants, which nothing reads, and the order of listings are left out. The setting that shares
  new objects, and whether a query or the audit row succeeds, are parameters.
\<close>

subsection \<open>Privileges\<close>

datatype privilege = PSelect | PModify | PApply | PExecute | PManage | PAllPrivileges

fun privilege_value :: "privilege \<Rightarrow> string" where
  "privilege_value PSelect = ''SELECT''"
| "privilege_value PModify = ''MODIFY''"
| "privilege_value PApply = ''APPLY''"
| "privilege_value PExecute = ''EXECUTE''"
| "privilege_value PManage = ''MANAGE''"
| "privilege_value PAllPrivileges = ''ALL_PRIVILEGES''"

definition privilege_of :: "string \<Rightarrow> privilege option" where
  "privilege_of s = find (\<lambda>p. privilege_value p = s) [PSelect, PModify, PApply, PExecute, PManage, PAllPrivileges]"

definition object_types :: "string list" where
  "object_types = [''registry_rule'', ''monitored_table'', ''data_product'']"

definition principal_types :: "string list" where
  "principal_types = [''user'', ''group'']"

definition users_group :: string where
  "users_group = ''users''"

definition is_users_group :: "string \<Rightarrow> bool" where
  "is_users_group who = (who = users_group)"

definition legacy_all_sentinel :: string where
  "legacy_all_sentinel = ''__all__''"

definition concrete_privileges :: "privilege set" where
  "concrete_privileges = {PSelect, PModify, PApply, PExecute}"

definition default_users_privileges :: "string \<Rightarrow> privilege set" where
  "default_users_privileges ot = (if ot = ''registry_rule'' then {PSelect, PApply} else {PSelect, PApply, PExecute})"

definition parent_type :: "string \<Rightarrow> string option" where
  "parent_type ot = (if ot = ''monitored_table'' then Some ''data_product'' else None)"

definition expand_privileges :: "privilege set \<Rightarrow> privilege set" where
  "expand_privileges ps = (let out = (if PAllPrivileges \<in> ps then concrete_privileges else ps \<inter> concrete_privileges)
     in if PManage \<in> ps then insert PManage out else out)"

definition parse_privileges :: "string option \<Rightarrow> privilege set" where
  "parse_privileges raw = (case raw of None \<Rightarrow> {}
   | Some s \<Rightarrow> if s = [] then {}
       else set (List.map_filter (\<lambda>token. let token = py_strip token in if token = [] then None else privilege_of token) (py_split CHR '','' s)))"

definition serialize_privileges :: "privilege set \<Rightarrow> string" where
  "serialize_privileges ps =
     (if PAllPrivileges \<in> ps
      then py_join '','' (privilege_value PAllPrivileges # (if PManage \<in> ps then [privilege_value PManage] else []))
      else py_join '','' (map privilege_value (filter (\<lambda>p. p \<in> ps) [PSelect, PModify, PApply, PExecute, PManage])))"

definition normalize_privileges :: "privilege set \<Rightarrow> privilege set" where
  "normalize_privileges ps =
     (let out = (if PAllPrivileges \<in> ps \<or> concrete_privileges \<subseteq> ps then {PAllPrivileges} else ps \<inter> concrete_privileges)
      in if PManage \<in> ps then insert PManage out else out)"

subsection \<open>State\<close>

record grant_row =
  gw_type :: string
  gw_id :: string
  gw_principal :: string
  gw_principal_type :: string
  gw_name :: "string option"
  gw_privileges :: string
  gw_inherit :: bool
  gw_grantor :: "string option"
  gw_updated_at :: int

record grant_event =
  ge_type :: string
  ge_id :: string
  ge_principal :: string
  ge_name :: "string option"
  ge_privileges :: "string option"
  ge_inherit :: "bool option"
  ge_action :: string
  ge_actor :: "string option"

text \<open>The service's view of a grant.\<close>

record object_grant =
  og_type :: string
  og_id :: string
  og_principal :: string
  og_principal_type :: string
  og_name :: "string option"
  og_privileges :: "privilege set"
  og_inherit :: bool
  og_grantor :: "string option"
  og_updated_at :: "int option"
  og_inherited_from :: "(string \<times> string) option"

record perm_db =
  qd_studio :: product_db
  qd_grants :: "grant_row list"
  qd_history :: "grant_event list"

record perm_env =
  qe_product :: product_env
  qe_share :: bool
  qe_parents_ok :: "string \<Rightarrow> bool"
  qe_owner_ok :: "string \<Rightarrow> bool"
  qe_history_ok :: "grant_event \<Rightarrow> bool"

datatype perm_error =
    BadObjectId string
  | ReservedPrincipal
  | UnknownObjectType string
  | UnknownPrincipalType string
  | UnknownPrivilege string
  | PrivilegeMissing privilege
  | NotManager
  | RoleTooLow
  | SpaceFailed product_error

text \<open>Who asks: their role, the identifiers and names of the user and of their groups, their email.\<close>

record caller =
  cl_role :: user_role
  cl_ids :: "string set"
  cl_email :: string

subsection \<open>Reading grants\<close>

definition checked_id :: "string \<Rightarrow> perm_error + unit" where
  "checked_id oid = (if validate_object_id oid then Inr () else Inl (BadObjectId oid))"

definition row_to_grant :: "grant_row \<Rightarrow> object_grant" where
  "row_to_grant row = \<lparr>og_type = gw_type row, og_id = gw_id row, og_principal = gw_principal row,
     og_principal_type = gw_principal_type row, og_name = opt_str (gw_name row),
     og_privileges = parse_privileges (Some (gw_privileges row)), og_inherit = gw_inherit row,
     og_grantor = opt_str (gw_grantor row), og_updated_at = Some (gw_updated_at row), og_inherited_from = None\<rparr>"

definition list_grants :: "perm_db \<Rightarrow> string \<Rightarrow> string \<Rightarrow> perm_error + object_grant list" where
  "list_grants pd ot oid = sbind (checked_id oid)
     (\<lambda>_. Inr (map row_to_grant (filter (\<lambda>row. gw_type row = ot \<and> gw_id row = oid) (qd_grants pd))))"

definition parent_refs :: "perm_env \<Rightarrow> perm_db \<Rightarrow> string \<Rightarrow> string \<Rightarrow> (string \<times> string) list" where
  "parent_refs qe pd ot oid = (case parent_type ot of None \<Rightarrow> []
   | Some pt \<Rightarrow> if \<not> qe_parents_ok qe oid then []
       else map (\<lambda>pid. (pt, pid)) (filter (\<lambda>pid. pid \<noteq> [])
         (map pm_product (filter (\<lambda>m. pm_binding m = oid) (pd_members (qd_studio pd))))))"

definition inherited_grants :: "perm_env \<Rightarrow> perm_db \<Rightarrow> string \<Rightarrow> string \<Rightarrow> perm_error + ((string \<times> string) \<times> object_grant) list" where
  "inherited_grants qe pd ot oid = sbind (smapM (\<lambda>ref. sbind (list_grants pd (fst ref) (snd ref))
     (\<lambda>gs. Inr (map (\<lambda>g. (ref, g)) (filter (\<lambda>g. og_inherit g \<and> \<not> is_users_group (og_principal g)) gs)))) (parent_refs qe pd ot oid))
     (\<lambda>gss. Inr (concat gss))"

text \<open>The listing a client is shown: an inherited grant is hidden by a direct one of the same principal.\<close>

definition list_effective_grants :: "perm_env \<Rightarrow> perm_db \<Rightarrow> string \<Rightarrow> string \<Rightarrow> perm_error + object_grant list" where
  "list_effective_grants qe pd ot oid = sbind (list_grants pd ot oid) (\<lambda>direct.
     sbind (inherited_grants qe pd ot oid) (\<lambda>inherited.
       Inr (direct @ map (\<lambda>(ref, g). g\<lparr>og_type := ot, og_id := oid, og_inherited_from := Some ref\<rparr>)
         (filter (\<lambda>(ref, g). og_principal g \<notin> og_principal ` set direct) inherited))))"

definition grant_targets_email :: "object_grant \<Rightarrow> string \<Rightarrow> bool" where
  "grant_targets_email g email = (py_lower (py_strip (og_principal g)) = py_lower (py_strip email))"

definition grant_matches :: "string set \<Rightarrow> string option \<Rightarrow> object_grant \<Rightarrow> bool" where
  "grant_matches ids email g = (is_users_group (og_principal g) \<or> og_principal g \<in> ids
     \<or> (or_else email [] \<noteq> [] \<and> grant_targets_email g (or_else email [])))"

definition effective_privileges :: "perm_env \<Rightarrow> perm_db \<Rightarrow> string \<Rightarrow> string \<Rightarrow> string set \<Rightarrow> string option \<Rightarrow> perm_error + privilege set" where
  "effective_privileges qe pd ot oid ids email = sbind (list_grants pd ot oid) (\<lambda>direct.
     sbind (inherited_grants qe pd ot oid) (\<lambda>inherited.
       Inr (\<Union> (set (map (\<lambda>g. expand_privileges (og_privileges g)) (filter (grant_matches ids email) (direct @ map snd inherited)))))))"

definition get_object_owner :: "perm_env \<Rightarrow> perm_db \<Rightarrow> string \<Rightarrow> string \<Rightarrow> perm_error + string option" where
  "get_object_owner qe pd ot oid = sbind (checked_id oid) (\<lambda>_. Inr
     (if \<not> qe_owner_ok qe oid then None
      else opt_str (Option.bind (dict_get [
        (''registry_rule'', map_option rr_created_by (find (\<lambda>r. rr_id r = oid) (db_rules (ad_registry (rb_app (qd_studio pd)))))),
        (''monitored_table'', map_option mt_created_by (get_binding (rb_app (qd_studio pd)) oid)),
        (''data_product'', map_option dp_created_by (fetch_product (qd_studio pd) oid))] ot) (\<lambda>x. Option.bind x id))))"

subsection \<open>Checking access\<close>

definition role_bypass :: "user_role set" where
  "role_bypass = {RoleAdmin, RoleApprover}"

definition has_privilege ::
    "perm_env \<Rightarrow> perm_db \<Rightarrow> string \<Rightarrow> string \<Rightarrow> privilege \<Rightarrow> user_role \<Rightarrow> string set \<Rightarrow> string option \<Rightarrow> perm_error + bool" where
  "has_privilege qe pd ot oid p role ids email =
     (if role \<in> role_bypass then Inr True
      else sbind (effective_privileges qe pd ot oid ids email) (\<lambda>eff. Inr (p \<in> eff)))"

definition require_privilege ::
    "perm_env \<Rightarrow> perm_db \<Rightarrow> string \<Rightarrow> string \<Rightarrow> privilege \<Rightarrow> user_role \<Rightarrow> string set \<Rightarrow> string option \<Rightarrow> perm_error + unit" where
  "require_privilege qe pd ot oid p role ids email = sbind (has_privilege qe pd ot oid p role ids email)
     (\<lambda>ok. if ok then Inr () else Inl (PrivilegeMissing p))"

definition require_object :: "perm_env \<Rightarrow> perm_db \<Rightarrow> string \<Rightarrow> string \<Rightarrow> privilege \<Rightarrow> caller \<Rightarrow> perm_error + unit" where
  "require_object qe pd ot oid p cl = sbind (get_object_owner qe pd ot oid)
     (\<lambda>_. require_privilege qe pd ot oid p (cl_role cl) (cl_ids cl) (Some (cl_email cl)))"

definition same_email :: "string option \<Rightarrow> string option \<Rightarrow> bool" where
  "same_email owner email = (or_else owner [] \<noteq> [] \<and> or_else email [] \<noteq> []
     \<and> py_lower (py_strip (the owner)) = py_lower (py_strip (the email)))"

definition can_manage_grants ::
    "perm_env \<Rightarrow> perm_db \<Rightarrow> string \<Rightarrow> string \<Rightarrow> user_role \<Rightarrow> string set \<Rightarrow> string option \<Rightarrow> string option \<Rightarrow> perm_error + bool" where
  "can_manage_grants qe pd ot oid role ids owner email =
     (if role \<in> role_bypass then Inr True
      else if same_email owner email then Inr True
      else sbind (effective_privileges qe pd ot oid ids email) (\<lambda>eff. Inr (PManage \<in> eff)))"

definition can_edit_and_approve ::
    "perm_env \<Rightarrow> perm_db \<Rightarrow> string \<Rightarrow> string \<Rightarrow> user_role \<Rightarrow> string set \<Rightarrow> string option \<Rightarrow> perm_error + bool" where
  "can_edit_and_approve qe pd ot oid role ids email =
     (if role = RoleAdmin then Inr True
      else if ''approve_rules'' \<notin> set (role_permissions role) then Inr False
      else has_privilege qe pd ot oid PModify role ids email)"

subsection \<open>Writing grants\<close>

definition delete_grant_row :: "string \<Rightarrow> string \<Rightarrow> string \<Rightarrow> perm_db \<Rightarrow> perm_db" where
  "delete_grant_row ot oid who pd = pd\<lparr>qd_grants :=
     filter (\<lambda>row. \<not> (gw_type row = ot \<and> gw_id row = oid \<and> gw_principal row = who)) (qd_grants pd)\<rparr>"

definition record_grant_history :: "perm_env \<Rightarrow> grant_event \<Rightarrow> perm_db \<Rightarrow> perm_db" where
  "record_grant_history qe h pd = (if qe_history_ok qe h then pd\<lparr>qd_history := qd_history pd @ [h]\<rparr> else pd)"

definition remove_grant :: "perm_env \<Rightarrow> string \<Rightarrow> string \<Rightarrow> string \<Rightarrow> string option \<Rightarrow> perm_db \<Rightarrow> (perm_error + unit) \<times> perm_db" where
  "remove_grant qe ot oid who actor pd = (case checked_id oid of
     Inl e \<Rightarrow> (Inl e, pd)
   | Inr _ \<Rightarrow> (Inr (), record_grant_history qe \<lparr>ge_type = ot, ge_id = oid, ge_principal = who, ge_name = None,
       ge_privileges = None, ge_inherit = None, ge_action = ''remove'', ge_actor = opt_str actor\<rparr> (delete_grant_row ot oid who pd)))"

definition validate_grant :: "string \<Rightarrow> string \<Rightarrow> string \<Rightarrow> string \<Rightarrow> perm_error + unit" where
  "validate_grant ot oid who ptype = sbind (checked_id oid) (\<lambda>_.
     if who = legacy_all_sentinel then Inl ReservedPrincipal
     else if ot \<notin> set object_types then Inl (UnknownObjectType ot)
     else if ptype \<notin> set principal_types then Inl (UnknownPrincipalType ptype) else Inr ())"

text \<open>What is stored of the privileges asked for: a rule is never executed.\<close>

definition stored_privileges :: "string \<Rightarrow> privilege set \<Rightarrow> privilege set" where
  "stored_privileges ot ps = normalize_privileges (if ot = ''registry_rule'' then expand_privileges ps - {PExecute} else ps)"

definition set_grant ::
    "perm_env \<Rightarrow> string \<Rightarrow> string \<Rightarrow> string \<Rightarrow> string \<Rightarrow> string option \<Rightarrow> privilege set \<Rightarrow> bool \<Rightarrow> string option \<Rightarrow> int \<Rightarrow> perm_db
     \<Rightarrow> (perm_error + object_grant) \<times> perm_db" where
  "set_grant qe ot oid who ptype name ps inherit grantor now pd = (case validate_grant ot oid who ptype of
     Inl e \<Rightarrow> (Inl e, pd)
   | Inr _ \<Rightarrow>
       (let norm = stored_privileges ot ps;
            g = \<lparr>og_type = ot, og_id = oid, og_principal = who, og_principal_type = ptype, og_name = name,
                  og_privileges = norm, og_inherit = inherit, og_grantor = grantor, og_updated_at = None, og_inherited_from = None\<rparr>
        in if norm = {} then (Inr g, snd (remove_grant qe ot oid who grantor pd))
           else (Inr g, record_grant_history qe \<lparr>ge_type = ot, ge_id = oid, ge_principal = who, ge_name = opt_str name,
                   ge_privileges = opt_str (Some (serialize_privileges norm)), ge_inherit = Some inherit, ge_action = ''set'', ge_actor = opt_str grantor\<rparr>
                 ((delete_grant_row ot oid who pd)\<lparr>qd_grants := qd_grants (delete_grant_row ot oid who pd) @
                   [\<lparr>gw_type = ot, gw_id = oid, gw_principal = who, gw_principal_type = ptype, gw_name = name,
                     gw_privileges = serialize_privileges norm, gw_inherit = inherit, gw_grantor = grantor, gw_updated_at = now\<rparr>]\<rparr>))))"

text \<open>The same, for a caller that drops the grant.\<close>

definition put_grant ::
    "perm_env \<Rightarrow> string \<Rightarrow> string \<Rightarrow> string \<Rightarrow> string \<Rightarrow> string option \<Rightarrow> privilege set \<Rightarrow> bool \<Rightarrow> string option \<Rightarrow> int \<Rightarrow> perm_db
     \<Rightarrow> (perm_error + unit) \<times> perm_db" where
  "put_grant qe ot oid who ptype name ps inherit grantor now pd =
     (case set_grant qe ot oid who ptype name ps inherit grantor now pd of
        (Inl e, pd) \<Rightarrow> (Inl e, pd) | (Inr _, pd) \<Rightarrow> (Inr (), pd))"

definition seed_default_grants ::
    "perm_env \<Rightarrow> string \<Rightarrow> string \<Rightarrow> string option \<Rightarrow> string option \<Rightarrow> int \<Rightarrow> perm_db \<Rightarrow> (perm_error + unit) \<times> perm_db" where
  "seed_default_grants qe ot oid owner grantor now pd = (case list_grants pd ot oid of
     Inl e \<Rightarrow> (Inl e, pd)
   | Inr direct \<Rightarrow>
       (let seed_users = (ot = ''registry_rule'' \<or> (ot \<in> {''monitored_table'', ''data_product''} \<and> qe_share qe));
            (r, pd) = (if seed_users \<and> users_group \<notin> og_principal ` set direct
              then put_grant qe ot oid users_group ''group'' (Some users_group) (default_users_privileges ot) False grantor now pd
              else (Inr (), pd))
        in case r of
          Inl e \<Rightarrow> (Inl e, pd)
        | Inr _ \<Rightarrow>
            if or_else owner [] \<noteq> [] \<and> \<not> list_ex (\<lambda>g. grant_targets_email g (the owner)) direct
            then put_grant qe ot oid (the owner) ''user'' owner {PAllPrivileges} False grantor now pd
            else (Inr (), pd)))"

subsection \<open>Routes (\<open>routes/v1/permissions.py\<close>, \<open>routes/v1/data_products.py\<close>)\<close>

text \<open>What the routes require of the role of the caller.\<close>

definition authors_and_above :: "user_role set" where
  "authors_and_above = {RoleAdmin, RoleApprover, RoleAuthor}"

definition as_author :: "caller \<Rightarrow> (perm_db \<Rightarrow> (perm_error + 'a) \<times> perm_db) \<Rightarrow> perm_db \<Rightarrow> (perm_error + 'a) \<times> perm_db" where
  "as_author cl handler pd = (if cl_role cl \<in> authors_and_above then handler pd else (Inl RoleTooLow, pd))"

definition require_manager :: "perm_env \<Rightarrow> caller \<Rightarrow> string \<Rightarrow> string \<Rightarrow> perm_db \<Rightarrow> perm_error + unit" where
  "require_manager qe cl ot oid pd =
     (if ot \<notin> set object_types then Inl (UnknownObjectType ot)
      else sbind (get_object_owner qe pd ot oid) (\<lambda>owner.
        sbind (can_manage_grants qe pd ot oid (cl_role cl) (cl_ids cl) owner (Some (cl_email cl)))
          (\<lambda>ok. if ok then Inr () else Inl NotManager)))"

definition set_object_grant ::
    "perm_env \<Rightarrow> caller \<Rightarrow> string \<Rightarrow> string \<Rightarrow> string \<Rightarrow> string \<Rightarrow> string option \<Rightarrow> string list \<Rightarrow> bool \<Rightarrow> int \<Rightarrow> perm_db
     \<Rightarrow> (perm_error + unit) \<times> perm_db" where
  "set_object_grant qe cl ot oid who ptype name privileges inherit now = as_author cl (\<lambda>pd.
     (if who = legacy_all_sentinel then (Inl ReservedPrincipal, pd)
      else case require_manager qe cl ot oid pd of
        Inl e \<Rightarrow> (Inl e, pd)
      | Inr _ \<Rightarrow> (case smapM (\<lambda>t. case privilege_of t of None \<Rightarrow> Inl (UnknownPrivilege t) | Some p \<Rightarrow> Inr p) privileges of
          Inl e \<Rightarrow> (Inl e, pd)
        | Inr ps \<Rightarrow> put_grant qe ot oid who ptype name (set ps) inherit (Some (cl_email cl)) now pd)))"

definition remove_object_grant ::
    "perm_env \<Rightarrow> caller \<Rightarrow> string \<Rightarrow> string \<Rightarrow> string \<Rightarrow> perm_db \<Rightarrow> (perm_error + unit) \<times> perm_db" where
  "remove_object_grant qe cl ot oid who = as_author cl (\<lambda>pd. case require_manager qe cl ot oid pd of
     Inl e \<Rightarrow> (Inl e, pd)
   | Inr _ \<Rightarrow> remove_grant qe ot oid who (Some (cl_email cl)) pd)"

definition create_space_route ::
    "perm_env \<Rightarrow> caller \<Rightarrow> string \<Rightarrow> string option \<Rightarrow> string option \<Rightarrow> string option \<Rightarrow> int \<Rightarrow> perm_db
     \<Rightarrow> (perm_error + data_product) \<times> perm_db" where
  "create_space_route qe cl name description owner display now = as_author cl (\<lambda>pd.
     (case create_product (qe_product qe) name description owner (cl_email cl) display now (qd_studio pd) of
        (Inl e, st) \<Rightarrow> (Inl (SpaceFailed e), pd\<lparr>qd_studio := st\<rparr>)
      | (Inr p, st) \<Rightarrow>
          (case seed_default_grants qe ''data_product'' (dp_id p) (Some (cl_email cl)) (Some (cl_email cl)) now (pd\<lparr>qd_studio := st\<rparr>) of
            (Inl e, pd) \<Rightarrow> (Inl e, pd) | (Inr _, pd) \<Rightarrow> (Inr p, pd))))"

definition add_member_route ::
    "perm_env \<Rightarrow> caller \<Rightarrow> string \<Rightarrow> string \<Rightarrow> int option \<Rightarrow> int \<Rightarrow> perm_db \<Rightarrow> (perm_error + product_member) \<times> perm_db" where
  "add_member_route qe cl pid bid pinned now = as_author cl (\<lambda>pd. case require_object qe pd ''data_product'' pid PApply cl of
     Inl e \<Rightarrow> (Inl e, pd)
   | Inr _ \<Rightarrow> (case add_product_member (qe_product qe) pid bid pinned (cl_email cl) now (qd_studio pd) of
       (Inl e, st) \<Rightarrow> (Inl (SpaceFailed e), pd\<lparr>qd_studio := st\<rparr>)
     | (Inr m, st) \<Rightarrow> (Inr m, pd\<lparr>qd_studio := st\<rparr>)))"

end
