(* ===== verification/Review_Contract.thy ===== *)
theory Review_Contract
  imports Main
begin

section \<open>What a review promises\<close>

text \<open>
  Table spaces and the checks of the catalog are reviewed by the same contract: an object is edited as a
  draft, only a submission takes it out of draft, and an edit of its content takes it back. So what is in
  review, approved or rejected is what was submitted. The contract is stated for one object of a state
  that the operations change, under an invariant they keep.
\<close>

locale reviewed_object =
  fixes exec :: "'op \<Rightarrow> 's \<Rightarrow> 's"
    and inv :: "'s \<Rightarrow> bool"
    and status :: "'s \<Rightarrow> 'st option"
    and draft :: 'st
    and content :: "'s \<Rightarrow> 'c"
    and submits :: "'op \<Rightarrow> bool"
  assumes inv_exec: "inv s \<Longrightarrow> inv (exec op s)"
    and kept_exec: "inv s \<Longrightarrow> \<not> submits op \<Longrightarrow> status (exec op s) = Some st \<Longrightarrow> st \<noteq> draft
      \<Longrightarrow> (\<exists>st0. status s = Some st0 \<and> st0 \<noteq> draft) \<and> content (exec op s) = content s"
begin

definition out_of_draft :: "'s \<Rightarrow> bool" where
  "out_of_draft s \<longleftrightarrow> (\<exists>st. status s = Some st \<and> st \<noteq> draft)"

lemma inv_run: "inv s \<Longrightarrow> inv (fold exec ops s)"
  by (induction ops arbitrary: s) (simp_all add: inv_exec)

lemma content_fixed:
  assumes "inv s" "\<And>op. op \<in> set ops \<Longrightarrow> \<not> submits op" "out_of_draft (fold exec ops s)"
  shows "out_of_draft s \<and> content (fold exec ops s) = content s"
  using assms
proof (induction ops arbitrary: s)
  case (Cons op ops)
  have "out_of_draft (exec op s)" and same: "content (fold exec ops (exec op s)) = content (exec op s)"
    using Cons.IH [of "exec op s"] Cons.prems inv_exec by auto
  then show ?case using kept_exec [OF Cons.prems(1), of op] Cons.prems(2) by (auto simp: out_of_draft_def)
qed simp

text \<open>What is out of draft is what its last submission submitted.\<close>

lemma is_as_submitted:
  assumes "inv s" "\<not> out_of_draft s" "out_of_draft (fold exec ops s)"
  shows "\<exists>before op later. ops = before @ op # later \<and> submits op \<and> (\<forall>o' \<in> set later. \<not> submits o')
    \<and> content (fold exec ops s) = content (fold exec (before @ [op]) s)"
proof -
  have "\<exists>op \<in> set ops. submits op" using content_fixed [OF assms(1), of ops] assms(2,3) by blast
  then obtain before op later where ops: "ops = before @ op # later" "submits op" "\<forall>o' \<in> set later. \<not> submits o'"
    using split_list_last_prop [of ops submits] by blast
  have "content (fold exec later (fold exec (before @ [op]) s)) = content (fold exec (before @ [op]) s)"
    using content_fixed [OF inv_run [OF assms(1), of "before @ [op]"], of later] ops assms(3) by simp
  then show ?thesis using ops by auto
qed

end

end
