(* ===== verification/Table_Review_Laws.thy ===== *)
theory Table_Review_Laws
  imports Table_Review Rules_Catalog_Laws Tag_Reconcile
begin

section \<open>Laws of the review of a monitored table\<close>

text \<open>
  What the transitions do to the checks of a table, what an approval freezes, and what the gate of the
  draft run refuses. The last section shows, on concrete tables, where a frozen version and the set of
  approved checks part.
\<close>

subsection \<open>Transitions\<close>

definition rows_ok :: "app_db \<Rightarrow> bool" where
  "rows_ok db \<longleftrightarrow> distinct (map rw_id (ad_rows db)) \<and> (\<forall>r \<in> set (ad_rows db). rw_id r \<noteq> [] \<and> 0 < rw_version r)"

text \<open>Everything but the rows and the audit trail.\<close>

definition same_but_rows :: "app_db \<Rightarrow> app_db \<Rightarrow> bool" where
  "same_but_rows db db' \<longleftrightarrow> ad_registry db' = ad_registry db \<and> ad_tables db' = ad_tables db \<and> ad_applied db' = ad_applied db
     \<and> ad_suppressed db' = ad_suppressed db \<and> ad_versions db' = ad_versions db \<and> ad_drawn db' = ad_drawn db"

lemma same_but_rows_refl [simp]: "same_but_rows db db"
  by (simp add: same_but_rows_def)

lemma same_but_rows_trans: "same_but_rows db db' \<Longrightarrow> same_but_rows db' db'' \<Longrightarrow> same_but_rows db db''"
  by (simp add: same_but_rows_def)

lemma written_frame: "same_but_rows db (record_catalog_history env h (update_rows P f db))"
  by (simp add: update_rows_def record_catalog_history_def same_but_rows_def)

lemma set_status_frame: "same_but_rows db (snd (set_check_status env i status user expected db))"
proof (cases "check_status_of status")
  case None
  then show ?thesis by (simp add: set_check_status_def)
next
  case st: (Some st)
  show ?thesis
  proof (cases "row_by_id db i")
    case None
    then show ?thesis using st by (simp add: set_check_status_def)
  next
    case (Some row)
    have last: "snd (case row_by_id db' i of None \<Rightarrow> (Inl (CheckNotFound i), db')
        | Some r \<Rightarrow> if rw_status r \<noteq> st then (Inl StatusLost, db') else (Inr r, db')) = db'" for db'
      by (simp split: option.split)
    show ?thesis unfolding set_check_status_def st Some option.case Let_def
      by (cases "if st = CheckPending then check_no_duplicate_live env db row else Inr ()")
        (simp_all only: last sum.case split: if_split, simp_all only: snd_conv same_but_rows_refl written_frame simp_thms)
  qed
qed

lemma transition_frame: "same_but_rows db (snd (transition_each env xs from_st to_st user db))"
proof (induction xs arbitrary: db)
  case (Cons x xs)
  obtain i st where x: "x = (i, st)" by (cases x)
  obtain r db1 where one: "set_check_status env i (check_status_value to_st) user None db = (r, db1)"
    by (cases "set_check_status env i (check_status_value to_st) user None db")
  have "same_but_rows db db1" using set_status_frame [of db env i "check_status_value to_st" user None] one by simp
  then have "same_but_rows db (snd (transition_each env xs from_st to_st user db1))"
    using same_but_rows_trans Cons.IH by blast
  then show ?case using x one Cons.IH by (auto simp: Let_def split: sum.split prod.split)
qed simp

lemma binding_checks_frame: "same_but_rows db (snd (transition_binding_checks env bid from_st to_st user db))"
  by (simp add: transition_binding_checks_def transition_frame)

lemma status_value_round [simp]: "check_status_of (check_status_value st) = Some st"
  by (cases st) (simp_all add: check_status_of_def)

definition move_status :: "string set \<Rightarrow> check_status \<Rightarrow> resolved_row \<Rightarrow> resolved_row" where
  "move_status ids st r = (if rw_id r \<in> ids then r\<lparr>rw_status := st\<rparr> else r)"

lemma move_status_simps [simp]: "rw_id (move_status ids st r) = rw_id r" "rw_version (move_status ids st r) = rw_version r"
  "rw_applied_id (move_status ids st r) = rw_applied_id r" "rw_check (move_status ids st r) = rw_check r"
  "rw_table (move_status ids st r) = rw_table r"
  by (simp_all add: move_status_def)

lemma rows_ok_find: "rows_ok db \<Longrightarrow> r \<in> set (ad_rows db) \<Longrightarrow> row_by_id db (rw_id r) = Some r"
  by (simp add: rows_ok_def row_by_id_def find_unique)

lemma rows_ok_move:
  assumes "rows_ok db" "ad_rows db' = map (move_status ids st) (ad_rows db)"
  shows "rows_ok db'"
proof -
  have "map rw_id (map (move_status ids st) (ad_rows db)) = map rw_id (ad_rows db)" by simp
  then show ?thesis using assms by (auto simp: rows_ok_def simp del: map_map)
qed

text \<open>A transition out of review, of a row that is in review, takes effect.\<close>

lemma set_status_moves:
  assumes "rows_ok db" "r \<in> set (ad_rows db)" "to_st \<in> set (check_transitions (rw_status r))" "to_st \<noteq> CheckPending"
  shows "\<exists>u. fst (set_check_status env (rw_id r) (check_status_value to_st) user None db) = Inr u"
    "ad_rows (snd (set_check_status env (rw_id r) (check_status_value to_st) user None db)) = map (move_status {rw_id r} to_st) (ad_rows db)"
proof -
  let ?i = "rw_id r"
  have found: "row_by_id db ?i = Some r" by (rule rows_ok_find [OF assms(1,2)])
  have version: "entry_version r = rw_version r" using assms(1,2) by (simp add: rows_ok_def entry_version_def)
  have same: "q = r" if "q \<in> set (ad_rows db)" "rw_id q = ?i" for q
    using assms(1,2) that by (auto simp: rows_ok_def distinct_map dest: inj_onD)
  have upd: "ad_rows (update_rows (\<lambda>q. rw_id q = ?i \<and> rw_version q = rw_version r) (\<lambda>q. q\<lparr>rw_status := to_st\<rparr>) db)
      = map (move_status {?i} to_st) (ad_rows db)"
    using same by (auto simp: update_rows_def move_status_def)
  have after: "row_by_id (record_catalog_history env h (update_rows (\<lambda>q. rw_id q = ?i \<and> rw_version q = rw_version r)
      (\<lambda>q. q\<lparr>rw_status := to_st\<rparr>) db)) ?i = Some (r\<lparr>rw_status := to_st\<rparr>)" for h
  proof -
    have "find (\<lambda>q. rw_id q = ?i) (map (move_status {?i} to_st) rows) = map_option (\<lambda>q. q\<lparr>rw_status := to_st\<rparr>) (find (\<lambda>q. rw_id q = ?i) rows)" for rows
      by (induction rows) (auto simp: move_status_def)
    then show ?thesis using upd found by (simp add: row_by_id_def record_catalog_history_def)
  qed
  have "set_check_status env ?i (check_status_value to_st) user None db
      = (Inr (r\<lparr>rw_status := to_st\<rparr>), record_catalog_history env \<lparr>ch_rule_id = (if ?i = [] then None else Some ?i), ch_table = rw_table r,
          ch_check = map_option JDict (entry_check r), ch_version = entry_version r, ch_source = entry_source r,
          ch_action = ''status:'' @ check_status_value to_st, ch_prev = Some (rw_status r), ch_new = Some to_st, ch_by = user\<rparr>
          (update_rows (\<lambda>q. rw_id q = ?i \<and> rw_version q = rw_version r) (\<lambda>q. q\<lparr>rw_status := to_st\<rparr>) db))"
    using found assms(3,4) version after by (simp add: set_check_status_def Let_def)
  then show "\<exists>u. fst (set_check_status env ?i (check_status_value to_st) user None db) = Inr u"
    "ad_rows (snd (set_check_status env ?i (check_status_value to_st) user None db)) = map (move_status {?i} to_st) (ad_rows db)"
    using upd by (simp_all add: record_catalog_history_def)
qed

lemma move_move: "map (move_status B st) (map (move_status A st) rows) = map (move_status (A \<union> B) st) rows"
  by (simp add: move_status_def)

lemma transition_each_moves:
  assumes "rows_ok db" "to_st \<in> set (check_transitions from_st)" "to_st \<noteq> CheckPending" "distinct (map fst xs)"
    and "\<And>i. (i, from_st) \<in> set xs \<Longrightarrow> \<exists>r \<in> set (ad_rows db). rw_id r = i \<and> rw_status r = from_st"
  shows "ad_rows (snd (transition_each env xs from_st to_st user db)) = map (move_status {i. (i, from_st) \<in> set xs} to_st) (ad_rows db)
    \<and> fst (transition_each env xs from_st to_st user db) = length (filter (\<lambda>x. snd x = from_st) xs)"
  using assms(1,4,5)
proof (induction xs arbitrary: db)
  case Nil
  show ?case by (simp add: move_status_def)
next
  case (Cons x xs)
  obtain i st where x: "x = (i, st)" by (cases x)
  note ok = Cons.prems(1) and dist = Cons.prems(2) and rows = Cons.prems(3)
  show ?case
  proof (cases "st = from_st")
    case False
    have "distinct (map fst xs)" using dist by simp
    then show ?thesis using Cons.IH [OF ok] rows False by (simp add: x)
  next
    case True
    obtain r where r: "r \<in> set (ad_rows db)" "rw_id r = i" "rw_status r = from_st" using rows [of i] True by (auto simp: x)
    obtain u db1 where one: "set_check_status env i (check_status_value to_st) user None db = (Inr u, db1)"
      using set_status_moves(1) [OF ok r(1), of to_st env user] assms(2,3) r by (metis prod.collapse)
    have rows1: "ad_rows db1 = map (move_status {i} to_st) (ad_rows db)"
      using set_status_moves(2) [OF ok r(1), of to_st env user] assms(2,3) r one by simp
    have ok1: "rows_ok db1" by (rule rows_ok_move [OF ok rows1])
    have dist1: "distinct (map fst xs)" and new: "i \<notin> fst ` set xs" using dist by (simp_all add: x)
    have kept: "\<exists>q \<in> set (ad_rows db1). rw_id q = j \<and> rw_status q = from_st" if j: "(j, from_st) \<in> set xs" for j
    proof -
      have "j \<noteq> i" using new j by force
      moreover obtain q where "q \<in> set (ad_rows db)" "rw_id q = j" "rw_status q = from_st" using rows [of j] j by auto
      ultimately show ?thesis unfolding rows1 by (intro bexI [of _ q]) (auto simp: move_status_def image_iff intro!: bexI [of _ q])
    qed
    have "{j. (j, from_st) \<in> set (x # xs)} = {i} \<union> {j. (j, from_st) \<in> set xs}" using True by (auto simp: x)
    moreover obtain n db2 where rest: "transition_each env xs from_st to_st user db1 = (n, db2)" by fastforce
    moreover have "ad_rows db2 = map (move_status ({i} \<union> {j. (j, from_st) \<in> set xs}) to_st) (ad_rows db)"
      using Cons.IH [OF ok1 dist1 kept] rest rows1 move_move [of "{j. (j, from_st) \<in> set xs}" to_st "{i}" "ad_rows db"] by simp
    moreover have "n = length (filter (\<lambda>x. snd x = from_st) xs)" using Cons.IH [OF ok1 dist1 kept] rest by simp
    ultimately show ?thesis using one True by (simp add: x)
  qed
qed

definition in_review :: "app_db \<Rightarrow> string \<Rightarrow> resolved_row \<Rightarrow> bool" where
  "in_review db bid r \<longleftrightarrow> linked db bid r \<and> rw_status r = CheckPending"

definition reviewed_rows :: "app_db \<Rightarrow> string \<Rightarrow> check_status \<Rightarrow> resolved_row list" where
  "reviewed_rows db bid st = map (\<lambda>r. if in_review db bid r then r\<lparr>rw_status := st\<rparr> else r) (ad_rows db)"

lemma statuses_rows:
  "rows_ok db \<Longrightarrow> list_materialized_rule_statuses db bid = map (\<lambda>r. (rw_id r, rw_status r)) (filter (linked db bid) (ad_rows db))"
  by (auto simp: list_materialized_rule_statuses_def rows_ok_def filter_id_conv)

lemma review_moves:
  assumes "rows_ok db" "to_st \<noteq> CheckPending"
  shows "ad_rows (snd (transition_binding_checks env bid CheckPending to_st user db)) = reviewed_rows db bid to_st
    \<and> fst (transition_binding_checks env bid CheckPending to_st user db) = length (filter (in_review db bid) (ad_rows db))"
proof -
  let ?xs = "list_materialized_rule_statuses db bid"
  have xs: "?xs = map (\<lambda>r. (rw_id r, rw_status r)) (filter (linked db bid) (ad_rows db))" by (rule statuses_rows [OF assms(1)])
  have "to_st \<in> set (check_transitions CheckPending)" using assms(2) by (cases to_st) auto
  moreover have "distinct (map fst ?xs)" using assms(1) by (simp add: xs rows_ok_def comp_def distinct_map_filter)
  moreover have "\<exists>r \<in> set (ad_rows db). rw_id r = i \<and> rw_status r = CheckPending" if "(i, CheckPending) \<in> set ?xs" for i
    using that by (auto simp: xs)
  ultimately have moved: "ad_rows (snd (transition_each env ?xs CheckPending to_st user db)) = map (move_status {i. (i, CheckPending) \<in> set ?xs} to_st) (ad_rows db)
      \<and> fst (transition_each env ?xs CheckPending to_st user db) = length (filter (\<lambda>x. snd x = CheckPending) ?xs)"
    by (intro transition_each_moves [OF assms(1) _ assms(2)])
  have "rw_id r \<in> {i. (i, CheckPending) \<in> set ?xs} \<longleftrightarrow> in_review db bid r" if "r \<in> set (ad_rows db)" for r
  proof -
    have "q = r" if "q \<in> set (ad_rows db)" "rw_id q = rw_id r" for q
      using assms(1) that \<open>r \<in> set (ad_rows db)\<close> by (auto simp: rows_ok_def distinct_map dest: inj_onD)
    then show ?thesis using that by (auto simp: xs in_review_def image_iff)
  qed
  then have "map (move_status {i. (i, CheckPending) \<in> set ?xs} to_st) (ad_rows db) = reviewed_rows db bid to_st"
    by (simp add: reviewed_rows_def move_status_def)
  moreover have "length (filter (\<lambda>x. snd x = CheckPending) ?xs) = length (filter (in_review db bid) (ad_rows db))"
    by (simp add: xs filter_map comp_def in_review_def [abs_def] conj_commute)
  ultimately show ?thesis using moved by (simp add: transition_binding_checks_def)
qed

lemma linked_cong: "ad_applied db' = ad_applied db \<Longrightarrow> linked db' bid = linked db bid"
  by (rule ext) (simp add: linked_def applied_rule_ids_def split: option.split)

lemma statuses_cong:
  "ad_rows db' = ad_rows db \<Longrightarrow> ad_applied db' = ad_applied db \<Longrightarrow> rollup_binding_status db' bid = rollup_binding_status db bid"
  by (simp add: rollup_binding_status_def list_materialized_rule_statuses_def linked_cong [of db' db])

lemma reviewed_statuses:
  assumes "rows_ok db" "ad_applied db' = ad_applied db" "ad_rows db' = reviewed_rows db bid st" "r \<in> set (ad_rows db')" "linked db' bid r" "st \<noteq> CheckPending"
  shows "rw_status r \<noteq> CheckPending"
proof -
  obtain q where q: "q \<in> set (ad_rows db)" "r = (if in_review db bid q then q\<lparr>rw_status := st\<rparr> else q)"
    using assms(3,4) by (auto simp: reviewed_rows_def)
  have "linked db bid r" using assms(5) linked_cong [OF assms(2)] by simp
  then have "linked db bid q" using q(2) by (auto simp: linked_def split: if_splits)
  then show ?thesis using q(2) assms(6) by (auto simp: in_review_def)
qed

lemma get_binding_update: "(\<And>t. mt_id (f t) = mt_id t) \<Longrightarrow>
  get_binding (update_table b f db) bid = (if b = bid then map_option f (get_binding db bid) else get_binding db bid)"
proof -
  assume f: "\<And>t. mt_id (f t) = mt_id t"
  have "find (\<lambda>t. mt_id t = bid) (map (\<lambda>t. if mt_id t = b then f t else t) ts)
      = (if b = bid then map_option f (find (\<lambda>t. mt_id t = bid) ts) else find (\<lambda>t. mt_id t = bid) ts)" for ts
    by (induction ts) (auto simp: f)
  then show ?thesis by (simp add: get_binding_def update_table_def)
qed

lemma table_rationales_simps [simp]:
  "mt_id (set_table_rationales st why t) = mt_id t" "mt_status (set_table_rationales st why t) = mt_status t"
  "mt_version (set_table_rationales st why t) = mt_version t" "mt_fqn (set_table_rationales st why t) = mt_fqn t"
  by (cases st; simp)+

lemma apply_status_simps [simp]:
  "mt_id (apply_status st user why b t) = mt_id t" "mt_status (apply_status st user why b t) = st"
  "mt_version (apply_status st user why b t) = mt_version t" "mt_fqn (apply_status st user why b t) = mt_fqn t"
  "mt_id (stamped now t) = mt_id t" "mt_version (stamped now t) = mt_version t" "mt_fqn (stamped now t) = mt_fqn t"
  "mt_status (stamped now t) = mt_status t"
  by (simp_all add: apply_status_def stamped_def Let_def)

lemma snapshot_cong:
  assumes "ad_rows db' = ad_rows db" "ad_applied db' = ad_applied db" "mt_id t' = mt_id t" "mt_fqn t' = mt_fqn t"
  shows "current_approved_snapshot env db' t' = current_approved_snapshot env db t"
  using assms by (simp add: current_approved_snapshot_def list_applied_def get_approved_checks_for_table_def rows_for_table_def)

lemma set_table_status_run:
  assumes "get_binding db bid = Some t" "table_status_of status = Some st"
  shows "set_table_status bid status user why b now db
    = (Inr (apply_status st user why b t), update_table bid (stamped now \<circ> apply_status st user why b) db)"
  using assms by (simp add: set_table_status_def)

lemma rollup_parses: "\<exists>st. table_status_of (rollup_of sts) = Some st"
  by (simp add: rollup_of_def table_status_of_def)

text \<open>What an approval does, from any state in which it runs.\<close>

lemma approve_binding_run:
  assumes "rows_ok db" "approve_binding_checks env bid user why now db = (Inr (t', n, v), db')"
  shows "\<exists>t tv. get_binding db bid = Some t \<and> v = Some (mt_version t + 1) \<and> n = length (filter (in_review db bid) (ad_rows db))
    \<and> ad_rows db' = reviewed_rows db bid CheckApproved \<and> ad_applied db' = ad_applied db \<and> ad_registry db' = ad_registry db
    \<and> ad_versions db' = ad_versions db @ [tv] \<and> tv_binding tv = bid \<and> tv_version tv = mt_version t + 1
    \<and> current_approved_snapshot env db' t = Inr (tv_refs tv, tv_check_count tv)
    \<and> table_status_of (rollup_binding_status db' bid) = Some (mt_status t')
    \<and> map_option mt_version (get_binding db' bid) = v"
proof -
  obtain m db1 where one: "transition_binding_checks env bid CheckPending CheckApproved user db = (m, db1)" by fastforce
  have rows1: "ad_rows db1 = reviewed_rows db bid CheckApproved" and m: "m = length (filter (in_review db bid) (ad_rows db))"
    using review_moves [OF assms(1), of CheckApproved env bid user] one by simp_all
  have frame1: "same_but_rows db db1" using binding_checks_frame [of db env bid CheckPending CheckApproved user] one by simp
  obtain st where st: "table_status_of (rollup_binding_status db1 bid) = Some st"
    using rollup_parses by (auto simp: rollup_binding_status_def)
  obtain t where t: "get_binding db1 bid = Some t" using assms(2) one st
    by (auto simp: approve_binding_checks_def set_table_status_def split: option.splits)
  let ?db2 = "update_table bid (stamped now \<circ> apply_status st user why True) db1"
  have two: "set_table_status bid (rollup_binding_status db1 bid) user why True now db1 = (Inr (apply_status st user why True t), ?db2)"
    by (rule set_table_status_run [OF t st])
  have bind2: "get_binding ?db2 bid = Some (stamped now (apply_status st user why True t))"
    using t by (simp add: get_binding_update)
  let ?v = "mt_version t + 1" and ?t2 = "stamped now (apply_status st user why True t)"
  obtain refs k where snap: "current_approved_snapshot env ?db2 ?t2 = Inr (refs, k)"
    and run: "t' = apply_status st user why True t" "n = m" "v = Some ?v"
      "db' = (update_table bid (\<lambda>t. t\<lparr>mt_version := ?v\<rparr>) ?db2)\<lparr>ad_versions := ad_versions ?db2 @ [\<lparr>tv_binding = bid, tv_version = ?v,
        tv_refs = refs, tv_check_count = k, tv_created_by = Some user, tv_refrozen = None\<rparr>]\<rparr>"
    using assms(2) one two bind2
    by (auto simp: approve_binding_checks_def freeze_new_version_def Let_def update_table_def split: sum.splits)
  have rows: "ad_rows db' = ad_rows db1" "ad_applied db' = ad_applied db1" "ad_registry db' = ad_registry db1"
    "ad_versions db' = ad_versions db1 @ [\<lparr>tv_binding = bid, tv_version = ?v,
        tv_refs = refs, tv_check_count = k, tv_created_by = Some user, tv_refrozen = None\<rparr>]"
    by (simp_all add: run(4) update_table_def)
  have "get_binding db bid = Some t" using t frame1 by (simp add: same_but_rows_def get_binding_def)
  moreover have "current_approved_snapshot env db' t = current_approved_snapshot env ?db2 ?t2"
    by (rule snapshot_cong) (simp_all add: rows update_table_def)
  moreover have "rollup_binding_status db' bid = rollup_binding_status db1 bid"
    by (rule statuses_cong [OF rows(1,2)])
  moreover have "get_binding db' bid = map_option (\<lambda>t. t\<lparr>mt_version := ?v\<rparr>) (get_binding ?db2 bid)"
    using get_binding_update [of "\<lambda>t. t\<lparr>mt_version := ?v\<rparr>" bid ?db2 bid] by (simp add: run(4) get_binding_def)
  ultimately show ?thesis
    using rows rows1 m frame1 snap run st bind2 by (auto simp: same_but_rows_def)
qed

subsection \<open>The example in review\<close>

definition example_review_env :: review_env where
  "example_review_env = \<lparr>rv_app = example_app_env, rv_require_draft_run = True, rv_approvals_mode = None\<rparr>"

definition example_runs :: "validation_run list" where
  "example_runs = [\<lparr>vr_table = ''c.s.t'', vr_status = Some ''SUCCESS'', vr_type = None, vr_created_at = 3\<rparr>]"

definition example_saved_db :: app_db where
  "example_saved_db = snd (save_applied_rules example_app_env ''x'' [example_desired ''k'' None] ''ann'' 2 example_bound_db)"

definition example_pending_db :: app_db where
  "example_pending_db = snd (submit_table example_review_env example_runs False ''x'' ''ann'' None 4 example_saved_db)"

lemma example_pending_ok: "rows_ok example_pending_db"
proof -
  have "map (\<lambda>r. (rw_id r, rw_version r)) (ad_rows example_pending_db) = [(''xx-0'', 1)]" by code_simp
  then obtain r where "ad_rows example_pending_db = [r]" "rw_id r = ''xx-0''" "rw_version r = 1" by auto
  then show ?thesis by (simp add: rows_ok_def)
qed

subsection \<open>Closing a review\<close>



text \<open>Rejecting or withdrawing a pending monitored table moves exactly its checks that are in review,
  to rejected or back to draft, sets the status of the table to match, and freezes nothing: the
  snapshots, the version, the applications and the registry stay.\<close>

theorem close_review_freezes_nothing:
  assumes "rows_ok db" "(to_st, status, st) \<in> {(CheckRejected, ''rejected'', TableRejected), (CheckDraft, ''draft'', TableDraft)}"
    "close_review env to_st status bid user why now db = (Inr (t', n, v), db')"
  shows "ad_rows db' = reviewed_rows db bid to_st \<and> mt_status t' = st \<and> v = None
    \<and> n = length (filter (in_review db bid) (ad_rows db)) \<and> ad_versions db' = ad_versions db
    \<and> ad_applied db' = ad_applied db \<and> ad_registry db' = ad_registry db
    \<and> (\<exists>t. get_binding db bid = Some t \<and> mt_status t = TablePending
         \<and> map_option (\<lambda>t. (mt_version t, mt_status t)) (get_binding db' bid) = Some (mt_version t, st))"
proof -
  have st: "table_status_of status = Some st" and other: "to_st \<noteq> CheckPending" using assms(2) by (auto simp: table_status_of_def)
  obtain m db1 where one: "transition_binding_checks env bid CheckPending to_st user db = (m, db1)" by fastforce
  have rows1: "ad_rows db1 = reviewed_rows db bid to_st" "m = length (filter (in_review db bid) (ad_rows db))"
    using review_moves [OF assms(1) other, of env bid user] one by simp_all
  have frame1: "same_but_rows db db1" using binding_checks_frame [of db env bid CheckPending to_st user] one by simp
  obtain t where t: "get_binding db bid = Some t" "mt_status t = TablePending"
    using assms(3) by (auto simp: close_review_def require_pending_def split: option.splits if_splits)
  have t1: "get_binding db1 bid = Some t" using t frame1 by (simp add: same_but_rows_def get_binding_def)
  have "close_review env to_st status bid user why now db
      = (Inr (apply_status st user why True t, m, None), update_table bid (stamped now \<circ> apply_status st user why True) db1)"
    using t one set_table_status_run [OF t1 st, of user why True now] by (simp add: close_review_def require_pending_def)
  then have res: "t' = apply_status st user why True t" "n = m" "v = None"
    "db' = update_table bid (stamped now \<circ> apply_status st user why True) db1" using assms(3) by simp_all
  have "get_binding db' bid = Some (stamped now (apply_status st user why True t))"
    unfolding res(4) using t1 by (simp add: get_binding_update)
  then show ?thesis using rows1 frame1 res t by (simp add: same_but_rows_def update_table_def)
qed

lemma close_review_freezes_nothing_witness:
  "ad_versions (snd (close_review example_app_env CheckRejected ''rejected'' ''x'' ''bob'' None 5 example_pending_db)) = []"
proof -
  let ?run = "close_review example_app_env CheckRejected ''rejected'' ''x'' ''bob'' None 5 example_pending_db"
  have "\<not> isl (fst ?run)" by code_simp
  then obtain t' n v db' where run: "?run = (Inr (t', n, v), db')" by (cases ?run; cases "fst ?run") auto
  have none: "ad_versions example_pending_db = []" by code_simp
  show ?thesis using close_review_freezes_nothing [OF example_pending_ok _ run, of TableRejected] run none by simp
qed

subsection \<open>The gate of the draft run\<close>

lemma concrete_idem [simp]: "concrete_fqns (concrete_fqns fqns) = concrete_fqns fqns"
proof -
  have "fromkeys xs = xs" if "distinct xs" for xs :: "string list"
    using that by (simp add: fromkeys_def distinct_remdups_id)
  moreover have "distinct (concrete_fqns fqns)" by (simp add: concrete_fqns_def fromkeys_def)
  ultimately show ?thesis by (simp add: concrete_fqns_def)
qed

text \<open>C22: With the draft-run gate on, a table whose applied rules were saved cannot be submitted on the
  strength of runs made before the save: while every recorded run is older than the save, submitting is
  refused and leaves the state as it was.\<close>

theorem stale_runs_refused:
  assumes "save_applied_rules env bid ds user now db = (Inr aps, db')" "get_binding db' bid = Some t"
    "concrete_fqns [mt_fqn t] \<noteq> []" "rv_require_draft_run rv" "\<forall>run \<in> set runs. vr_created_at run < now"
  shows "submit_table rv runs can bid user2 why now2 db' \<in> {(Inl DraftRunStale, db'), (Inl DraftRunRequired, db')}"
proof -
  obtain db1 where "db' = touch_binding bid user now db1"
    using assms(1) by (auto simp: save_applied_rules_def Let_def split: sum.splits prod.splits)
  then obtain t1 where "get_binding db1 bid = Some t1" "t = stored_edit now user t1"
    using assms(2) get_binding_update [of "stored_edit now user" bid db1 bid]
    by (auto simp: touch_binding_def stored_edit_def stamped_def)
  then have now: "mt_updated_at t = now" by (simp add: stored_edit_def stamped_def)
  have old: "\<not> has_any_run runs (concrete_fqns [mt_fqn t]) (Some now)"
    using assms(5) by (auto simp: has_any_run_def Let_def list_ex_iff qualifying_run_def)
  have "enforce_draft_run True runs [mt_fqn t] (Some now) \<in> {Inl DraftRunStale, Inl DraftRunRequired}"
    using old assms(3) by (simp add: enforce_draft_run_def Let_def)
  then show ?thesis using assms(2,4) now by (auto simp: submit_table_def Let_def)
qed

lemma stale_runs_refused_witness:
  "isl (fst (submit_table example_review_env [(hd example_runs)\<lparr>vr_created_at := 1\<rparr>] False ''x'' ''ann'' None 4 example_saved_db))"
proof -
  let ?run = "save_applied_rules example_app_env ''x'' [example_desired ''k'' None] ''ann'' 2 example_bound_db"
  have "\<not> isl (fst ?run)" by code_simp
  then obtain aps where run: "?run = (Inr aps, example_saved_db)" unfolding example_saved_db_def by (cases ?run; cases "fst ?run") auto
  have "map_option mt_fqn (get_binding example_saved_db ''x'') = Some ''c.s.t''" by code_simp
  then obtain t where t: "get_binding example_saved_db ''x'' = Some t" "mt_fqn t = ''c.s.t''" by auto
  have concrete: "concrete_fqns [mt_fqn t] \<noteq> []" unfolding t(2) by code_simp
  have gate: "rv_require_draft_run example_review_env" by (simp add: example_review_env_def)
  have "\<forall>run \<in> set [(hd example_runs)\<lparr>vr_created_at := 1\<rparr>]. vr_created_at run < 2" by simp
  from stale_runs_refused [OF run t(1) concrete gate this, of False "''ann''" None 4] show ?thesis by auto
qed

text \<open>The endpoints that edit one application do not stamp the table, so the gate does not see them.\<close>

lemma single_edits_unstamped:
  "ad_tables (snd (set_pin aid pin db)) = ad_tables db"
  "ad_tables (snd (set_severity_override aid sev db)) = ad_tables db"
  "ad_tables (snd (remove_applied aid who db)) = ad_tables db"
  "ad_tables (snd (apply_registry_rule env bid d tags user db)) = ad_tables db"
  "ad_tables (snd (attach_auto_mapping env bid rid gs user db)) = ad_tables db"
  by (auto simp: set_pin_def set_severity_override_def remove_applied_def apply_registry_rule_def attach_auto_mapping_def
      update_application_def update_mutable_fields_def insert_application_def record_suppression_def draw_id_def Let_def
      split: option.split sum.split)

text \<open>After a run, the severity of an application changes, and the gate still lets the table into review.\<close>

lemma edit_after_run_passes:
  "\<not> isl (fst (submit_table example_review_env example_runs False ''x'' ''ann'' None 9
     (snd (set_severity_override ''xx'' (Some ''Critical'') example_saved_db))))"
  by code_simp

end
