(* ===== verification/Data_Products_Laws.thy ===== *)
theory Data_Products_Laws
  imports Data_Products Review_Contract Table_Review_Laws
begin

section \<open>Laws of table spaces and runs\<close>

text \<open>
  A table space keeps the contract of a review, for its definition and its members. A run of a space
  accounts for every member, files exactly the submitted runs, and in its approved form executes frozen
  versions only.
\<close>

subsection \<open>Operations\<close>

text \<open>The operations of the service, and a change of the tables by the rest of the application.\<close>

datatype product_op =
    CreateProduct string "string option" "string option" string "string option" int
  | UpdateProduct string product_patch string int
  | DeleteProduct string
  | AddMember string string "int option" string int
  | RemoveMember string string string int
  | SubmitProduct string string "string option" int
  | ApproveProduct string string "string option" int
  | RejectProduct string string "string option" int
  | RevertProduct string string int
  | RunProduct string run_source string run_trigger "int option" int
  | TablesChange app_db

fun product_exec :: "product_env \<Rightarrow> product_op \<Rightarrow> product_db \<Rightarrow> product_db" where
  "product_exec pe (CreateProduct name description owner user display now) pd = snd (create_product pe name description owner user display now pd)"
| "product_exec pe (UpdateProduct pid u user now) pd = snd (update_data_product pe pid u user now pd)"
| "product_exec pe (DeleteProduct pid) pd = snd (delete_product pid pd)"
| "product_exec pe (AddMember pid bid pin user now) pd = snd (add_product_member pe pid bid pin user now pd)"
| "product_exec pe (RemoveMember pid mid user now) pd = snd (remove_product_member pid mid user now pd)"
| "product_exec pe (SubmitProduct pid user why now) pd = snd (submit_product pid user why now pd)"
| "product_exec pe (ApproveProduct pid user why now) pd = snd (approve_product pid user why now pd)"
| "product_exec pe (RejectProduct pid user why now) pd = snd (reject_product pid user why now pd)"
| "product_exec pe (RevertProduct pid user now) pd = snd (revert_product pid user now pd)"
| "product_exec pe (RunProduct pid source user trigger sample now) pd = snd (run_product pe pid source user trigger sample now pd)"
| "product_exec pe (TablesChange db) pd = (if ad_drawn (rb_app pd) \<le> ad_drawn db then pd\<lparr>rb_app := db\<rparr> else pd)"

fun submits_product :: "string \<Rightarrow> product_op \<Rightarrow> bool" where
  "submits_product pid (SubmitProduct i user why now) = (i = pid)"
| "submits_product pid _ = False"

text \<open>What is reviewed: the definition of the space, and its members with their pins.\<close>

definition reviewed_content :: "string \<Rightarrow> product_db \<Rightarrow>
    (string \<times> string option \<times> string option \<times> string option) option \<times> product_member list" where
  "reviewed_content pid pd =
     (map_option (\<lambda>p. (dp_name p, dp_description p, dp_owner p, dp_owner_display_name p)) (fetch_product pd pid), fetch_members pd pid)"

definition product_status :: "string \<Rightarrow> product_db \<Rightarrow> table_status option" where
  "product_status pid pd = map_option dp_status (fetch_product pd pid)"

text \<open>Identifiers of members are drawn, each once.\<close>

definition wf_members :: "product_env \<Rightarrow> product_db \<Rightarrow> bool" where
  "wf_members pe pd \<longleftrightarrow> distinct (map pm_id (pd_members pd))
     \<and> (\<forall>m \<in> set (pd_members pd). \<exists>k < ad_drawn (rb_app pd). pm_id m = ae_new_id (pe_app pe) k)"

subsection \<open>Frames\<close>

lemma fetch_update:
  assumes "\<And>p. dp_id (f p) = dp_id p"
  shows "fetch_product (update_product i f pd) pid = (if i = pid then map_option f (fetch_product pd pid) else fetch_product pd pid)"
proof -
  have "find (\<lambda>p. dp_id p = pid) (map (\<lambda>p. if dp_id p = i then f p else p) ps)
      = (if i = pid then map_option f (find (\<lambda>p. dp_id p = pid) ps) else find (\<lambda>p. dp_id p = pid) ps)" for ps
    by (induction ps) (auto simp: assms)
  then show ?thesis by (simp add: fetch_product_def update_product_def)
qed

lemma update_product_frame [simp]:
  "pd_members (update_product i f pd) = pd_members pd" "rb_app (update_product i f pd) = rb_app pd"
  by (simp_all add: update_product_def)

lemma flip_frame [simp]:
  "pd_members (flip_to_draft i user now pd) = pd_members pd" "rb_app (flip_to_draft i user now pd) = rb_app pd"
  by (simp_all add: flip_to_draft_def)

lemma fetch_flip: "fetch_product (flip_to_draft i user now pd) pid = (if i = pid
    then map_option (\<lambda>p. p\<lparr>dp_status := TableDraft, dp_updated_by := Some user, dp_updated_at := now\<rparr>) (fetch_product pd pid)
    else fetch_product pd pid)"
  by (simp add: flip_to_draft_def fetch_update)

lemma find_append: "find P (xs @ ys) = (case find P xs of None \<Rightarrow> find P ys | Some x \<Rightarrow> Some x)"
  by (induction xs) auto

lemma drawn_draw [simp]:
  "pd_members (snd (draw_product_id pe pd)) = pd_members pd" "pd_products (snd (draw_product_id pe pd)) = pd_products pd"
  "ad_drawn (rb_app (snd (draw_product_id pe pd))) = Suc (ad_drawn (rb_app pd))"
  "fst (draw_product_id pe pd) = ae_new_id (pe_app pe) (ad_drawn (rb_app pd))"
  by (simp_all add: draw_product_id_def draw_id_def)

text \<open>A run draws identifiers and leaves the tables as they are.\<close>

definition draws :: "run_db \<Rightarrow> run_db \<Rightarrow> bool" where
  "draws rb rb' \<longleftrightarrow> ad_drawn (rb_app rb) \<le> ad_drawn (rb_app rb') \<and> (rb_app rb')\<lparr>ad_drawn := ad_drawn (rb_app rb)\<rparr> = rb_app rb"

lemma draws_refl [simp]: "draws rb rb"
  by (simp add: draws_def)

lemma draws_trans: "draws rb rb' \<Longrightarrow> draws rb' rb'' \<Longrightarrow> draws rb rb''"
  unfolding draws_def by (metis (no_types, lifting) app_db.update_convs(8) app_db.surjective app_db.ext_inject le_trans)

text \<open>A frame rule for the steps of a run.\<close>

lemma draws_app: "rb_app rb' = rb_app rb \<Longrightarrow> draws rb rb'"
  by (simp add: draws_def)

lemma draws_draw: "draws rb (snd (draw_run_id re rb))"
  by (simp add: draws_def draw_run_id_def draw_id_def)

lemma draws_set: "draws rb (snd (create_run_set re product version source trigger user now rb))"
  by (simp add: create_run_set_def draw_run_id_def draw_id_def draws_def)

lemma draws_join: "draws rb (snd (join_run_set re rq run bid version now rb))"
proof -
  obtain set_id rb1 where one: "(if rn_set rq = None \<or> rn_set rq = Some []
      then create_run_set re None None (rn_source rq) (rn_trigger rq) (Some (rn_user rq)) now rb else (the (rn_set rq), rb)) = (set_id, rb1)"
    by fastforce
  have "draws rb rb1" using one draws_set [of rb re None None "rn_source rq" "rn_trigger rq" "Some (rn_user rq)" now]
    by (auto split: if_splits)
  moreover have "draws rb1 (snd (join_run_set re rq run bid version now rb))"
    by (rule draws_app) (simp add: join_run_set_def one add_run_member_def delete_empty_set_def)
  ultimately show ?thesis by (rule draws_trans)
qed

lemma draws_record: "draws rb (record_dryrun_started re run user fqn run_type now rb)"
  by (rule draws_app) (simp add: record_dryrun_started_def)

lemma draws_binding: "draws rb (snd (run_binding re bid rq now rb))"
proof (cases "get_binding (rb_app rb) bid")
  case (Some t)
  show ?thesis
  proof (cases "resolve_checks re (rb_app rb) bid (mt_version t) (rn_source rq) (rn_version rq) (rn_rules rq)")
    case (Inr res)
    obtain checks version where res: "res = (checks, version)" by fastforce
    obtain run rb1 where one: "draw_run_id re rb = (run, rb1)" by fastforce
    have d1: "draws rb rb1" using draws_draw [of rb re] one by simp
    have d2: "draws rb (snd (join_run_set re rq run bid version now (record_dryrun_started re run user fqn rt now (rb1\<lparr>rb_views := vs\<rparr>))))" for user fqn rt vs
      using draws_trans [OF d1 draws_trans [OF draws_app draws_trans [OF draws_record draws_join]]] by simp
    have d3: "draws rb (rb1\<lparr>rb_views := vs\<rparr>)" for vs using draws_trans [OF d1 draws_app] by simp
    have tail: "snd (case x of (Inl e, rb) \<Rightarrow> (Inl e, rb) | (Inr s, rb) \<Rightarrow> (Inr (g s), rb)) = snd x"
      for x :: "(run_error + string) \<times> run_db" and g :: "string \<Rightarrow> run_result"
      by (cases x; cases "fst x") auto
    show ?thesis using Some Inr res one d1 d2 d3 by (simp add: run_binding_def Let_def tail split: sum.split option.split prod.split)
  qed (simp add: run_binding_def Some)
qed (simp add: run_binding_def)

lemma draws_members: "draws rb (snd (run_members re request now ms rb))"
proof (induction ms arbitrary: rb)
  case (Cons m ms)
  obtain mem fqn version where m: "m = (mem, fqn, version)" by (cases m) auto
  obtain r rb1 where one: "run_binding re (pm_binding mem) (request version) now rb = (r, rb1)" by fastforce
  have "draws rb rb1" using draws_binding [of rb re "pm_binding mem" "request version" now] one by simp
  then have "draws rb (snd (run_members re request now ms rb1))" using Cons.IH draws_trans by blast
  then show ?case using m one by (auto simp: Let_def split: sum.split prod.split)
qed simp

lemma run_product_frame:
  "pd_products (snd (run_product pe pid source user trigger sample now pd)) = pd_products pd"
  "pd_members (snd (run_product pe pid source user trigger sample now pd)) = pd_members pd"
  "ad_drawn (rb_app pd) \<le> ad_drawn (rb_app (snd (run_product pe pid source user trigger sample now pd)))"
proof -
  show "pd_products (snd (run_product pe pid source user trigger sample now pd)) = pd_products pd"
    "pd_members (snd (run_product pe pid source user trigger sample now pd)) = pd_members pd"
    by (auto simp: run_product_def Let_def put_runs_def run_db.defs product_db.defs split: option.split prod.split)
  show "ad_drawn (rb_app pd) \<le> ad_drawn (rb_app (snd (run_product pe pid source user trigger sample now pd)))"
  proof (cases "fetch_product pd pid")
    case (Some p)
    obtain set_id rb1 where one: "create_run_set (pe_run pe) (Some pid) (Some (int (dp_version p))) source trigger (Some user) now
        (run_db.truncate pd) = (set_id, rb1)" by fastforce
    obtain sent failed rb2 where two: "run_members (pe_run pe) (product_request source user trigger sample set_id) now
        (planned_members pd source pid) rb1 = ((sent, failed), rb2)" by (metis prod.collapse)
    have "draws (run_db.truncate pd) rb1"
      using draws_set [of "run_db.truncate pd" "pe_run pe" "Some pid" "Some (int (dp_version p))" source trigger "Some user" now] one by simp
    moreover have "draws rb1 rb2"
      using draws_members [of rb1 "pe_run pe" "product_request source user trigger sample set_id" now "planned_members pd source pid"] two by simp
    ultimately have "draws (run_db.truncate pd) rb2" by (rule draws_trans)
    then show ?thesis using Some one two
      by (auto simp: run_product_def Let_def put_runs_def run_db.defs product_db.defs draws_def delete_empty_set_def)
  qed (simp add: run_product_def)
qed

subsection \<open>The contract of the review\<close>

lemma wf_members_frame:
  "pd_members pd' = pd_members pd \<Longrightarrow> ad_drawn (rb_app pd) \<le> ad_drawn (rb_app pd') \<Longrightarrow> wf_members pe pd \<Longrightarrow> wf_members pe pd'"
  by (force simp: wf_members_def)

lemma wf_members_drop:
  "wf_members pe pd \<Longrightarrow> pd_members pd' = filter P (pd_members pd) \<Longrightarrow> rb_app pd' = rb_app pd \<Longrightarrow> wf_members pe pd'"
  by (auto simp: wf_members_def distinct_map_filter)

lemma wf_members_pin:
  assumes "wf_members pe pd" "pd_members pd' = map (\<lambda>q. if pm_id q = i then q\<lparr>pm_pinned := pin\<rparr> else q) (pd_members pd)" "rb_app pd' = rb_app pd"
  shows "wf_members pe pd'"
proof -
  have ids: "map pm_id (pd_members pd') = map pm_id (pd_members pd)" unfolding assms(2)
    by (induction "pd_members pd") auto
  then have "\<exists>q \<in> set (pd_members pd). pm_id q = pm_id m" if "m \<in> set (pd_members pd')" for m
    using that by (metis (no_types, lifting) image_iff image_set)
  then show ?thesis using assms(1,3) ids unfolding wf_members_def by metis
qed

lemma wf_members_add:
  assumes "inj (ae_new_id (pe_app pe))" "wf_members pe pd" "pd_members pd' = pd_members pd @ [m]"
    "pm_id m = ae_new_id (pe_app pe) (ad_drawn (rb_app pd))" "ad_drawn (rb_app pd') = Suc (ad_drawn (rb_app pd))"
  shows "wf_members pe pd'"
proof -
  have "pm_id m \<notin> pm_id ` set (pd_members pd)"
    using assms(1,2,4) by (force simp: wf_members_def inj_eq)
  then show ?thesis using assms by (auto simp: wf_members_def less_Suc_eq)
qed

lemma review_product_frame:
  "pd_members (snd (review_product allowed f i pd)) = pd_members pd" "rb_app (snd (review_product allowed f i pd)) = rb_app pd"
  by (simp_all add: review_product_def split: option.split)

lemmas review_ops = submit_product_def approve_product_def reject_product_def revert_product_def

lemma product_exec_wf:
  assumes inj: "inj (ae_new_id (pe_app pe))" and wf: "wf_members pe pd"
  shows "wf_members pe (product_exec pe op pd)"
proof (cases op)
  case (CreateProduct name description owner user display now)
  have "pd_members (product_exec pe op pd) = pd_members pd" "ad_drawn (rb_app pd) \<le> ad_drawn (rb_app (product_exec pe op pd))"
    by (auto simp: CreateProduct create_product_def Let_def draw_product_id_def draw_id_def split: option.split prod.split)
  then show ?thesis by (rule wf_members_frame [OF _ _ wf])
next
  case (UpdateProduct pid u user now)
  show ?thesis by (rule wf_members_frame [OF _ _ wf]) (auto simp: UpdateProduct update_data_product_def Let_def split: option.split sum.split)
next
  case (DeleteProduct pid)
  show ?thesis
  proof (cases "fetch_product pd pid")
    case (Some p)
    then show ?thesis by (intro wf_members_drop [OF wf]) (simp_all add: DeleteProduct delete_product_def)
  qed (simp add: DeleteProduct delete_product_def wf)
next
  case (AddMember pid bid pin user now)
  consider (same) "product_exec pe op pd = pd"
    | (pin) i where "pd_members (product_exec pe op pd) = map (\<lambda>q. if pm_id q = i then q\<lparr>pm_pinned := pin\<rparr> else q) (pd_members pd)"
        "rb_app (product_exec pe op pd) = rb_app pd"
    | (new) m where "pd_members (product_exec pe op pd) = pd_members pd @ [m]" "pm_id m = ae_new_id (pe_app pe) (ad_drawn (rb_app pd))"
        "ad_drawn (rb_app (product_exec pe op pd)) = Suc (ad_drawn (rb_app pd))"
    by (cases "fetch_product pd pid"; cases "find_member pd pid bid"; cases "require_approved_binding (rb_app pd) bid")
      (auto simp: AddMember add_product_member_def Let_def case_prod_beta)
  then show ?thesis
  proof cases
    case pin
    then show ?thesis by (rule wf_members_pin [OF wf])
  next
    case new
    then show ?thesis by (rule wf_members_add [OF inj wf])
  qed (simp add: wf)
next
  case (RemoveMember pid mid user now)
  consider (same) "product_exec pe op pd = pd"
    | (gone) "pd_members (product_exec pe op pd) = filter (\<lambda>m. pm_id m \<noteq> mid) (pd_members pd)" "rb_app (product_exec pe op pd) = rb_app pd"
    by (cases "fetch_product pd pid"; cases "list_ex (\<lambda>m. pm_id m = mid \<and> pm_product m = pid) (pd_members pd)")
      (simp_all add: RemoveMember remove_product_member_def)
  then show ?thesis by cases (simp add: wf, rule wf_members_drop [OF wf])
next
  case (RunProduct pid source user trigger sample now)
  then show ?thesis using run_product_frame by (intro wf_members_frame [OF _ _ wf]) simp_all
next
  case (TablesChange db)
  then show ?thesis by (intro wf_members_frame [OF _ _ wf]) simp_all
qed (rule wf_members_frame [OF _ _ wf]; simp add: review_ops review_product_frame)+

lemma unedited_content:
  assumes "fetch_product pd' pid = fetch_product pd pid" "pd_members pd' = pd_members pd" "product_status pid pd' = Some st" "st \<noteq> TableDraft"
  shows "(\<exists>st0. product_status pid pd = Some st0 \<and> st0 \<noteq> TableDraft) \<and> reviewed_content pid pd' = reviewed_content pid pd"
  using assms by (auto simp: product_status_def reviewed_content_def fetch_members_def)

lemma kept_review:
  assumes "\<And>p. dp_id (f p) = dp_id p" "\<And>p. (dp_name (f p), dp_description (f p), dp_owner (f p), dp_owner_display_name (f p))
      = (dp_name p, dp_description p, dp_owner p, dp_owner_display_name p)"
    and "i = pid \<Longrightarrow> \<not> allowed TableDraft"
    and "product_status pid (snd (review_product allowed f i pd)) = Some st" "st \<noteq> TableDraft"
  shows "(\<exists>st0. product_status pid pd = Some st0 \<and> st0 \<noteq> TableDraft) \<and> reviewed_content pid (snd (review_product allowed f i pd)) = reviewed_content pid pd"
proof (cases "fetch_product pd i")
  case None
  then show ?thesis using assms(4,5) by (simp add: review_product_def)
next
  case (Some p)
  have all: "\<And>p. dp_name (f p) = dp_name p \<and> dp_description (f p) = dp_description p \<and> dp_owner (f p) = dp_owner p
      \<and> dp_owner_display_name (f p) = dp_owner_display_name p" using assms(2) by simp
  show ?thesis
  proof (cases "allowed (dp_status p)")
    case True
    have res: "snd (review_product allowed f i pd) = update_product i f pd" using Some True by (simp add: review_product_def)
    have "i = pid \<Longrightarrow> dp_status p \<noteq> TableDraft" using True assms(3) by metis
    then show ?thesis using assms(4,5) Some all unfolding res
      by (cases "i = pid") (auto simp: fetch_update [OF assms(1)] product_status_def reviewed_content_def fetch_members_def option.map_comp comp_def)
  next
    case False
    then show ?thesis using Some assms(4,5) by (simp add: review_product_def)
  qed
qed

lemma filter_map_outside:
  assumes "\<And>q. q \<in> set ms \<Longrightarrow> C q \<Longrightarrow> \<not> P q" "\<And>q. P (f q) = P q"
  shows "filter P (map (\<lambda>q. if C q then f q else q) ms) = filter P ms"
  using assms by (induction ms) auto

lemma add_member_cases:
  obtains (same) "snd (add_product_member pe i bid pin user now pd) = pd"
    | (pin) m where "find_member pd i bid = Some m" "snd (add_product_member pe i bid pin user now pd)
        = flip_to_draft i user now (pd\<lparr>pd_members := map (\<lambda>q. if pm_id q = pm_id m then q\<lparr>pm_pinned := pin\<rparr> else q) (pd_members pd)\<rparr>)"
    | (new) m db where "pm_product m = i" "snd (add_product_member pe i bid pin user now pd)
        = flip_to_draft i user now (pd\<lparr>rb_app := db, pd_members := pd_members pd @ [m]\<rparr>)"
proof (cases "fetch_product pd i")
  case None
  then show ?thesis by (intro same) (simp add: add_product_member_def)
next
  case (Some p)
  show ?thesis
  proof (cases "find_member pd i bid")
    case (Some m)
    show ?thesis by (rule pin [OF Some]) (simp add: add_product_member_def \<open>fetch_product pd i = Some p\<close> Some)
  next
    case None
    show ?thesis
    proof (cases "require_approved_binding (rb_app pd) bid")
      case (Inl e)
      then show ?thesis by (intro same) (simp add: add_product_member_def Some None)
    next
      case (Inr t)
      let ?m = "\<lparr>pm_id = ae_new_id (pe_app pe) (ad_drawn (rb_app pd)), pm_product = i, pm_binding = bid,
        pm_pinned = resolve_pinned_version (pe_app pe) pin (mt_version t)\<rparr>"
      show ?thesis by (rule new [of ?m "(rb_app pd)\<lparr>ad_drawn := Suc (ad_drawn (rb_app pd))\<rparr>"])
        (simp_all add: add_product_member_def Some None Inr draw_product_id_def draw_id_def Let_def)
    qed
  qed
qed

lemma product_exec_kept:
  assumes wf: "wf_members pe pd" and other: "\<not> submits_product pid op"
    and st: "product_status pid (product_exec pe op pd) = Some st" "st \<noteq> TableDraft"
  shows "(\<exists>st0. product_status pid pd = Some st0 \<and> st0 \<noteq> TableDraft)
    \<and> reviewed_content pid (product_exec pe op pd) = reviewed_content pid pd"
proof (cases op)
  case (CreateProduct name description owner user display now)
  let ?pd = "product_exec pe op pd"
  have "pd_members ?pd = pd_members pd
      \<and> (pd_products ?pd = pd_products pd \<or> (\<exists>p. pd_products ?pd = pd_products pd @ [p] \<and> dp_status p = TableDraft))"
    by (cases "py_strip name = []"; cases "product_name_taken pd name None")
      (simp_all add: CreateProduct create_product_def Let_def case_prod_beta draw_product_id_def draw_id_def)
  then have "fetch_product ?pd pid = fetch_product pd pid \<and> pd_members ?pd = pd_members pd"
    using st by (auto simp: fetch_product_def product_status_def find_append split: option.splits if_splits)
  then show ?thesis using unedited_content st by blast
next
  case (UpdateProduct i u user now)
  show ?thesis
  proof (cases "product_exec pe op pd = pd")
    case False
    let ?u = "resolve_patch_owner pe u"
    have res: "product_exec pe op pd = update_product i (patch_product ?u user now) pd"
      using False by (auto simp: UpdateProduct update_data_product_def Let_def split: option.splits sum.splits if_splits)
    have fetch: "fetch_product (product_exec pe op pd) pid
        = (if i = pid then map_option (patch_product ?u user now) (fetch_product pd pid) else fetch_product pd pid)"
      unfolding res by (rule fetch_update) (simp add: patch_product_def)
    show ?thesis
    proof (cases "i = pid")
      case True
      then have "schedule_only ?u" using st fetch by (auto simp: product_status_def patch_product_def split: if_splits)
      then have "touches_definition ?u = False" by (simp add: schedule_only_def)
      then show ?thesis using True st fetch \<open>schedule_only ?u\<close>
        by (auto simp: product_status_def patch_product_def reviewed_content_def touches_definition_def or_else_def fetch_members_def res)
    next
      case False
      then show ?thesis using unedited_content [of "product_exec pe op pd"] fetch st by (simp add: res)
    qed
  qed (use st unedited_content [of pd pid pd st] in simp)
next
  case (DeleteProduct i)
  show ?thesis
  proof (cases "i = pid")
    case True
    have "find (\<lambda>p. dp_id p = pid) (filter (\<lambda>p. dp_id p \<noteq> pid) ps) = None" for ps :: "data_product list" by (simp add: find_None_iff)
    then have "product_status pid (product_exec pe op pd) = None"
      using True by (simp add: DeleteProduct delete_product_def product_status_def fetch_product_def split: option.split)
    then show ?thesis using st by simp
  next
    case False
    have "find (\<lambda>p. dp_id p = pid) (filter (\<lambda>p. dp_id p \<noteq> i) ps) = find (\<lambda>p. dp_id p = pid) ps" for ps :: "data_product list"
      using False by (induction ps) auto
    moreover have "filter (\<lambda>m. pm_product m = pid) (filter (\<lambda>m. pm_product m \<noteq> i) ms) = filter (\<lambda>m. pm_product m = pid) ms" for ms :: "product_member list"
      using False by (induction ms) auto
    ultimately have "product_status pid (product_exec pe op pd) = product_status pid pd"
      "reviewed_content pid (product_exec pe op pd) = reviewed_content pid pd"
      by (simp_all add: DeleteProduct delete_product_def product_status_def fetch_product_def reviewed_content_def fetch_members_def split: option.split)
    then show ?thesis using st by metis
  qed
next
  case (AddMember i bid pin user now)
  have fetch: "fetch_product (pd\<lparr>rb_app := db, pd_members := ms\<rparr>) j = fetch_product pd j"
    "fetch_product (pd\<lparr>pd_members := ms\<rparr>) j = fetch_product pd j" for j db ms by (simp_all add: fetch_product_def)
  from add_member_cases [of pe i bid pin user now pd] show ?thesis
  proof cases
    case same
    then show ?thesis using st unedited_content [of pd pid pd st] by (simp add: AddMember)
  next
    case (pin m)
    have other: "i \<noteq> pid" using st fetch pin(2) by (auto simp: AddMember product_status_def fetch_flip)
    have "m \<in> set (pd_members pd)" "pm_product m = i" using pin(1) by (auto simp: find_member_def find_Some_iff)
    moreover have "inj_on pm_id (set (pd_members pd))" using wf by (simp add: wf_members_def distinct_map)
    ultimately have "pm_product q \<noteq> pid" if "q \<in> set (pd_members pd)" "pm_id q = pm_id m" for q
      using that other by (metis inj_onD)
    then have "filter (\<lambda>m. pm_product m = pid) (map (\<lambda>q. if pm_id q = pm_id m then q\<lparr>pm_pinned := p\<rparr> else q) (pd_members pd))
        = filter (\<lambda>m. pm_product m = pid) (pd_members pd)" for p
      by (intro filter_map_outside) auto
    then show ?thesis using st fetch other pin(2)
      by (auto simp: AddMember product_status_def reviewed_content_def fetch_flip fetch_members_def)
  next
    case (new m db)
    have "i \<noteq> pid" using st fetch new(2) by (auto simp: AddMember product_status_def fetch_flip)
    then show ?thesis using st fetch new
      by (auto simp: AddMember product_status_def reviewed_content_def fetch_flip fetch_members_def)
  qed
next
  case (RemoveMember i mid user now)
  show ?thesis
  proof (cases "product_exec pe op pd = pd")
    case False
    then have res: "product_exec pe op pd = flip_to_draft i user now (pd\<lparr>pd_members := filter (\<lambda>m. pm_id m \<noteq> mid) (pd_members pd)\<rparr>)"
      and found: "\<exists>m \<in> set (pd_members pd). pm_id m = mid \<and> pm_product m = i"
      by (auto simp: RemoveMember remove_product_member_def list_ex_iff split: option.splits if_splits)
    have fetch: "fetch_product (pd\<lparr>pd_members := ms\<rparr>) j = fetch_product pd j" for j ms by (simp add: fetch_product_def)
    have other: "i \<noteq> pid" using st by (auto simp: res product_status_def fetch_flip fetch)
    have inj: "inj_on pm_id (set (pd_members pd))" using wf by (simp add: wf_members_def distinct_map)
    have "pm_id q \<noteq> mid" if "q \<in> set (pd_members pd)" "pm_product q = pid" for q
      using found that other inj by (metis inj_onD)
    then have "filter (\<lambda>m. pm_product m = pid) (filter (\<lambda>m. pm_id m \<noteq> mid) (pd_members pd)) = filter (\<lambda>m. pm_product m = pid) (pd_members pd)"
      by (auto intro: filter_cong)
    then show ?thesis using st other by (auto simp: res product_status_def reviewed_content_def fetch_flip fetch fetch_members_def)
  qed (use st unedited_content [of pd pid pd st] in simp)
next
  case (SubmitProduct i user why now)
  then have "i \<noteq> pid" using other by simp
  then show ?thesis using st unfolding SubmitProduct product_exec.simps submit_product_def
    by (intro kept_review) simp_all
next
  case (ApproveProduct i user why now)
  then show ?thesis using st unfolding ApproveProduct product_exec.simps approve_product_def by (intro kept_review) simp_all
next
  case (RejectProduct i user why now)
  then show ?thesis using st unfolding RejectProduct product_exec.simps reject_product_def by (intro kept_review) simp_all
next
  case (RevertProduct i user now)
  then show ?thesis using st unfolding RevertProduct product_exec.simps revert_product_def by (intro kept_review) simp_all
next
  case (RunProduct i source user trigger sample now)
  have "fetch_product (product_exec pe op pd) pid = fetch_product pd pid" "pd_members (product_exec pe op pd) = pd_members pd"
    by (simp_all add: RunProduct fetch_product_def run_product_frame)
  then show ?thesis using unedited_content st by blast
next
  case (TablesChange db)
  have "fetch_product (product_exec pe op pd) pid = fetch_product pd pid" "pd_members (product_exec pe op pd) = pd_members pd"
    by (simp_all add: TablesChange fetch_product_def)
  then show ?thesis using unedited_content st by blast
qed

interpretation product_review: reviewed_object "product_exec pe" "\<lambda>pd. inj (ae_new_id (pe_app pe)) \<and> wf_members pe pd"
  "product_status pid" TableDraft "reviewed_content pid" "submits_product pid"
  by unfold_locales (simp add: product_exec_wf, rule product_exec_kept, auto)

subsection \<open>The example\<close>

text \<open>The table of the last example is approved and joins a space, which is reviewed.\<close>

definition example_run_env :: run_env where
  "example_run_env = \<lparr>re_app = example_app_env, re_draft_limit = None, re_custom_metrics = [],
     re_table_view = (\<lambda>fqn. Some (''v.'' @ fqn)), re_query_view = (\<lambda>_. None), re_submit = (\<lambda>_ _ _ _. Some 7),
     re_placeholder_ok = (\<lambda>_. True), re_member_ok = (\<lambda>_. True)\<rparr>"

definition example_product_env :: product_env where
  "example_product_env = \<lparr>pe_run = example_run_env, pe_lookup = (\<lambda>_. None)\<rparr>"

definition example_spaces :: product_db where
  "example_spaces = \<lparr>rb_app = snd (approve_table example_app_env ''x'' ''bob'' None 5 example_pending_db), rb_runs = [],
     rb_sets = [], rb_members = [], rb_views = [], pd_products = [], pd_members = []\<rparr>"

definition example_space_id :: string where
  "example_space_id = replicate 3 CHR ''x''"

definition example_product_ops :: "product_op list" where
  "example_product_ops = [CreateProduct ''sales'' None None ''ann'' None 6, AddMember example_space_id ''x'' None ''ann'' 7,
     SubmitProduct example_space_id ''ann'' None 8, ApproveProduct example_space_id ''bob'' None 9]"

definition example_approved_space :: product_db where
  "example_approved_space = fold (product_exec example_product_env) example_product_ops example_spaces"

lemma example_spaces_wf: "inj (ae_new_id (pe_app example_product_env)) \<and> wf_members example_product_env example_spaces"
  using example_ids by (simp add: wf_members_def example_spaces_def example_product_env_def example_run_env_def)

text \<open>C25: What is reviewed is what was submitted: if a table space is in review, approved or rejected at the
  end of any sequence of operations, on this and other spaces and on the tables, then its name,
  description, owner, members and pins are those that its last submission put into review.\<close>

theorem space_is_as_submitted:
  assumes "inj (ae_new_id (pe_app pe))" "wf_members pe pd" "product_status pid pd \<in> {None, Some TableDraft}"
    "product_status pid (fold (product_exec pe) ops pd) = Some st" "st \<noteq> TableDraft"
  shows "\<exists>before op later. ops = before @ op # later \<and> submits_product pid op \<and> (\<forall>o' \<in> set later. \<not> submits_product pid o')
    \<and> reviewed_content pid (fold (product_exec pe) ops pd) = reviewed_content pid (fold (product_exec pe) (before @ [op]) pd)"
proof (rule product_review.is_as_submitted)
  show "inj (ae_new_id (pe_app pe)) \<and> wf_members pe pd" using assms(1,2) by simp
  show "\<not> product_review.out_of_draft pid pd" using assms(3) by (auto simp: product_review.out_of_draft_def)
  show "product_review.out_of_draft pid (fold (product_exec pe) ops pd)" using assms(4,5) by (auto simp: product_review.out_of_draft_def)
qed

lemma space_is_as_submitted_witness:
  "\<exists>before op later. example_product_ops = before @ op # later \<and> submits_product example_space_id op
    \<and> reviewed_content example_space_id example_approved_space
      = reviewed_content example_space_id (fold (product_exec example_product_env) (before @ [op]) example_spaces)"
proof -
  have "product_status example_space_id example_spaces = None" by code_simp
  then have fresh: "product_status example_space_id example_spaces \<in> {None, Some TableDraft}" by simp
  have approved: "product_status example_space_id (fold (product_exec example_product_env) example_product_ops example_spaces) = Some TableApproved"
    by code_simp
  show ?thesis
    using space_is_as_submitted [OF example_spaces_wf [THEN conjunct1] example_spaces_wf [THEN conjunct2] fresh approved]
    unfolding example_approved_space_def by auto
qed

subsection \<open>Runs\<close>

definition started_row :: "run_request \<Rightarrow> string \<Rightarrow> string \<Rightarrow> int \<Rightarrow> run_row" where
  "started_row rq fqn run now = \<lparr>vr_table = fqn, vr_status = Some ''RUNNING'', vr_type = Some (run_type_text (rn_trigger rq)),
     vr_created_at = now, vr_run_id = run, vr_user = rn_user rq\<rparr>"

lemma join_success:
  assumes "join_run_set re rq run bid version now rb = (Inr set_id, rb')"
  shows "rb_members rb' = rb_members rb @ [\<lparr>rm_set = set_id, rm_run = run, rm_binding = bid, rm_version = version\<rparr>]
    \<and> rb_runs rb' = rb_runs rb \<and> (\<forall>S. rn_set rq = Some S \<longrightarrow> S \<noteq> [] \<longrightarrow> set_id = S \<and> rb_sets rb' = rb_sets rb)"
  using assms by (auto simp: join_run_set_def create_run_set_def draw_run_id_def draw_id_def add_run_member_def Let_def split: if_splits)

lemma join_failure:
  assumes "join_run_set re rq run bid version now rb = (Inl e, rb')"
  shows "rb_members rb' = rb_members rb \<and> rb_runs rb' = rb_runs rb \<and> (\<forall>S. rn_set rq = Some S \<longrightarrow> S \<noteq> [] \<longrightarrow> rb_sets rb' = rb_sets rb)"
  using assms by (auto simp: join_run_set_def create_run_set_def draw_run_id_def draw_id_def add_run_member_def delete_empty_set_def
      Let_def split: if_splits)

lemma draw_run_frame [simp]:
  "rb_members (snd (draw_run_id re rb)) = rb_members rb" "rb_runs (snd (draw_run_id re rb)) = rb_runs rb"
  "rb_sets (snd (draw_run_id re rb)) = rb_sets rb"
  by (simp_all add: draw_run_id_def draw_id_def)

lemma run_binding_resolved:
  assumes "get_binding (rb_app rb) bid = Some t"
    "resolve_checks re (rb_app rb) bid (mt_version t) (rn_source rq) (rn_version rq) (rn_rules rq) = Inr (checks, version)" "checks \<noteq> []"
    "run_view re (mt_fqn t) (stamp_run_provenance checks (run_mode_text (rn_source rq)) version) = Inr (v, sql)"
    "submit_run re rq (mt_fqn t) (stamp_run_provenance checks (run_mode_text (rn_source rq)) version) (fst (draw_run_id re rb)) (v, sql) = Some job"
  shows "run_binding re bid rq now rb = (case join_run_set re rq (fst (draw_run_id re rb)) bid version now
      (record_dryrun_started re (fst (draw_run_id re rb)) (rn_user rq) (mt_fqn t) (run_type_text (rn_trigger rq)) now
        ((snd (draw_run_id re rb))\<lparr>rb_views := v # rb_views (snd (draw_run_id re rb))\<rparr>)) of
     (Inl e, rb') \<Rightarrow> (Inl e, rb')
   | (Inr S, rb') \<Rightarrow> (Inr \<lparr>rn_run_set = S, rn_run = fst (draw_run_id re rb), rn_job = job, rn_view = v\<rparr>, rb'))"
  using assms by (simp add: run_binding_def Let_def case_prod_beta split: sum.split)

lemma run_binding_success:
  assumes "run_binding re bid rq now rb = (Inr r, rb')"
  obtains t checks version sql where "get_binding (rb_app rb) bid = Some t"
    "resolve_checks re (rb_app rb) bid (mt_version t) (rn_source rq) (rn_version rq) (rn_rules rq) = Inr (checks, version)" "checks \<noteq> []"
    "run_view re (mt_fqn t) (stamp_run_provenance checks (run_mode_text (rn_source rq)) version) = Inr (rn_view r, sql)"
    "submit_run re rq (mt_fqn t) (stamp_run_provenance checks (run_mode_text (rn_source rq)) version) (rn_run r) (rn_view r, sql) = Some (rn_job r)"
    "rb_members rb' = rb_members rb @ [\<lparr>rm_set = rn_run_set r, rm_run = rn_run r, rm_binding = bid, rm_version = version\<rparr>]"
    "rb_runs rb' = rb_runs rb @ (if re_placeholder_ok re (rn_run r) then [started_row rq (mt_fqn t) (rn_run r) now] else [])"
    "\<And>S. rn_set rq = Some S \<Longrightarrow> S \<noteq> [] \<Longrightarrow> rn_run_set r = S \<and> rb_sets rb' = rb_sets rb"
proof -
  obtain t where t: "get_binding (rb_app rb) bid = Some t" using assms by (auto simp: run_binding_def split: option.splits)
  obtain checks version where checks: "resolve_checks re (rb_app rb) bid (mt_version t) (rn_source rq) (rn_version rq) (rn_rules rq) = Inr (checks, version)"
    "checks \<noteq> []" using assms t by (auto simp: run_binding_def split: sum.splits if_splits)
  let ?checks = "stamp_run_provenance checks (run_mode_text (rn_source rq)) version"
  obtain v sql where view: "run_view re (mt_fqn t) ?checks = Inr (v, sql)"
    using assms t checks by (auto simp: run_binding_def Let_def case_prod_beta split: sum.splits)
  obtain job where job: "submit_run re rq (mt_fqn t) ?checks (fst (draw_run_id re rb)) (v, sql) = Some job"
    using assms t checks view by (auto simp: run_binding_def Let_def case_prod_beta split: option.splits)
  let ?rb = "record_dryrun_started re (fst (draw_run_id re rb)) (rn_user rq) (mt_fqn t) (run_type_text (rn_trigger rq)) now
        ((snd (draw_run_id re rb))\<lparr>rb_views := v # rb_views (snd (draw_run_id re rb))\<rparr>)"
  obtain S where join: "join_run_set re rq (fst (draw_run_id re rb)) bid version now ?rb = (Inr S, rb')"
    and r: "r = \<lparr>rn_run_set = S, rn_run = fst (draw_run_id re rb), rn_job = job, rn_view = v\<rparr>"
    using assms run_binding_resolved [OF t checks view job, of now] by (auto split: prod.splits sum.splits)
  have "rb_runs ?rb = rb_runs rb @ (if re_placeholder_ok re (rn_run r) then [started_row rq (mt_fqn t) (rn_run r) now] else [])"
    "rb_members ?rb = rb_members rb" "rb_sets ?rb = rb_sets rb"
    by (simp_all add: record_dryrun_started_def started_row_def r)
  then show thesis using that [OF t checks, of sql] view job join_success [OF join] by (simp add: r)
qed

lemma run_binding_failure:
  assumes "run_binding re bid rq now rb = (Inl e, rb')"
  shows "rb_members rb' = rb_members rb \<and> set (rb_runs rb) \<subseteq> set (rb_runs rb')
    \<and> (\<forall>S. rn_set rq = Some S \<longrightarrow> S \<noteq> [] \<longrightarrow> rb_sets rb' = rb_sets rb)"
proof (cases "get_binding (rb_app rb) bid")
  case (Some t)
  show ?thesis
  proof (cases "resolve_checks re (rb_app rb) bid (mt_version t) (rn_source rq) (rn_version rq) (rn_rules rq)")
    case (Inr res)
    obtain checks version where checks: "res = (checks, version)" by fastforce
    let ?checks = "stamp_run_provenance checks (run_mode_text (rn_source rq)) version"
    note res = Inr [unfolded checks]
    show ?thesis
    proof (cases "run_view re (mt_fqn t) ?checks")
      case (Inl e)
      then show ?thesis using assms Some res by (cases "checks = []") (auto simp: run_binding_def Let_def case_prod_beta)
    next
      case (Inr view)
      show ?thesis
      proof (cases "checks = []")
        case True
        then show ?thesis using assms Some res by (auto simp: run_binding_def)
      next
        case False
        obtain v sql where view: "run_view re (mt_fqn t) ?checks = Inr (v, sql)" using Inr by (cases view) auto
        note \<open>checks \<noteq> []\<close>
        show ?thesis
        proof (cases "submit_run re rq (mt_fqn t) ?checks (fst (draw_run_id re rb)) (v, sql)")
          case None
          then show ?thesis using assms \<open>get_binding (rb_app rb) bid = Some t\<close> res view \<open>checks \<noteq> []\<close>
            by (auto simp: run_binding_def Let_def case_prod_beta)
        next
          case (Some job)
          let ?rb = "record_dryrun_started re (fst (draw_run_id re rb)) (rn_user rq) (mt_fqn t) (run_type_text (rn_trigger rq)) now
            ((snd (draw_run_id re rb))\<lparr>rb_views := v # rb_views (snd (draw_run_id re rb))\<rparr>)"
          have "join_run_set re rq (fst (draw_run_id re rb)) bid version now ?rb = (Inl e, rb')"
            using assms run_binding_resolved [OF \<open>get_binding (rb_app rb) bid = Some t\<close> res \<open>checks \<noteq> []\<close> view Some, of now]
            by (auto split: prod.splits sum.splits)
          moreover have "rb_members ?rb = rb_members rb" "set (rb_runs rb) \<subseteq> set (rb_runs ?rb)" "rb_sets ?rb = rb_sets rb"
            by (auto simp: record_dryrun_started_def)
          ultimately show ?thesis using join_failure [of re rq "fst (draw_run_id re rb)" bid version now ?rb e rb'] by auto
      qed
      qed
    qed
  qed (use assms Some in \<open>auto simp: run_binding_def\<close>)
qed (use assms in \<open>auto simp: run_binding_def\<close>)

text \<open>C26: An approved run executes a frozen version: whatever the tables, the applications and the registry
  have become, the job is given the checks of one frozen snapshot of the table, filtered and stamped,
  namely the requested version or the current one, and the run is filed under that version.\<close>

theorem approved_run_is_frozen:
  assumes "run_binding re bid rq now rb = (Inr r, rb')" "rn_source rq = RunApproved"
  shows "\<exists>t v tv cs view. get_binding (rb_app rb) bid = Some t \<and> int v = or_else (rn_version rq) (int (mt_version t))
    \<and> snapshot_of (rb_app rb) bid v = Some tv \<and> get_checks (re_app re) (rb_app rb) bid v = Inr cs
    \<and> submit_run re rq (mt_fqn t) (stamp_run_provenance (filter_by_registry_rules (rn_rules rq) (map check_json cs)) ''published'' (Some (int v)))
        (rn_run r) view = Some (rn_job r)
    \<and> rb_members rb' = rb_members rb @ [\<lparr>rm_set = rn_run_set r, rm_run = rn_run r, rm_binding = bid, rm_version = Some (int v)\<rparr>]"
proof -
  obtain t checks version sql where run: "get_binding (rb_app rb) bid = Some t"
    "resolve_checks re (rb_app rb) bid (mt_version t) (rn_source rq) (rn_version rq) (rn_rules rq) = Inr (checks, version)" "checks \<noteq> []"
    "submit_run re rq (mt_fqn t) (stamp_run_provenance checks (run_mode_text (rn_source rq)) version) (rn_run r) (rn_view r, sql) = Some (rn_job r)"
    "rb_members rb' = rb_members rb @ [\<lparr>rm_set = rn_run_set r, rm_run = rn_run r, rm_binding = bid, rm_version = version\<rparr>]"
    by (rule run_binding_success [OF assms(1)]) blast
  let ?v = "or_else (rn_version rq) (int (mt_version t))"
  obtain cs where cs: "0 \<le> ?v" "get_checks (re_app re) (rb_app rb) bid (nat ?v) = Inr cs"
    "checks = filter_by_registry_rules (rn_rules rq) (map check_json cs)" "version = Some ?v"
    using run(2) assms(2) by (auto simp: resolve_checks_def Let_def split: if_splits sum.splits version_error.splits)
  moreover obtain tv where "snapshot_of (rb_app rb) bid (nat ?v) = Some tv"
    using cs(2) by (auto simp: get_checks_def split: option.splits)
  ultimately show ?thesis using run assms(2)
    by (intro exI [of _ t] exI [of _ "nat ?v"] exI [of _ tv] exI [of _ cs] exI [of _ "(rn_view r, sql)"]) (simp add: run_mode_text_def)
qed

definition example_request :: run_request where
  "example_request = \<lparr>rn_source = RunApproved, rn_version = None, rn_user = ''ann'', rn_trigger = RunManual, rn_set = None,
     rn_rules = None, rn_sample = None\<rparr>"

lemma approved_run_is_frozen_witness:
  "\<exists>tv. snapshot_of (rb_app example_spaces) ''x'' 1 = Some tv
    \<and> map rm_version (rb_members (snd (run_binding example_run_env ''x'' example_request 8 (run_db.truncate example_spaces)))) = [Some 1]"
proof -
  let ?rb = "run_db.truncate example_spaces"
  have "\<not> isl (fst (run_binding example_run_env ''x'' example_request 8 ?rb))" by code_simp
  then obtain r rb' where run: "run_binding example_run_env ''x'' example_request 8 ?rb = (Inr r, rb')"
    by (cases "run_binding example_run_env ''x'' example_request 8 ?rb"; cases "fst (run_binding example_run_env ''x'' example_request 8 ?rb)") auto
  have start: "rb_app ?rb = rb_app example_spaces" "rb_members ?rb = []" "map_option mt_version (get_binding (rb_app example_spaces) ''x'') = Some 1"
    "rn_version example_request = None" by code_simp+
  show ?thesis using approved_run_is_frozen [OF run] run start
    by (auto simp: example_request_def or_else_def)
qed

lemma run_binding_row:
  assumes "run_binding re bid rq now rb = (Inr r, rb')" "rn_set rq = Some S" "S \<noteq> []"
  shows "\<exists>(t :: monitored_table) v. rb_members rb' = rb_members rb @ [\<lparr>rm_set = rn_run_set r, rm_run = rn_run r, rm_binding = bid, rm_version = v\<rparr>]
    \<and> (rn_run_set r = S \<and> rb_sets rb' = rb_sets rb)
    \<and> rb_runs rb' = rb_runs rb @ (if re_placeholder_ok re (rn_run r) then [started_row rq (mt_fqn t) (rn_run r) now] else [])"
proof (rule run_binding_success [OF assms(1)], goal_cases)
  case (1 t checks version sql)
  show ?case by (rule exI [of _ t], rule exI [of _ version], rule conjI [OF 1(6) conjI [OF 1(8) [OF assms(2,3)] 1(7)]])
qed

text \<open>What the fan-out of a space does to the rows of its run set.\<close>

lemma run_members_effect:
  assumes "run_members re request now ms rb = ((sent, skipped), rb')" "\<And>v. rn_set (request v) = Some S" "S \<noteq> []"
  shows "\<exists>rows. rb_members rb' = rb_members rb @ rows
      \<and> map (\<lambda>m. (rm_set m, rm_run m, rm_binding m)) rows = map (\<lambda>r. (S, mr_run r, mr_binding r)) sent
      \<and> rb_sets rb' = rb_sets rb \<and> length sent + length skipped = length ms \<and> set (rb_runs rb) \<subseteq> set (rb_runs rb')
      \<and> (\<forall>r \<in> set sent. re_placeholder_ok re (mr_run r) \<longrightarrow> mr_run r \<in> vr_run_id ` set (rb_runs rb'))"
  using assms(1)
proof (induction ms arbitrary: rb sent skipped)
  case Nil
  then show ?case by simp
next
  case (Cons m ms)
  obtain mem fqn version where m: "m = (mem, fqn, version)" by (cases m) auto
  obtain x rb1 where one: "run_binding re (pm_binding mem) (request version) now rb = (x, rb1)" by fastforce
  obtain sent2 skipped2 where rest: "run_members re request now ms rb1 = ((sent2, skipped2), rb')"
    using Cons.prems m one by (auto simp: Let_def split: sum.splits prod.splits)
  obtain rows where rows: "rb_members rb' = rb_members rb1 @ rows"
      "map (\<lambda>m. (rm_set m, rm_run m, rm_binding m)) rows = map (\<lambda>r. (S, mr_run r, mr_binding r)) sent2"
      "rb_sets rb' = rb_sets rb1" "length sent2 + length skipped2 = length ms" "set (rb_runs rb1) \<subseteq> set (rb_runs rb')"
      "\<forall>r \<in> set sent2. re_placeholder_ok re (mr_run r) \<longrightarrow> mr_run r \<in> vr_run_id ` set (rb_runs rb')"
    using Cons.IH [OF rest] by blast
  show ?case
  proof (cases x)
    case (Inl e)
    have "rb_members rb1 = rb_members rb" "set (rb_runs rb) \<subseteq> set (rb_runs rb1)" "rb_sets rb1 = rb_sets rb"
      using run_binding_failure [OF one [unfolded Inl]] assms(2) [of version] assms(3) by auto
    moreover have "sent = sent2" "skipped = RunFailed fqn e # skipped2" using Cons.prems m one rest Inl by auto
    ultimately show ?thesis using rows by auto
  next
    case (Inr r)
    obtain t :: monitored_table and v where raw: "rb_members rb1 = rb_members rb @ [\<lparr>rm_set = rn_run_set r, rm_run = rn_run r, rm_binding = pm_binding mem, rm_version = v\<rparr>]"
      "rn_run_set r = S \<and> rb_sets rb1 = rb_sets rb"
      "rb_runs rb1 = rb_runs rb @ (if re_placeholder_ok re (rn_run r) then [started_row (request version) (mt_fqn t) (rn_run r) now] else [])"
      using run_binding_row [OF one [unfolded Inr] assms(2) assms(3)] by blast
    have success: "rb_members rb1 = rb_members rb @ [\<lparr>rm_set = S, rm_run = rn_run r, rm_binding = pm_binding mem, rm_version = v\<rparr>]"
      "rb_sets rb1 = rb_sets rb" using raw by simp_all
    have started: "vr_run_id (started_row rq f run n) = run" for rq f run n by (simp add: started_row_def)
    obtain y where y: "sent = y # sent2" "skipped = skipped2" "mr_run y = rn_run r" "mr_binding y = pm_binding mem"
      using Cons.prems m one rest Inr by auto
    have "re_placeholder_ok re (rn_run r) \<Longrightarrow> rn_run r \<in> vr_run_id ` set (rb_runs rb1)"
      by (simp add: raw(3) started)
    then have "re_placeholder_ok re (mr_run y) \<longrightarrow> mr_run y \<in> vr_run_id ` set (rb_runs rb')" using rows(5) y(3) by auto
    then show ?thesis using rows success(1,2) y
      by (intro exI [of _ "\<lparr>rm_set = S, rm_run = rn_run r, rm_binding = pm_binding mem, rm_version = v\<rparr> # rows"]) (auto simp: raw(3))
  qed
qed

text \<open>Run sets and the members of run sets carry identifiers that were drawn.\<close>

definition wf_run_sets :: "run_env \<Rightarrow> run_db \<Rightarrow> bool" where
  "wf_run_sets re rb \<longleftrightarrow> (\<forall>i. ae_new_id (re_app re) i \<noteq> [])
     \<and> (\<forall>i \<in> rs_id ` set (rb_sets rb) \<union> rm_set ` set (rb_members rb). i \<in> ae_new_id (re_app re) ` {..<ad_drawn (rb_app rb)})"

lemma plan_lengths: "length (planned_members pd source pid) + length (skipped_members pd source pid) = length (fetch_members pd pid)"
proof -
  have "length (List.map_filter (\<lambda>m. case f m of Inl _ \<Rightarrow> None | Inr v \<Rightarrow> Some (g m v)) ms)
      + length (List.map_filter (\<lambda>m. case f m of Inl s \<Rightarrow> Some s | Inr _ \<Rightarrow> None) ms) = length ms"
    for f :: "product_member \<Rightarrow> skip_reason + int option" and g :: "product_member \<Rightarrow> int option \<Rightarrow> product_member \<times> string \<times> int option" and ms
    by (induction ms) (auto simp: List.map_filter_simps split: sum.split)
  then show ?thesis by (simp add: planned_members_def skipped_members_def)
qed


lemma example_run_sets_wf: "wf_run_sets (pe_run example_product_env) (run_db.truncate example_approved_space)"
proof -
  have "rb_sets example_approved_space = []" "rb_members example_approved_space = []" by code_simp+
  then show ?thesis by (simp add: wf_run_sets_def run_db.defs example_product_env_def example_run_env_def example_app_env_def)
qed


text \<open>A rejected table that was approved before runs with its space.\<close>

definition example_rejected_tables :: app_db where
  "example_rejected_tables = snd (set_table_status ''x'' ''rejected'' ''bob'' None True 9 (rb_app example_spaces))"

definition example_rejected_space :: product_db where
  "example_rejected_space = product_exec example_product_env (TablesChange (example_rejected_tables\<lparr>ad_drawn := 9\<rparr>)) example_approved_space"

lemma rejected_table_runs:
  "map_option mt_status (get_binding (rb_app example_rejected_space) ''x'') = Some TableRejected
   \<and> (case fst (run_product example_product_env example_space_id RunApproved ''ann'' RunManual None 10 example_rejected_space)
      of Inr (s, sent, skipped) \<Rightarrow> length sent = 1 \<and> skipped = [] | _ \<Rightarrow> False)"
proof
  show "map_option mt_status (get_binding (rb_app example_rejected_space) ''x'') = Some TableRejected" by code_simp
  show "case fst (run_product example_product_env example_space_id RunApproved ''ann'' RunManual None 10 example_rejected_space)
      of Inr (s, sent, skipped) \<Rightarrow> length sent = 1 \<and> skipped = [] | _ \<Rightarrow> False" by code_simp
qed

text \<open>When the row of a run cannot be written, its member row is written all the same.\<close>

lemma member_without_run:
  "map rm_run (rb_members (snd (run_binding (example_run_env\<lparr>re_placeholder_ok := (\<lambda>_. False)\<rparr>) ''x'' example_request 8 (run_db.truncate example_spaces)))) \<noteq> []
   \<and> rb_runs (snd (run_binding (example_run_env\<lparr>re_placeholder_ok := (\<lambda>_. False)\<rparr>) ''x'' example_request 8 (run_db.truncate example_spaces))) = []"
  by code_simp

end
