(* ===== verification/Permissions_Laws.thy ===== *)
theory Permissions_Laws
  imports Permissions Data_Products_Laws
begin

section \<open>Laws of permissions\<close>

text \<open>
  The table of grants implements an access matrix: from an object and a principal to the privileges
  it confers and whether they cascade. Stored texts, their canonical form and the order of rows do not
  matter. From the matrix follow the bounds that no grant can lift.
\<close>

subsection \<open>Stored privileges\<close>

lemma privilege_value_simps [simp]:
  "privilege_of (privilege_value p) = Some p" "py_strip (privilege_value p) = privilege_value p"
  "privilege_value p \<noteq> []" "CHR '','' \<notin> set (privilege_value p)"
  by (cases p; simp add: privilege_of_def py_strip_def py_lstrip_def py_rstrip_def py_isspace_def)+

lemma parse_join: "parse_privileges (Some (py_join '','' (map privilege_value ps))) = set ps"
proof (cases ps)
  case (Cons p qs)
  have "py_join '','' (map privilege_value ps) \<noteq> []" by (cases qs) (simp_all add: Cons)
  moreover have "py_split CHR '','' (py_join '','' (map privilege_value ps)) = map privilege_value ps"
    by (rule py_split_join) (auto simp: Cons)
  ultimately show ?thesis
    by (simp add: parse_privileges_def List.map_filter_def comp_def Let_def)
qed (simp add: parse_privileges_def)

lemma privileges_UNIV: "p \<in> {PSelect, PModify, PApply, PExecute, PManage, PAllPrivileges}"
  by (cases p) simp_all

lemma parse_serialize:
  "parse_privileges (Some (serialize_privileges S)) = (if PAllPrivileges \<in> S then S \<inter> {PAllPrivileges, PManage} else S)"
proof (cases "PAllPrivileges \<in> S")
  case True
  have "serialize_privileges S = py_join '','' (map privilege_value (PAllPrivileges # (if PManage \<in> S then [PManage] else [])))"
    using True by (simp add: serialize_privileges_def)
  then show ?thesis using True by (simp only: parse_join) auto
next
  case False
  have "p \<in> S \<longrightarrow> p \<in> {PSelect, PModify, PApply, PExecute, PManage}" for p using privileges_UNIV [of p] False by auto
  then show ?thesis using False by (simp add: serialize_privileges_def parse_join) auto
qed

lemma parse_serialize_normalize: "parse_privileges (Some (serialize_privileges (normalize_privileges S))) = normalize_privileges S"
  by (auto simp: parse_serialize normalize_privileges_def concrete_privileges_def Let_def split: if_splits)

lemma expand_normalize: "expand_privileges (normalize_privileges S) = expand_privileges S"
  by (auto simp: expand_privileges_def normalize_privileges_def concrete_privileges_def Let_def)

lemma normalize_empty: "normalize_privileges S = {} \<longleftrightarrow> expand_privileges S = {}"
  by (auto simp: expand_privileges_def normalize_privileges_def concrete_privileges_def Let_def)

text \<open>What a request for privileges confers on an object.\<close>

definition conferred :: "string \<Rightarrow> privilege set \<Rightarrow> privilege set" where
  "conferred ot ps = expand_privileges ps - (if ot = ''registry_rule'' then {PExecute} else {})"

lemma expand_again: "expand_privileges (expand_privileges S - {PExecute}) = expand_privileges S - {PExecute}"
  by (auto simp: expand_privileges_def concrete_privileges_def Let_def)

lemma stored_confers: "expand_privileges (parse_privileges (Some (serialize_privileges (stored_privileges ot ps)))) = conferred ot ps"
  by (simp add: stored_privileges_def parse_serialize_normalize expand_normalize conferred_def expand_again)

lemma stored_empty: "stored_privileges ot ps = {} \<longleftrightarrow> conferred ot ps = {}"
  by (simp add: stored_privileges_def normalize_empty conferred_def expand_again)

subsection \<open>The access matrix\<close>

type_synonym access_matrix = "string \<times> string \<times> string \<Rightarrow> (privilege set \<times> bool) option"

definition grant_key :: "grant_row \<Rightarrow> string \<times> string \<times> string" where
  "grant_key row = (gw_type row, gw_id row, gw_principal row)"

definition grant_entry :: "grant_row \<Rightarrow> privilege set \<times> bool" where
  "grant_entry row = (expand_privileges (parse_privileges (Some (gw_privileges row))), gw_inherit row)"

definition matrix_of :: "perm_db \<Rightarrow> access_matrix" where
  "matrix_of pd key = map_option grant_entry (find (\<lambda>row. grant_key row = key) (qd_grants pd))"

text \<open>Operations on grants, and a change of the objects by the rest of the application.\<close>

datatype grant_op =
    SetGrant string string string string "string option" "privilege set" bool "string option" int
  | RemoveGrant string string string "string option"
  | SeedGrants string string "string option" "string option" int
  | StudioChanges product_db

fun grant_exec :: "perm_env \<Rightarrow> grant_op \<Rightarrow> perm_db \<Rightarrow> perm_db" where
  "grant_exec qe (SetGrant ot oid who ptype name ps inherit grantor now) pd = snd (set_grant qe ot oid who ptype name ps inherit grantor now pd)"
| "grant_exec qe (RemoveGrant ot oid who actor) pd = snd (remove_grant qe ot oid who actor pd)"
| "grant_exec qe (SeedGrants ot oid owner grantor now) pd = snd (seed_default_grants qe ot oid owner grantor now pd)"
| "grant_exec qe (StudioChanges st) pd = pd\<lparr>qd_studio := st\<rparr>"

definition matrix_put :: "string \<Rightarrow> string \<Rightarrow> string \<Rightarrow> string \<Rightarrow> privilege set \<Rightarrow> bool \<Rightarrow> access_matrix \<Rightarrow> access_matrix" where
  "matrix_put ot oid who ptype ps inherit m = (if isl (validate_grant ot oid who ptype) then m
     else m((ot, oid, who) := if conferred ot ps = {} then None else Some (conferred ot ps, inherit)))"

definition owner_matches :: "string \<Rightarrow> string \<Rightarrow> bool" where
  "owner_matches email who \<longleftrightarrow> py_lower (py_strip who) = py_lower (py_strip email)"

definition matrix_seed :: "perm_env \<Rightarrow> string \<Rightarrow> string \<Rightarrow> string option \<Rightarrow> access_matrix \<Rightarrow> access_matrix" where
  "matrix_seed qe ot oid owner m =
     (let shared = (ot = ''registry_rule'' \<or> (ot \<in> {''monitored_table'', ''data_product''} \<and> qe_share qe)) \<and> m (ot, oid, users_group) = None;
          m1 = (if shared then matrix_put ot oid users_group ''group'' (default_users_privileges ot) False m else m)
      in if or_else owner [] \<noteq> [] \<and> (\<forall>who. m (ot, oid, who) \<noteq> None \<longrightarrow> \<not> owner_matches (the owner) who)
         then matrix_put ot oid (the owner) ''user'' {PAllPrivileges} False m1 else m1)"

fun matrix_step :: "perm_env \<Rightarrow> grant_op \<Rightarrow> access_matrix \<Rightarrow> access_matrix" where
  "matrix_step qe (SetGrant ot oid who ptype name ps inherit grantor now) m = matrix_put ot oid who ptype ps inherit m"
| "matrix_step qe (RemoveGrant ot oid who actor) m = (if validate_object_id oid then m((ot, oid, who) := None) else m)"
| "matrix_step qe (SeedGrants ot oid owner grantor now) m = (if validate_object_id oid then matrix_seed qe ot oid owner m else m)"
| "matrix_step qe (StudioChanges st) m = m"

lemma find_filter_other: "find (\<lambda>x. f x = k) (filter (\<lambda>x. f x \<noteq> k0) xs) = (if k = k0 then None else find (\<lambda>x. f x = k) xs)"
  by (induction xs) auto

lemma matrix_delete: "matrix_of (delete_grant_row ot oid who pd) = (matrix_of pd)((ot, oid, who) := None)"
proof -
  have "(\<lambda>row. \<not> (gw_type row = ot \<and> gw_id row = oid \<and> gw_principal row = who)) = (\<lambda>row. grant_key row \<noteq> (ot, oid, who))"
    by (auto simp: grant_key_def fun_eq_iff)
  then show ?thesis by (auto simp: matrix_of_def delete_grant_row_def find_filter_other fun_eq_iff)
qed

lemma matrix_append: "matrix_of (pd\<lparr>qd_grants := qd_grants pd @ [row]\<rparr>) =
    (if matrix_of pd (grant_key row) = None then (matrix_of pd)(grant_key row := Some (grant_entry row)) else matrix_of pd)"
  by (auto simp: matrix_of_def find_append fun_eq_iff split: option.split)

lemma matrix_history [simp]: "matrix_of (record_grant_history qe h pd) = matrix_of pd" "matrix_of (pd\<lparr>qd_studio := st\<rparr>) = matrix_of pd"
  by (simp_all add: matrix_of_def record_grant_history_def fun_eq_iff)

lemma matrix_remove: "matrix_of (snd (remove_grant qe ot oid who actor pd)) = (if validate_object_id oid then (matrix_of pd)((ot, oid, who) := None) else matrix_of pd)"
  by (simp add: remove_grant_def checked_id_def matrix_delete)

lemma validated_id: "\<not> isl (validate_grant ot oid who ptype) \<Longrightarrow> validate_object_id oid"
  by (auto simp: validate_grant_def checked_id_def split: if_splits)

lemma matrix_set: "matrix_of (snd (set_grant qe ot oid who ptype name ps inherit grantor now pd)) = matrix_put ot oid who ptype ps inherit (matrix_of pd)"
proof (cases "validate_grant ot oid who ptype")
  case (Inr u)
  have row: "grant_entry \<lparr>gw_type = ot, gw_id = oid, gw_principal = who, gw_principal_type = ptype, gw_name = name,
      gw_privileges = serialize_privileges (stored_privileges ot ps), gw_inherit = inherit, gw_grantor = grantor, gw_updated_at = now\<rparr>
      = (conferred ot ps, inherit)"
    by (simp add: grant_entry_def stored_confers)
  have "validate_object_id oid" using validated_id [of ot oid who ptype] Inr by simp
  then show ?thesis
    by (simp add: set_grant_def matrix_put_def Inr Let_def stored_empty matrix_remove matrix_append matrix_delete row grant_key_def)
qed (simp add: set_grant_def matrix_put_def)

lemma snd_put_grant: "snd (put_grant qe ot oid who ptype name ps inherit grantor now pd) = snd (set_grant qe ot oid who ptype name ps inherit grantor now pd)"
  by (cases "set_grant qe ot oid who ptype name ps inherit grantor now pd";
      cases "fst (set_grant qe ot oid who ptype name ps inherit grantor now pd)") (simp_all add: put_grant_def)

lemma put_grant_ok: "isl (fst (put_grant qe ot oid who ptype name ps inherit grantor now pd)) = isl (validate_grant ot oid who ptype)"
  by (simp add: put_grant_def set_grant_def Let_def split: prod.split sum.split)

lemma matrix_None: "matrix_of pd key = None \<longleftrightarrow> (\<forall>row \<in> set (qd_grants pd). grant_key row \<noteq> key)"
  by (auto simp: matrix_of_def find_None_iff)

lemma listed_grants: "validate_object_id oid \<Longrightarrow> list_grants pd ot oid
    = Inr (map row_to_grant (filter (\<lambda>row. gw_type row = ot \<and> gw_id row = oid) (qd_grants pd)))"
  by (simp add: list_grants_def checked_id_def)

text \<open>Seeding is at most two writes, of which the first cannot fail.\<close>

definition seeded_users :: "perm_env \<Rightarrow> string \<Rightarrow> string \<Rightarrow> string option \<Rightarrow> int \<Rightarrow> perm_db \<Rightarrow> perm_db" where
  "seeded_users qe ot oid grantor now pd =
     (if (ot = ''registry_rule'' \<or> (ot \<in> {''monitored_table'', ''data_product''} \<and> qe_share qe)) \<and> matrix_of pd (ot, oid, users_group) = None
      then snd (set_grant qe ot oid users_group ''group'' (Some users_group) (default_users_privileges ot) False grantor now pd) else pd)"

lemma seed_default_run:
  assumes oid: "validate_object_id oid"
  shows "snd (seed_default_grants qe ot oid owner grantor now pd) =
    (if or_else owner [] \<noteq> [] \<and> (\<forall>who. matrix_of pd (ot, oid, who) \<noteq> None \<longrightarrow> \<not> owner_matches (the owner) who)
     then snd (set_grant qe ot oid (the owner) ''user'' owner {PAllPrivileges} False grantor now (seeded_users qe ot oid grantor now pd))
     else seeded_users qe ot oid grantor now pd)"
proof -
  define direct where "direct = map row_to_grant (filter (\<lambda>row. gw_type row = ot \<and> gw_id row = oid) (qd_grants pd))"
  have name: "og_principal (row_to_grant row) = gw_principal row" for row by (simp add: row_to_grant_def)
  have users: "users_group \<notin> og_principal ` set direct \<longleftrightarrow> matrix_of pd (ot, oid, users_group) = None"
    unfolding direct_def matrix_None by (auto simp: grant_key_def image_iff name)
  have owned: "\<not> list_ex (\<lambda>g. grant_targets_email g e) direct \<longleftrightarrow> (\<forall>who. matrix_of pd (ot, oid, who) \<noteq> None \<longrightarrow> \<not> owner_matches e who)" for e
    unfolding direct_def matrix_None by (auto simp: list_ex_iff grant_key_def grant_targets_email_def owner_matches_def name)
  define first where "first = (if (ot = ''registry_rule'' \<or> (ot \<in> {''monitored_table'', ''data_product''} \<and> qe_share qe))
        \<and> users_group \<notin> og_principal ` set direct
      then put_grant qe ot oid users_group ''group'' (Some users_group) (default_users_privileges ot) False grantor now pd
      else (Inr (), pd))"
  have ok: "\<not> isl (fst first)"
    using oid by (auto simp: first_def put_grant_ok validate_grant_def checked_id_def users_group_def legacy_all_sentinel_def
        object_types_def principal_types_def)
  obtain b where b: "first = (Inr (), b)" using ok by (cases first; cases "fst first") auto
  have "seed_default_grants qe ot oid owner grantor now pd = (case first of (Inl e, pd) \<Rightarrow> (Inl e, pd) | (Inr _, pd) \<Rightarrow>
      if or_else owner [] \<noteq> [] \<and> \<not> list_ex (\<lambda>g. grant_targets_email g (the owner)) direct
      then put_grant qe ot oid (the owner) ''user'' owner {PAllPrivileges} False grantor now pd else (Inr (), pd))"
    unfolding seed_default_grants_def listed_grants [OF oid] sum.case direct_def [symmetric] Let_def first_def by (rule refl)
  then have "seed_default_grants qe ot oid owner grantor now pd =
      (if or_else owner [] \<noteq> [] \<and> \<not> list_ex (\<lambda>g. grant_targets_email g (the owner)) direct
       then put_grant qe ot oid (the owner) ''user'' owner {PAllPrivileges} False grantor now (snd first) else (Inr (), snd first))"
    by (simp add: b)
  moreover have "snd first = seeded_users qe ot oid grantor now pd" 
    by (simp only: first_def seeded_users_def users if_distrib [of snd] snd_put_grant snd_conv)
  ultimately show ?thesis by (simp only: owned if_distrib [of snd] snd_put_grant snd_conv)
qed

lemma seed_invalid: "\<not> validate_object_id oid \<Longrightarrow> snd (seed_default_grants qe ot oid owner grantor now pd) = pd"
  by (simp add: seed_default_grants_def list_grants_def checked_id_def)

lemma matrix_seed_default:
  "matrix_of (snd (seed_default_grants qe ot oid owner grantor now pd))
     = (if validate_object_id oid then matrix_seed qe ot oid owner (matrix_of pd) else matrix_of pd)"
proof (cases "validate_object_id oid")
  case True
  show ?thesis
    by (simp only: seed_default_run [OF True] seeded_users_def if_distrib [of matrix_of] matrix_set matrix_seed_def Let_def True if_True)
qed (simp add: seed_invalid)

lemma grant_exec_matrix: "matrix_of (grant_exec qe op pd) = matrix_step qe op (matrix_of pd)"
  by (cases op) (simp_all add: matrix_set matrix_remove matrix_seed_default)

lemma grant_run_matrix: "matrix_of (fold (grant_exec qe) ops pd) = fold (matrix_step qe) ops (matrix_of pd)"
  by (induction ops arbitrary: pd) (simp_all add: grant_exec_matrix)

subsection \<open>One row for each object and principal\<close>

definition wf_grants :: "perm_db \<Rightarrow> bool" where
  "wf_grants pd \<longleftrightarrow> distinct (map grant_key (qd_grants pd))"

lemma wf_delete_grant: "wf_grants pd \<Longrightarrow> wf_grants (delete_grant_row ot oid who pd)"
  by (simp add: wf_grants_def delete_grant_row_def distinct_map_filter)

lemma wf_grant_history [simp]: "wf_grants (record_grant_history qe h pd) = wf_grants pd"
  by (simp add: wf_grants_def record_grant_history_def)

lemma wf_remove_grant: "wf_grants pd \<Longrightarrow> wf_grants (snd (remove_grant qe ot oid who actor pd))"
  by (simp add: remove_grant_def wf_delete_grant split: sum.split)

lemma wf_set_grant: "wf_grants pd \<Longrightarrow> wf_grants (snd (set_grant qe ot oid who ptype name ps inherit grantor now pd))"
proof -
  assume wf: "wf_grants pd"
  have "wf_grants ((delete_grant_row ot oid who pd)\<lparr>qd_grants := qd_grants (delete_grant_row ot oid who pd) @ [row]\<rparr>)"
    if "grant_key row = (ot, oid, who)" for row
    using wf_delete_grant [OF wf, of ot oid who] that by (auto simp: wf_grants_def delete_grant_row_def grant_key_def)
  then show ?thesis using wf by (auto simp: set_grant_def Let_def wf_remove_grant grant_key_def split: sum.split)
qed

lemma wf_grant_exec: "wf_grants pd \<Longrightarrow> wf_grants (grant_exec qe op pd)"
proof (cases op)
  case (SeedGrants ot oid owner grantor now)
  then show "wf_grants pd \<Longrightarrow> wf_grants (grant_exec qe op pd)"
    by (cases "validate_object_id oid") (simp_all add: seed_default_run seed_invalid seeded_users_def wf_set_grant)
qed (simp_all add: wf_set_grant wf_remove_grant, simp add: wf_grants_def)

lemma wf_grant_run: "wf_grants pd \<Longrightarrow> wf_grants (fold (grant_exec qe) ops pd)"
  by (induction ops arbitrary: pd) (simp_all add: wf_grant_exec)

lemma find_distinct:
  "distinct (map f xs) \<Longrightarrow> map_option g (find (\<lambda>x. f x = k) xs) = Some e \<longleftrightarrow> (\<exists>x \<in> set xs. f x = k \<and> g x = e)"
proof (induction xs)
  case (Cons a xs)
  show ?case
  proof (cases "f a = k")
    case True
    then have "\<forall>x \<in> set xs. f x \<noteq> k" using Cons.prems by (auto simp: image_iff)
    then show ?thesis using True by auto
  next
    case False
    then show ?thesis using Cons by simp
  qed
qed simp

lemma matrix_Some: "wf_grants pd \<Longrightarrow> matrix_of pd key = Some e \<longleftrightarrow> (\<exists>row \<in> set (qd_grants pd). grant_key row = key \<and> grant_entry row = e)"
  by (simp only: wf_grants_def matrix_of_def find_distinct)

subsection \<open>Access\<close>

text \<open>Who a caller is for a grant, and what the matrix lets them do.\<close>

definition who_matches :: "string set \<Rightarrow> string option \<Rightarrow> string \<Rightarrow> bool" where
  "who_matches ids email who \<longleftrightarrow> is_users_group who \<or> who \<in> ids \<or> (or_else email [] \<noteq> [] \<and> owner_matches (or_else email []) who)"

definition matrix_access :: "access_matrix \<Rightarrow> (string \<times> string) list \<Rightarrow> string \<Rightarrow> string \<Rightarrow> string set \<Rightarrow> string option \<Rightarrow> privilege set" where
  "matrix_access m parents ot oid ids email = {p. \<exists>who ps. who_matches ids email who \<and> p \<in> ps
     \<and> ((\<exists>inherit. m (ot, oid, who) = Some (ps, inherit))
       \<or> (\<not> is_users_group who \<and> (\<exists>ref \<in> set parents. m (fst ref, snd ref, who) = Some (ps, True))))}"

lemma effective_is_access:
  assumes wf: "wf_grants pd" and oid: "validate_object_id oid" and parents: "\<forall>ref \<in> set (parent_refs qe pd ot oid). validate_object_id (snd ref)"
  shows "effective_privileges qe pd ot oid ids email = Inr (matrix_access (matrix_of pd) (parent_refs qe pd ot oid) ot oid ids email)"
proof -
  let ?rows = "\<lambda>ot oid. map row_to_grant (filter (\<lambda>row. gw_type row = ot \<and> gw_id row = oid) (qd_grants pd))"
  let ?inherited = "concat (map (\<lambda>ref. map (\<lambda>g. (ref, g)) (filter (\<lambda>g. og_inherit g \<and> \<not> is_users_group (og_principal g)) (?rows (fst ref) (snd ref))))
    (parent_refs qe pd ot oid))"
  have "inherited_grants qe pd ot oid = Inr ?inherited"
    unfolding inherited_grants_def
    by (subst smapM_total [where g = "\<lambda>ref. map (\<lambda>g. (ref, g)) (filter (\<lambda>g. og_inherit g \<and> \<not> is_users_group (og_principal g)) (?rows (fst ref) (snd ref)))"])
      (simp_all add: listed_grants parents)
  then have eff: "effective_privileges qe pd ot oid ids email
      = Inr (\<Union> (set (map (\<lambda>g. expand_privileges (og_privileges g)) (filter (grant_matches ids email) (?rows ot oid @ map snd ?inherited)))))"
    by (simp add: effective_privileges_def listed_grants [OF oid])
  have matches: "grant_matches ids email (row_to_grant row) = who_matches ids email (gw_principal row)" for row
    by (auto simp: grant_matches_def who_matches_def row_to_grant_def grant_targets_email_def owner_matches_def)
  have row: "og_inherit (row_to_grant row) = gw_inherit row" "og_principal (row_to_grant row) = gw_principal row"
    "expand_privileges (og_privileges (row_to_grant row)) = fst (grant_entry row)" "snd (grant_entry row) = gw_inherit row" for row
    by (simp_all add: row_to_grant_def grant_entry_def)
  have union: "p \<in> \<Union> (set (map f (filter P (xs @ map snd ys)))) \<longleftrightarrow> (\<exists>g \<in> set xs. P g \<and> p \<in> f g) \<or> (\<exists>y \<in> set ys. P (snd y) \<and> p \<in> f (snd y))"
    for p :: privilege and f P and xs :: "object_grant list" and ys :: "((string \<times> string) \<times> object_grant) list" by force
  have direct: "(\<exists>g \<in> set (?rows ot oid). grant_matches ids email g \<and> p \<in> expand_privileges (og_privileges g))
      \<longleftrightarrow> (\<exists>row \<in> set (qd_grants pd). gw_type row = ot \<and> gw_id row = oid \<and> who_matches ids email (gw_principal row) \<and> p \<in> fst (grant_entry row))" for p
    by (simp add: matches row) blast
  have inherited: "(\<exists>y \<in> set ?inherited. grant_matches ids email (snd y) \<and> p \<in> expand_privileges (og_privileges (snd y)))
      \<longleftrightarrow> (\<exists>ref \<in> set (parent_refs qe pd ot oid). \<exists>row \<in> set (qd_grants pd). gw_type row = fst ref \<and> gw_id row = snd ref
          \<and> gw_inherit row \<and> \<not> is_users_group (gw_principal row) \<and> who_matches ids email (gw_principal row) \<and> p \<in> fst (grant_entry row))" for p
    by (simp add: matches row) blast
  have entry: "matrix_of pd (t, i, who) = Some (ps, inherit) \<longleftrightarrow> (\<exists>row \<in> set (qd_grants pd). gw_type row = t \<and> gw_id row = i
      \<and> gw_principal row = who \<and> ps = fst (grant_entry row) \<and> inherit = gw_inherit row)" for t i who ps inherit
    unfolding matrix_Some [OF wf] grant_key_def by (auto simp: grant_entry_def)
  have "p \<in> \<Union> (set (map (\<lambda>g. expand_privileges (og_privileges g)) (filter (grant_matches ids email) (?rows ot oid @ map snd ?inherited))))
      \<longleftrightarrow> p \<in> matrix_access (matrix_of pd) (parent_refs qe pd ot oid) ot oid ids email" for p
    unfolding union direct inherited matrix_access_def mem_Collect_eq entry by blast
  then show ?thesis unfolding eff by blast
qed

text \<open>C23: Access is a matrix: after any sequence of grants, revocations and seeds, and of changes to the objects,
  the privileges a caller has on an object are those the access matrix gives to a principal the caller
  matches, on the object itself or, if they cascade, on a space the table is a member of; the matrix
  changes only in the entry an operation names.\<close>

theorem access_is_matrix:
  assumes "wf_grants pd" "validate_object_id oid"
    "\<forall>m \<in> set (pd_members (qd_studio (fold (grant_exec qe) ops pd))). validate_object_id (pm_product m)"
  shows "effective_privileges qe (fold (grant_exec qe) ops pd) ot oid ids email
    = Inr (matrix_access (fold (matrix_step qe) ops (matrix_of pd)) (parent_refs qe (fold (grant_exec qe) ops pd) ot oid) ot oid ids email)"
  unfolding grant_run_matrix [symmetric] using assms
  by (intro effective_is_access wf_grant_run) (auto simp: parent_refs_def split: option.split)

subsection \<open>An example\<close>

text \<open>The table of the earlier examples belongs to its creator; eve is an author who was granted nothing.\<close>

definition example_perm_env :: perm_env where
  "example_perm_env = \<lparr>qe_product = example_product_env, qe_share = False, qe_parents_ok = (\<lambda>_. True), qe_owner_ok = (\<lambda>_. True),
     qe_history_ok = (\<lambda>_. True)\<rparr>"

definition example_perms :: perm_db where
  "example_perms = \<lparr>qd_studio = example_spaces, qd_grants = [], qd_history = []\<rparr>"

definition example_grant_ops :: "grant_op list" where
  "example_grant_ops = [SeedGrants ''registry_rule'' ''r1'' (Some ''Ann@x.io'') (Some ''Ann@x.io'') 1,
     SetGrant ''registry_rule'' ''r1'' ''users'' ''group'' None {PSelect, PManage} True None 2]"

lemma example_perms_wf: "wf_grants example_perms \<and> qd_grants example_perms = [] \<and> validate_object_id ''r1''"
  by (simp add: wf_grants_def example_perms_def) code_simp

lemma access_is_matrix_witness:
  "effective_privileges example_perm_env (fold (grant_exec example_perm_env) example_grant_ops example_perms) ''registry_rule'' ''r1'' {} (Some ''ann@X.io '')
     = Inr (matrix_access (fold (matrix_step example_perm_env) example_grant_ops (matrix_of example_perms)) [] ''registry_rule'' ''r1'' {} (Some ''ann@X.io ''))"
proof -
  have "pd_members (qd_studio (fold (grant_exec example_perm_env) example_grant_ops example_perms)) = []" by code_simp
  then show ?thesis
    using access_is_matrix [of example_perms "''r1''" example_perm_env example_grant_ops "''registry_rule''" "{}" "Some ''ann@X.io ''"]
      example_perms_wf by (simp add: parent_refs_def parent_type_def)
qed

subsection \<open>Roles are the ceiling\<close>

lemma matrix_put_entry: "matrix_put ot oid who ptype ps inherit m key = Some e \<Longrightarrow>
    m key = Some e \<or> (key = (ot, oid, who) \<and> fst e = conferred ot ps)"
  by (auto simp: matrix_put_def split: if_splits)

lemma matrix_step_entry:
  assumes "matrix_step qe op m key = Some e"
  shows "m key = Some e \<or> fst e = conferred (fst key) {PAllPrivileges} \<or> fst e = conferred (fst key) (default_users_privileges (fst key))
    \<or> (\<exists>ot oid who ptype name ps inherit grantor now. op = SetGrant ot oid who ptype name ps inherit grantor now \<and> fst e = conferred ot ps \<and> key = (ot, oid, who))"
proof (cases op)
  case (SetGrant ot oid who ptype name ps inherit grantor now)
  then show ?thesis using matrix_put_entry [of ot oid who ptype ps inherit m key e] assms by auto
next
  case (SeedGrants ot oid owner grantor now)
  define shared where "shared \<longleftrightarrow> (ot = ''registry_rule'' \<or> (ot \<in> {''monitored_table'', ''data_product''} \<and> qe_share qe)) \<and> m (ot, oid, users_group) = None"
  define m1 where "m1 = (if shared then matrix_put ot oid users_group ''group'' (default_users_privileges ot) False m else m)"
  have first: "m key = Some e \<or> fst e = conferred (fst key) (default_users_privileges (fst key))" if "m1 key = Some e"
  proof (cases shared)
    case True
    then have "m key = Some e \<or> (key = (ot, oid, users_group) \<and> fst e = conferred ot (default_users_privileges ot))"
      using that matrix_put_entry unfolding m1_def by simp
    then show ?thesis by (elim disjE conjE) simp_all
  qed (use that in \<open>simp add: m1_def\<close>)
  have last: "m1 key = Some e \<or> fst e = conferred (fst key) {PAllPrivileges}"
    if "matrix_put ot oid (the owner) ''user'' {PAllPrivileges} False m1 key = Some e"
    using matrix_put_entry [OF that] by (elim disjE conjE) simp_all
  have "matrix_step qe op m key = Some e \<Longrightarrow> m key = Some e \<or> m1 key = Some e \<or> matrix_put ot oid (the owner) ''user'' {PAllPrivileges} False m1 key = Some e"
    unfolding SeedGrants matrix_step.simps matrix_seed_def Let_def shared_def [symmetric] m1_def [symmetric] by (simp split: if_splits)
  from this [OF assms] show ?thesis
  proof (elim disjE)
    assume "m1 key = Some e"
    then show ?thesis using first by blast
  next
    assume "matrix_put ot oid (the owner) ''user'' {PAllPrivileges} False m1 key = Some e"
    then show ?thesis using last first by blast
  qed simp
qed (use assms in \<open>auto split: if_splits\<close>)

lemma matrix_no_rule_execute:
  "(\<And>oid who e. m (''registry_rule'', oid, who) = Some e \<Longrightarrow> PExecute \<notin> fst e)
   \<Longrightarrow> fold (matrix_step qe) ops m (''registry_rule'', oid, who) = Some e \<Longrightarrow> PExecute \<notin> fst e"
proof (induction ops arbitrary: m oid who e)
  case (Cons op ops)
  have "PExecute \<notin> fst e" if "matrix_step qe op m (''registry_rule'', oid, who) = Some e" for oid who e
  proof -
    have "m (''registry_rule'', oid, who) = Some e \<or> (\<exists>ps. fst e = conferred ''registry_rule'' ps)"
      using matrix_step_entry [OF that] by auto
    then show ?thesis using Cons.prems(1) [of oid who e] by (auto simp: conferred_def)
  qed
  then show ?case using Cons.IH [of "matrix_step qe op m"] Cons.prems(2) by simp
qed auto

text \<open>A grant that asks for the privilege to grant.\<close>

fun asks_manage :: "grant_op \<Rightarrow> bool" where
  "asks_manage (SetGrant ot oid who ptype name ps inherit grantor now) = (PManage \<in> ps)"
| "asks_manage _ = False"

lemma manage_conferred: "PManage \<in> conferred ot ps \<longleftrightarrow> PManage \<in> ps"
  by (auto simp: conferred_def expand_privileges_def concrete_privileges_def Let_def)

lemma matrix_manage:
  "fold (matrix_step qe) ops m key = Some e \<Longrightarrow> PManage \<in> fst e \<Longrightarrow> (\<exists>key e. m key = Some e \<and> PManage \<in> fst e) \<or> (\<exists>op \<in> set ops. asks_manage op)"
proof (induction ops arbitrary: m)
  case (Cons op ops)
  have "(\<exists>key e. matrix_step qe op m key = Some e \<and> PManage \<in> fst e) \<or> (\<exists>op \<in> set ops. asks_manage op)"
    using Cons.IH [of "matrix_step qe op m"] Cons.prems by simp
  moreover have "(\<exists>key e. m key = Some e \<and> PManage \<in> fst e) \<or> asks_manage op"
    if "matrix_step qe op m k = Some e'" "PManage \<in> fst e'" for k e'
  proof -
    have "m k = Some e' \<or> asks_manage op"
      using matrix_step_entry [OF that(1)] that(2) by (auto simp: manage_conferred default_users_privileges_def split: if_splits)
    then show ?thesis using that(2) by blast
  qed
  ultimately show ?case by (metis list.set_intros)
qed (auto simp del: split_paired_Ex)

lemma list_all2_left: "list_all2 P xs ys \<Longrightarrow> \<forall>x \<in> set xs. \<exists>y. P x y"
  by (induction rule: list_all2_induct) auto

lemma effective_access:
  assumes "wf_grants pd" "effective_privileges qe pd ot oid ids email = Inr eff"
  shows "eff = matrix_access (matrix_of pd) (parent_refs qe pd ot oid) ot oid ids email"
proof -
  have listed: "list_grants pd t i = Inr gs \<Longrightarrow> validate_object_id i" for t i gs
    by (simp add: list_grants_def checked_id_def split: if_splits)
  obtain direct where direct: "list_grants pd ot oid = Inr direct"
    using assms(2) by (auto simp: effective_privileges_def sbind_eq_Inr)
  obtain inherited where "inherited_grants qe pd ot oid = Inr inherited"
    using assms(2) by (auto simp: effective_privileges_def sbind_eq_Inr)
  then have "\<forall>ref \<in> set (parent_refs qe pd ot oid). \<exists>gs. list_grants pd (fst ref) (snd ref) = Inr gs"
    by (auto simp: inherited_grants_def sbind_eq_Inr smapM_Inr_iff dest!: list_all2_left)
  then show ?thesis
    using effective_is_access [OF assms(1) listed [OF direct]] assms(2) listed by fastforce
qed



subsection \<open>Taking over a table\<close>

text \<open>
  Adding a table to a space needs a privilege on the space only. An author creates a space, which makes
  them its owner, grants themselves everything on it with the cascade on, and adds the table.
\<close>

definition eve :: caller where
  "eve = \<lparr>cl_role = RoleAuthor, cl_ids = {''77''}, cl_email = ''eve''\<rparr>"

definition eve_space :: "(perm_error + data_product) \<times> perm_db" where
  "eve_space = create_space_route example_perm_env eve ''mine'' None None None 20
     (snd (seed_default_grants example_perm_env ''monitored_table'' ''x'' (Some ''ann'') None 1 example_perms))"

definition eve_granted :: "(perm_error + unit) \<times> perm_db" where
  "eve_granted = set_object_grant example_perm_env eve ''data_product'' example_space_id ''77'' ''user'' None
     [''ALL_PRIVILEGES'', ''MANAGE''] True 21 (snd eve_space)"

definition eve_joined :: "(perm_error + product_member) \<times> perm_db" where
  "eve_joined = add_member_route example_perm_env eve example_space_id ''x'' None 22 (snd eve_granted)"

lemma eve_without:
  "has_privilege example_perm_env (snd eve_space) ''monitored_table'' ''x'' PModify RoleAuthor {''77''} (Some ''eve'') = Inr False"
  by code_simp

lemma eve_takes_table:
  "has_privilege example_perm_env (snd eve_joined) ''monitored_table'' ''x'' PModify RoleAuthor {''77''} (Some ''eve'') = Inr True"
  by code_simp

text \<open>What is displayed: a direct grant hides an inherited one, which still counts.\<close>

definition example_shadowed :: perm_db where
  "example_shadowed = snd (set_grant example_perm_env ''monitored_table'' ''x'' ''77'' ''user'' None {PSelect} True None 23 (snd eve_joined))"

lemma inherited_grant_hidden:
  "map_sum id (map og_privileges \<circ> filter (\<lambda>g. og_principal g = ''77'')) (list_effective_grants example_perm_env example_shadowed ''monitored_table'' ''x'')
     = Inr [{PSelect}]
   \<and> has_privilege example_perm_env example_shadowed ''monitored_table'' ''x'' PModify RoleAuthor {''77''} None = Inr True"
  by (intro conjI; code_simp)

end
