(* ===== verification/Scheduler.thy ===== *)
theory Scheduler
  imports Cron Data_Products
begin

section \<open>Scheduled runs (\<open>backend/services/scheduler_service.py\<close>)\<close>

text \<open>
  Every minute the scheduler looks at the tables and table spaces that carry a cron expression and were
  approved once, and runs those that are due. What it remembers of a schedule is a row of
  \<open>dq_schedule_runs\<close>, its tracker. Instants are seconds. The runs in flight, as the Jobs API lists them,
  are given to each tick; whether a tracker is written, the members of a space are read and a profiling job is
  submitted are parameters. The refresh of scores, the sweeps of views and the schedules of the
  configuration screen are left out.
\<close>

subsection \<open>State\<close>

datatype tracker_status = TrackPending | TrackSuccess | TrackPartial | TrackFailed | TrackSkipped

record tracker =
  tk_last_run_at :: "int option"
  tk_next_run_at :: "int option"
  tk_last_run_id :: "string option"
  tk_status :: tracker_status
  tk_paused :: bool

text \<open>A run of the task runner that has not finished.\<close>

record task_run =
  tr_app_run_id :: string
  tr_task_type :: string
  tr_table :: "string option"
  tr_is_preview :: bool
  tr_started :: "int option"

record sched_db =
  sc_pd :: product_db
  sc_trackers :: "(string, tracker) dict"
  sc_foreign :: "(string, int) dict"

record sched_env =
  se_product :: product_env
  se_zones :: zone_database
  se_tracker_ok :: "string \<Rightarrow> tracker \<Rightarrow> bool"
  se_members_ok :: "string \<Rightarrow> bool"
  se_profile_ok :: "string \<Rightarrow> string \<Rightarrow> string \<Rightarrow> bool"

datatype sched_error = BadScheduleName string | TrackerFailed

definition failure_backoff :: int where
  "failure_backoff = 3600"

definition in_flight_max_age :: int where
  "in_flight_max_age = 4 * 3600"

definition foreign_overlap_grace :: int where
  "foreign_overlap_grace = 120"

definition dq_overlap_task_types :: "string list" where
  "dq_overlap_task_types = [''dryrun'', ''scheduled'']"

definition kinds_with_dq :: "schedule_kind set" where
  "kinds_with_dq = {DqOnly, ProfilingAndDq}"

definition kinds_with_profiling :: "schedule_kind set" where
  "kinds_with_profiling = {ProfilingOnly, ProfilingAndDq}"

definition parse_schedule_sample_size :: "int option \<Rightarrow> int option" where
  "parse_schedule_sample_size v = (case v of None \<Rightarrow> None | Some n \<Rightarrow> if 0 < n then Some n else None)"

definition parse_tracker_run_ids :: "string option \<Rightarrow> string set" where
  "parse_tracker_run_ids ids = (case ids of None \<Rightarrow> {}
   | Some s \<Rightarrow> if py_strip s = [] then {} else set (filter (\<lambda>p. p \<noteq> []) (map py_strip (py_split CHR '','' s))))"

text \<open>\<open>s.casefold()\<close> for characters below 256. The micro sign, which becomes a Greek letter, stays as it is: casefolded
  names are only compared, and no other character below 256 becomes that letter.\<close>

definition py_casefold :: "string \<Rightarrow> string" where
  "py_casefold s = concat (map (\<lambda>c. if of_char c = (223 :: nat) then ''ss'' else [py_lower_char c]) s)"

subsection \<open>Trackers\<close>

definition get_tracker :: "string \<Rightarrow> sched_db \<Rightarrow> sched_error + tracker option" where
  "get_tracker name db = (if \<not> validate_schedule_name name then Inl (BadScheduleName name) else Inr (dict_get (sc_trackers db) name))"

definition upsert_tracker ::
    "sched_env \<Rightarrow> string \<Rightarrow> int option \<Rightarrow> int option \<Rightarrow> string option \<Rightarrow> tracker_status \<Rightarrow> sched_db \<Rightarrow> (sched_error + unit) \<times> sched_db" where
  "upsert_tracker se name last_run next_run last_id status db =
     (let t = \<lparr>tk_last_run_at = last_run, tk_next_run_at = next_run, tk_last_run_id = last_id, tk_status = status,
            tk_paused = (case dict_get (sc_trackers db) name of None \<Rightarrow> False | Some t \<Rightarrow> tk_paused t)\<rparr>
      in if \<not> validate_schedule_name name then (Inl (BadScheduleName name), db)
         else if \<not> se_tracker_ok se name t then (Inl TrackerFailed, db)
         else (Inr (), db\<lparr>sc_trackers := dict_set (sc_trackers db) name t\<rparr>))"

definition next_occurrence :: "sched_env \<Rightarrow> string \<Rightarrow> string option \<Rightarrow> int \<Rightarrow> cron_error + int" where
  "next_occurrence se expr tz after = compute_next_cron_run (se_zones se) expr after tz"

definition next_or_backoff :: "sched_env \<Rightarrow> string \<Rightarrow> string option \<Rightarrow> int \<Rightarrow> int" where
  "next_or_backoff se expr tz now = (case next_occurrence se expr tz now of Inl e \<Rightarrow> now + failure_backoff | Inr n \<Rightarrow> n)"

text \<open>A future occurrence is derived again from the expression as it is now.\<close>

definition realign_next_run ::
    "sched_env \<Rightarrow> string \<Rightarrow> tracker \<Rightarrow> int \<Rightarrow> string \<Rightarrow> string option \<Rightarrow> int \<Rightarrow> sched_db \<Rightarrow> (sched_error + int) \<times> sched_db" where
  "realign_next_run se name t next_run expr tz now db =
     (if next_run \<le> now then (Inr next_run, db)
      else (case next_occurrence se expr tz (or_else (tk_last_run_at t) (now - 1)) of
        Inl e \<Rightarrow> (Inr next_run, db)
      | Inr expected \<Rightarrow>
          if next_run = expected then (Inr next_run, db)
          else (case upsert_tracker se name (tk_last_run_at t) (Some expected) (tk_last_run_id t) (tk_status t) db of
            (Inl e, db) \<Rightarrow> (Inl e, db) | (Inr _, db) \<Rightarrow> (Inr expected, db))))"

text \<open>The occurrence to look at: a schedule without one is given one.\<close>

definition due_occurrence ::
    "sched_env \<Rightarrow> string \<Rightarrow> tracker option \<Rightarrow> string \<Rightarrow> string option \<Rightarrow> int \<Rightarrow> sched_db \<Rightarrow> (sched_error + int option) \<times> sched_db" where
  "due_occurrence se name t expr tz now db = (case Option.bind t tk_next_run_at of
     None \<Rightarrow>
       (let last_run = Option.bind t tk_last_run_at; last_id = Option.bind t tk_last_run_id in
        case next_occurrence se expr tz (now - 1) of
          Inl e \<Rightarrow> (case upsert_tracker se name last_run (Some (now + failure_backoff)) last_id TrackPending db of
            (Inl e, db) \<Rightarrow> (Inl e, db) | (Inr _, db) \<Rightarrow> (Inr None, db))
        | Inr computed \<Rightarrow> (case upsert_tracker se name last_run (Some computed) last_id TrackPending db of
            (Inl e, db) \<Rightarrow> (Inl e, db) | (Inr _, db) \<Rightarrow> (Inr (if computed \<le> now then Some computed else None), db)))
   | Some next_run \<Rightarrow> (case realign_next_run se name (the t) next_run expr tz now db of
       (Inl e, db) \<Rightarrow> (Inl e, db)
     | (Inr n, db) \<Rightarrow> (Inr (if now < n then None else Some n), db)))"

subsection \<open>Overlapping runs\<close>

datatype overlap = Fire | Defer | Skip

definition stale_in_flight :: "int option \<Rightarrow> int \<Rightarrow> bool" where
  "stale_in_flight started now = (case started of None \<Rightarrow> False | Some s \<Rightarrow> in_flight_max_age < now - s)"

definition dq_run_covers_tables :: "task_run \<Rightarrow> string set \<Rightarrow> bool" where
  "dq_run_covers_tables run tables = (\<not> tr_is_preview run \<and> tr_task_type run \<in> set dq_overlap_task_types
     \<and> py_casefold (or_else (tr_table run) []) \<noteq> [] \<and> py_casefold (or_else (tr_table run) []) \<in> tables)"

text \<open>\<open>setdefault\<close> and \<open>pop\<close> on the instants at which foreign runs were first seen.\<close>

definition forget_foreign :: "string \<Rightarrow> sched_db \<Rightarrow> sched_db" where
  "forget_foreign name db = db\<lparr>sc_foreign := dict_pop (sc_foreign db) name\<rparr>"

definition overlap_decision ::
    "string \<Rightarrow> tracker option \<Rightarrow> string list \<Rightarrow> task_run list option \<Rightarrow> int \<Rightarrow> sched_db \<Rightarrow> overlap \<times> sched_db" where
  "overlap_decision name t fqns active now db =
     (let tables = set (map py_casefold (filter (\<lambda>f. f \<noteq> []) fqns));
          stored = parse_tracker_run_ids (Option.bind t tk_last_run_id);
          last_run = Option.bind t tk_last_run_at
      in case active of
        None \<Rightarrow> (if stored \<noteq> {} \<and> last_run \<noteq> None \<and> \<not> stale_in_flight last_run now then Skip else Fire, forget_foreign name db)
      | Some runs \<Rightarrow>
          (let live = filter (\<lambda>r. \<not> stale_in_flight (tr_started r) now) runs in
           if list_ex (\<lambda>r. tr_app_run_id r \<in> stored) live then (Skip, forget_foreign name db)
           else if \<not> list_ex (\<lambda>r. dq_run_covers_tables r tables) live then (Fire, forget_foreign name db)
           else (let first_seen = or_else (dict_get (sc_foreign db) name) now;
                     db = (if dict_get (sc_foreign db) name = None then db\<lparr>sc_foreign := dict_set (sc_foreign db) name now\<rparr> else db)
                 in if now - first_seen < foreign_overlap_grace then (Defer, db) else (Skip, forget_foreign name db))))"

definition record_skip :: "sched_env \<Rightarrow> string \<Rightarrow> int \<Rightarrow> tracker option \<Rightarrow> sched_db \<Rightarrow> sched_db" where
  "record_skip se name next_run t db =
     snd (upsert_tracker se name (Option.bind t tk_last_run_at) (Some next_run) (Option.bind t tk_last_run_id) TrackSkipped db)"

subsection \<open>Firing\<close>

text \<open>What a firing did: the runs it submitted, and whether something succeeded and something failed.\<close>

record firing =
  fi_ids :: "string list"
  fi_succeeded :: bool
  fi_failed :: bool

definition finish_firing ::
    "sched_env \<Rightarrow> string \<Rightarrow> string \<Rightarrow> string option \<Rightarrow> int \<Rightarrow> string \<Rightarrow> firing \<Rightarrow> sched_db \<Rightarrow> sched_db" where
  "finish_firing se name expr tz now run_id f db =
     snd (upsert_tracker se name (Some now) (Some (next_or_backoff se expr tz now))
       (Some (if fi_ids f \<noteq> [] then py_join '','' (sort (fi_ids f)) else run_id))
       (if \<not> fi_succeeded f \<and> fi_failed f then TrackFailed else if fi_failed f then TrackPartial else TrackSuccess) db)"

definition draw_sched_id :: "sched_env \<Rightarrow> sched_db \<Rightarrow> string \<times> sched_db" where
  "draw_sched_id se db = (let (i, pd) = draw_product_id (se_product se) (sc_pd db) in (i, db\<lparr>sc_pd := pd\<rparr>))"

definition submit_profile_run :: "sched_env \<Rightarrow> string \<Rightarrow> string \<Rightarrow> sched_db \<Rightarrow> string option \<times> sched_db" where
  "submit_profile_run se fqn user db = (let (run, db) = draw_sched_id se db in (if se_profile_ok se fqn user run then Some run else None, db))"

text \<open>One profiling run after the other.\<close>

fun profile_each :: "sched_env \<Rightarrow> string \<Rightarrow> string list \<Rightarrow> firing \<times> sched_db \<Rightarrow> firing \<times> sched_db" where
  "profile_each se user [] r = r"
| "profile_each se user (fqn # fqns) (f, db) =
     (case submit_profile_run se fqn user db of
        (Some run, db) \<Rightarrow> profile_each se user fqns (f\<lparr>fi_ids := fi_ids f @ [run], fi_succeeded := True\<rparr>, db)
      | (None, db) \<Rightarrow> profile_each se user fqns (f\<lparr>fi_failed := True\<rparr>, db))"

text \<open>A due schedule: \<open>fire\<close> launches its runs.\<close>

datatype tick_result = NotDue | Waiting | Skipped | Fired firing

definition tick_schedule ::
    "sched_env \<Rightarrow> string \<Rightarrow> string \<Rightarrow> string option \<Rightarrow> (sched_db \<Rightarrow> string list) \<Rightarrow> (sched_db \<Rightarrow> firing \<times> sched_db)
     \<Rightarrow> task_run list option \<Rightarrow> int \<Rightarrow> sched_db \<Rightarrow> (sched_error + tick_result) \<times> sched_db" where
  "tick_schedule se name expr tz tables fire active now db = (case get_tracker name db of
     Inl e \<Rightarrow> (Inl e, db)
   | Inr t \<Rightarrow>
       if (case t of None \<Rightarrow> False | Some t \<Rightarrow> tk_paused t) then (Inr NotDue, db)
       else (case due_occurrence se name t expr tz now db of
         (Inl e, db) \<Rightarrow> (Inl e, db)
       | (Inr None, db) \<Rightarrow> (Inr NotDue, db)
       | (Inr (Some n), db) \<Rightarrow> (case overlap_decision name t (tables db) active now db of
           (Defer, db) \<Rightarrow> (Inr Waiting, db)
         | (Skip, db) \<Rightarrow> (Inr Skipped, record_skip se name (next_or_backoff se expr tz now) t db)
         | (Fire, db) \<Rightarrow>
             (let (run_id, db) = draw_sched_id se db; (f, db) = fire db
              in (Inr (Fired f), finish_firing se name expr tz now run_id f db)))))"

subsection \<open>Tables and table spaces\<close>

definition table_schedule_name :: "string \<Rightarrow> string" where
  "table_schedule_name bid = ''table:'' @ bid"

definition product_schedule_name :: "string \<Rightarrow> string" where
  "product_schedule_name pid = ''product:'' @ pid"

definition scheduled_request :: "int option \<Rightarrow> run_request" where
  "scheduled_request sample = \<lparr>rn_source = RunApproved, rn_version = None, rn_user = ''scheduler'', rn_trigger = RunScheduled,
     rn_set = None, rn_rules = None, rn_sample = sample\<rparr>"

definition fire_table :: "sched_env \<Rightarrow> monitored_table \<Rightarrow> int \<Rightarrow> sched_db \<Rightarrow> firing \<times> sched_db" where
  "fire_table se t now db =
     (let f = \<lparr>fi_ids = [], fi_succeeded = False, fi_failed = False\<rparr>;
          (f, db) = (if mt_kind t \<in> kinds_with_dq
            then (case run_binding (pe_run (se_product se)) (mt_id t) (scheduled_request (parse_schedule_sample_size (mt_sample_size t))) now
                (run_db.truncate (sc_pd db)) of
              (Inl e, rb) \<Rightarrow> (f\<lparr>fi_failed := True\<rparr>, db\<lparr>sc_pd := put_runs (sc_pd db) rb\<rparr>)
            | (Inr r, rb) \<Rightarrow> (f\<lparr>fi_ids := [rn_run r], fi_succeeded := True\<rparr>, db\<lparr>sc_pd := put_runs (sc_pd db) rb\<rparr>))
            else (f, db))
      in if mt_kind t \<in> kinds_with_profiling
         then if mt_fqn t = [] then (f\<lparr>fi_failed := True\<rparr>, db)
              else profile_each se (''scheduler:'' @ table_schedule_name (mt_id t)) [mt_fqn t] (f, db)
         else (f, db))"

definition fire_product :: "sched_env \<Rightarrow> data_product \<Rightarrow> int \<Rightarrow> sched_db \<Rightarrow> firing \<times> sched_db" where
  "fire_product se p now db =
     (let f = \<lparr>fi_ids = [], fi_succeeded = False, fi_failed = False\<rparr>;
          (f, db) = (if dp_kind p \<in> kinds_with_dq
            then (case run_product (se_product se) (dp_id p) RunApproved ''scheduler'' RunScheduled
                (parse_schedule_sample_size (dp_sample_size p)) now (sc_pd db) of
              (Inl e, pd) \<Rightarrow> (f\<lparr>fi_failed := True\<rparr>, db\<lparr>sc_pd := pd\<rparr>)
            | (Inr (set_id, sent, skipped), pd) \<Rightarrow>
                (f\<lparr>fi_ids := map mr_run sent, fi_succeeded := True, fi_failed := (skipped \<noteq> [])\<rparr>, db\<lparr>sc_pd := pd\<rparr>))
            else (f, db))
      in if dp_kind p \<in> kinds_with_profiling
         then if \<not> se_members_ok se (dp_id p) then (f\<lparr>fi_failed := True\<rparr>, db)
              else profile_each se (''scheduler:'' @ product_schedule_name (dp_id p)) (member_table_fqns (sc_pd db) (dp_id p)) (f, db)
         else (f, db))"

definition load_scheduled_tables :: "sched_db \<Rightarrow> monitored_table list" where
  "load_scheduled_tables db = filter (\<lambda>t. or_else (mt_cron t) [] \<noteq> [] \<and> 0 < mt_version t \<and> mt_id t \<noteq> []) (ad_tables (rb_app (sc_pd db)))"

definition load_scheduled_products :: "sched_db \<Rightarrow> data_product list" where
  "load_scheduled_products db = filter (\<lambda>p. or_else (dp_cron p) [] \<noteq> [] \<and> 0 < dp_version p \<and> dp_id p \<noteq> []) (pd_products (sc_pd db))"

definition tick_one_table :: "sched_env \<Rightarrow> task_run list option \<Rightarrow> int \<Rightarrow> monitored_table \<Rightarrow> sched_db \<Rightarrow> (sched_error + tick_result) \<times> sched_db" where
  "tick_one_table se active now t = tick_schedule se (table_schedule_name (mt_id t)) (the (mt_cron t)) (mt_tz t)
     (\<lambda>db. [mt_fqn t]) (fire_table se t now) active now"

definition tick_one_product :: "sched_env \<Rightarrow> task_run list option \<Rightarrow> int \<Rightarrow> data_product \<Rightarrow> sched_db \<Rightarrow> (sched_error + tick_result) \<times> sched_db" where
  "tick_one_product se active now p = tick_schedule se (product_schedule_name (dp_id p)) (the (dp_cron p)) (dp_tz p)
     (\<lambda>db. if se_members_ok se (dp_id p) then member_table_fqns (sc_pd db) (dp_id p) else []) (fire_product se p now) active now"

text \<open>A failure of one schedule leaves the others alone. The result is the number of schedules.\<close>

definition tick_monitored_tables :: "sched_env \<Rightarrow> task_run list option \<Rightarrow> int \<Rightarrow> sched_db \<Rightarrow> nat \<times> sched_db" where
  "tick_monitored_tables se active now db = (length (load_scheduled_tables db),
     fold (\<lambda>t db. snd (tick_one_table se active now t db)) (load_scheduled_tables db) db)"

definition tick_products :: "sched_env \<Rightarrow> task_run list option \<Rightarrow> int \<Rightarrow> sched_db \<Rightarrow> nat \<times> sched_db" where
  "tick_products se active now db = (length (load_scheduled_products db),
     fold (\<lambda>p db. snd (tick_one_product se active now p db)) (load_scheduled_products db) db)"

end
