(* ===== verification/Scheduler_Laws.thy ===== *)
theory Scheduler_Laws
  imports Scheduler Data_Products_Laws Cron_Search
begin

section \<open>Laws of scheduled runs\<close>

text \<open>
  Between two firings of a schedule lies an occurrence of its expression, and a due schedule without overlap
  fires. A skipped firing is not skipped for good.
\<close>

subsection \<open>What a tick does to the tracker of its schedule\<close>

abbreviation tracker_of :: "string \<Rightarrow> sched_db \<Rightarrow> tracker option" where
  "tracker_of name db \<equiv> dict_get (sc_trackers db) name"

lemma upsert_writes:
  assumes "validate_schedule_name name" "\<And>t. se_tracker_ok se name t"
  shows "\<exists>paused. upsert_tracker se name last_run next_run last_id status db = (Inr (), db\<lparr>sc_trackers := dict_set (sc_trackers db) name
    \<lparr>tk_last_run_at = last_run, tk_next_run_at = next_run, tk_last_run_id = last_id, tk_status = status, tk_paused = paused\<rparr>\<rparr>)"
  by (rule exI [of _ "case tracker_of name db of None \<Rightarrow> False | Some t \<Rightarrow> tk_paused t"]) (simp add: upsert_tracker_def Let_def assms)

lemma overlap_trackers [simp]: "sc_trackers (snd (overlap_decision name t fqns active now db)) = sc_trackers db"
  by (auto simp: overlap_decision_def Let_def forget_foreign_def split: option.split)

lemma draw_sched_trackers [simp]: "sc_trackers (snd (draw_sched_id se db)) = sc_trackers db"
  by (simp add: draw_sched_id_def case_prod_beta Let_def)

lemma profile_each_trackers: "sc_trackers (snd (profile_each se user fqns (f, db))) = sc_trackers db"
  by (induction fqns arbitrary: f db)
    (auto simp: submit_profile_run_def case_prod_beta Let_def split: option.split prod.split)

lemma fire_table_trackers: "sc_trackers (snd (fire_table se t now db)) = sc_trackers db"
  by (auto simp: fire_table_def Let_def profile_each_trackers case_prod_beta split: sum.split prod.split simp del: profile_each.simps)

lemma fire_product_trackers: "sc_trackers (snd (fire_product se p now db)) = sc_trackers db"
  by (auto simp: fire_product_def Let_def profile_each_trackers case_prod_beta split: sum.split prod.split simp del: profile_each.simps)

text \<open>After a firing at \<open>prev\<close>, the next one is bound to come no earlier than \<open>due\<close>.\<close>

definition held_back :: "int \<Rightarrow> int \<Rightarrow> int \<Rightarrow> tracker \<Rightarrow> bool" where
  "held_back prev due now t \<longleftrightarrow> tk_last_run_at t = Some prev \<and> (due \<le> now \<or> (\<exists>n. tk_next_run_at t = Some n \<and> due \<le> n))"

lemma held_back_later: "held_back prev due now t \<Longrightarrow> now \<le> now' \<Longrightarrow> held_back prev due now' t"
  by (auto simp: held_back_def)

lemma due_held_back:
  assumes ok: "validate_schedule_name name" "\<And>t. se_tracker_ok se name t"
    and t: "tracker_of name db = Some t" "held_back prev (next_or_backoff se expr tz prev) now t"
    and run: "due_occurrence se name (Some t) expr tz now db = (r, db')"
  shows "\<exists>t'. tracker_of name db' = Some t' \<and> held_back prev (next_or_backoff se expr tz prev) now t'
    \<and> (\<forall>n. r = Inr (Some n) \<longrightarrow> next_or_backoff se expr tz prev \<le> now)"
proof (cases "tk_next_run_at t")
  case None
  then have past: "next_or_backoff se expr tz prev \<le> now" "tk_last_run_at t = Some prev" using t(2) by (auto simp: held_back_def)
  obtain l where "tracker_of name db' = Some l" "tk_last_run_at l = Some prev"
  proof (cases "next_occurrence se expr tz (now - 1)")
    case (Inl e)
    obtain paused where "upsert_tracker se name (Some prev) (Some (now + failure_backoff)) (tk_last_run_id t) TrackPending db = (Inr (),
        db\<lparr>sc_trackers := dict_set (sc_trackers db) name \<lparr>tk_last_run_at = Some prev, tk_next_run_at = Some (now + failure_backoff),
          tk_last_run_id = tk_last_run_id t, tk_status = TrackPending, tk_paused = paused\<rparr>\<rparr>)"
      using upsert_writes [where se = se, OF ok] by blast
    then show ?thesis using run None Inl past(2) that by (auto simp: due_occurrence_def)
  next
    case (Inr c)
    obtain paused where "upsert_tracker se name (Some prev) (Some c) (tk_last_run_id t) TrackPending db = (Inr (),
        db\<lparr>sc_trackers := dict_set (sc_trackers db) name \<lparr>tk_last_run_at = Some prev, tk_next_run_at = Some c,
          tk_last_run_id = tk_last_run_id t, tk_status = TrackPending, tk_paused = paused\<rparr>\<rparr>)"
      using upsert_writes [where se = se, OF ok] by blast
    then show ?thesis using run None Inr past(2) that by (auto simp: due_occurrence_def split: if_splits)
  qed
  then show ?thesis using past by (auto simp: held_back_def)
next
  case (Some n)
  have prev: "tk_last_run_at t = Some prev" using t(2) by (simp add: held_back_def)
  show ?thesis
  proof (cases "n \<le> now")
    case True
    then have "db' = db" using run Some by (auto simp: due_occurrence_def realign_next_run_def)
    moreover have "next_or_backoff se expr tz prev \<le> now" using t(2) True Some by (auto simp: held_back_def)
    ultimately show ?thesis using t by auto
  next
    case False
    show ?thesis
    proof (cases "next_occurrence se expr tz prev")
      case (Inl e)
      then show ?thesis using run Some False prev t by (auto simp: due_occurrence_def realign_next_run_def or_else_def)
    next
      case (Inr e)
      then have due: "next_or_backoff se expr tz prev = e" by (simp add: next_or_backoff_def)
      show ?thesis
      proof (cases "n = e")
        case True
        then show ?thesis using run Some False prev t Inr by (auto simp: due_occurrence_def realign_next_run_def or_else_def)
      next
        case other: False
        obtain paused where "upsert_tracker se name (Some prev) (Some e) (tk_last_run_id t) (tk_status t) db = (Inr (),
            db\<lparr>sc_trackers := dict_set (sc_trackers db) name \<lparr>tk_last_run_at = Some prev, tk_next_run_at = Some e,
              tk_last_run_id = tk_last_run_id t, tk_status = tk_status t, tk_paused = paused\<rparr>\<rparr>)"
          using upsert_writes [where se = se, OF ok] by blast
        then show ?thesis using run Some False prev Inr other
          by (auto simp: due_occurrence_def realign_next_run_def or_else_def due held_back_def split: if_splits)
      qed
    qed
  qed
qed

text \<open>A firing stamps its instant and the occurrence after it.\<close>

lemma fired_tracker:
  assumes "validate_schedule_name name" "\<And>t. se_tracker_ok se name t"
  shows "\<exists>t. tracker_of name (finish_firing se name expr tz now run_id f db) = Some t \<and> tk_last_run_at t = Some now
    \<and> tk_next_run_at t = Some (next_or_backoff se expr tz now)"
proof -
  obtain paused where "upsert_tracker se name (Some now) (Some (next_or_backoff se expr tz now))
       (Some (if fi_ids f \<noteq> [] then py_join '','' (sort (fi_ids f)) else run_id))
       (if \<not> fi_succeeded f \<and> fi_failed f then TrackFailed else if fi_failed f then TrackPartial else TrackSuccess) db
     = (Inr (), db\<lparr>sc_trackers := dict_set (sc_trackers db) name \<lparr>tk_last_run_at = Some now, tk_next_run_at = Some (next_or_backoff se expr tz now),
       tk_last_run_id = Some (if fi_ids f \<noteq> [] then py_join '','' (sort (fi_ids f)) else run_id),
       tk_status = (if \<not> fi_succeeded f \<and> fi_failed f then TrackFailed else if fi_failed f then TrackPartial else TrackSuccess), tk_paused = paused\<rparr>\<rparr>)"
    using upsert_writes [where se = se, OF assms] by blast
  then show ?thesis by (simp add: finish_firing_def)
qed

lemma skipped_tracker:
  assumes "validate_schedule_name name" "\<And>t. se_tracker_ok se name t"
  shows "\<exists>t'. tracker_of name (record_skip se name n t db) = Some t' \<and> tk_last_run_at t' = Option.bind t tk_last_run_at \<and> tk_next_run_at t' = Some n"
proof -
  obtain paused where "upsert_tracker se name (Option.bind t tk_last_run_at) (Some n) (Option.bind t tk_last_run_id) TrackSkipped db
     = (Inr (), db\<lparr>sc_trackers := dict_set (sc_trackers db) name \<lparr>tk_last_run_at = Option.bind t tk_last_run_at, tk_next_run_at = Some n,
       tk_last_run_id = Option.bind t tk_last_run_id, tk_status = TrackSkipped, tk_paused = paused\<rparr>\<rparr>)"
    using upsert_writes [where se = se, OF assms] by blast
  then show ?thesis by (simp add: record_skip_def)
qed

lemma tick_fired:
  assumes "\<And>t. se_tracker_ok se name t" "tick_schedule se name expr tz tables fire active now db = (Inr (Fired f), db')"
  shows "\<exists>t. tracker_of name db' = Some t \<and> tk_last_run_at t = Some now \<and> tk_next_run_at t = Some (next_or_backoff se expr tz now)"
proof -
  have valid: "validate_schedule_name name" using assms(2) by (auto simp: tick_schedule_def get_tracker_def split: if_splits)
  obtain run_id db1 where "db' = finish_firing se name expr tz now run_id f db1"
    using assms(2) by (auto simp: tick_schedule_def Let_def case_prod_beta split: sum.splits prod.splits option.splits overlap.splits if_splits)
  then show ?thesis using fired_tracker [where se = se, OF valid assms(1)] by simp
qed

lemma tick_held_back:
  assumes ok: "\<And>t. se_tracker_ok se name t" and t: "tracker_of name db = Some t" "held_back prev (next_or_backoff se expr tz prev) now t"
    and run: "tick_schedule se name expr tz tables fire active now db = (r, db')"
  shows "(\<exists>f. r = Inr (Fired f) \<and> next_or_backoff se expr tz prev \<le> now)
    \<or> ((\<forall>f. r \<noteq> Inr (Fired f)) \<and> (\<exists>t'. tracker_of name db' = Some t' \<and> held_back prev (next_or_backoff se expr tz prev) now t'))"
proof (cases "validate_schedule_name name \<and> \<not> tk_paused t")
  case False
  then have "(r, db') = (Inl (BadScheduleName name), db) \<or> (r, db') = (Inr NotDue, db)"
    using run t(1) by (auto simp: tick_schedule_def get_tracker_def split: if_splits)
  then show ?thesis using t by auto
next
  case True
  then have valid: "validate_schedule_name name" by simp
  obtain d db1 where due: "due_occurrence se name (Some t) expr tz now db = (d, db1)" by fastforce
  obtain t1 where t1: "tracker_of name db1 = Some t1" "held_back prev (next_or_backoff se expr tz prev) now t1"
    and past: "\<And>n. d = Inr (Some n) \<Longrightarrow> next_or_backoff se expr tz prev \<le> now"
    using due_held_back [where se = se, OF valid ok t due] by blast
  have tick: "(r, db') = (case (d, db1) of
         (Inl e, db) \<Rightarrow> (Inl e, db)
       | (Inr None, db) \<Rightarrow> (Inr NotDue, db)
       | (Inr (Some n), db) \<Rightarrow> (case overlap_decision name (Some t) (tables db) active now db of
           (Defer, db) \<Rightarrow> (Inr Waiting, db)
         | (Skip, db) \<Rightarrow> (Inr Skipped, record_skip se name (next_or_backoff se expr tz now) (Some t) db)
         | (Fire, db) \<Rightarrow>
             (let (run_id, db) = draw_sched_id se db; (f, db) = fire db
              in (Inr (Fired f), finish_firing se name expr tz now run_id f db))))"
    using run t(1) True due by (simp add: tick_schedule_def get_tracker_def)
  show ?thesis
  proof (cases "\<exists>n. d = Inr (Some n)")
    case False
    then show ?thesis using tick t1 by (auto split: sum.splits option.splits)
  next
    case True
    then obtain n where n: "d = Inr (Some n)" by blast
    obtain v db2 where over: "overlap_decision name (Some t) (tables db1) active now db1 = (v, db2)" by fastforce
    then have trackers: "sc_trackers db2 = sc_trackers db1" using overlap_trackers [of name "Some t" "tables db1" active now db1] by simp
    show ?thesis
    proof (cases v)
      case Fire
      then have "\<exists>f. r = Inr (Fired f)" using tick n over by (simp add: case_prod_beta Let_def)
      then show ?thesis using past [OF n] by blast
    next
      case Defer
      then show ?thesis using tick n over t1 trackers by auto
    next
      case Skip
      then have db': "r = Inr Skipped" "db' = record_skip se name (next_or_backoff se expr tz now) (Some t) db2" using tick n over by auto
      obtain t2 where "tracker_of name db' = Some t2" "tk_last_run_at t2 = Some prev"
        using skipped_tracker [where se = se, OF valid ok, of "next_or_backoff se expr tz now" "Some t" db2] t(2) db' by (auto simp: held_back_def)
      then show ?thesis using db'(1) past [OF n] by (auto simp: held_back_def)
    qed
  qed
qed

subsection \<open>A schedule over time\<close>

datatype scheduled = TableSchedule monitored_table | SpaceSchedule data_product

fun schedule_name :: "scheduled \<Rightarrow> string" where
  "schedule_name (TableSchedule t) = table_schedule_name (mt_id t)"
| "schedule_name (SpaceSchedule p) = product_schedule_name (dp_id p)"

fun schedule_cron :: "scheduled \<Rightarrow> string \<times> string option" where
  "schedule_cron (TableSchedule t) = (the (mt_cron t), mt_tz t)"
| "schedule_cron (SpaceSchedule p) = (the (dp_cron p), dp_tz p)"

fun tick_scheduled :: "sched_env \<Rightarrow> task_run list option \<Rightarrow> int \<Rightarrow> scheduled \<Rightarrow> sched_db \<Rightarrow> (sched_error + tick_result) \<times> sched_db" where
  "tick_scheduled se active now (TableSchedule t) db = tick_one_table se active now t db"
| "tick_scheduled se active now (SpaceSchedule p) db = tick_one_product se active now p db"

text \<open>
  A turn: the rest of the application has changed the tables and spaces, somebody may have paused the
  schedule, other schedules have left their traces, and then the tick comes, with the runs in flight.
\<close>

record sched_turn =
  sv_studio :: product_db
  sv_foreign :: "(string, int) dict"
  sv_paused :: bool
  sv_active :: "task_run list option"
  sv_now :: int
  sv_what :: scheduled

definition turn_edit :: "sched_turn \<Rightarrow> sched_db \<Rightarrow> sched_db" where
  "turn_edit v db = db\<lparr>sc_pd := sv_studio v, sc_foreign := sv_foreign v,
     sc_trackers := (case tracker_of (schedule_name (sv_what v)) db of None \<Rightarrow> sc_trackers db
       | Some t \<Rightarrow> dict_set (sc_trackers db) (schedule_name (sv_what v)) (t\<lparr>tk_paused := sv_paused v\<rparr>))\<rparr>"

definition sched_step :: "sched_env \<Rightarrow> sched_turn \<Rightarrow> sched_db \<Rightarrow> (sched_error + tick_result) \<times> sched_db" where
  "sched_step se v db = tick_scheduled se (sv_active v) (sv_now v) (sv_what v) (turn_edit v db)"

text \<open>The instants at which a sequence of turns fires.\<close>

fun firings :: "sched_env \<Rightarrow> sched_turn list \<Rightarrow> sched_db \<Rightarrow> int list" where
  "firings se [] db = []"
| "firings se (v # vs) db = (case sched_step se v db of
     (Inr (Fired f), db) \<Rightarrow> sv_now v # firings se vs db | (_, db) \<Rightarrow> firings se vs db)"

lemma sched_step_tick: "\<exists>tables fire. sched_step se v db = tick_schedule se (schedule_name (sv_what v)) (fst (schedule_cron (sv_what v)))
    (snd (schedule_cron (sv_what v))) tables fire (sv_active v) (sv_now v) (turn_edit v db)"
  by (cases "sv_what v") (auto simp: sched_step_def tick_one_table_def tick_one_product_def)

lemma turn_edit_held_back:
  "tracker_of (schedule_name (sv_what v)) db = Some t \<Longrightarrow> held_back prev due now t
   \<Longrightarrow> \<exists>t'. tracker_of (schedule_name (sv_what v)) (turn_edit v db) = Some t' \<and> held_back prev due now t'"
  by (simp add: turn_edit_def held_back_def)

lemma firings_from:
  assumes "\<And>t. se_tracker_ok se name t" "\<And>v. v \<in> set vs \<Longrightarrow> schedule_name (sv_what v) = name \<and> schedule_cron (sv_what v) = (expr, tz)"
    "sorted (now # map sv_now vs)" "tracker_of name db = Some t" "held_back prev (next_or_backoff se expr tz prev) now t"
  shows "successively (\<lambda>a b. next_or_backoff se expr tz a \<le> b) (prev # firings se vs db)"
  using assms(2-5)
proof (induction vs arbitrary: now prev db t)
  case (Cons v vs)
  have v: "schedule_name (sv_what v) = name" "schedule_cron (sv_what v) = (expr, tz)" using Cons.prems(1) [of v] by simp_all
  have later: "now \<le> sv_now v" "sorted (sv_now v # map sv_now vs)" using Cons.prems(2) by simp_all
  obtain t1 where t1: "tracker_of name (turn_edit v db) = Some t1" "held_back prev (next_or_backoff se expr tz prev) (sv_now v) t1"
    using turn_edit_held_back [OF Cons.prems(3) [folded v(1)] held_back_later [OF Cons.prems(4) later(1)]] unfolding v(1) by blast
  obtain tables fire where tick: "sched_step se v db = tick_schedule se name expr tz tables fire (sv_active v) (sv_now v) (turn_edit v db)"
    using sched_step_tick [of se v db] v by auto
  obtain r db' where step: "sched_step se v db = (r, db')" by fastforce
  have IH: "successively (\<lambda>a b. next_or_backoff se expr tz a \<le> b) (p # firings se vs db')"
    if "tracker_of name db' = Some t'" "held_back p (next_or_backoff se expr tz p) (sv_now v) t'" for p t'
    using Cons.IH [OF _ later(2) that] Cons.prems(1) by simp
  from tick_held_back [where se = se, OF assms(1) t1 tick [symmetric, unfolded step]] show ?case
  proof (elim disjE exE conjE)
    fix f assume fired: "r = Inr (Fired f)" "next_or_backoff se expr tz prev \<le> sv_now v"
    obtain t2 where "tracker_of name db' = Some t2" "tk_last_run_at t2 = Some (sv_now v)"
      "tk_next_run_at t2 = Some (next_or_backoff se expr tz (sv_now v))"
      using tick_fired [where se = se, OF assms(1) tick [symmetric, unfolded step fired(1)]] by blast
    then have "successively (\<lambda>a b. next_or_backoff se expr tz a \<le> b) (sv_now v # firings se vs db')"
      by (intro IH) (auto simp: held_back_def)
    then show ?thesis using fired step by simp
  next
    fix t' assume quiet: "\<forall>f. r \<noteq> Inr (Fired f)" "tracker_of name db' = Some t'" "held_back prev (next_or_backoff se expr tz prev) (sv_now v) t'"
    then have "firings se (v # vs) db = firings se vs db'" using step by (auto split: sum.split tick_result.split)
    then show ?thesis using IH [OF quiet(2,3)] by simp
  qed
qed simp


text \<open>A due schedule that nothing overlaps fires, and moves on.\<close>

lemma no_overlap_fires:
  assumes "active = Some runs" "\<forall>r \<in> set runs. stale_in_flight (tr_started r) now \<or> (tr_app_run_id r \<notin> parse_tracker_run_ids (Option.bind t tk_last_run_id)
      \<and> \<not> dq_run_covers_tables r (set (map py_casefold (filter (\<lambda>f. f \<noteq> []) fqns))))"
  shows "overlap_decision name t fqns active now db = (Fire, forget_foreign name db)"
proof -
  have "\<not> list_ex (\<lambda>r. tr_app_run_id r \<in> parse_tracker_run_ids (Option.bind t tk_last_run_id)) (filter (\<lambda>r. \<not> stale_in_flight (tr_started r) now) runs)"
    "\<not> list_ex (\<lambda>r. dq_run_covers_tables r (set (map py_casefold (filter (\<lambda>f. f \<noteq> []) fqns)))) (filter (\<lambda>r. \<not> stale_in_flight (tr_started r) now) runs)"
    using assms(2) by (auto simp: list_ex_iff)
  then show ?thesis by (simp only: overlap_decision_def Let_def assms(1) option.case if_False not_True_eq_False simp_thms if_True)
qed

lemma tick_fires:
  assumes "validate_schedule_name name" "tracker_of name db = Some t" "\<not> tk_paused t"
    "due_occurrence se name (Some t) expr tz now db = (Inr (Some n), db1)"
    "overlap_decision name (Some t) (tables db1) active now db1 = (Fire, db2)"
  shows "\<exists>f db'. tick_schedule se name expr tz tables fire active now db = (Inr (Fired f), db')"
  using assms by (simp add: tick_schedule_def get_tracker_def case_prod_beta Let_def)


subsection \<open>An example\<close>

text \<open>A calendar of one month, whose first midnight is the instant 0.\<close>

definition example_month :: zone where
  "example_month = \<lparr>zn_local = (\<lambda>s. \<lparr>wl_year = 2024, wl_month = 1, wl_day = 1 + s div 86400, wl_hour = s mod 86400 div 3600,
     wl_minute = s mod 3600 div 60\<rparr>), zn_utc = (\<lambda>w. (wl_day w - 1) * 86400 + wl_hour w * 3600 + wl_minute w * 60)\<rparr>"

definition example_sched_env :: sched_env where
  "example_sched_env = \<lparr>se_product = example_product_env, se_zones = \<lparr>zd_zone = (\<lambda>_. None), zd_utc = example_month\<rparr>,
     se_tracker_ok = (\<lambda>_ _. True), se_members_ok = (\<lambda>_. True), se_profile_ok = (\<lambda>_ _ _. True)\<rparr>"

text \<open>An empty database, and the row of a table that is profiled every minute.\<close>

definition idle_studio :: product_db where
  "idle_studio = \<lparr>rb_app = \<lparr>ad_registry = \<lparr>db_rules = [], db_versions = [], db_history = [], db_seeded = []\<rparr>, ad_tables = [],
     ad_applied = [], ad_rows = [], ad_history = [], ad_suppressed = [], ad_versions = [], ad_drawn = 0\<rparr>, rb_runs = [], rb_sets = [],
     rb_members = [], rb_views = [], pd_products = [], pd_members = []\<rparr>"

definition example_minutely :: monitored_table where
  "example_minutely = \<lparr>mt_id = ''x'', mt_fqn = ''c.s.t'', mt_owner = None, mt_owner_display_name = None, mt_status = TableApproved,
     mt_version = 1, mt_cron = Some ''* * * * *'', mt_tz = None, mt_kind = ProfilingOnly, mt_sample_size = None, mt_pending_rationale = None,
     mt_last_decision_rationale = None, mt_created_by = None, mt_updated_by = None, mt_updated_at = 0\<rparr>"

definition example_sched :: sched_db where
  "example_sched = \<lparr>sc_pd = idle_studio, sc_trackers = [], sc_foreign = []\<rparr>"

definition example_turn :: "int \<Rightarrow> task_run list option \<Rightarrow> sched_turn" where
  "example_turn now active = \<lparr>sv_studio = idle_studio, sv_foreign = [], sv_paused = False, sv_active = active, sv_now = now,
     sv_what = TableSchedule example_minutely\<rparr>"

lemma example_schedule: "schedule_name (TableSchedule example_minutely) = ''table:x'' \<and> schedule_cron (TableSchedule example_minutely) = (''* * * * *'', None)"
  by code_simp

text \<open>The occurrences the example needs, by one turn of the search.\<close>

definition every_minute :: cron_fields where
  "every_minute = \<lparr>cf_minutes = [0..59], cf_hours = [0..23], cf_doms = [1..31], cf_months = [1..12],
     cf_dows = map (\<lambda>v. if v = 7 then 0 else v) [0..7], cf_dom_wild = True, cf_dow_wild = True\<rparr>"

lemma parse_every_minute: "parse_cron ''* * * * *'' = Some every_minute"
  by code_simp

lemma every_minute_next:
  assumes "cron_search 1 every_minute (next_minute (zn_local example_month s)) = Some w"
  shows "next_occurrence example_sched_env ''* * * * *'' None s = Inr (zn_utc example_month w)"
proof -
  have "cron_search cron_max_steps every_minute (next_minute (zn_local example_month s)) = Some w"
    by (rule cron_search_fuel [OF assms]) (simp add: cron_max_steps_def)
  then show ?thesis
    by (simp add: next_occurrence_def compute_next_cron_run_def parse_every_minute example_sched_env_def resolve_zone_def)
qed

lemma every_minute_runs:
  "next_occurrence example_sched_env ''* * * * *'' None 59 = Inr 60" "next_occurrence example_sched_env ''* * * * *'' None 60 = Inr 120"
  "next_occurrence example_sched_env ''* * * * *'' None 120 = Inr 180" "next_occurrence example_sched_env ''* * * * *'' None 150 = Inr 180"
proof -
  have "cron_search 1 every_minute (next_minute (zn_local example_month 59)) = Some \<lparr>wl_year = 2024, wl_month = 1, wl_day = 1, wl_hour = 0, wl_minute = 1\<rparr>"
    "cron_search 1 every_minute (next_minute (zn_local example_month 60)) = Some \<lparr>wl_year = 2024, wl_month = 1, wl_day = 1, wl_hour = 0, wl_minute = 2\<rparr>"
    "cron_search 1 every_minute (next_minute (zn_local example_month 120)) = Some \<lparr>wl_year = 2024, wl_month = 1, wl_day = 1, wl_hour = 0, wl_minute = 3\<rparr>"
    "cron_search 1 every_minute (next_minute (zn_local example_month 150)) = Some \<lparr>wl_year = 2024, wl_month = 1, wl_day = 1, wl_hour = 0, wl_minute = 3\<rparr>"
    by (simp_all add: every_minute_def example_month_def next_minute_def cron_step_def day_ok_def)
  from every_minute_next [OF this(1)] every_minute_next [OF this(2)] every_minute_next [OF this(3)] every_minute_next [OF this(4)]
  show "next_occurrence example_sched_env ''* * * * *'' None 59 = Inr 60" "next_occurrence example_sched_env ''* * * * *'' None 60 = Inr 120"
    "next_occurrence example_sched_env ''* * * * *'' None 120 = Inr 180" "next_occurrence example_sched_env ''* * * * *'' None 150 = Inr 180"
    by (simp_all add: example_month_def)
qed

lemma example_name: "validate_schedule_name ''table:x''"
  by code_simp

lemma example_fire: "\<exists>db'. fire_table example_sched_env example_minutely now db
    = (\<lparr>fi_ids = [replicate (Suc (ad_drawn (rb_app (sc_pd db)))) CHR ''x''], fi_succeeded = True, fi_failed = False\<rparr>, db') \<and> sc_trackers db' = sc_trackers db"
  by (simp add: fire_table_def example_minutely_def kinds_with_dq_def kinds_with_profiling_def submit_profile_run_def draw_sched_id_def
      draw_product_id_def draw_id_def example_sched_env_def example_product_env_def example_run_env_def example_app_env_def Let_def)

definition example_tracker :: "int option \<Rightarrow> int \<Rightarrow> tracker_status \<Rightarrow> (string, tracker) dict" where
  "example_tracker prev n status = [(''table:x'', \<lparr>tk_last_run_at = prev, tk_next_run_at = Some n, tk_last_run_id = map_option (\<lambda>_. ''xx'') prev,
     tk_status = status, tk_paused = False\<rparr>)]"

lemma example_turn_step: "sched_step example_sched_env (example_turn now active) db = tick_schedule example_sched_env ''table:x'' ''* * * * *'' None
    (\<lambda>db. [''c.s.t'']) (fire_table example_sched_env example_minutely now) active now (turn_edit (example_turn now active) db)"
  by (simp add: sched_step_def example_turn_def tick_one_table_def table_schedule_name_def) (simp add: example_minutely_def)

lemma example_turn_now: "sv_now (example_turn now active) = now"
  by (simp add: example_turn_def)

lemma example_edit:
  "sc_trackers db = example_tracker prev n status \<Longrightarrow> sc_trackers (turn_edit (example_turn now active) db) = example_tracker prev n status"
  "sc_trackers db = [] \<Longrightarrow> sc_trackers (turn_edit (example_turn now active) db) = []"
  "sc_pd (turn_edit (example_turn now active) db) = idle_studio" "sc_foreign (turn_edit (example_turn now active) db) = []"
  by (simp_all add: turn_edit_def example_turn_def example_tracker_def table_schedule_name_def example_minutely_def)

text \<open>What one firing leaves behind.\<close>

lemma example_fired:
  assumes "due_occurrence example_sched_env ''table:x'' t ''* * * * *'' None now db = (Inr (Some n), db1)" "tracker_of ''table:x'' db = t"
    "t = None \<or> \<not> tk_paused (the t)" "sc_pd db1 = idle_studio" "sc_trackers db1 = example_tracker prev m status"
    "next_or_backoff example_sched_env ''* * * * *'' None now = k"
  shows "\<exists>f db'. tick_schedule example_sched_env ''table:x'' ''* * * * *'' None (\<lambda>db. [''c.s.t'']) (fire_table example_sched_env example_minutely now)
      (Some []) now db = (Inr (Fired f), db') \<and> sc_trackers db' = example_tracker (Some now) k TrackSuccess"
proof -
  have over: "overlap_decision ''table:x'' t [''c.s.t''] (Some []) now db1 = (Fire, forget_foreign ''table:x'' db1)"
    by (rule no_overlap_fires [OF refl]) simp
  define db2 where "db2 = snd (draw_sched_id example_sched_env (forget_foreign ''table:x'' db1))"
  have db2: "ad_drawn (rb_app (sc_pd db2)) = 1" "sc_trackers db2 = example_tracker prev m status"
    using assms(4,5) by (simp_all add: db2_def draw_sched_id_def forget_foreign_def draw_product_id_def draw_id_def Let_def idle_studio_def)
  obtain db3 where fire: "fire_table example_sched_env example_minutely now db2 = (\<lparr>fi_ids = [''xx''], fi_succeeded = True, fi_failed = False\<rparr>, db3)"
    "sc_trackers db3 = example_tracker prev m status"
    using example_fire [of now db2] db2 by (auto simp: numeral_2_eq_2)
  have "tick_schedule example_sched_env ''table:x'' ''* * * * *'' None (\<lambda>db. [''c.s.t'']) (fire_table example_sched_env example_minutely now) (Some []) now db
      = (Inr (Fired \<lparr>fi_ids = [''xx''], fi_succeeded = True, fi_failed = False\<rparr>),
         finish_firing example_sched_env ''table:x'' ''* * * * *'' None now (fst (draw_sched_id example_sched_env (forget_foreign ''table:x'' db1)))
           \<lparr>fi_ids = [''xx''], fi_succeeded = True, fi_failed = False\<rparr> db3)"
    using assms(1-3) over fire(1)
    by (auto simp: tick_schedule_def get_tracker_def example_name Let_def case_prod_beta db2_def [symmetric] split: option.split)
  then show ?thesis
    using fire(2) assms(6) by (simp add: finish_firing_def upsert_tracker_def example_name example_sched_env_def example_tracker_def Let_def)
qed

lemma example_first: "\<exists>f db'. sched_step example_sched_env (example_turn 60 (Some [])) example_sched = (Inr (Fired f), db')
    \<and> sc_trackers db' = example_tracker (Some 60) 120 TrackSuccess"
  unfolding example_turn_step
proof (rule example_fired)
  let ?db = "turn_edit (example_turn 60 (Some [])) example_sched"
  have none: "sc_trackers ?db = []" by (rule example_edit(2)) (simp add: example_sched_def)
  then show "tracker_of ''table:x'' ?db = None" by simp
  show "due_occurrence example_sched_env ''table:x'' None ''* * * * *'' None 60 ?db = (Inr (Some 60), ?db\<lparr>sc_trackers := example_tracker None 60 TrackPending\<rparr>)"
    using none by (simp add: due_occurrence_def every_minute_runs upsert_tracker_def example_name example_tracker_def Let_def)
      (simp add: example_sched_env_def)
qed (simp_all add: example_edit next_or_backoff_def every_minute_runs)

lemma example_again:
  assumes "sc_trackers db = example_tracker (Some 60) 120 TrackSuccess"
  shows "\<exists>f db'. sched_step example_sched_env (example_turn 120 (Some [])) db = (Inr (Fired f), db')"
proof -
  let ?db = "turn_edit (example_turn 120 (Some [])) db"
  define t where "t = the (map_of (example_tracker (Some 60) 120 TrackSuccess) ''table:x'')"
  have t: "tracker_of ''table:x'' ?db = Some t" "\<not> tk_paused t" "tk_next_run_at t = Some 120"
    using example_edit(1) [OF assms] by (simp_all add: t_def example_tracker_def)
  have "due_occurrence example_sched_env ''table:x'' (Some t) ''* * * * *'' None 120 ?db = (Inr (Some 120), ?db)"
    using t(3) by (simp add: due_occurrence_def realign_next_run_def)
  moreover have "overlap_decision ''table:x'' (Some t) [''c.s.t''] (Some []) 120 ?db = (Fire, forget_foreign ''table:x'' ?db)"
    by (rule no_overlap_fires [OF refl]) simp
  ultimately show ?thesis unfolding example_turn_step using tick_fires [OF example_name t(1,2)] by simp
qed

lemma example_idle:
  assumes "sc_trackers db = example_tracker (Some 60) 120 TrackSuccess"
  shows "\<exists>db'. sched_step example_sched_env (example_turn 90 (Some [])) db = (Inr NotDue, db') \<and> sc_trackers db' = sc_trackers db"
  unfolding example_turn_step using example_edit(1) [OF assms, of 90 "Some []"] assms
  by (auto simp: tick_schedule_def get_tracker_def example_name example_tracker_def due_occurrence_def realign_next_run_def every_minute_runs or_else_def)

lemma example_skip:
  assumes "sc_trackers db = example_tracker (Some 60) 120 TrackSuccess"
  shows "\<exists>db'. sched_step example_sched_env (example_turn 120 None) db = (Inr Skipped, db') \<and> sc_trackers db' = example_tracker (Some 60) 180 TrackSkipped"
proof -
  have ids: "parse_tracker_run_ids (Some ''xx'') \<noteq> {}" by code_simp
  show ?thesis
    unfolding example_turn_step using example_edit(1) [OF assms, of 120 None] ids
    by (auto simp: tick_schedule_def get_tracker_def example_name example_tracker_def due_occurrence_def realign_next_run_def overlap_decision_def
        stale_in_flight_def in_flight_max_age_def record_skip_def upsert_tracker_def next_or_backoff_def every_minute_runs forget_foreign_def Let_def)
      (simp_all add: example_sched_env_def)
qed


definition example_due :: sched_db where
  "example_due = example_sched\<lparr>sc_trackers := [(''table:x'', \<lparr>tk_last_run_at = None, tk_next_run_at = Some 60, tk_last_run_id = None,
     tk_status = TrackPending, tk_paused = False\<rparr>)]\<rparr>"


text \<open>
  A skip is to wait for the next occurrence. But a tracker with a later occurrence is realigned from the instant of
  the last firing, which yields the skipped one again: one minute later, when the run in flight has ended,
  the schedule fires.
\<close>

lemma skip_undone:
  assumes "validate_schedule_name name" "\<And>t. se_tracker_ok se name t" "tracker_of name db = Some t" "\<not> tk_paused t"
    "tk_last_run_at t = Some prev" "tk_next_run_at t = Some n" "now < n" "next_occurrence se expr tz prev = Inr due" "due \<le> now"
  shows "\<exists>f db'. tick_schedule se name expr tz tables fire (Some []) now db = (Inr (Fired f), db')"
proof -
  obtain paused where "upsert_tracker se name (Some prev) (Some due) (tk_last_run_id t) (tk_status t) db = (Inr (),
      db\<lparr>sc_trackers := dict_set (sc_trackers db) name \<lparr>tk_last_run_at = Some prev, tk_next_run_at = Some due,
        tk_last_run_id = tk_last_run_id t, tk_status = tk_status t, tk_paused = paused\<rparr>\<rparr>)"
    using upsert_writes [where se = se, OF assms(1,2)] by blast
  then have "\<exists>db1. due_occurrence se name (Some t) expr tz now db = (Inr (Some due), db1)"
    using assms(5-9) by (auto simp: due_occurrence_def realign_next_run_def or_else_def)
  then obtain db1 where "due_occurrence se name (Some t) expr tz now db = (Inr (Some due), db1)" by blast
  from tick_fires [OF assms(1,3,4) this no_overlap_fires] show ?thesis by simp
qed

lemma skipped_firing_fires:
  "fst (sched_step example_sched_env (example_turn 120 None)
      (snd (sched_step example_sched_env (example_turn 60 (Some [])) example_sched))) = Inr Skipped
   \<and> firings example_sched_env [example_turn 60 (Some []), example_turn 120 None, example_turn 150 (Some [])] example_sched = [60, 150]"
proof -
  obtain f1 db1 where one: "sched_step example_sched_env (example_turn 60 (Some [])) example_sched = (Inr (Fired f1), db1)"
    "sc_trackers db1 = example_tracker (Some 60) 120 TrackSuccess" using example_first by blast
  obtain db2 where two: "sched_step example_sched_env (example_turn 120 None) db1 = (Inr Skipped, db2)"
    "sc_trackers db2 = example_tracker (Some 60) 180 TrackSkipped" using example_skip [OF one(2)] by blast
  have "\<exists>f db3. sched_step example_sched_env (example_turn 150 (Some [])) db2 = (Inr (Fired f), db3)"
    unfolding example_turn_step
    by (rule skip_undone [OF example_name, where t = "the (map_of (example_tracker (Some 60) 180 TrackSkipped) ''table:x'')" and due = 120 and prev = 60 and n = 180])
      (simp_all add: example_edit(1) [OF two(2)] every_minute_runs example_tracker_def, simp add: example_sched_env_def)
  then show ?thesis using one two by (auto simp: example_turn_now)
qed

end
