(* ===== verification/Spec2Isabelle.thy ===== *)
theory Spec2Isabelle
  imports Action_Evaluator Webhook_Delivery DQ_Rule SQL_Text Registry_Gate Registry_Race Materializer_Laws Cron_Search Check_Engine_Rows
    Tag_Reconcile Rules_Catalog_Laws Permissions_Laws Scheduler_Laws
begin

text \<open>
  A verification library for DQX: the checking library (\<open>src/src/databricks/labs/dqx\<close>, below \<open>dqx/\<close>) and
  the backend of DQX Studio (\<open>src/app/src/databricks_labs_dqx_app/backend\<close>, below \<open>backend/\<close>).

  \<^bold>\<open>How the program is put together.\<close> In the library a check, written as metadata, is validated, becomes
  a rule, and the engine applies the rules to a data frame: failed rules become entries of the columns
  of errors and warnings. After a run, configured actions look at the metrics through a condition and
  alert, or fail the pipeline; a store of past events keeps an alert from firing too often. In Studio a
  registry holds templates of rules, which are reviewed and frozen in versions. A published template is
  applied to the columns of a monitored table, by hand or because of its tags. The materializer renders
  the applications to the checks of the catalog, a table is reviewed with its checks, and approving it
  freezes the rule set. The scheduler runs the approved checks. Every SQL text on the way is scanned.

  \<^bold>\<open>Conventions.\<close> A class is a record, a tagged union a datatype, and an operation that raises is a sum
  whose left side is the error. State is passed explicitly, and an operation that raises returns the
  state it has reached, so what was written before the error stays. Dictionaries keep their order and
  are association lists; Python's integers are \<open>int\<close>, its binary64 floats are exact rationals with
  rounding (\<open>Py_Float\<close>). Text is a list of characters, and a JSON text stored in a column is the value
  itself. Time is an argument.

  \<^bold>\<open>Foundations.\<close>
  \<^item> \<open>DQX_Prelude\<close>: sums, ordered dictionaries, Python's string methods, and the collections of simplification
    rules that carry the proofs. \<open>Py_Text\<close>, \<open>Py_Float\<close>, \<open>Py_Value\<close>: parsing and printing integers, floats
    and their rounding, and the operators on built-in values.
  \<^item> \<open>SQL_Safety\<close> (\<open>dqx/utils.py\<close>): the scan \<open>is_sql_query_safe\<close> and the removal of line comments, with
    tokenisers whose termination is proved; what comments and literals can hide.
  \<^item> \<open>SQL_Text\<close> (\<open>backend/sql_utils.py\<close>): escaping, quoting and validating names and literals, with the readers
    they are inverse to.

  \<^bold>\<open>The checking library.\<close>
  \<^item> \<open>Check_Validator\<close> (\<open>checks_validator.py\<close>) and \<open>DQ_Rule\<close> (\<open>rule.py\<close>, \<open>checks_serializer.py\<close>): validation
    of metadata, the rules it stands for, and metadata written back.
  \<^item> \<open>Check_Manager\<close> (\<open>manager.py\<close>, \<open>executor.py\<close>) and \<open>Check_Engine\<close> (\<open>engine.py\<close>): one rule on a data frame, and
    a run of all. Spark columns are functions of a row, check functions a parameter. \<open>Check_Engine_Laws\<close>
    gives a run of row rules by a table of what each rule says of each row; \<open>Check_Engine_Rows\<close> shows that a
    run keeps the rows of its input, has the promised columns, and that splitting loses no row.
  \<^item> \<open>Action_Conditions\<close>, \<open>Condition_Safety\<close> (\<open>actions/conditions.py\<close>): the language of conditions, over the
    syntax trees of Python's parser, which is a parameter; which errors leave the evaluator.
  \<^item> \<open>Action_Base\<close>, \<open>Action_Alert\<close>, \<open>Action_Binding\<close>: the actions, their registry and serializer.
  \<^item> \<open>Action_State\<close> (\<open>state.py\<close>), \<open>Event_Store\<close> (\<open>event_storage.py\<close>): suppression of repeated alerts. The locale
    \<open>event_store\<close> is the contract of a persistent store; the Delta table and the Lakebase table are its
    two interpretations, and what the memory rebuilds after a restart is proved once, in the locale.
  \<^item> \<open>Action_Evaluator\<close> (\<open>evaluator.py\<close>): the loop over the configured actions.
  \<^item> \<open>Webhook_Delivery\<close> (\<open>delivery.py\<close>, \<open>secrets.py\<close>): the guard against internal hosts, retries, credentials.

  \<^bold>\<open>Studio.\<close>
  \<^item> \<open>Registry_Model\<close>, \<open>Registry_Service\<close> (\<open>registry_service.py\<close>): rules and their frozen versions.
    \<open>Registry_Lifecycle\<close> makes each operation a labelled step and proves invariants by induction on runs;
    \<open>Registry_Gate\<close> says what was scanned of what is served; \<open>Registry_Race\<close> interleaves approvals.
  \<^item> \<open>Rule_Render\<close>, \<open>Materializer\<close>, \<open>Materializer_Laws\<close> (\<open>materializer.py\<close>): rendering, and the rows it writes.
  \<^item> \<open>Monitored_Table\<close> (\<open>monitored_table_service.py\<close>) holds the tables of the application's database;
    \<open>Apply_Rules\<close>, \<open>Apply_Rules_Laws\<close> (\<open>apply_rules_service.py\<close>): applications, their invariant \<open>wf_applied\<close>, and
    the batch save. \<open>Tag_Reconcile\<close> (\<open>tag_mapping_service.py\<close>, \<open>tag_reconcile_service.py\<close>): the sweep.
  \<^item> \<open>Rules_Catalog\<close>, \<open>Rules_Catalog_Laws\<close> (\<open>rules_catalog_service.py\<close>): the checks, their review and audit trail.
  \<^item> \<open>Table_Versions\<close> (\<open>monitored_table_versions.py\<close>), \<open>Table_Review\<close>, \<open>Table_Review_Laws\<close>
    (\<open>routes/v1/monitored_tables.py\<close>): frozen versions, and the routes that compose the services above.
  \<^item> \<open>Table_Runs\<close> (\<open>binding_run_service.py\<close>, \<open>run_sets.py\<close>): the run of a table, and run sets.
  \<^item> \<open>Data_Products\<close> (\<open>data_product_service.py\<close>): table spaces. \<open>Review_Contract\<close> holds the locale
    \<open>reviewed_object\<close>, an object whose content only leaves draft by a submission that keeps it; in
    \<open>Data_Products_Laws\<close> a space is shown to be one, and its runs to account for every member.
  \<^item> \<open>Access_Roles\<close> (\<open>role_service.py\<close>): roles, and how stale the cached mappings may be. \<open>Permissions\<close>,
    \<open>Permissions_Laws\<close> (\<open>permissions_service.py\<close>): grants as an access matrix, and what no grant can give.
  \<^item> \<open>Cron\<close>, \<open>Cron_Search\<close> (\<open>scheduler_service.py\<close>): when a schedule runs next. \<open>Scheduler\<close>,
    \<open>Scheduler_Laws\<close>: the ticks over scheduled tables and spaces with their trackers and overlaps. A schedule
    fires at most once for each occurrence, and fires when it is due; a skipped firing is not skipped for good.

  \<^bold>\<open>Bounds.\<close> The search for the next run takes at most 100,000 steps, the bound of the code; \<open>Cron_Search\<close>
  shows that it is enough for every expression that names a day some month has. A webhook is posted at most
  as often as its configuration says. Lists the services read are cut off at 2,000 rows, as the code does.
  No other definition carries fuel: recursion is structural or its termination is proved.

  \<^bold>\<open>Not modelled.\<close> Spark, the databases and the HTTP client are parameters or lists. The check functions
  themselves (\<open>check_funcs.py\<close>, \<open>geo/\<close>, \<open>pii/\<close>, \<open>anomaly/\<close>) build Spark expressions, whose meaning is Spark's.
  The schedules of the configuration screen, the refresh of scores and the sweeps of the scheduler's loop,
  the profiler, the generators that call language models, the installer and the command line, the storage
  backends of checks, the user interface, request models and the routes that only pass a call on are left out:
  they are input and output around the parts above. The components of the manifest name each of them.
\<close>

end
